(* ===== verification/Gateway_Prelude.thy ===== *)
theory Gateway_Prelude
  imports Main "HOL-Library.Word"
begin

text \<open>
  The vocabulary every other theory of the development shares:
  \<^item> the Go values the sources use: 64-bit \<^verbatim>\<open>int\<close> arithmetic with its wrap-around,
    \<^verbatim>\<open>strings.TrimSpace\<close>, \<^verbatim>\<open>strings.HasPrefix\<close> / \<^verbatim>\<open>CutPrefix\<close>, hexadecimal encoding and
    the byte source behind \<^verbatim>\<open>crypto/rand\<close>;
  \<^item> the shape of a stream converter (one input event in, a list of output events and
    the new state out), its run over a whole stream, and monitors that judge the
    emitted stream;
  \<^item> the locales that carry the proofs of the converters: an emitter whose single
    steps a monitor accepts emits accepted streams, and an emitter whose single steps
    keep a projection in step with its input keeps it over a whole run.
\<close>

named_theorems conv_defs \<open>definitions of converter handlers, unfolded in handler proofs\<close>
named_theorems zero_defs \<open>Go zero values\<close>

section \<open>Go values\<close>

text \<open>Go strings and \<^verbatim>\<open>json.RawMessage\<close> are byte sequences; \<open>char\<close> is a byte.\<close>

type_synonym go_string = string
type_synonym raw_json = string

text \<open>
  \<^verbatim>\<open>int\<close> and \<^verbatim>\<open>int64\<close> are 64-bit two's complement. A sum or difference of token
  counts is written with \<open>wrap64\<close> around it, so the model overflows where Go does.
  Loop counters and block indices grow by at most two per event and are left as
  unbounded integers: they would need \<open>2 ^ 62\<close> events to wrap.
\<close>

definition wrap64 :: "int \<Rightarrow> int" where
  "wrap64 x = (x + 2 ^ 63) mod 2 ^ 64 - 2 ^ 63"

definition is_int64 :: "int \<Rightarrow> bool" where
  "is_int64 x \<longleftrightarrow> - (2 ^ 63) \<le> x \<and> x < 2 ^ 63"

lemma wrap64_id: "is_int64 x \<Longrightarrow> wrap64 x = x"
  by (simp add: wrap64_def is_int64_def)

lemma wrap64_range: "is_int64 (wrap64 x)"
proof -
  have "0 \<le> (x + 2 ^ 63) mod 2 ^ 64" and "(x + 2 ^ 63) mod 2 ^ 64 < 2 ^ 64"
    by simp_all
  then show ?thesis by (simp add: wrap64_def is_int64_def)
qed

lemma wrap64_sint: "wrap64 x = sint (word_of_int x :: 64 word)"
proof -
  have "sint (word_of_int x :: 64 word) = signed_take_bit 63 x"
    by (simp add: signed_of_int)
  also have "\<dots> = take_bit 64 (x + 2 ^ 63) - 2 ^ 63"
    by (simp add: signed_take_bit_eq_take_bit_shift)
  finally show ?thesis by (simp add: wrap64_def take_bit_eq_mod)
qed

section \<open>Strings\<close>

definition go_has_prefix :: "go_string \<Rightarrow> go_string \<Rightarrow> bool" where
  "go_has_prefix s p \<longleftrightarrow> take (length p) s = p"

definition go_cut_prefix :: "go_string \<Rightarrow> go_string \<Rightarrow> go_string option" where
  "go_cut_prefix s p = (if go_has_prefix s p then Some (drop (length p) s) else None)"

text \<open>
  \<^verbatim>\<open>strings.TrimSpace\<close> cuts every rune with the Unicode property White_Space from both
  ends. Each such rune has one UTF-8 encoding, so cutting runes is cutting these byte
  sequences.
\<close>

definition space_runes :: "go_string list" where
  "space_runes =
     [[CHR 0x09], [CHR 0x0A], [CHR 0x0B], [CHR 0x0C], [CHR 0x0D], [CHR 0x20],
      [CHR 0xC2, CHR 0x85], [CHR 0xC2, CHR 0xA0],
      [CHR 0xE1, CHR 0x9A, CHR 0x80],
      [CHR 0xE2, CHR 0x80, CHR 0x80], [CHR 0xE2, CHR 0x80, CHR 0x81],
      [CHR 0xE2, CHR 0x80, CHR 0x82], [CHR 0xE2, CHR 0x80, CHR 0x83],
      [CHR 0xE2, CHR 0x80, CHR 0x84], [CHR 0xE2, CHR 0x80, CHR 0x85],
      [CHR 0xE2, CHR 0x80, CHR 0x86], [CHR 0xE2, CHR 0x80, CHR 0x87],
      [CHR 0xE2, CHR 0x80, CHR 0x88], [CHR 0xE2, CHR 0x80, CHR 0x89],
      [CHR 0xE2, CHR 0x80, CHR 0x8A],
      [CHR 0xE2, CHR 0x80, CHR 0xA8], [CHR 0xE2, CHR 0x80, CHR 0xA9],
      [CHR 0xE2, CHR 0x80, CHR 0xAF], [CHR 0xE2, CHR 0x81, CHR 0x9F],
      [CHR 0xE3, CHR 0x80, CHR 0x80]]"

definition leading_space :: "go_string list \<Rightarrow> go_string \<Rightarrow> nat" where
  "leading_space rs s =
     (case filter (go_has_prefix s) rs of [] \<Rightarrow> 0 | r # _ \<Rightarrow> length r)"

function trim_left_with :: "go_string list \<Rightarrow> go_string \<Rightarrow> go_string" where
  "trim_left_with rs s =
     (if leading_space rs s = 0 \<or> s = [] then s
      else trim_left_with rs (drop (leading_space rs s) s))"
  by pat_completeness auto
termination
  by (relation "measure (\<lambda>(rs, s). length s)") auto

declare trim_left_with.simps [simp del]

definition go_trim_space :: "go_string \<Rightarrow> go_string" where
  "go_trim_space s =
     rev (trim_left_with (map rev space_runes)
       (rev (trim_left_with space_runes s)))"

lemma trim_left_with_suffix: "\<exists>us. s = us @ trim_left_with rs s"
proof (induction rs s rule: trim_left_with.induct)
  case (1 rs s)
  show ?case
  proof (cases "leading_space rs s = 0 \<or> s = []")
    case True
    then show ?thesis by (auto simp: trim_left_with.simps [of rs s])
  next
    case False
    then obtain us where
      "drop (leading_space rs s) s = us @ trim_left_with rs (drop (leading_space rs s) s)"
      using 1 by blast
    moreover have "trim_left_with rs s = trim_left_with rs (drop (leading_space rs s) s)"
      using False by (simp add: trim_left_with.simps [of rs s])
    ultimately have "s = (take (leading_space rs s) s @ us) @ trim_left_with rs s"
      by (metis append.assoc append_take_drop_id)
    then show ?thesis by blast
  qed
qed

lemma trim_left_with_fix: "leading_space rs (trim_left_with rs s) = 0 \<or> trim_left_with rs s = []"
proof (induction rs s rule: trim_left_with.induct)
  case (1 rs s)
  then show ?case
    by (cases "leading_space rs s = 0 \<or> s = []") (simp_all add: trim_left_with.simps [of rs s])
qed

lemma trim_left_with_idem: "trim_left_with rs (trim_left_with rs s) = trim_left_with rs s"
  by (subst trim_left_with.simps) (use trim_left_with_fix in auto)

lemma trim_left_with_Nil [simp]: "trim_left_with rs [] = []"
  by (simp add: trim_left_with.simps)

lemma go_trim_space_Nil [simp]: "go_trim_space [] = []"
  by (simp add: go_trim_space_def)

lemma leading_space_prefix:
  assumes "[] \<notin> set rs" and "leading_space rs (xs @ ys) = 0"
  shows "leading_space rs xs = 0"
proof -
  have "filter (go_has_prefix (xs @ ys)) rs = []"
    using assms by (auto simp: leading_space_def split: list.splits dest!: filter_eq_ConsD)
  then have "filter (go_has_prefix xs) rs = []"
    by (auto simp: filter_empty_conv go_has_prefix_def)
  then show ?thesis by (simp add: leading_space_def)
qed

lemma trim_left_with_stable: "leading_space rs s = 0 \<Longrightarrow> trim_left_with rs s = s"
  by (simp add: trim_left_with.simps [of rs s])

lemma trim_right_keeps_left:
  assumes "[] \<notin> set rs" and "leading_space rs s = 0 \<or> s = []"
  shows "trim_left_with rs (rev (trim_left_with qs (rev s))) = rev (trim_left_with qs (rev s))"
proof -
  obtain us where "rev s = us @ trim_left_with qs (rev s)" using trim_left_with_suffix by blast
  then have "s = rev (trim_left_with qs (rev s)) @ rev us"
    by (metis rev_append rev_rev_ident)
  with assms show ?thesis
    by (metis leading_space_prefix trim_left_with_Nil trim_left_with_stable append_is_Nil_conv)
qed

lemma go_trim_space_idem [simp]: "go_trim_space (go_trim_space s) = go_trim_space s"
proof -
  have "[] \<notin> set space_runes" by (simp add: space_runes_def)
  then show ?thesis
    by (simp add: go_trim_space_def trim_right_keeps_left trim_left_with_fix trim_left_with_idem)
qed

text \<open>Trimming keeps every byte that no space contains.\<close>

lemma leading_space_cases:
  "leading_space rs s = 0 \<or> (\<exists>r \<in> set rs. take (leading_space rs s) s = r)"
proof (cases "filter (go_has_prefix s) rs")
  case (Cons r qs)
  then have "r \<in> set rs \<and> go_has_prefix s r" using Cons_eq_filterD [OF Cons [symmetric]] by auto
  then show ?thesis using Cons by (auto simp: leading_space_def go_has_prefix_def)
qed (simp add: leading_space_def)

lemma trim_left_with_keeps:
  "c \<in> set s \<Longrightarrow> c \<notin> (\<Union>r \<in> set rs. set r) \<Longrightarrow> c \<in> set (trim_left_with rs s)"
proof (induction rs s rule: trim_left_with.induct)
  case (1 rs s)
  show ?case
  proof (cases "leading_space rs s = 0 \<or> s = []")
    case True
    then show ?thesis using 1 by (auto simp: trim_left_with.simps [of rs s])
  next
    case False
    then have "c \<notin> set (take (leading_space rs s) s)" using leading_space_cases [of rs s] 1(3) by auto
    then have "c \<in> set (drop (leading_space rs s) s)"
      using 1(2) by (metis Un_iff append_take_drop_id set_append)
    then show ?thesis using 1 False by (auto simp: trim_left_with.simps [of rs s])
  qed
qed

lemma go_trim_space_keeps:
  assumes "c \<in> set s" and "c \<notin> (\<Union>r \<in> set space_runes. set r)"
  shows "c \<in> set (go_trim_space s)"
proof -
  have "c \<in> set (rev (trim_left_with space_runes s))" using trim_left_with_keeps [OF assms] by simp
  moreover have "c \<notin> (\<Union>r \<in> set (map rev space_runes). set r)" using assms(2) by simp
  ultimately show ?thesis using trim_left_with_keeps by (simp add: go_trim_space_def)
qed
section \<open>Random identifiers\<close>

text \<open>
  \<^verbatim>\<open>rand.Read\<close> fills a slice from the system's byte source. The source is explicit
  state: the bytes it will deliver and how many were taken. Nothing is assumed about
  the bytes.
\<close>

record rand_source =
  rs_byte :: "nat \<Rightarrow> 8 word"
  rs_pos :: nat

definition rand_read :: "nat \<Rightarrow> rand_source \<Rightarrow> 8 word list \<times> rand_source" where
  "rand_read n r = (map (rs_byte r) [rs_pos r ..< rs_pos r + n], r\<lparr>rs_pos := rs_pos r + n\<rparr>)"

definition hex_digit :: "nat \<Rightarrow> char" where
  "hex_digit n = (if n < 10 then char_of (48 + n) else char_of (87 + n))"

definition hex_encode :: "8 word list \<Rightarrow> go_string" where
  "hex_encode bs = concat (map (\<lambda>b. [hex_digit (unat b div 16), hex_digit (unat b mod 16)]) bs)"

lemma length_hex_encode [simp]: "length (hex_encode bs) = 2 * length bs"
  by (induction bs) (simp_all add: hex_encode_def)

section \<open>Maps\<close>

text \<open>Reading a missing key of a Go map gives the zero value of the element type.\<close>

definition go_get :: "'v \<Rightarrow> 'v option \<Rightarrow> 'v" where
  "go_get z v = (case v of None \<Rightarrow> z | Some x \<Rightarrow> x)"

section \<open>Stream converters\<close>

text \<open>
  A converter's handler takes the state and returns the events it appends and the new
  state. \<open>then_emit\<close> is the sequence \<^verbatim>\<open>events = append(events, f(state)...)\<close> followed by
  the same for \<open>g\<close>; \<open>run_conv\<close> feeds a whole stream through a step function.
\<close>

type_synonym ('s, 'o) emitter = "'s \<Rightarrow> 'o list \<times> 's"

definition no_emit :: "('s, 'o) emitter" where
  "no_emit s = ([], s)"

definition then_emit :: "('s, 'o) emitter \<Rightarrow> ('s, 'o) emitter \<Rightarrow> ('s, 'o) emitter" where
  "then_emit f g s = (let (a, s1) = f s; (b, s2) = g s1 in (a @ b, s2))"

fun run_conv :: "('e \<Rightarrow> ('s, 'o) emitter) \<Rightarrow> 'e list \<Rightarrow> ('s, 'o) emitter" where
  "run_conv step [] s = ([], s)"
| "run_conv step (e # es) s = then_emit (step e) (run_conv step es) s"

lemma no_emit_sel [simp]: "fst (no_emit s) = []" "snd (no_emit s) = s"
  by (simp_all add: no_emit_def)

lemma then_emit_sel [simp]:
  "fst (then_emit f g s) = fst (f s) @ fst (g (snd (f s)))"
  "snd (then_emit f g s) = snd (g (snd (f s)))"
  by (simp_all add: then_emit_def split: prod.splits)

declare run_conv.simps(2) [simp del]

lemma run_conv_Cons_sel [simp]:
  "fst (run_conv step (e # es) s) = fst (step e s) @ fst (run_conv step es (snd (step e s)))"
  "snd (run_conv step (e # es) s) = snd (run_conv step es (snd (step e s)))"
  by (simp_all add: run_conv.simps(2))

lemma run_conv_append:
  "run_conv step (es @ fs) s = then_emit (run_conv step es) (run_conv step fs) s"
  by (induction es arbitrary: s) (simp_all add: prod_eq_iff)

section \<open>Monitors\<close>

text \<open>
  A monitor reads a stream one event at a time and refuses by \<open>None\<close>. It is the
  abstract specification of an output protocol: a stream conforms when the monitor
  reads all of it.
\<close>

type_synonym ('m, 'o) monitor = "'m \<Rightarrow> 'o \<Rightarrow> 'm option"

fun accepts :: "('m, 'o) monitor \<Rightarrow> 'm \<Rightarrow> 'o list \<Rightarrow> 'm option" where
  "accepts mon m [] = Some m"
| "accepts mon m (x # xs) = (case mon m x of None \<Rightarrow> None | Some m' \<Rightarrow> accepts mon m' xs)"

lemma accepts_append:
  "accepts mon m (xs @ ys) =
     (case accepts mon m xs of None \<Rightarrow> None | Some m' \<Rightarrow> accepts mon m' ys)"
  by (induction xs arbitrary: m) (auto split: option.splits)

text \<open>An emitter conforms to a monitor from the states that satisfy an invariant.\<close>

definition conforms ::
    "('m, 'o) monitor \<Rightarrow> ('s \<Rightarrow> 'm) \<Rightarrow> ('s \<Rightarrow> bool) \<Rightarrow> ('s, 'o) emitter \<Rightarrow> bool" where
  "conforms mon absn good f \<longleftrightarrow>
     (\<forall>s. good s \<longrightarrow> good (snd (f s)) \<and> accepts mon (absn s) (fst (f s)) = Some (absn (snd (f s))))"

lemma conformsI:
  assumes "\<And>s. good s \<Longrightarrow> good (snd (f s))"
    and "\<And>s. good s \<Longrightarrow> accepts mon (absn s) (fst (f s)) = Some (absn (snd (f s)))"
  shows "conforms mon absn good f"
  using assms by (auto simp: conforms_def)

lemma conformsD:
  assumes "conforms mon absn good f" and "good s"
  shows "good (snd (f s))" and "accepts mon (absn s) (fst (f s)) = Some (absn (snd (f s)))"
  using assms by (auto simp: conforms_def)

lemma conforms_no_emit [intro]: "conforms mon absn good no_emit"
  by (simp add: conforms_def)

lemma conforms_then [intro]:
  assumes "conforms mon absn good f" and "conforms mon absn good g"
  shows "conforms mon absn good (then_emit f g)"
  using assms by (auto simp: conforms_def accepts_append)

lemma conforms_id [intro]: "conforms mon absn good (\<lambda>s. ([], s))"
  by (simp add: conforms_def)

lemma conforms_if [intro]:
  assumes "conforms mon absn good f" and "conforms mon absn good g"
  shows "conforms mon absn good (\<lambda>s. if P s then f s else g s)"
  using assms by (simp add: conforms_def)

lemma conforms_param [intro]:
  assumes "\<And>x. conforms mon absn good (f x)"
  shows "conforms mon absn good (\<lambda>s. f (h s) s)"
  using assms by (simp add: conforms_def)

text \<open>\<open>g\<close> need conform only from the states \<open>f\<close> leaves behind.\<close>

lemma conforms_then_post:
  assumes f: "conforms mon absn good f" and post: "\<And>s. good s \<Longrightarrow> post (snd (f s))"
    and g: "\<And>s. good s \<Longrightarrow> post s \<Longrightarrow>
         good (snd (g s)) \<and> accepts mon (absn s) (fst (g s)) = Some (absn (snd (g s)))"
  shows "conforms mon absn good (then_emit f g)"
  using assms by (auto simp: conforms_def accepts_append)

lemma conforms_run:
  assumes "\<And>e. e \<in> set es \<Longrightarrow> conforms mon absn good (step e)"
  shows "conforms mon absn good (run_conv step es)"
  using assms
proof (induction es)
  case Nil
  then show ?case by (simp add: conforms_def)
next
  case (Cons e es)
  then have "conforms mon absn good (then_emit (step e) (run_conv step es))"
    by (intro conforms_then) auto
  then show ?case by (simp add: conforms_def)
qed

text \<open>
  The interface a protocol converter offers its clients: from a good state every step
  and the finalizer emit what the monitor allows.
\<close>

locale monitored_converter =
  fixes step :: "'e \<Rightarrow> ('s, 'o) emitter"
    and finish :: "('s, 'o) emitter"
    and adm :: "'e \<Rightarrow> bool"
    and mon :: "('m, 'o) monitor"
    and absn :: "'s \<Rightarrow> 'm"
    and good :: "'s \<Rightarrow> bool"
  assumes step_conforms: "adm e \<Longrightarrow> conforms mon absn good (step e)"
    and finish_accepted:
      "good s \<Longrightarrow> accepts mon (absn s) (fst (finish s)) = Some (absn (snd (finish s)))"
begin

lemma stream_conforms: "list_all adm es \<Longrightarrow> conforms mon absn good (run_conv step es)"
  by (intro conforms_run step_conforms) (simp add: list_all_iff)

lemma stream_accepted:
  assumes "good s" and "list_all adm es"
  shows "accepts mon (absn s) (fst (run_conv step es s)) = Some (absn (snd (run_conv step es s)))"
  using stream_conforms [OF assms(2)] assms(1) by (rule conformsD)

lemma stream_invariant: "good s \<Longrightarrow> list_all adm es \<Longrightarrow> good (snd (run_conv step es s))"
  by (rule conformsD(1) [OF stream_conforms])

lemma finished_stream_accepted:
  assumes "good s" and "list_all adm es"
  shows "accepts mon (absn s) (fst (then_emit (run_conv step es) finish s)) =
     Some (absn (snd (then_emit (run_conv step es) finish s)))"
  using stream_accepted [OF assms] finish_accepted [OF stream_invariant [OF assms]]
  by (simp add: accepts_append)

end

text \<open>
  Where the converter relies on the order its upstream keeps, the upstream has a monitor
  too: input the upstream monitor reads becomes output the downstream monitor reads, and the
  two stay related.
\<close>

locale guided_converter =
  fixes step :: "'e \<Rightarrow> ('s, 'o) emitter"
    and up :: "('u, 'e) monitor"
    and mon :: "('m, 'o) monitor"
    and absn :: "'u \<Rightarrow> 's \<Rightarrow> 'm"
    and rel :: "'u \<Rightarrow> 's \<Rightarrow> bool"
  assumes step_rel: "up u e = Some u' \<Longrightarrow> rel u s \<Longrightarrow> rel u' (snd (step e s))"
    and step_guided: "up u e = Some u' \<Longrightarrow> rel u s \<Longrightarrow>
      accepts mon (absn u s) (fst (step e s)) = Some (absn u' (snd (step e s)))"
begin

lemma guided_stream:
  "accepts up u es = Some u' \<Longrightarrow> rel u s \<Longrightarrow>
     rel u' (snd (run_conv step es s)) \<and>
     accepts mon (absn u s) (fst (run_conv step es s)) = Some (absn u' (snd (run_conv step es s)))"
proof (induction es arbitrary: u s)
  case Nil
  then show ?case by simp
next
  case (Cons e es)
  then obtain v where v: "up u e = Some v" and rest: "accepts up v es = Some u'"
    by (auto split: option.splits)
  show ?case
    using Cons.IH [OF rest step_rel [OF v Cons.prems(2)]] step_guided [OF v Cons.prems(2)]
    by (simp add: accepts_append)
qed

end

sublocale monitored_converter \<subseteq> guide: guided_converter
    step "\<lambda>(_ :: unit) e. if adm e then Some () else None" mon "\<lambda>_. absn" "\<lambda>_. good"
  using step_conforms by unfold_locales (auto simp: conforms_def split: if_splits)

text \<open>
  Sequence numbers are a protocol of their own: every event carries the next number.
\<close>

definition numbering :: "('o \<Rightarrow> int) \<Rightarrow> (int, 'o) monitor" where
  "numbering num n x = (if num x = n then Some (n + 1) else None)"

lemma accepts_numbering_Cons:
  "accepts (numbering num) n (x # xs) =
     (if num x = n then accepts (numbering num) (n + 1) xs else None)"
  by (simp add: numbering_def)

lemma accepts_numbering:
  "accepts (numbering num) n xs = Some m \<longleftrightarrow>
     map num xs = map (\<lambda>k. n + int k) [0 ..< length xs] \<and> m = n + int (length xs)"
proof (induction xs arbitrary: n)
  case Nil
  then show ?case by auto
next
  case (Cons x xs)
  have "map (\<lambda>k. n + int k) [0 ..< Suc (length xs)] =
      n # map (\<lambda>k. (n + 1) + int k) [0 ..< length xs]"
    by (subst upt_conv_Cons) (simp_all add: map_Suc_upt [symmetric] del: upt_Suc)
  then show ?case
    by (auto simp: accepts_numbering_Cons Cons.IH simp del: upt_Suc accepts.simps(2))
qed

locale numbered_converter =
  fixes step :: "'e \<Rightarrow> ('s, 'o) emitter"
    and finish :: "('s, 'o) emitter"
    and seqno :: "'s \<Rightarrow> int"
    and num :: "'o \<Rightarrow> int"
  assumes step_numbered: "conforms (numbering num) seqno (\<lambda>_. True) (step e)"
    and finish_numbered: "conforms (numbering num) seqno (\<lambda>_. True) finish"

sublocale numbered_converter \<subseteq> numbers: monitored_converter
    step finish "\<lambda>_. True" "numbering num" seqno "\<lambda>_. True"
  by unfold_locales (rule step_numbered, use finish_numbered in \<open>simp add: conforms_def\<close>)

context numbered_converter
begin

lemma stream_numbers:
  "map num (fst (then_emit (run_conv step es) finish s)) =
     map (\<lambda>k. seqno s + int k) [0 ..< length (fst (then_emit (run_conv step es) finish s))]"
  using numbers.finished_stream_accepted [where s = s and es = es] unfolding accepts_numbering
  by (simp add: list_all_iff)

end

text \<open>
  A projection of the output that depends on the input event alone (the text a
  client sees, for instance) is lost or invented by no run.
\<close>

definition carries :: "('o \<Rightarrow> 'a list) \<Rightarrow> 'a list \<Rightarrow> 'o list \<Rightarrow> bool" where
  "carries out xs os \<longleftrightarrow> concat (map out os) = xs"

lemma carries_Nil [simp]: "carries out xs [] \<longleftrightarrow> xs = []"
  by (auto simp: carries_def)

lemma carries_single [simp]: "carries out xs [x] \<longleftrightarrow> xs = out x"
  by (auto simp: carries_def)

lemma carries_append: "carries out xs os \<Longrightarrow> carries out ys ps \<Longrightarrow> carries out (xs @ ys) (os @ ps)"
  by (simp add: carries_def)

lemma silent_append: "carries out [] os \<Longrightarrow> carries out [] ps \<Longrightarrow> carries out [] (os @ ps)"
  by (simp add: carries_def)

lemma then_carries:
  "carries out xs (fst (f s)) \<Longrightarrow> carries out ys (fst (g (snd (f s)))) \<Longrightarrow>
     carries out (xs @ ys) (fst (then_emit f g s))"
  by (simp add: carries_append)

lemma silent_then:
  "carries out [] (fst (f s)) \<Longrightarrow> carries out ys (fst (g (snd (f s)))) \<Longrightarrow>
     carries out ys (fst (then_emit f g s))"
  using then_carries [of out "[]"] by simp

lemma then_silent:
  "carries out xs (fst (f s)) \<Longrightarrow> carries out [] (fst (g (snd (f s)))) \<Longrightarrow>
     carries out xs (fst (then_emit f g s))"
  using then_carries [of out _ _ _ "[]"] by simp

lemma silent_run:
  "(\<And>x s. carries out [] (fst (step x s))) \<Longrightarrow> carries out [] (fst (run_conv step xs s))"
  by (induction xs arbitrary: s) (simp_all add: silent_append)

lemma carries_run:
  assumes "\<And>e s. carries out (inp e) (fst (step e s))"
  shows "carries out (concat (map inp es)) (fst (run_conv step es s))"
proof (induction es arbitrary: s)
  case Nil
  then show ?case by simp
next
  case (Cons e es)
  then show ?case using assms [of e s] by (simp add: carries_append)
qed

locale carrying_converter =
  fixes step :: "'e \<Rightarrow> ('s, 'o) emitter"
    and finish :: "('s, 'o) emitter"
    and inp :: "'e \<Rightarrow> 'a list"
    and out :: "'o \<Rightarrow> 'a list"
  assumes step_carries: "carries out (inp e) (fst (step e s))"
    and finish_carries: "carries out [] (fst (finish s))"
begin

lemma run_carries: "carries out (concat (map inp es)) (fst (run_conv step es s))"
  by (intro carries_run step_carries)

lemma stream_carries:
  "carries out (concat (map inp es)) (fst (then_emit (run_conv step es) finish s))"
  using carries_append [OF run_carries finish_carries, of es s] by simp

end

text \<open>The same for a field of the state that only grows: an emitter appends to it.\<close>

definition gathers :: "('s \<Rightarrow> 'a list) \<Rightarrow> 'a list \<Rightarrow> ('s, 'o) emitter \<Rightarrow> bool" where
  "gathers fld xs f \<longleftrightarrow> (\<forall>s. fld (snd (f s)) = fld s @ xs)"

lemma gathers_then:
  "gathers fld xs f \<Longrightarrow> gathers fld ys g \<Longrightarrow> gathers fld (xs @ ys) (then_emit f g)"
  by (simp add: gathers_def)

lemma gathers_run:
  assumes "\<And>e. gathers fld (inp e) (step e)"
  shows "gathers fld (concat (map inp es)) (run_conv step es)"
  unfolding gathers_def
proof (intro allI, induction es)
  case Nil
  then show ?case by simp
next
  case (Cons e es)
  then show ?case using assms [of e] by (simp add: gathers_def)
qed

text \<open>
  Where the state of the monitor is not a function of the converter's state, the two are kept in a
  relation: triples of a precondition, an emitter and a postcondition over both.
\<close>

definition leads :: "('m, 'o) monitor \<Rightarrow> ('s \<Rightarrow> 'm \<Rightarrow> bool) \<Rightarrow> ('s, 'o) emitter \<Rightarrow> ('s \<Rightarrow> 'm \<Rightarrow> bool) \<Rightarrow> bool" where
  "leads mon P f Q \<longleftrightarrow> (\<forall>s m. P s m \<longrightarrow> (\<exists>m'. accepts mon m (fst (f s)) = Some m' \<and> Q (snd (f s)) m'))"

lemma leadsI:
  assumes "\<And>s m. P s m \<Longrightarrow> \<exists>m'. accepts mon m (fst (f s)) = Some m' \<and> Q (snd (f s)) m'"
  shows "leads mon P f Q"
  using assms by (simp add: leads_def)

lemma leadsD:
  assumes "leads mon P f Q" and "P s m"
  obtains m' where "accepts mon m (fst (f s)) = Some m'" and "Q (snd (f s)) m'"
  using assms by (auto simp: leads_def)

lemma leads_then:
  assumes "leads mon P f Q" and "leads mon Q g R"
  shows "leads mon P (then_emit f g) R"
proof (rule leadsI)
  fix s m assume "P s m"
  then obtain m' where m': "accepts mon m (fst (f s)) = Some m'" "Q (snd (f s)) m'"
    by (rule leadsD [OF assms(1)])
  obtain m'' where "accepts mon m' (fst (g (snd (f s)))) = Some m''" "R (snd (g (snd (f s)))) m''"
    by (rule leadsD [OF assms(2) m'(2)])
  then show "\<exists>m'. accepts mon m (fst (then_emit f g s)) = Some m' \<and> R (snd (then_emit f g s)) m'"
    using m'(1) by (simp add: accepts_append)
qed

lemma leads_weaken:
  assumes "leads mon P f Q" and "\<And>s m. P' s m \<Longrightarrow> P s m" and "\<And>s m. Q s m \<Longrightarrow> Q' s m"
  shows "leads mon P' f Q'"
  using assms unfolding leads_def by blast

lemma leads_no_emit: "(\<And>s m. P s m \<Longrightarrow> Q s m) \<Longrightarrow> leads mon P no_emit Q"
  by (auto simp: leads_def)

locale related_converter =
  fixes step :: "'e \<Rightarrow> ('s, 'o) emitter"
    and up :: "('u, 'e) monitor"
    and mon :: "('m, 'o) monitor"
    and rel :: "'u \<Rightarrow> 's \<Rightarrow> 'm \<Rightarrow> bool"
  assumes step_leads: "up u e = Some u' \<Longrightarrow> leads mon (rel u) (step e) (rel u')"
begin

lemma run_leads: "accepts up u es = Some u' \<Longrightarrow> leads mon (rel u) (run_conv step es) (rel u')"
proof (induction es arbitrary: u)
  case Nil
  then show ?case by (auto simp: leads_def)
next
  case (Cons e es)
  then obtain v where v: "up u e = Some v" "accepts up v es = Some u'"
    by (auto split: option.splits)
  have "leads mon (rel u) (then_emit (step e) (run_conv step es)) (rel u')"
    by (rule leads_then [OF step_leads [OF v(1)] Cons.IH [OF v(2)]])
  then show ?case by (simp add: leads_def)
qed

end

end
