(* ===== verification/Api_Types.thy ===== *)
theory Api_Types
  imports Gateway_Prelude
begin

text \<open>
  The wire types of \<^verbatim>\<open>backend/internal/pkg/apicompat/types.go\<close>: the Anthropic Messages,
  OpenAI Responses and Chat Completions payloads that the converters read and write.
  A struct is a record with the source's fields (each with its record's prefix), a
  pointer or an omitted value an \<open>option\<close>, a slice a list, a \<^verbatim>\<open>json.RawMessage\<close> its bytes.
  \<open>T_zero\<close> is Go's zero value of \<open>T\<close>, from which a composite literal \<^verbatim>\<open>T{F: v}\<close> is built by
  record update.
\<close>

section \<open>Anthropic Messages\<close>

record AnthropicCacheControl =
  acc_Type :: go_string
  acc_TTL :: go_string

record AnthropicImageSource =
  ais_Type :: go_string
  ais_MediaType :: go_string
  ais_Data :: go_string

record AnthropicContentBlock =
  acb_Type :: go_string
  acb_CacheControl :: "AnthropicCacheControl option"
  acb_Text :: go_string
  acb_Thinking :: go_string
  acb_Signature :: go_string
  acb_Source :: "AnthropicImageSource option"
  acb_ID :: go_string
  acb_Name :: go_string
  acb_Input :: raw_json
  acb_ToolUseID :: go_string
  acb_Content :: raw_json
  acb_IsError :: bool

definition AnthropicContentBlock_zero :: AnthropicContentBlock where
  "AnthropicContentBlock_zero =
     \<lparr>acb_Type = [], acb_CacheControl = None, acb_Text = [], acb_Thinking = [],
      acb_Signature = [], acb_Source = None, acb_ID = [], acb_Name = [], acb_Input = [],
      acb_ToolUseID = [], acb_Content = [], acb_IsError = False\<rparr>"

record AnthropicUsage =
  au_InputTokens :: int
  au_OutputTokens :: int
  au_CacheCreationInputTokens :: int
  au_CacheReadInputTokens :: int

definition AnthropicUsage_zero :: AnthropicUsage where
  "AnthropicUsage_zero =
     \<lparr>au_InputTokens = 0, au_OutputTokens = 0, au_CacheCreationInputTokens = 0,
      au_CacheReadInputTokens = 0\<rparr>"

record AnthropicResponse =
  ar_ID :: go_string
  ar_Type :: go_string
  ar_Role :: go_string
  ar_Content :: "AnthropicContentBlock list"
  ar_Model :: go_string
  ar_StopReason :: "go_string option"
  ar_StopSequence :: "go_string option"
  ar_Usage :: AnthropicUsage

definition AnthropicResponse_zero :: AnthropicResponse where
  "AnthropicResponse_zero =
     \<lparr>ar_ID = [], ar_Type = [], ar_Role = [], ar_Content = [], ar_Model = [],
      ar_StopReason = None, ar_StopSequence = None, ar_Usage = AnthropicUsage_zero\<rparr>"

definition AnthropicStopReasonPtr :: "go_string \<Rightarrow> go_string option" where
  "AnthropicStopReasonPtr s = Some s"

definition AnthropicStopReasonString :: "go_string option \<Rightarrow> go_string" where
  "AnthropicStopReasonString p = (case p of None \<Rightarrow> [] | Some s \<Rightarrow> s)"

record AnthropicDelta =
  ad_Type :: go_string
  ad_Text :: go_string
  ad_PartialJSON :: go_string
  ad_Thinking :: go_string
  ad_Signature :: go_string
  ad_StopReason :: go_string
  ad_StopSequence :: "go_string option"

definition AnthropicDelta_zero :: AnthropicDelta where
  "AnthropicDelta_zero =
     \<lparr>ad_Type = [], ad_Text = [], ad_PartialJSON = [], ad_Thinking = [], ad_Signature = [],
      ad_StopReason = [], ad_StopSequence = None\<rparr>"

record AnthropicStreamEvent =
  ae_Type :: go_string
  ae_Message :: "AnthropicResponse option"
  ae_Index :: "int option"
  ae_ContentBlock :: "AnthropicContentBlock option"
  ae_Delta :: "AnthropicDelta option"
  ae_Usage :: "AnthropicUsage option"

definition AnthropicStreamEvent_zero :: AnthropicStreamEvent where
  "AnthropicStreamEvent_zero =
     \<lparr>ae_Type = [], ae_Message = None, ae_Index = None, ae_ContentBlock = None,
      ae_Delta = None, ae_Usage = None\<rparr>"

section \<open>OpenAI Responses\<close>

record ResponsesContentPart =
  rcp_Type :: go_string
  rcp_Text :: go_string
  rcp_ImageURL :: go_string

definition ResponsesContentPart_zero :: ResponsesContentPart where
  "ResponsesContentPart_zero = \<lparr>rcp_Type = [], rcp_Text = [], rcp_ImageURL = []\<rparr>"

record ResponsesSummary =
  rsu_Type :: go_string
  rsu_Text :: go_string

record WebSearchAction =
  wsa_Type :: go_string
  wsa_Query :: go_string

record ResponsesOutput =
  ro_Type :: go_string
  ro_ID :: go_string
  ro_Role :: go_string
  ro_Content :: "ResponsesContentPart list"
  ro_Status :: go_string
  ro_EncryptedContent :: go_string
  ro_Summary :: "ResponsesSummary list"
  ro_CallID :: go_string
  ro_Name :: go_string
  ro_Arguments :: go_string
  ro_Namespace :: go_string
  ro_Input :: go_string
  ro_Action :: "WebSearchAction option"

definition ResponsesOutput_zero :: ResponsesOutput where
  "ResponsesOutput_zero =
     \<lparr>ro_Type = [], ro_ID = [], ro_Role = [], ro_Content = [], ro_Status = [],
      ro_EncryptedContent = [], ro_Summary = [], ro_CallID = [], ro_Name = [],
      ro_Arguments = [], ro_Namespace = [], ro_Input = [], ro_Action = None\<rparr>"

record ResponsesInputTokensDetails =
  ritd_CachedTokens :: int
  ritd_AudioTokens :: int
  ritd_CacheCreationTokens :: int
  ritd_CacheWriteTokens :: int

definition ResponsesInputTokensDetails_zero :: ResponsesInputTokensDetails where
  "ResponsesInputTokensDetails_zero =
     \<lparr>ritd_CachedTokens = 0, ritd_AudioTokens = 0, ritd_CacheCreationTokens = 0,
      ritd_CacheWriteTokens = 0\<rparr>"

record ResponsesOutputTokensDetails =
  rotd_ReasoningTokens :: int
  rotd_AudioTokens :: int
  rotd_AcceptedPredictionTokens :: int
  rotd_RejectedPredictionTokens :: int

record ResponsesUsage =
  ru_InputTokens :: int
  ru_OutputTokens :: int
  ru_TotalTokens :: int
  ru_CacheCreationInputTokens :: int
  ru_InputTokensDetails :: "ResponsesInputTokensDetails option"
  ru_OutputTokensDetails :: "ResponsesOutputTokensDetails option"

definition ResponsesUsage_zero :: ResponsesUsage where
  "ResponsesUsage_zero =
     \<lparr>ru_InputTokens = 0, ru_OutputTokens = 0, ru_TotalTokens = 0,
      ru_CacheCreationInputTokens = 0, ru_InputTokensDetails = None,
      ru_OutputTokensDetails = None\<rparr>"

record ResponsesIncompleteDetails =
  rid_Reason :: go_string

record ResponsesError =
  rer_Code :: go_string
  rer_Message :: go_string

record ResponsesResponse =
  rr_ID :: go_string
  rr_Object :: go_string
  rr_Model :: go_string
  rr_Status :: go_string
  rr_Output :: "ResponsesOutput list"
  rr_Usage :: "ResponsesUsage option"
  rr_IncompleteDetails :: "ResponsesIncompleteDetails option"
  rr_Error :: "ResponsesError option"

definition ResponsesResponse_zero :: ResponsesResponse where
  "ResponsesResponse_zero =
     \<lparr>rr_ID = [], rr_Object = [], rr_Model = [], rr_Status = [], rr_Output = [],
      rr_Usage = None, rr_IncompleteDetails = None, rr_Error = None\<rparr>"

record ResponsesStreamEvent =
  re_Type :: go_string
  re_Response :: "ResponsesResponse option"
  re_Usage :: "ResponsesUsage option"
  re_Item :: "ResponsesOutput option"
  re_OutputIndex :: int
  re_ContentIndex :: int
  re_Delta :: go_string
  re_Text :: go_string
  re_ItemID :: go_string
  re_CallID :: go_string
  re_Name :: go_string
  re_Arguments :: go_string
  re_Input :: go_string
  re_SummaryIndex :: int
  re_Part :: "ResponsesContentPart option"
  re_Code :: go_string
  re_Param :: go_string
  re_SequenceNumber :: int

definition ResponsesStreamEvent_zero :: ResponsesStreamEvent where
  "ResponsesStreamEvent_zero =
     \<lparr>re_Type = [], re_Response = None, re_Usage = None, re_Item = None, re_OutputIndex = 0,
      re_ContentIndex = 0, re_Delta = [], re_Text = [], re_ItemID = [], re_CallID = [],
      re_Name = [], re_Arguments = [], re_Input = [], re_SummaryIndex = 0, re_Part = None,
      re_Code = [], re_Param = [], re_SequenceNumber = 0\<rparr>"

section \<open>OpenAI Chat Completions\<close>

record ChatFunctionCall =
  cfc_Name :: go_string
  cfc_Arguments :: go_string

record ChatToolCall =
  ctc_Index :: "int option"
  ctc_ID :: go_string
  ctc_Type :: go_string
  ctc_Function :: ChatFunctionCall

definition ChatToolCall_zero :: ChatToolCall where
  "ChatToolCall_zero =
     \<lparr>ctc_Index = None, ctc_ID = [], ctc_Type = [],
      ctc_Function = \<lparr>cfc_Name = [], cfc_Arguments = []\<rparr>\<rparr>"

record ChatMessage =
  cm_Role :: go_string
  cm_Content :: raw_json
  cm_ReasoningContent :: go_string
  cm_Name :: go_string
  cm_ToolCalls :: "ChatToolCall list"
  cm_ToolCallID :: go_string
  cm_FunctionCall :: "ChatFunctionCall option"

definition ChatMessage_zero :: ChatMessage where
  "ChatMessage_zero =
     \<lparr>cm_Role = [], cm_Content = [], cm_ReasoningContent = [], cm_Name = [],
      cm_ToolCalls = [], cm_ToolCallID = [], cm_FunctionCall = None\<rparr>"

record ChatTokenDetails =
  ctd_CachedTokens :: int
  ctd_AudioTokens :: int
  ctd_CacheCreationTokens :: int
  ctd_CacheWriteTokens :: int
  ctd_ReasoningTokens :: int
  ctd_AcceptedPredictionTokens :: int
  ctd_RejectedPredictionTokens :: int

definition ChatTokenDetails_zero :: ChatTokenDetails where
  "ChatTokenDetails_zero =
     \<lparr>ctd_CachedTokens = 0, ctd_AudioTokens = 0, ctd_CacheCreationTokens = 0,
      ctd_CacheWriteTokens = 0, ctd_ReasoningTokens = 0, ctd_AcceptedPredictionTokens = 0,
      ctd_RejectedPredictionTokens = 0\<rparr>"

record ChatUsage =
  cu_PromptTokens :: int
  cu_CompletionTokens :: int
  cu_TotalTokens :: int
  cu_PromptTokensDetails :: "ChatTokenDetails option"
  cu_CompletionTokensDetails :: "ChatTokenDetails option"

record ChatChoice =
  cc_Index :: int
  cc_Message :: ChatMessage
  cc_FinishReason :: go_string

record ChatCompletionsResponse =
  ccr_ID :: go_string
  ccr_Object :: go_string
  ccr_Created :: int
  ccr_Model :: go_string
  ccr_Choices :: "ChatChoice list"
  ccr_Usage :: "ChatUsage option"
  ccr_SystemFingerprint :: go_string
  ccr_ServiceTier :: go_string

record ChatDelta =
  cd_Role :: go_string
  cd_Content :: "go_string option"
  cd_ReasoningContent :: "go_string option"
  cd_ToolCalls :: "ChatToolCall list"

definition ChatDelta_zero :: ChatDelta where
  "ChatDelta_zero =
     \<lparr>cd_Role = [], cd_Content = None, cd_ReasoningContent = None, cd_ToolCalls = []\<rparr>"

record ChatChunkChoice =
  ccc_Index :: int
  ccc_Delta :: ChatDelta
  ccc_FinishReason :: "go_string option"

record ChatCompletionsChunk =
  chk_ID :: go_string
  chk_Object :: go_string
  chk_Created :: int
  chk_Model :: go_string
  chk_Choices :: "ChatChunkChoice list"
  chk_Usage :: "ChatUsage option"
  chk_SystemFingerprint :: go_string
  chk_ServiceTier :: go_string

declare AnthropicContentBlock_zero_def [zero_defs] AnthropicUsage_zero_def [zero_defs]
  AnthropicResponse_zero_def [zero_defs] AnthropicDelta_zero_def [zero_defs]
  AnthropicStreamEvent_zero_def [zero_defs] ResponsesContentPart_zero_def [zero_defs]
  ResponsesOutput_zero_def [zero_defs] ResponsesInputTokensDetails_zero_def [zero_defs]
  ResponsesUsage_zero_def [zero_defs] ResponsesResponse_zero_def [zero_defs]
  ResponsesStreamEvent_zero_def [zero_defs] ChatToolCall_zero_def [zero_defs]
  ChatMessage_zero_def [zero_defs] ChatTokenDetails_zero_def [zero_defs]
  ChatDelta_zero_def [zero_defs]

section \<open>Tool call identifiers\<close>

text \<open>\<^verbatim>\<open>anthropic_to_responses.go\<close>: the call identifiers shared by both directions.\<close>

definition toResponsesCallID :: "go_string \<Rightarrow> go_string" where
  "toResponsesCallID i = i"

definition fromResponsesCallID :: "go_string \<Rightarrow> go_string" where
  "fromResponsesCallID i =
     (case go_cut_prefix i ''fc_'' of
        Some after \<Rightarrow>
          if go_has_prefix after ''toolu_'' \<or> go_has_prefix after ''call_'' then after else i
      | None \<Rightarrow> i)"

lemma fromResponsesCallID_toResponsesCallID:
  "\<not> go_has_prefix i ''fc_'' \<Longrightarrow> fromResponsesCallID (toResponsesCallID i) = i"
  by (simp add: fromResponsesCallID_def toResponsesCallID_def go_cut_prefix_def)

section \<open>Generated identifiers\<close>

definition generateResponsesID :: "rand_source \<Rightarrow> go_string \<times> rand_source" where
  "generateResponsesID r = (let (b, r') = rand_read 12 r in (''resp_'' @ hex_encode b, r'))"

definition generateItemID :: "rand_source \<Rightarrow> go_string \<times> rand_source" where
  "generateItemID r = (let (b, r') = rand_read 12 r in (''item_'' @ hex_encode b, r'))"

definition generateChatCmplID :: "rand_source \<Rightarrow> go_string \<times> rand_source" where
  "generateChatCmplID r = (let (b, r') = rand_read 12 r in (''chatcmpl-'' @ hex_encode b, r'))"

lemma generateItemID_nonempty [simp]: "fst (generateItemID r) \<noteq> []"
  by (simp add: generateItemID_def rand_read_def)

lemma generateResponsesID_nonempty [simp]: "fst (generateResponsesID r) \<noteq> []"
  by (simp add: generateResponsesID_def rand_read_def)

end
