(* ===== verification/Go_Json.thy ===== *)
theory Go_Json
  imports Api_Types
begin

text \<open>
  The part of Go's \<^verbatim>\<open>encoding/json\<close> that the converters rely on, at the level of bytes: the
  scanner behind \<^verbatim>\<open>json.Valid\<close> (a byte-by-byte machine with a stack of open objects and
  arrays, nesting limited to 10000), decoding of an object into
  \<^verbatim>\<open>map[string]json.RawMessage\<close>, string quoting and unquoting, compaction, and
  encoding of such a map. On top of it: \<^verbatim>\<open>sanitizeAnthropicToolUseInput\<close> of
  \<^verbatim>\<open>responses_to_anthropic.go\<close>.
\<close>

section \<open>The scanner\<close>

datatype parse_state = ParseObjectKey | ParseObjectValue | ParseArrayValue

datatype scan_state =
    BeginValueOrEmpty | BeginValue | BeginStringOrEmpty | BeginString
  | EndValue | EndTop | InString | InStringEsc | InStringEscU nat
  | NumNeg | Num1 | Num0 | NumDot | NumDot0 | NumE | NumESign | NumE0
  | InLiteral go_string | ScanErr

datatype scan_op =
    ScanContinue | ScanBeginLiteral | ScanBeginObject | ScanObjectKey | ScanObjectValue
  | ScanEndObject | ScanBeginArray | ScanArrayValue | ScanEndArray | ScanSkipSpace
  | ScanEnd | ScanError

record scanner =
  sc_step :: scan_state
  sc_parseState :: "parse_state list" \<comment> \<open>innermost first\<close>
  sc_endTop :: bool

definition scan_reset :: scanner where
  "scan_reset = \<lparr>sc_step = BeginValue, sc_parseState = [], sc_endTop = False\<rparr>"

definition json_space :: "char \<Rightarrow> bool" where
  "json_space c \<longleftrightarrow> c = CHR 0x20 \<or> c = CHR 0x09 \<or> c = CHR 0x0A \<or> c = CHR 0x0D"

definition json_digit :: "char \<Rightarrow> bool" where
  "json_digit c \<longleftrightarrow> 48 \<le> (of_char c :: nat) \<and> (of_char c :: nat) \<le> 57"

definition json_hex :: "char \<Rightarrow> bool" where
  "json_hex c \<longleftrightarrow> json_digit c \<or> (97 \<le> (of_char c :: nat) \<and> (of_char c :: nat) \<le> 102)
     \<or> (65 \<le> (of_char c :: nat) \<and> (of_char c :: nat) \<le> 70)"

definition scan_error :: "scanner \<Rightarrow> scan_op \<times> scanner" where
  "scan_error s = (ScanError, s\<lparr>sc_step := ScanErr\<rparr>)"

definition go_to :: "scan_state \<Rightarrow> scanner \<Rightarrow> scan_op \<times> scanner" where
  "go_to st s = (ScanContinue, s\<lparr>sc_step := st\<rparr>)"

definition pushParseState ::
    "parse_state \<Rightarrow> scan_op \<Rightarrow> scanner \<Rightarrow> scan_op \<times> scanner" where
  "pushParseState p ok s =
     (let s' = s\<lparr>sc_parseState := p # sc_parseState s\<rparr> in
      if length (sc_parseState s') \<le> 10000 then (ok, s') else scan_error s')"

definition popParseState :: "scan_op \<Rightarrow> scanner \<Rightarrow> scan_op \<times> scanner" where
  "popParseState ok s =
     (let ps = tl (sc_parseState s) in
      (ok, if ps = [] then s\<lparr>sc_parseState := ps, sc_step := EndTop, sc_endTop := True\<rparr>
           else s\<lparr>sc_parseState := ps, sc_step := EndValue\<rparr>))"

definition stateEndTop :: "scanner \<Rightarrow> char \<Rightarrow> scan_op \<times> scanner" where
  "stateEndTop s c = (ScanEnd, if json_space c then s else s\<lparr>sc_step := ScanErr\<rparr>)"

definition stateEndValue :: "scanner \<Rightarrow> char \<Rightarrow> scan_op \<times> scanner" where
  "stateEndValue s c =
     (case sc_parseState s of
        [] \<Rightarrow> stateEndTop (s\<lparr>sc_step := EndTop, sc_endTop := True\<rparr>) c
      | p # ps \<Rightarrow>
          if json_space c then (ScanSkipSpace, s\<lparr>sc_step := EndValue\<rparr>)
          else (case p of
             ParseObjectKey \<Rightarrow>
               if c = CHR '':''
               then (ScanObjectKey, s\<lparr>sc_parseState := ParseObjectValue # ps, sc_step := BeginValue\<rparr>)
               else scan_error s
           | ParseObjectValue \<Rightarrow>
               if c = CHR '',''
               then (ScanObjectValue, s\<lparr>sc_parseState := ParseObjectKey # ps, sc_step := BeginString\<rparr>)
               else if c = CHR ''}'' then popParseState ScanEndObject s
               else scan_error s
           | ParseArrayValue \<Rightarrow>
               if c = CHR '','' then (ScanArrayValue, s\<lparr>sc_step := BeginValue\<rparr>)
               else if c = CHR '']'' then popParseState ScanEndArray s
               else scan_error s))"

definition begin_literal :: "scan_state \<Rightarrow> scanner \<Rightarrow> scan_op \<times> scanner" where
  "begin_literal st s = (ScanBeginLiteral, s\<lparr>sc_step := st\<rparr>)"

definition stateBeginValue :: "scanner \<Rightarrow> char \<Rightarrow> scan_op \<times> scanner" where
  "stateBeginValue s c =
     (if json_space c then (ScanSkipSpace, s)
      else if c = CHR ''{''
        then pushParseState ParseObjectKey ScanBeginObject (s\<lparr>sc_step := BeginStringOrEmpty\<rparr>)
      else if c = CHR ''[''
        then pushParseState ParseArrayValue ScanBeginArray (s\<lparr>sc_step := BeginValueOrEmpty\<rparr>)
      else if c = CHR 0x22 then begin_literal InString s
      else if c = CHR ''-'' then begin_literal NumNeg s
      else if c = CHR ''0'' then begin_literal Num0 s
      else if c = CHR ''t'' then begin_literal (InLiteral ''rue'') s
      else if c = CHR ''f'' then begin_literal (InLiteral ''alse'') s
      else if c = CHR ''n'' then begin_literal (InLiteral ''ull'') s
      else if json_digit c then begin_literal Num1 s
      else scan_error s)"

definition stateBeginString :: "scanner \<Rightarrow> char \<Rightarrow> scan_op \<times> scanner" where
  "stateBeginString s c =
     (if json_space c then (ScanSkipSpace, s)
      else if c = CHR 0x22 then begin_literal InString s
      else scan_error s)"

definition state0 :: "scanner \<Rightarrow> char \<Rightarrow> scan_op \<times> scanner" where
  "state0 s c =
     (if c = CHR ''.'' then go_to NumDot s
      else if c = CHR ''e'' \<or> c = CHR ''E'' then go_to NumE s
      else stateEndValue s c)"

definition stateESign :: "scanner \<Rightarrow> char \<Rightarrow> scan_op \<times> scanner" where
  "stateESign s c = (if json_digit c then go_to NumE0 s else scan_error s)"

definition scan_step :: "scanner \<Rightarrow> char \<Rightarrow> scan_op \<times> scanner" where
  "scan_step s c =
     (case sc_step s of
        BeginValueOrEmpty \<Rightarrow>
          if json_space c then (ScanSkipSpace, s)
          else if c = CHR '']'' then stateEndValue s c else stateBeginValue s c
      | BeginValue \<Rightarrow> stateBeginValue s c
      | BeginStringOrEmpty \<Rightarrow>
          if json_space c then (ScanSkipSpace, s)
          else if c = CHR ''}''
            then stateEndValue (s\<lparr>sc_parseState := ParseObjectValue # tl (sc_parseState s)\<rparr>) c
          else stateBeginString s c
      | BeginString \<Rightarrow> stateBeginString s c
      | EndValue \<Rightarrow> stateEndValue s c
      | EndTop \<Rightarrow> stateEndTop s c
      | InString \<Rightarrow>
          if c = CHR 0x22 then go_to EndValue s
          else if c = CHR 0x5C then go_to InStringEsc s
          else if (of_char c :: nat) < 32 then scan_error s
          else go_to InString s
      | InStringEsc \<Rightarrow>
          if c \<in> set [CHR ''b'', CHR ''f'', CHR ''n'', CHR ''r'', CHR ''t'', CHR 0x5C, CHR 0x2F, CHR 0x22]
            then go_to InString s
          else if c = CHR ''u'' then go_to (InStringEscU 3) s
          else scan_error s
      | InStringEscU k \<Rightarrow>
          if json_hex c
            then go_to (case k of 0 \<Rightarrow> InString | Suc k' \<Rightarrow> InStringEscU k') s
          else scan_error s
      | NumNeg \<Rightarrow>
          if c = CHR ''0'' then go_to Num0 s
          else if json_digit c then go_to Num1 s else scan_error s
      | Num1 \<Rightarrow> if json_digit c then go_to Num1 s else state0 s c
      | Num0 \<Rightarrow> state0 s c
      | NumDot \<Rightarrow> if json_digit c then go_to NumDot0 s else scan_error s
      | NumDot0 \<Rightarrow>
          if json_digit c then go_to NumDot0 s
          else if c = CHR ''e'' \<or> c = CHR ''E'' then go_to NumE s else stateEndValue s c
      | NumE \<Rightarrow>
          if c = CHR ''+'' \<or> c = CHR ''-'' then go_to NumESign s else stateESign s c
      | NumESign \<Rightarrow> stateESign s c
      | NumE0 \<Rightarrow> if json_digit c then go_to NumE0 s else stateEndValue s c
      | InLiteral ls \<Rightarrow>
          (case ls of
             [] \<Rightarrow> stateEndValue s c
           | l # rest \<Rightarrow>
               if c = l then go_to (if rest = [] then EndValue else InLiteral rest) s
               else scan_error s)
      | ScanErr \<Rightarrow> (ScanError, s))"

definition scan_eof :: "scanner \<Rightarrow> bool" where
  "scan_eof s \<longleftrightarrow> sc_step s \<noteq> ScanErr \<and>
     (sc_endTop s \<or>
      (let (_, s') = scan_step s (CHR 0x20) in sc_endTop s'))"

fun check_valid :: "scanner \<Rightarrow> go_string \<Rightarrow> bool" where
  "check_valid s [] = scan_eof s"
| "check_valid s (c # cs) =
     (let (v, s') = scan_step s c in v \<noteq> ScanError \<and> check_valid s' cs)"

definition json_Valid :: "go_string \<Rightarrow> bool" where
  "json_Valid bs = check_valid scan_reset bs"

section \<open>UTF-8 and string literals\<close>

definition byte_in :: "nat \<Rightarrow> nat \<Rightarrow> char \<Rightarrow> bool" where
  "byte_in lo hi c \<longleftrightarrow> lo \<le> (of_char c :: nat) \<and> (of_char c :: nat) \<le> hi"

text \<open>
  The length of the encoded rune a byte string starts with, 0 when it starts with
  none: what \<^verbatim>\<open>utf8.DecodeRune\<close> accepts (shortest forms, no surrogates, at most U+10FFFF).
\<close>

definition utf8_len :: "go_string \<Rightarrow> nat" where
  "utf8_len s =
     (case s of
        [] \<Rightarrow> 0
      | a # r1 \<Rightarrow>
          if byte_in 0 127 a then 1
          else (case r1 of
             [] \<Rightarrow> 0
           | b # r2 \<Rightarrow>
               if byte_in 0xC2 0xDF a \<and> byte_in 0x80 0xBF b then 2
               else (case r2 of
                  [] \<Rightarrow> 0
                | c # r3 \<Rightarrow>
                    if byte_in 0x80 0xBF c \<and>
                       ((byte_in 0xE0 0xE0 a \<and> byte_in 0xA0 0xBF b) \<or>
                        (byte_in 0xE1 0xEC a \<and> byte_in 0x80 0xBF b) \<or>
                        (byte_in 0xED 0xED a \<and> byte_in 0x80 0x9F b) \<or>
                        (byte_in 0xEE 0xEF a \<and> byte_in 0x80 0xBF b)) then 3
                    else (case r3 of
                       [] \<Rightarrow> 0
                     | d # _ \<Rightarrow>
                         if byte_in 0x80 0xBF c \<and> byte_in 0x80 0xBF d \<and>
                            ((byte_in 0xF0 0xF0 a \<and> byte_in 0x90 0xBF b) \<or>
                             (byte_in 0xF1 0xF3 a \<and> byte_in 0x80 0xBF b) \<or>
                             (byte_in 0xF4 0xF4 a \<and> byte_in 0x80 0x8F b)) then 4
                         else 0))))"

definition encode_rune :: "nat \<Rightarrow> go_string" where
  "encode_rune r =
     (if r < 0x80 then [char_of r]
      else if r < 0x800 then [char_of (0xC0 + r div 64), char_of (0x80 + r mod 64)]
      else if 0xD800 \<le> r \<and> r \<le> 0xDFFF \<or> 0x10FFFF < r
        then [CHR 0xEF, CHR 0xBF, CHR 0xBD]
      else if r < 0x10000
        then [char_of (0xE0 + r div 4096), char_of (0x80 + r div 64 mod 64), char_of (0x80 + r mod 64)]
      else [char_of (0xF0 + r div 262144), char_of (0x80 + r div 4096 mod 64),
            char_of (0x80 + r div 64 mod 64), char_of (0x80 + r mod 64)])"

definition hex_value :: "char \<Rightarrow> nat" where
  "hex_value c =
     (if json_digit c then of_char c - 48
      else if byte_in 97 102 c then of_char c - 87 else of_char c - 55)"

text \<open>\<^verbatim>\<open>getu4\<close>: the code unit of a leading \<^verbatim>\<open>\uXXXX\<close>.\<close>

definition getu4 :: "go_string \<Rightarrow> nat option" where
  "getu4 s =
     (case s of
        x # u # a # b # c # d # _ \<Rightarrow>
          if x = CHR 0x5C \<and> u = CHR ''u'' \<and> json_hex a \<and> json_hex b \<and> json_hex c \<and> json_hex d
          then Some (hex_value a * 4096 + hex_value b * 256 + hex_value c * 16 + hex_value d)
          else None
      | _ \<Rightarrow> None)"

definition is_surrogate :: "nat \<Rightarrow> bool" where
  "is_surrogate r \<longleftrightarrow> 0xD800 \<le> r \<and> r \<le> 0xDFFF"

definition utf16_pair :: "nat \<Rightarrow> nat option \<Rightarrow> nat option" where
  "utf16_pair r1 r2 =
     (case r2 of
        Some lo \<Rightarrow>
          if 0xD800 \<le> r1 \<and> r1 \<le> 0xDBFF \<and> 0xDC00 \<le> lo \<and> lo \<le> 0xDFFF
          then Some ((r1 - 0xD800) * 1024 + (lo - 0xDC00) + 0x10000) else None
      | None \<Rightarrow> None)"

text \<open>\<^verbatim>\<open>unquoteBytes\<close> on the inside of a literal the scanner accepted.\<close>

function unquote_body :: "go_string \<Rightarrow> go_string" where
  "unquote_body s =
     (case s of
        [] \<Rightarrow> []
      | c # cs \<Rightarrow>
          if c = CHR 0x5C then
            (case getu4 s of
               Some r \<Rightarrow>
                 if is_surrogate r then
                   (case utf16_pair r (getu4 (drop 6 s)) of
                      Some dec \<Rightarrow> encode_rune dec @ unquote_body (drop 12 s)
                    | None \<Rightarrow> encode_rune 0xFFFD @ unquote_body (drop 6 s))
                 else encode_rune r @ unquote_body (drop 6 s)
             | None \<Rightarrow>
                 (case cs of
                    [] \<Rightarrow> []
                  | e # es \<Rightarrow>
                      (if e = CHR ''b'' then CHR 0x08 else if e = CHR ''f'' then CHR 0x0C
                       else if e = CHR ''n'' then CHR 0x0A else if e = CHR ''r'' then CHR 0x0D
                       else if e = CHR ''t'' then CHR 0x09 else e) # unquote_body es))
          else if utf8_len s = 0 then encode_rune 0xFFFD @ unquote_body cs
          else take (utf8_len s) s @ unquote_body (drop (utf8_len s) s))"
  by pat_completeness auto
termination
  by (relation "measure length") (auto split: if_splits)

definition json_unquote :: "go_string \<Rightarrow> go_string" where
  "json_unquote lit = unquote_body (butlast (tl lit))"

definition hex4 :: "nat \<Rightarrow> go_string" where
  "hex4 n = [CHR 0x5C, CHR ''u'', hex_digit (n div 4096 mod 16), hex_digit (n div 256 mod 16),
     hex_digit (n div 16 mod 16), hex_digit (n mod 16)]"

definition html_unsafe :: "char \<Rightarrow> bool" where
  "html_unsafe c \<longleftrightarrow> c = CHR ''<'' \<or> c = CHR ''>'' \<or> c = CHR ''&''"

definition escape_ascii :: "char \<Rightarrow> go_string" where
  "escape_ascii c =
     (if c = CHR 0x5C \<or> c = CHR 0x22 then [CHR 0x5C, c]
      else if c = CHR 0x08 then [CHR 0x5C, CHR ''b''] else if c = CHR 0x0C then [CHR 0x5C, CHR ''f'']
      else if c = CHR 0x0A then [CHR 0x5C, CHR ''n''] else if c = CHR 0x0D then [CHR 0x5C, CHR ''r'']
      else if c = CHR 0x09 then [CHR 0x5C, CHR ''t'']
      else if (of_char c :: nat) < 32 \<or> html_unsafe c then hex4 (of_char c)
      else [c])"

definition line_separator :: "go_string \<Rightarrow> bool" where
  "line_separator s \<longleftrightarrow>
     go_has_prefix s [CHR 0xE2, CHR 0x80, CHR 0xA8] \<or> go_has_prefix s [CHR 0xE2, CHR 0x80, CHR 0xA9]"

function quote_body :: "go_string \<Rightarrow> go_string" where
  "quote_body s =
     (case s of
        [] \<Rightarrow> []
      | c # cs \<Rightarrow>
          if byte_in 0 127 c then escape_ascii c @ quote_body cs
          else if utf8_len s = 0 then hex4 0xFFFD @ quote_body cs
          else if line_separator s
            then (if s ! 2 = CHR 0xA8 then hex4 0x2028 else hex4 0x2029) @ quote_body (drop 3 s)
          else take (utf8_len s) s @ quote_body (drop (utf8_len s) s))"
  by pat_completeness auto
termination
  by (relation "measure length") (auto split: if_splits)

declare unquote_body.simps [simp del] quote_body.simps [simp del]

text \<open>\<^verbatim>\<open>json.Marshal\<close> of a string.\<close>

definition json_quote :: "go_string \<Rightarrow> raw_json" where
  "json_quote s = [CHR 0x22] @ quote_body s @ [CHR 0x22]"

section \<open>Objects of raw values\<close>

text \<open>
  \<^verbatim>\<open>json.Unmarshal\<close> into \<^verbatim>\<open>map[string]json.RawMessage\<close>. The split reads the object with the
  scanner and collects, at nesting depth one, each key literal and the bytes of its
  value without the white space around it.
\<close>

record obj_split =
  os_scan :: scanner
  os_key :: go_string \<comment> \<open>bytes of the current key, reversed\<close>
  os_val :: go_string \<comment> \<open>bytes of the current value, reversed\<close>
  os_entries :: "(go_string \<times> raw_json) list" \<comment> \<open>reversed\<close>

definition obj_step :: "obj_split \<Rightarrow> char \<Rightarrow> obj_split" where
  "obj_step o1 c =
     (let sc = os_scan o1; (v, sc') = scan_step sc c; o2 = o1\<lparr>os_scan := sc'\<rparr> in
      if length (sc_parseState sc) = 1 \<and> hd (sc_parseState sc) = ParseObjectKey then
        (if v = ScanBeginLiteral \<or> v = ScanContinue then o2\<lparr>os_key := c # os_key o1\<rparr> else o2)
      else if sc_parseState sc = [] then o2
      else if length (sc_parseState sc) = 1 \<and> v = ScanSkipSpace then o2
      else if length (sc_parseState sc) = 1 \<and> (v = ScanObjectValue \<or> v = ScanEndObject) then
        o2\<lparr>os_key := [], os_val := [],
           os_entries := (json_unquote (rev (os_key o1)), rev (os_val o1)) # os_entries o1\<rparr>
      else o2\<lparr>os_val := c # os_val o1\<rparr>)"

definition split_object :: "go_string \<Rightarrow> (go_string \<times> raw_json) list" where
  "split_object s =
     rev (os_entries (foldl obj_step
       \<lparr>os_scan = scan_reset, os_key = [], os_val = [], os_entries = []\<rparr> s))"

fun first_nonspace :: "go_string \<Rightarrow> char option" where
  "first_nonspace [] = None"
| "first_nonspace (c # cs) = (if json_space c then first_nonspace cs else Some c)"

text \<open>A repeated key overwrites the earlier value, as a map store does.\<close>

fun put_all :: "(go_string \<times> 'v) list \<Rightarrow> (go_string \<times> 'v) list \<Rightarrow> (go_string \<times> 'v) list" where
  "put_all m [] = m"
| "put_all m ((k, v) # es) = put_all ((k, v) # filter (\<lambda>e. fst e \<noteq> k) m) es"

definition unmarshal_raw_map :: "go_string \<Rightarrow> (go_string \<times> raw_json) list option" where
  "unmarshal_raw_map s =
     (if \<not> json_Valid s then None
      else if first_nonspace s = Some (CHR ''{'') then Some (put_all [] (split_object s))
      else if first_nonspace s = Some (CHR ''n'') then Some []
      else None)"

text \<open>
  \<^verbatim>\<open>appendCompact\<close> with HTML escaping: white space between tokens goes, and
  \<^verbatim>\<open>< > &\<close> and the two line separators are written as escapes.
\<close>

fun compact_body :: "scanner \<Rightarrow> nat \<Rightarrow> go_string \<Rightarrow> raw_json" where
  "compact_body s skip [] = []"
| "compact_body s skip (c # cs) =
     (let (v, s') = scan_step s c in
      if v = ScanSkipSpace \<or> v = ScanEnd \<or> v = ScanError then compact_body s' (skip - 1) cs
      else if 0 < skip then compact_body s' (skip - 1) cs
      else if html_unsafe c then hex4 (of_char c) @ compact_body s' 0 cs
      else if line_separator (c # cs)
        then (if cs ! 1 = CHR 0xA8 then hex4 0x2028 else hex4 0x2029) @ compact_body s' 2 cs
      else c # compact_body s' 0 cs)"

definition json_compact :: "raw_json \<Rightarrow> raw_json" where
  "json_compact s = compact_body scan_reset 0 s"

fun bytes_le :: "go_string \<Rightarrow> go_string \<Rightarrow> bool" where
  "bytes_le [] ys = True"
| "bytes_le (x # xs) [] = False"
| "bytes_le (x # xs) (y # ys) =
     ((of_char x :: nat) < of_char y \<or> (x = y \<and> bytes_le xs ys))"

fun insert_entry :: "go_string \<times> 'v \<Rightarrow> (go_string \<times> 'v) list \<Rightarrow> (go_string \<times> 'v) list" where
  "insert_entry e [] = [e]"
| "insert_entry e (f # fs) = (if bytes_le (fst e) (fst f) then e # f # fs else f # insert_entry e fs)"

fun sort_entries :: "(go_string \<times> 'v) list \<Rightarrow> (go_string \<times> 'v) list" where
  "sort_entries [] = []"
| "sort_entries (e # es) = insert_entry e (sort_entries es)"

fun join_commas :: "raw_json list \<Rightarrow> raw_json" where
  "join_commas [] = []"
| "join_commas [x] = x"
| "join_commas (x # y # zs) = x @ '','' @ join_commas (y # zs)"

definition marshal_raw_map :: "(go_string \<times> raw_json) list \<Rightarrow> raw_json" where
  "marshal_raw_map m =
     ''{'' @ join_commas (map (\<lambda>(k, v). json_quote k @ '':'' @ json_compact v) (sort_entries m)) @ ''}''"

section \<open>Tool input sanitising\<close>

text \<open>
  \<^verbatim>\<open>sanitizeAnthropicToolUseInput\<close>: the \<^verbatim>\<open>Read\<close> tool rejects an empty \<^verbatim>\<open>pages\<close> argument, so it is
  dropped; everything else passes through byte for byte.
\<close>

definition sanitizeAnthropicToolUseInput :: "go_string \<Rightarrow> go_string \<Rightarrow> raw_json" where
  "sanitizeAnthropicToolUseInput name raw =
     (if name \<noteq> ''Read'' \<or> raw = [] then raw
      else case unmarshal_raw_map raw of
        None \<Rightarrow> raw
      | Some input \<Rightarrow>
          (case map_of input ''pages'' of
             None \<Rightarrow> raw
           | Some pages \<Rightarrow>
               if pages \<noteq> [CHR 0x22, CHR 0x22] then raw
               else marshal_raw_map (filter (\<lambda>e. fst e \<noteq> ''pages'') input)))"

lemma sanitize_other_tool [simp]: "name \<noteq> ''Read'' \<Longrightarrow> sanitizeAnthropicToolUseInput name raw = raw"
  by (simp add: sanitizeAnthropicToolUseInput_def)

lemma sanitize_empty [simp]: "sanitizeAnthropicToolUseInput name [] = []"
  by (simp add: sanitizeAnthropicToolUseInput_def)

lemma marshal_raw_map_nonempty [simp]: "marshal_raw_map m \<noteq> []"
  by (simp add: marshal_raw_map_def)

lemma sanitize_nonempty: "raw \<noteq> [] \<Longrightarrow> sanitizeAnthropicToolUseInput name raw \<noteq> []"
  by (auto simp: sanitizeAnthropicToolUseInput_def split: option.splits)

section \<open>Where a valid text can end\<close>

text \<open>
  Facts about where the scanner can be: the top value has ended only in two states, and a literal
  under way is a rest of \<^verbatim>\<open>true\<close>, \<^verbatim>\<open>false\<close> or \<^verbatim>\<open>null\<close>.
\<close>

fun literal_ok :: "scan_state \<Rightarrow> bool" where
  "literal_ok (InLiteral ls) \<longleftrightarrow> list_all (\<lambda>c. c \<in> set ''truefalsenull'') ls"
| "literal_ok _ = True"

definition scanner_ok :: "scanner \<Rightarrow> bool" where
  "scanner_ok s \<longleftrightarrow> literal_ok (sc_step s) \<and>
     (sc_endTop s \<longrightarrow> sc_step s = EndTop \<or> sc_step s = ScanErr)"

lemma scanner_ok_error [simp]: "scanner_ok (snd (scan_error s))"
  by (simp add: scanner_ok_def scan_error_def)

lemma scanner_ok_go_to: "\<not> sc_endTop s \<Longrightarrow> literal_ok st \<Longrightarrow> scanner_ok (snd (go_to st s))"
  by (simp add: scanner_ok_def go_to_def)

lemma scanner_ok_push:
  "\<not> sc_endTop s \<Longrightarrow> literal_ok (sc_step s) \<Longrightarrow> scanner_ok (snd (pushParseState p v s))"
  by (simp add: pushParseState_def Let_def) (simp add: scanner_ok_def)

lemma scanner_ok_pop: "\<not> sc_endTop s \<Longrightarrow> scanner_ok (snd (popParseState v s))"
  by (simp add: popParseState_def scanner_ok_def Let_def)

lemma scanner_ok_end_top: "sc_step s = EndTop \<Longrightarrow> scanner_ok (snd (stateEndTop s c))"
  by (simp add: stateEndTop_def scanner_ok_def)

lemma scanner_ok_end_value: "\<not> sc_endTop s \<Longrightarrow> scanner_ok (snd (stateEndValue s c))"
proof (cases "sc_parseState s")
  case Nil
  then show ?thesis by (simp add: stateEndValue_def scanner_ok_end_top)
next
  case (Cons p ps)
  assume "\<not> sc_endTop s"
  then show ?thesis using Cons
    by (cases p) (simp_all add: stateEndValue_def scanner_ok_pop, simp_all add: scanner_ok_def)
qed

lemma scanner_ok_begin_literal: "\<not> sc_endTop s \<Longrightarrow> literal_ok st \<Longrightarrow> scanner_ok (snd (begin_literal st s))"
  by (simp add: begin_literal_def scanner_ok_def)

lemma scanner_ok_begin_value:
  "\<not> sc_endTop s \<Longrightarrow> scanner_ok s \<Longrightarrow> scanner_ok (snd (stateBeginValue s c))"
  by (simp add: stateBeginValue_def scanner_ok_begin_literal scanner_ok_push)

lemma scanner_ok_begin_string:
  "\<not> sc_endTop s \<Longrightarrow> scanner_ok s \<Longrightarrow> scanner_ok (snd (stateBeginString s c))"
  by (simp add: stateBeginString_def scanner_ok_begin_literal)

lemma scanner_ok_state0: "\<not> sc_endTop s \<Longrightarrow> scanner_ok (snd (state0 s c))"
  by (simp add: state0_def scanner_ok_go_to scanner_ok_end_value)

lemma scanner_ok_esign: "\<not> sc_endTop s \<Longrightarrow> scanner_ok (snd (stateESign s c))"
  by (simp add: stateESign_def scanner_ok_go_to)

lemmas scanner_ok_states =
  scanner_ok_go_to scanner_ok_end_value scanner_ok_begin_value scanner_ok_begin_string scanner_ok_state0
  scanner_ok_esign

lemma scanner_ok_step:
  assumes "scanner_ok s"
  shows "scanner_ok (snd (scan_step s c))"
proof (cases "sc_endTop s")
  case True
  then have "sc_step s = EndTop \<or> sc_step s = ScanErr" using assms by (simp add: scanner_ok_def)
  then show ?thesis
  proof
    assume "sc_step s = EndTop"
    then show ?thesis by (simp add: scan_step_def scanner_ok_end_top)
  next
    assume "sc_step s = ScanErr"
    then show ?thesis using assms by (simp add: scan_step_def)
  qed
next
  case False
  show ?thesis
  proof (cases "sc_step s")
    case (InLiteral ls)
    then show ?thesis
      using assms False
      by (cases ls) (auto simp: scan_step_def scanner_ok_go_to scanner_ok_end_value scanner_ok_def [of s])
  next
    case (InStringEscU k)
    then show ?thesis using False by (cases k) (simp_all add: scan_step_def scanner_ok_go_to)
  qed (use assms False in \<open>simp_all add: scan_step_def scanner_ok_states scanner_ok_end_top\<close>)
qed

text \<open>A byte that no state accepts outside a string does not end a valid text.\<close>

lemma not_valid_at_paren:
  assumes "scanner_ok s"
  shows "\<not> check_valid s '')''"
proof -
  have c: "\<not> json_space CHR '')''" "\<not> json_digit CHR '')''" "\<not> json_hex CHR '')''"
    by (simp_all add: json_space_def json_digit_def json_hex_def)
  have err: "scan_eof (s\<lparr>sc_step := ScanErr\<rparr>) = False" for s by (simp add: scan_eof_def)
  have ev: "\<not> (fst (stateEndValue u CHR '')'') \<noteq> ScanError \<and> scan_eof (snd (stateEndValue u CHR '')'')))" for u
    using c by (cases "sc_parseState u")
      (auto simp: stateEndValue_def stateEndTop_def scan_error_def scan_eof_def split: parse_state.splits)
  show ?thesis
  proof (cases "sc_step s")
    case InString
    then show ?thesis using assms by (simp add: scan_step_def scan_eof_def go_to_def scanner_ok_def)
  next
    case (InLiteral ls)
    then show ?thesis
      using assms ev [of s] by (cases ls) (auto simp: scan_step_def scan_error_def split_beta scanner_ok_def)
  qed (use c ev in \<open>auto simp: scan_step_def stateBeginValue_def stateBeginString_def state0_def stateESign_def
      stateEndTop_def scan_error_def split_beta err\<close>)
qed

lemma valid_not_ending_in_paren: "scanner_ok s \<Longrightarrow> \<not> check_valid s (bs @ '')'')"
proof (induction bs arbitrary: s)
  case Nil
  then show ?case using not_valid_at_paren by simp
next
  case (Cons b bs)
  then show ?case using scanner_ok_step [of s b] by (auto simp: split_beta)
qed

lemma json_Valid_no_trailing_paren: "\<not> json_Valid (bs @ '')'')"
  using valid_not_ending_in_paren [of scan_reset]
  by (simp add: json_Valid_def scan_reset_def scanner_ok_def)

end
