(* ===== verification/Client_Deltas.thy ===== *)
theory Client_Deltas
  imports Api_Types
begin

text \<open>
  What a client reads from a stream of any of the three protocols: a sequence of text,
  reasoning and tool-argument fragments.
\<close>

datatype client_delta = TextDelta go_string | ThinkingDelta go_string | ArgsDelta go_string

definition tagged :: "(go_string \<Rightarrow> client_delta) \<Rightarrow> go_string \<Rightarrow> client_delta list" where
  "tagged c t = (if t = [] then [] else [c t])"

fun text_of :: "client_delta \<Rightarrow> go_string" where
  "text_of (TextDelta t) = t"
| "text_of (ThinkingDelta t) = []"
| "text_of (ArgsDelta t) = []"

lemma text_of_tagged [simp]:
  "concat (map text_of (tagged TextDelta t)) = t"
  "concat (map text_of (tagged ThinkingDelta t)) = []"
  "concat (map text_of (tagged ArgsDelta t)) = []"
  by (simp_all add: tagged_def)

lemma text_of_concat:
  "concat (map text_of (concat (map f es))) = concat (map (\<lambda>e. concat (map text_of (f e))) es)"
  by (induction es) simp_all

text \<open>The fragments of the visible content: text and reasoning.\<close>

fun is_content :: "client_delta \<Rightarrow> bool" where
  "is_content (ArgsDelta t) = False"
| "is_content (TextDelta t) = True"
| "is_content (ThinkingDelta t) = True"

lemma filter_content_tagged [simp]:
  "filter is_content (tagged TextDelta t) = tagged TextDelta t"
  "filter is_content (tagged ThinkingDelta t) = tagged ThinkingDelta t"
  "filter is_content (tagged ArgsDelta t) = []"
  by (simp_all add: tagged_def)

text \<open>The reasoning and text fragments of a Chat Completions chunk.\<close>

definition chunk_content :: "ChatCompletionsChunk \<Rightarrow> client_delta list" where
  "chunk_content c =
     concat (map (\<lambda>ch.
       (case cd_ReasoningContent (ccc_Delta ch) of None \<Rightarrow> [] | Some t \<Rightarrow> tagged ThinkingDelta t) @
       (case cd_Content (ccc_Delta ch) of None \<Rightarrow> [] | Some t \<Rightarrow> tagged TextDelta t))
       (chk_Choices c))"

text \<open>The argument fragments of a tool call, and the indices of the calls a chunk mentions.\<close>

definition call_args :: "int \<Rightarrow> ChatToolCall \<Rightarrow> go_string" where
  "call_args i c = (if go_get 0 (ctc_Index c) = i then cfc_Arguments (ctc_Function c) else [])"

definition chunk_args :: "int \<Rightarrow> ChatCompletionsChunk \<Rightarrow> go_string" where
  "chunk_args i c =
     concat (map (\<lambda>ch. concat (map (call_args i) (cd_ToolCalls (ccc_Delta ch)))) (chk_Choices c))"

definition chunk_calls :: "ChatCompletionsChunk \<Rightarrow> int list" where
  "chunk_calls c =
     concat (map (\<lambda>ch. map (\<lambda>t. go_get 0 (ctc_Index t)) (cd_ToolCalls (ccc_Delta ch))) (chk_Choices c))"

fun thinking_of :: "client_delta \<Rightarrow> go_string" where
  "thinking_of (ThinkingDelta t) = t"
| "thinking_of (TextDelta t) = []"
| "thinking_of (ArgsDelta t) = []"

lemma thinking_of_tagged [simp]:
  "concat (map thinking_of (tagged TextDelta t)) = []"
  "concat (map thinking_of (tagged ThinkingDelta t)) = t"
  by (simp_all add: tagged_def)

lemma thinking_of_concat:
  "concat (map thinking_of (concat (map f es))) = concat (map (\<lambda>e. concat (map thinking_of (f e))) es)"
  by (induction es) simp_all

end
