(* ===== verification/Anthropic_Protocol.thy ===== *)
theory Anthropic_Protocol
  imports Client_Deltas
begin

text \<open>
  The Anthropic message stream as a specification. First the shapes of the events the
  converters emit (the composite literals of the sources), then the monitors that say
  which sequences of them are a message stream: content blocks are opened and closed
  one at a time under consecutive indices, a delta goes to a block that was started,
  and a message is \<^verbatim>\<open>message_start\<close>, blocks, \<^verbatim>\<open>message_delta\<close>, \<^verbatim>\<open>message_stop\<close>.
\<close>

section \<open>Event literals\<close>

definition content_block_start :: "int \<Rightarrow> AnthropicContentBlock \<Rightarrow> AnthropicStreamEvent" where
  "content_block_start i b =
     AnthropicStreamEvent_zero\<lparr>ae_Type := ''content_block_start'', ae_Index := Some i,
       ae_ContentBlock := Some b\<rparr>"

definition content_block_delta :: "int \<Rightarrow> AnthropicDelta \<Rightarrow> AnthropicStreamEvent" where
  "content_block_delta i d =
     AnthropicStreamEvent_zero\<lparr>ae_Type := ''content_block_delta'', ae_Index := Some i,
       ae_Delta := Some d\<rparr>"

definition content_block_stop :: "int \<Rightarrow> AnthropicStreamEvent" where
  "content_block_stop i =
     AnthropicStreamEvent_zero\<lparr>ae_Type := ''content_block_stop'', ae_Index := Some i\<rparr>"

definition message_start :: "go_string \<Rightarrow> go_string \<Rightarrow> AnthropicStreamEvent" where
  "message_start mid model =
     AnthropicStreamEvent_zero\<lparr>ae_Type := ''message_start'',
       ae_Message := Some (AnthropicResponse_zero\<lparr>ar_ID := mid, ar_Type := ''message'',
         ar_Role := ''assistant'', ar_Content := [], ar_Model := model, ar_StopReason := None,
         ar_Usage := AnthropicUsage_zero\<rparr>)\<rparr>"

definition message_delta :: "go_string \<Rightarrow> AnthropicUsage \<Rightarrow> AnthropicStreamEvent" where
  "message_delta reason u =
     AnthropicStreamEvent_zero\<lparr>ae_Type := ''message_delta'',
       ae_Delta := Some (AnthropicDelta_zero\<lparr>ad_StopReason := reason\<rparr>), ae_Usage := Some u\<rparr>"

definition message_stop :: AnthropicStreamEvent where
  "message_stop = AnthropicStreamEvent_zero\<lparr>ae_Type := ''message_stop''\<rparr>"

definition text_delta :: "go_string \<Rightarrow> AnthropicDelta" where
  "text_delta t = AnthropicDelta_zero\<lparr>ad_Type := ''text_delta'', ad_Text := t\<rparr>"

definition thinking_delta :: "go_string \<Rightarrow> AnthropicDelta" where
  "thinking_delta t = AnthropicDelta_zero\<lparr>ad_Type := ''thinking_delta'', ad_Thinking := t\<rparr>"

definition signature_delta :: "go_string \<Rightarrow> AnthropicDelta" where
  "signature_delta t = AnthropicDelta_zero\<lparr>ad_Type := ''signature_delta'', ad_Signature := t\<rparr>"

definition input_json_delta :: "go_string \<Rightarrow> AnthropicDelta" where
  "input_json_delta t = AnthropicDelta_zero\<lparr>ad_Type := ''input_json_delta'', ad_PartialJSON := t\<rparr>"

definition text_block :: "go_string \<Rightarrow> AnthropicContentBlock" where
  "text_block t = AnthropicContentBlock_zero\<lparr>acb_Type := ''text'', acb_Text := t\<rparr>"

definition thinking_block :: "go_string \<Rightarrow> go_string \<Rightarrow> AnthropicContentBlock" where
  "thinking_block t sg =
     AnthropicContentBlock_zero\<lparr>acb_Type := ''thinking'', acb_Thinking := t, acb_Signature := sg\<rparr>"

definition tool_use_block :: "go_string \<Rightarrow> go_string \<Rightarrow> raw_json \<Rightarrow> AnthropicContentBlock" where
  "tool_use_block i name inp =
     AnthropicContentBlock_zero\<lparr>acb_Type := ''tool_use'', acb_ID := i, acb_Name := name,
       acb_Input := inp\<rparr>"

lemma event_types [simp]:
  "ae_Type (content_block_start i b) = ''content_block_start''"
  "ae_Type (content_block_delta i d) = ''content_block_delta''"
  "ae_Type (content_block_stop i) = ''content_block_stop''"
  "ae_Type (message_start x m) = ''message_start''"
  "ae_Type (message_delta r u) = ''message_delta''"
  "ae_Type message_stop = ''message_stop''"
  by (simp_all add: content_block_start_def content_block_delta_def content_block_stop_def
      message_start_def message_delta_def message_stop_def)

lemma event_indices [simp]:
  "ae_Index (content_block_start i b) = Some i"
  "ae_Index (content_block_delta i d) = Some i"
  "ae_Index (content_block_stop i) = Some i"
  by (simp_all add: content_block_start_def content_block_delta_def content_block_stop_def)

lemma event_payloads [simp]:
  "ae_ContentBlock (content_block_start i b) = Some b"
  "ae_Delta (content_block_start i b) = None"
  "ae_Delta (content_block_delta i d) = Some d"
  "ae_Delta (content_block_stop i) = None"
  "ae_Delta (message_start x m) = None"
  "ae_Delta (message_delta r u) = Some (AnthropicDelta_zero\<lparr>ad_StopReason := r\<rparr>)"
  "ae_Delta message_stop = None"
  "ae_Usage (message_delta r u) = Some u"
  by (simp_all add: content_block_start_def content_block_delta_def content_block_stop_def
      message_start_def message_delta_def message_stop_def AnthropicStreamEvent_zero_def)

lemma delta_payloads [simp]:
  "ad_Type (text_delta t) = ''text_delta''" "ad_Text (text_delta t) = t"
  "ad_Type (thinking_delta t) = ''thinking_delta''" "ad_Thinking (thinking_delta t) = t"
  "ad_Type (signature_delta t) = ''signature_delta''" "ad_Signature (signature_delta t) = t"
  "ad_Type (input_json_delta t) = ''input_json_delta''" "ad_PartialJSON (input_json_delta t) = t"
  "ad_Text (thinking_delta t) = []" "ad_Text (signature_delta t) = []"
  "ad_Text (input_json_delta t) = []" "ad_Thinking (text_delta t) = []"
  "ad_Thinking (signature_delta t) = []" "ad_Thinking (input_json_delta t) = []"
  "ad_PartialJSON (text_delta t) = []" "ad_PartialJSON (thinking_delta t) = []"
  "ad_PartialJSON (signature_delta t) = []"
  "ad_Text AnthropicDelta_zero = []" "ad_Thinking AnthropicDelta_zero = []"
  "ad_PartialJSON AnthropicDelta_zero = []" "ad_Type AnthropicDelta_zero = []"
  by (simp_all add: text_delta_def thinking_delta_def signature_delta_def input_json_delta_def
      AnthropicDelta_zero_def)

section \<open>The block protocol\<close>

text \<open>
  \<open>bp_next\<close> is the index of the open block, or of the block to come; \<open>bp_open\<close> tells which.
  With \<open>strict\<close> a delta must go to the open block, otherwise to any block that was started.
\<close>

record block_phase =
  bp_next :: int
  bp_open :: bool

definition started :: "block_phase \<Rightarrow> int \<Rightarrow> bool" where
  "started p i \<longleftrightarrow> 0 \<le> i \<and> (i < bp_next p \<or> (bp_open p \<and> i = bp_next p))"

definition block_monitor :: "bool \<Rightarrow> (block_phase, AnthropicStreamEvent) monitor" where
  "block_monitor strict p e =
     (if ae_Type e = ''content_block_start'' then
        (if \<not> bp_open p \<and> ae_Index e = Some (bp_next p) \<and> ae_ContentBlock e \<noteq> None
         then Some (p\<lparr>bp_open := True\<rparr>) else None)
      else if ae_Type e = ''content_block_stop'' then
        (if bp_open p \<and> ae_Index e = Some (bp_next p)
         then Some (p\<lparr>bp_next := bp_next p + 1, bp_open := False\<rparr>) else None)
      else if ae_Type e = ''content_block_delta'' then
        (case ae_Index e of
           None \<Rightarrow> None
         | Some i \<Rightarrow>
             if ae_Delta e \<noteq> None \<and>
                (if strict then bp_open p \<and> i = bp_next p else started p i)
             then Some p else None)
      else Some p)"

lemma block_monitor_events [simp]:
  "block_monitor strict p (content_block_start i b) =
     (if \<not> bp_open p \<and> i = bp_next p then Some (p\<lparr>bp_open := True\<rparr>) else None)"
  "block_monitor strict p (content_block_stop i) =
     (if bp_open p \<and> i = bp_next p
      then Some (p\<lparr>bp_next := bp_next p + 1, bp_open := False\<rparr>) else None)"
  "block_monitor strict p (content_block_delta i d) =
     (if if strict then bp_open p \<and> i = bp_next p else started p i then Some p else None)"
  "block_monitor strict p (message_start x m) = Some p"
  "block_monitor strict p (message_delta r u) = Some p"
  "block_monitor strict p message_stop = Some p"
  by (simp_all add: block_monitor_def)

section \<open>The message protocol\<close>

datatype message_stage = Before | Within | Delivered | Ended

record message_phase = block_phase +
  mp_stage :: message_stage

text \<open>
  A message starts once, carries blocks only between \<^verbatim>\<open>message_start\<close> and \<^verbatim>\<open>message_delta\<close>,
  is delivered with no block open, and ends right after. Nothing follows
  \<^verbatim>\<open>message_stop\<close>.
\<close>

definition message_monitor :: "bool \<Rightarrow> (message_phase, AnthropicStreamEvent) monitor" where
  "message_monitor strict p e =
     (if ae_Type e = ''message_start'' then
        (if mp_stage p = Before then Some (p\<lparr>mp_stage := Within\<rparr>) else None)
      else if ae_Type e = ''message_delta'' then
        (if mp_stage p = Within \<and> \<not> bp_open p then Some (p\<lparr>mp_stage := Delivered\<rparr>) else None)
      else if ae_Type e = ''message_stop'' then
        (if mp_stage p = Delivered then Some (p\<lparr>mp_stage := Ended\<rparr>) else None)
      else if mp_stage p \<noteq> Within then None
      else
        (case block_monitor strict (block_phase.truncate p) e of
           None \<Rightarrow> None
         | Some q \<Rightarrow> Some \<lparr>bp_next = bp_next q, bp_open = bp_open q, mp_stage = Within\<rparr>))"

lemma message_monitor_events [simp]:
  "message_monitor strict p (message_start x m) =
     (if mp_stage p = Before then Some (p\<lparr>mp_stage := Within\<rparr>) else None)"
  "message_monitor strict p (message_delta r u) =
     (if mp_stage p = Within \<and> \<not> bp_open p then Some (p\<lparr>mp_stage := Delivered\<rparr>) else None)"
  "message_monitor strict p message_stop =
     (if mp_stage p = Delivered then Some (p\<lparr>mp_stage := Ended\<rparr>) else None)"
  by (simp_all add: message_monitor_def)

definition fresh_message :: message_phase where
  "fresh_message = \<lparr>bp_next = 0, bp_open = False, mp_stage = Before\<rparr>"

text \<open>A stream is a complete message when the monitor reads all of it and it has ended.\<close>

definition complete_message :: "bool \<Rightarrow> AnthropicStreamEvent list \<Rightarrow> bool" where
  "complete_message strict es \<longleftrightarrow>
     (case accepts (message_monitor strict) fresh_message es of
        None \<Rightarrow> False | Some p \<Rightarrow> mp_stage p = Ended)"

text \<open>The lemma that carries the block protocol into the message protocol.\<close>

lemma message_monitor_block:
  assumes "block_monitor strict (block_phase.truncate p) e = Some q" and "mp_stage p = Within"
    and "ae_Type e \<notin> {''message_start'', ''message_delta'', ''message_stop''}"
  shows "message_monitor strict p e =
     Some \<lparr>bp_next = bp_next q, bp_open = bp_open q, mp_stage = Within\<rparr>"
  using assms by (simp add: message_monitor_def)

definition block_event :: "AnthropicStreamEvent \<Rightarrow> bool" where
  "block_event e \<longleftrightarrow>
     ae_Type e \<in> {''content_block_start'', ''content_block_delta'', ''content_block_stop''}"

lemma accepts_block_to_message:
  assumes "accepts (block_monitor strict) (block_phase.truncate p) es = Some q"
    and "mp_stage p = Within" and "list_all block_event es"
  shows "accepts (message_monitor strict) p es =
     Some \<lparr>bp_next = bp_next q, bp_open = bp_open q, mp_stage = Within\<rparr>"
  using assms
proof (induction es arbitrary: p)
  case Nil
  then show ?case by (cases p) (auto simp: block_phase.truncate_def)
next
  case (Cons e es)
  obtain r where r: "block_monitor strict (block_phase.truncate p) e = Some r"
    and rest: "accepts (block_monitor strict) r es = Some q"
    using Cons.prems(1) by (auto split: option.splits)
  have "message_monitor strict p e =
      Some \<lparr>bp_next = bp_next r, bp_open = bp_open r, mp_stage = Within\<rparr>"
    using Cons.prems r by (intro message_monitor_block) (auto simp: block_event_def)
  moreover have "block_phase.truncate \<lparr>bp_next = bp_next r, bp_open = bp_open r, mp_stage = Within\<rparr> = r"
    by (cases r) (simp add: block_phase.truncate_def)
  ultimately show ?case using Cons.IH rest Cons.prems(3) by simp
qed

section \<open>What a client reads\<close>

text \<open>The text, the thinking and the tool input a client assembles from the deltas.\<close>

definition delta_text :: "AnthropicStreamEvent \<Rightarrow> go_string" where
  "delta_text e =
     (if ae_Type e = ''content_block_delta''
      then (case ae_Delta e of None \<Rightarrow> [] | Some d \<Rightarrow> if ad_Type d = ''text_delta'' then ad_Text d else [])
      else [])"

definition delta_thinking :: "AnthropicStreamEvent \<Rightarrow> go_string" where
  "delta_thinking e =
     (if ae_Type e = ''content_block_delta''
      then (case ae_Delta e of None \<Rightarrow> []
            | Some d \<Rightarrow> if ad_Type d = ''thinking_delta'' then ad_Thinking d else [])
      else [])"

definition delta_json :: "AnthropicStreamEvent \<Rightarrow> (int \<times> go_string) list" where
  "delta_json e =
     (case (ae_Index e, ae_Delta e) of
        (Some i, Some d) \<Rightarrow>
          if ae_Type e = ''content_block_delta'' \<and> ad_Type d = ''input_json_delta''
          then [(i, ad_PartialJSON d)] else []
      | _ \<Rightarrow> [])"

lemma delta_text_events [simp]:
  "delta_text (content_block_start i b) = []"
  "delta_text (content_block_stop i) = []"
  "delta_text (message_start x m) = []"
  "delta_text (message_delta r u) = []"
  "delta_text message_stop = []"
  "delta_text (content_block_delta i (text_delta t)) = t"
  "delta_text (content_block_delta i (thinking_delta t)) = []"
  "delta_text (content_block_delta i (signature_delta t)) = []"
  "delta_text (content_block_delta i (input_json_delta t)) = []"
  by (simp_all add: delta_text_def)

lemma delta_thinking_events [simp]:
  "delta_thinking (content_block_start i b) = []"
  "delta_thinking (content_block_stop i) = []"
  "delta_thinking (message_start x m) = []"
  "delta_thinking (message_delta r u) = []"
  "delta_thinking message_stop = []"
  "delta_thinking (content_block_delta i (text_delta t)) = []"
  "delta_thinking (content_block_delta i (thinking_delta t)) = t"
  "delta_thinking (content_block_delta i (signature_delta t)) = []"
  "delta_thinking (content_block_delta i (input_json_delta t)) = []"
  by (simp_all add: delta_thinking_def)

definition anth_delta :: "AnthropicStreamEvent \<Rightarrow> client_delta list" where
  "anth_delta e =
     (if ae_Type e = ''content_block_delta'' then
        (case ae_Delta e of
           None \<Rightarrow> []
         | Some d \<Rightarrow>
             if ad_Type d = ''text_delta'' then tagged TextDelta (ad_Text d)
             else if ad_Type d = ''thinking_delta'' then tagged ThinkingDelta (ad_Thinking d)
             else if ad_Type d = ''input_json_delta'' then tagged ArgsDelta (ad_PartialJSON d)
             else [])
      else [])"

lemma text_of_anth_delta: "concat (map text_of (anth_delta e)) = delta_text e"
  by (auto simp: anth_delta_def delta_text_def tagged_def split: option.splits)

lemma anth_delta_events [simp]:
  "anth_delta (content_block_start i b) = []"
  "anth_delta (content_block_stop i) = []"
  "anth_delta (message_start x m) = []"
  "anth_delta (message_delta r u) = []"
  "anth_delta message_stop = []"
  "anth_delta (content_block_delta i (text_delta t)) = tagged TextDelta t"
  "anth_delta (content_block_delta i (thinking_delta t)) = tagged ThinkingDelta t"
  "anth_delta (content_block_delta i (signature_delta t)) = []"
  "anth_delta (content_block_delta i (input_json_delta t)) = tagged ArgsDelta t"
  by (simp_all add: anth_delta_def)

end
