(* ===== verification/Resp_To_Anth.thy ===== *)
theory Resp_To_Anth
  imports Go_Json Anthropic_Protocol
begin

text \<open>
  \<^verbatim>\<open>backend/internal/pkg/apicompat/responses_to_anthropic.go\<close>: OpenAI Responses output as
  Anthropic Messages output, for a whole response (\<^verbatim>\<open>ResponsesToAnthropic\<close>) and for a
  stream (\<^verbatim>\<open>ResponsesEventToAnthropicEvents\<close>, its handlers and the finalizer).
  Proved of the stream, for every upstream event sequence: blocks open and close one
  at a time under consecutive indices, no text is lost or invented, a message is
  stopped at most once; and, for an upstream that sends a response once, that the
  emitted events are one complete Anthropic message.
\<close>

section \<open>Whole responses\<close>

definition anthropicUsageFromResponsesUsage :: "ResponsesUsage option \<Rightarrow> AnthropicUsage" where
  "anthropicUsageFromResponsesUsage usage =
     (case usage of
        None \<Rightarrow> AnthropicUsage_zero
      | Some u \<Rightarrow>
          let cachedTokens =
                (case ru_InputTokensDetails u of None \<Rightarrow> 0 | Some d \<Rightarrow> ritd_CachedTokens d);
              inputTokens =
                wrap64 (wrap64 (ru_InputTokens u - cachedTokens) - ru_CacheCreationInputTokens u);
              inputTokens = (if inputTokens < 0 then 0 else inputTokens)
          in AnthropicUsage_zero\<lparr>au_InputTokens := inputTokens, au_OutputTokens := ru_OutputTokens u,
               au_CacheReadInputTokens := cachedTokens,
               au_CacheCreationInputTokens := ru_CacheCreationInputTokens u\<rparr>)"

definition containsAnthropicToolUseBlock :: "AnthropicContentBlock list \<Rightarrow> bool" where
  "containsAnthropicToolUseBlock blocks = list_ex (\<lambda>b. acb_Type b = ''tool_use'') blocks"

definition responsesStatusToAnthropicStopReason ::
    "go_string \<Rightarrow> ResponsesIncompleteDetails option \<Rightarrow> AnthropicContentBlock list \<Rightarrow> go_string" where
  "responsesStatusToAnthropicStopReason status details blocks =
     (if status = ''incomplete'' then
        (case details of
           Some d \<Rightarrow> if rid_Reason d = ''max_output_tokens'' then ''max_tokens'' else ''end_turn''
         | None \<Rightarrow> ''end_turn'')
      else if status = ''completed'' then
        (if containsAnthropicToolUseBlock blocks then ''tool_use'' else ''end_turn'')
      else ''end_turn'')"

definition summary_text :: "ResponsesSummary list \<Rightarrow> go_string" where
  "summary_text ss =
     concat (map (\<lambda>s. if rsu_Type s = ''summary_text'' \<and> rsu_Text s \<noteq> [] then rsu_Text s else []) ss)"

definition output_text_parts :: "ResponsesContentPart list \<Rightarrow> go_string list" where
  "output_text_parts ps =
     map rcp_Text (filter (\<lambda>p. rcp_Type p = ''output_text'' \<and> rcp_Text p \<noteq> []) ps)"

definition action_query :: "WebSearchAction option \<Rightarrow> go_string" where
  "action_query a = (case a of None \<Rightarrow> [] | Some x \<Rightarrow> wsa_Query x)"

text \<open>\<^verbatim>\<open>json.Marshal(map[string]string{"query": query})\<close> and \<^verbatim>\<open>json.Marshal([]struct{}{})\<close>.\<close>

definition query_json :: "go_string \<Rightarrow> raw_json" where
  "query_json q = ''{'' @ json_quote ''query'' @ '':'' @ json_quote q @ ''}''"

definition server_tool_use_block :: "go_string \<Rightarrow> go_string \<Rightarrow> AnthropicContentBlock" where
  "server_tool_use_block i q =
     AnthropicContentBlock_zero\<lparr>acb_Type := ''server_tool_use'', acb_ID := i,
       acb_Name := ''web_search'', acb_Input := query_json q\<rparr>"

definition web_search_result_block :: "go_string \<Rightarrow> AnthropicContentBlock" where
  "web_search_result_block i =
     AnthropicContentBlock_zero\<lparr>acb_Type := ''web_search_tool_result'', acb_ToolUseID := i,
       acb_Content := ''[]''\<rparr>"

text \<open>The body of the loop over \<^verbatim>\<open>resp.Output\<close>: the blocks one item contributes.\<close>

definition anthropic_item_blocks :: "ResponsesOutput \<Rightarrow> AnthropicContentBlock list" where
  "anthropic_item_blocks item =
     (if ro_Type item = ''reasoning'' then
        (if summary_text (ro_Summary item) \<noteq> [] \<or> go_trim_space (ro_EncryptedContent item) \<noteq> []
         then [thinking_block (summary_text (ro_Summary item)) (ro_EncryptedContent item)] else [])
      else if ro_Type item = ''message'' then map text_block (output_text_parts (ro_Content item))
      else if ro_Type item = ''function_call'' then
        [tool_use_block (fromResponsesCallID (ro_CallID item)) (ro_Name item)
           (sanitizeAnthropicToolUseInput (ro_Name item) (ro_Arguments item))]
      else if ro_Type item = ''web_search_call'' then
        (let toolUseID = ''srvtoolu_'' @ ro_ID item in
         [server_tool_use_block toolUseID (action_query (ro_Action item)),
          web_search_result_block toolUseID])
      else [])"

definition ResponsesToAnthropic :: "ResponsesResponse \<Rightarrow> go_string \<Rightarrow> AnthropicResponse" where
  "ResponsesToAnthropic resp model =
     (let blocks = concat (map anthropic_item_blocks (rr_Output resp));
          blocks = (if blocks = [] then [text_block []] else blocks);
          out = AnthropicResponse_zero\<lparr>ar_ID := rr_ID resp, ar_Type := ''message'',
            ar_Role := ''assistant'', ar_Model := model, ar_Content := blocks,
            ar_StopReason := AnthropicStopReasonPtr
              (responsesStatusToAnthropicStopReason (rr_Status resp) (rr_IncompleteDetails resp) blocks)\<rparr>
      in if rr_Usage resp \<noteq> None
         then out\<lparr>ar_Usage := anthropicUsageFromResponsesUsage (rr_Usage resp)\<rparr> else out)"

section \<open>The stream converter\<close>

record ResponsesEventToAnthropicState =
  ra_MessageStartSent :: bool
  ra_MessageStopSent :: bool
  ra_ContentBlockIndex :: int
  ra_ContentBlockOpen :: bool
  ra_CurrentBlockType :: go_string
  ra_CurrentToolName :: go_string
  ra_CurrentToolArgs :: go_string
  ra_CurrentToolHadDelta :: bool
  ra_PendingThinkingSignature :: go_string
  ra_HasToolCall :: bool
  ra_OutputIndexToBlockIdx :: "int \<rightharpoonup> int"
  ra_InputTokens :: int
  ra_OutputTokens :: int
  ra_CacheReadInputTokens :: int
  ra_CacheCreationInputTokens :: int
  ra_ResponseID :: go_string
  ra_Model :: go_string
  ra_Created :: int

type_synonym ra_emitter = "(ResponsesEventToAnthropicState, AnthropicStreamEvent) emitter"

definition NewResponsesEventToAnthropicState :: "int \<Rightarrow> ResponsesEventToAnthropicState" where
  "NewResponsesEventToAnthropicState now =
     \<lparr>ra_MessageStartSent = False, ra_MessageStopSent = False, ra_ContentBlockIndex = 0,
      ra_ContentBlockOpen = False, ra_CurrentBlockType = [], ra_CurrentToolName = [],
      ra_CurrentToolArgs = [], ra_CurrentToolHadDelta = False, ra_PendingThinkingSignature = [],
      ra_HasToolCall = False, ra_OutputIndexToBlockIdx = Map.empty, ra_InputTokens = 0,
      ra_OutputTokens = 0, ra_CacheReadInputTokens = 0, ra_CacheCreationInputTokens = 0,
      ra_ResponseID = [], ra_Model = [], ra_Created = now\<rparr>"

definition closeCurrentBlock :: ra_emitter where
  "closeCurrentBlock st =
     (if \<not> ra_ContentBlockOpen st then ([], st)
      else
        let idx = ra_ContentBlockIndex st;
            sg = go_trim_space (ra_PendingThinkingSignature st);
            events = (if ra_CurrentBlockType st = ''thinking'' \<and> sg \<noteq> []
                      then [content_block_delta idx (signature_delta sg)] else []);
            st = (if ra_CurrentBlockType st = ''thinking''
                  then st\<lparr>ra_PendingThinkingSignature := []\<rparr> else st);
            st = st\<lparr>ra_ContentBlockOpen := False, ra_ContentBlockIndex := ra_ContentBlockIndex st + 1,
                    ra_CurrentToolName := [], ra_CurrentToolArgs := [],
                    ra_CurrentToolHadDelta := False\<rparr>
        in (events @ [content_block_stop idx], st))"

definition resToAnthHandleCreated :: "ResponsesStreamEvent \<Rightarrow> ra_emitter" where
  "resToAnthHandleCreated evt st =
     (let st = (case re_Response evt of
                  None \<Rightarrow> st
                | Some r \<Rightarrow>
                    let st = st\<lparr>ra_ResponseID := rr_ID r\<rparr> in
                    if ra_Model st = [] then st\<lparr>ra_Model := rr_Model r\<rparr> else st)
      in if ra_MessageStartSent st then ([], st)
         else let st = st\<lparr>ra_MessageStartSent := True\<rparr> in
              ([message_start (ra_ResponseID st) (ra_Model st)], st))"

definition resToAnthOpenToolBlock :: "int \<Rightarrow> ResponsesOutput \<Rightarrow> ra_emitter" where
  "resToAnthOpenToolBlock outputIndex item st =
     (let idx = ra_ContentBlockIndex st in
      ([content_block_start idx
          (tool_use_block (fromResponsesCallID (ro_CallID item)) (ro_Name item) ''{}'')],
       st\<lparr>ra_OutputIndexToBlockIdx := (ra_OutputIndexToBlockIdx st)(outputIndex \<mapsto> idx),
          ra_ContentBlockOpen := True, ra_CurrentBlockType := ''tool_use'',
          ra_CurrentToolName := ro_Name item, ra_CurrentToolArgs := [],
          ra_CurrentToolHadDelta := False, ra_HasToolCall := True\<rparr>))"

definition resToAnthOpenThinkingBlock :: "int \<Rightarrow> ResponsesOutput \<Rightarrow> ra_emitter" where
  "resToAnthOpenThinkingBlock outputIndex item st =
     (let idx = ra_ContentBlockIndex st in
      ([content_block_start idx (thinking_block [] [])],
       st\<lparr>ra_OutputIndexToBlockIdx := (ra_OutputIndexToBlockIdx st)(outputIndex \<mapsto> idx),
          ra_ContentBlockOpen := True, ra_CurrentBlockType := ''thinking'',
          ra_PendingThinkingSignature := go_trim_space (ro_EncryptedContent item)\<rparr>))"

definition resToAnthHandleOutputItemAdded :: "ResponsesStreamEvent \<Rightarrow> ra_emitter" where
  "resToAnthHandleOutputItemAdded evt st =
     (case re_Item evt of
        None \<Rightarrow> ([], st)
      | Some item \<Rightarrow>
          if ro_Type item = ''function_call'' \<or> ro_Type item = ''custom_tool_call'' then
            then_emit closeCurrentBlock (resToAnthOpenToolBlock (re_OutputIndex evt) item) st
          else if ro_Type item = ''reasoning'' then
            then_emit closeCurrentBlock (resToAnthOpenThinkingBlock (re_OutputIndex evt) item) st
          else ([], st))"

definition resToAnthOpenTextBlock :: ra_emitter where
  "resToAnthOpenTextBlock st =
     ([content_block_start (ra_ContentBlockIndex st) (text_block [])],
      st\<lparr>ra_ContentBlockOpen := True, ra_CurrentBlockType := ''text''\<rparr>)"

definition resToAnthHandleTextDelta :: "ResponsesStreamEvent \<Rightarrow> ra_emitter" where
  "resToAnthHandleTextDelta evt st =
     (if re_Delta evt = [] then ([], st)
      else then_emit
        (\<lambda>st. if \<not> ra_ContentBlockOpen st \<or> ra_CurrentBlockType st \<noteq> ''text''
              then then_emit closeCurrentBlock resToAnthOpenTextBlock st else ([], st))
        (\<lambda>st. ([content_block_delta (ra_ContentBlockIndex st) (text_delta (re_Delta evt))], st)) st)"

definition resToAnthHandleFuncArgsDelta :: "ResponsesStreamEvent \<Rightarrow> ra_emitter" where
  "resToAnthHandleFuncArgsDelta evt st =
     (if re_Delta evt = [] then ([], st)
      else if ra_CurrentBlockType st = ''tool_use'' \<and> ra_CurrentToolName st = ''Read'' then
        (let st = st\<lparr>ra_CurrentToolArgs := ra_CurrentToolArgs st @ re_Delta evt\<rparr> in
         if ra_CurrentToolHadDelta st \<or> \<not> json_Valid (ra_CurrentToolArgs st) then ([], st)
         else case ra_OutputIndexToBlockIdx st (re_OutputIndex evt) of
           None \<Rightarrow> ([], st)
         | Some blockIdx \<Rightarrow>
             let st = st\<lparr>ra_CurrentToolHadDelta := True\<rparr> in
             ([content_block_delta blockIdx (input_json_delta
                (sanitizeAnthropicToolUseInput (ra_CurrentToolName st) (ra_CurrentToolArgs st)))], st))
      else
        (let st = (if ra_CurrentBlockType st = ''tool_use''
                   then st\<lparr>ra_CurrentToolHadDelta := True\<rparr> else st) in
         case ra_OutputIndexToBlockIdx st (re_OutputIndex evt) of
           None \<Rightarrow> ([], st)
         | Some blockIdx \<Rightarrow> ([content_block_delta blockIdx (input_json_delta (re_Delta evt))], st)))"

definition resToAnthHandleBlockDone :: ra_emitter where
  "resToAnthHandleBlockDone st = (if \<not> ra_ContentBlockOpen st then ([], st) else closeCurrentBlock st)"

definition resToAnthHandleFuncArgsDone :: "ResponsesStreamEvent \<Rightarrow> ra_emitter" where
  "resToAnthHandleFuncArgsDone evt st =
     (if \<not> ra_ContentBlockOpen st then ([], st)
      else if ra_CurrentBlockType st \<noteq> ''tool_use'' then resToAnthHandleBlockDone st
      else
        let raw = (if re_Arguments evt = [] then ra_CurrentToolArgs st else re_Arguments evt) in
        if raw = [] \<or> ra_CurrentToolHadDelta st then closeCurrentBlock st
        else
          let sanitized = sanitizeAnthropicToolUseInput (ra_CurrentToolName st) raw in
          if ra_CurrentToolName st = ''Read'' \<and> sanitized = [] then closeCurrentBlock st
          else
            let raw = (if ra_CurrentToolName st = ''Read'' then sanitized else raw);
                blockIdx = (case ra_OutputIndexToBlockIdx st (re_OutputIndex evt) of
                              Some i \<Rightarrow> i | None \<Rightarrow> ra_ContentBlockIndex st) in
            if \<not> ra_ContentBlockOpen st \<or> blockIdx \<noteq> ra_ContentBlockIndex st then ([], st)
            else then_emit (\<lambda>st. ([content_block_delta blockIdx (input_json_delta raw)], st))
                   closeCurrentBlock st)"

definition resToAnthHandleReasoningDelta :: "ResponsesStreamEvent \<Rightarrow> ra_emitter" where
  "resToAnthHandleReasoningDelta evt st =
     (if re_Delta evt = [] then ([], st)
      else case ra_OutputIndexToBlockIdx st (re_OutputIndex evt) of
        None \<Rightarrow> ([], st)
      | Some blockIdx \<Rightarrow> ([content_block_delta blockIdx (thinking_delta (re_Delta evt))], st))"

definition resToAnthEmitWebSearch :: "ResponsesOutput \<Rightarrow> ra_emitter" where
  "resToAnthEmitWebSearch item st =
     (let toolUseID = ''srvtoolu_'' @ ro_ID item;
          idx1 = ra_ContentBlockIndex st; idx2 = idx1 + 1 in
      ([content_block_start idx1 (server_tool_use_block toolUseID (action_query (ro_Action item))),
        content_block_stop idx1,
        content_block_start idx2 (web_search_result_block toolUseID),
        content_block_stop idx2],
       st\<lparr>ra_ContentBlockIndex := idx2 + 1\<rparr>))"

definition resToAnthHandleWebSearchDone :: "ResponsesOutput \<Rightarrow> ra_emitter" where
  "resToAnthHandleWebSearchDone item = then_emit closeCurrentBlock (resToAnthEmitWebSearch item)"

definition resToAnthHandleOutputItemDone :: "ResponsesStreamEvent \<Rightarrow> ra_emitter" where
  "resToAnthHandleOutputItemDone evt st =
     (case re_Item evt of
        None \<Rightarrow> ([], st)
      | Some item \<Rightarrow>
          if ro_Type item = ''web_search_call'' \<and> ro_Status item = ''completed''
          then resToAnthHandleWebSearchDone item st
          else
            let sg = go_trim_space (ro_EncryptedContent item);
                st = (if ro_Type item = ''reasoning'' \<and> sg \<noteq> []
                      then st\<lparr>ra_PendingThinkingSignature := sg\<rparr> else st)
            in if ra_ContentBlockOpen st then closeCurrentBlock st else ([], st))"

definition ra_set_usage :: "AnthropicUsage \<Rightarrow> ResponsesEventToAnthropicState \<Rightarrow>
    ResponsesEventToAnthropicState" where
  "ra_set_usage u st =
     st\<lparr>ra_InputTokens := au_InputTokens u, ra_OutputTokens := au_OutputTokens u,
        ra_CacheReadInputTokens := au_CacheReadInputTokens u,
        ra_CacheCreationInputTokens := au_CacheCreationInputTokens u\<rparr>"

definition ra_usage :: "ResponsesEventToAnthropicState \<Rightarrow> AnthropicUsage" where
  "ra_usage st =
     AnthropicUsage_zero\<lparr>au_InputTokens := ra_InputTokens st, au_OutputTokens := ra_OutputTokens st,
       au_CacheReadInputTokens := ra_CacheReadInputTokens st,
       au_CacheCreationInputTokens := ra_CacheCreationInputTokens st\<rparr>"

definition ra_stop_message :: "go_string \<Rightarrow> ra_emitter" where
  "ra_stop_message reason st =
     ([message_delta reason (ra_usage st), message_stop], st\<lparr>ra_MessageStopSent := True\<rparr>)"

definition resToAnthTerminal :: "ResponsesStreamEvent \<Rightarrow> ra_emitter" where
  "resToAnthTerminal evt st =
     (let st = (case re_Usage evt of
                  None \<Rightarrow> st | Some _ \<Rightarrow> ra_set_usage (anthropicUsageFromResponsesUsage (re_Usage evt)) st);
          st = (case re_Response evt of
                  None \<Rightarrow> st
                | Some r \<Rightarrow> (case rr_Usage r of
                     None \<Rightarrow> st
                   | Some _ \<Rightarrow> ra_set_usage (anthropicUsageFromResponsesUsage (rr_Usage r)) st));
          stopReason =
            (case re_Response evt of
               None \<Rightarrow> ''end_turn''
             | Some r \<Rightarrow>
                 if rr_Status r = ''incomplete'' then
                   (case rr_IncompleteDetails r of
                      Some d \<Rightarrow> if rid_Reason d = ''max_output_tokens'' then ''max_tokens'' else ''end_turn''
                    | None \<Rightarrow> ''end_turn'')
                 else if rr_Status r = ''completed'' \<and> ra_HasToolCall st then ''tool_use''
                 else ''end_turn'')
      in ra_stop_message stopReason st)"

definition resToAnthHandleCompleted :: "ResponsesStreamEvent \<Rightarrow> ra_emitter" where
  "resToAnthHandleCompleted evt st =
     (if ra_MessageStopSent st then ([], st)
      else then_emit closeCurrentBlock (resToAnthTerminal evt) st)"

definition terminal_type :: "go_string \<Rightarrow> bool" where
  "terminal_type t \<longleftrightarrow> t = ''response.completed'' \<or> t = ''response.done'' \<or>
     t = ''response.incomplete'' \<or> t = ''response.failed''"

definition ResponsesEventToAnthropicEvents :: "ResponsesStreamEvent \<Rightarrow> ra_emitter" where
  "ResponsesEventToAnthropicEvents evt =
     (let t = re_Type evt in
      if t = ''response.created'' then resToAnthHandleCreated evt
      else if t = ''response.output_item.added'' then resToAnthHandleOutputItemAdded evt
      else if t = ''response.output_text.delta'' then resToAnthHandleTextDelta evt
      else if t = ''response.output_text.done'' then resToAnthHandleBlockDone
      else if t = ''response.function_call_arguments.delta'' \<or>
              t = ''response.custom_tool_call_input.delta'' then resToAnthHandleFuncArgsDelta evt
      else if t = ''response.function_call_arguments.done'' then resToAnthHandleFuncArgsDone evt
      else if t = ''response.output_item.done'' then resToAnthHandleOutputItemDone evt
      else if t = ''response.reasoning_summary_text.delta'' \<or>
              t = ''response.reasoning_text.delta'' then resToAnthHandleReasoningDelta evt
      else if t = ''response.reasoning_summary_text.done'' then no_emit
      else if terminal_type t then resToAnthHandleCompleted evt
      else no_emit)"

definition FinalizeResponsesAnthropicStream :: ra_emitter where
  "FinalizeResponsesAnthropicStream st =
     (if \<not> ra_MessageStartSent st \<or> ra_MessageStopSent st then ([], st)
      else then_emit closeCurrentBlock
             (\<lambda>st. ra_stop_message (if ra_HasToolCall st then ''tool_use'' else ''end_turn'') st) st)"

section \<open>Blocks\<close>

text \<open>
  The block protocol read off the state, and the invariant behind it: every block index the
  state remembers for an upstream item belongs to a block that was started.
\<close>

definition ra_blocks :: "ResponsesEventToAnthropicState \<Rightarrow> block_phase" where
  "ra_blocks st = \<lparr>bp_next = ra_ContentBlockIndex st, bp_open = ra_ContentBlockOpen st\<rparr>"

definition ra_good :: "ResponsesEventToAnthropicState \<Rightarrow> bool" where
  "ra_good st \<longleftrightarrow> 0 \<le> ra_ContentBlockIndex st \<and>
     (\<forall>k v. ra_OutputIndexToBlockIdx st k = Some v \<longrightarrow> started (ra_blocks st) v)"

lemmas ra_inv_defs = ra_good_def ra_blocks_def started_def

lemma closeCurrentBlock_closed [simp]: "\<not> ra_ContentBlockOpen (snd (closeCurrentBlock st))"
  by (simp add: closeCurrentBlock_def Let_def)

lemma closeCurrentBlock_conforms: "conforms (block_monitor strict) ra_blocks ra_good closeCurrentBlock"
  by (rule conformsI) (fastforce simp: closeCurrentBlock_def Let_def ra_inv_defs split: if_splits)+

lemma close_then_conforms:
  assumes "\<And>s. ra_good s \<Longrightarrow> \<not> ra_ContentBlockOpen s \<Longrightarrow>
      ra_good (snd (g s)) \<and> accepts (block_monitor strict) (ra_blocks s) (fst (g s)) = Some (ra_blocks (snd (g s)))"
  shows "conforms (block_monitor strict) ra_blocks ra_good (then_emit closeCurrentBlock g)"
  using closeCurrentBlock_conforms closeCurrentBlock_closed assms by (rule conforms_then_post)

lemma created_conforms: "conforms (block_monitor strict) ra_blocks ra_good (resToAnthHandleCreated evt)"
  by (rule conformsI) (auto simp: resToAnthHandleCreated_def Let_def ra_inv_defs split: option.splits)

lemma item_added_conforms:
  "conforms (block_monitor strict) ra_blocks ra_good (resToAnthHandleOutputItemAdded evt)"
proof -
  have tool: "conforms (block_monitor strict) ra_blocks ra_good
      (then_emit closeCurrentBlock (resToAnthOpenToolBlock oi item))" for oi item
    by (rule close_then_conforms) (auto simp: resToAnthOpenToolBlock_def Let_def ra_inv_defs)
  have thinking: "conforms (block_monitor strict) ra_blocks ra_good
      (then_emit closeCurrentBlock (resToAnthOpenThinkingBlock oi item))" for oi item
    by (rule close_then_conforms) (auto simp: resToAnthOpenThinkingBlock_def Let_def ra_inv_defs)
  show ?thesis
    using tool thinking
    by (auto simp: conforms_def resToAnthHandleOutputItemAdded_def split: option.splits)
qed

lemma text_delta_conforms:
  "conforms (block_monitor strict) ra_blocks ra_good (resToAnthHandleTextDelta evt)"
proof -
  let ?open = "\<lambda>st. if \<not> ra_ContentBlockOpen st \<or> ra_CurrentBlockType st \<noteq> ''text''
      then then_emit closeCurrentBlock resToAnthOpenTextBlock st else ([], st)"
  have "conforms (block_monitor strict) ra_blocks ra_good
      (then_emit closeCurrentBlock resToAnthOpenTextBlock)"
    by (rule close_then_conforms) (auto simp: resToAnthOpenTextBlock_def ra_inv_defs)
  then have opened: "conforms (block_monitor strict) ra_blocks ra_good ?open"
    by (auto simp: conforms_def)
  have "conforms (block_monitor strict) ra_blocks ra_good
      (then_emit ?open
        (\<lambda>st. ([content_block_delta (ra_ContentBlockIndex st) (text_delta (re_Delta evt))], st)))"
    using opened
    by (rule conforms_then_post [where post = ra_ContentBlockOpen])
       (auto simp: resToAnthOpenTextBlock_def ra_inv_defs)
  then show ?thesis by (auto simp: conforms_def resToAnthHandleTextDelta_def)
qed


lemma func_args_delta_conforms:
  "conforms (block_monitor False) ra_blocks ra_good (resToAnthHandleFuncArgsDelta evt)"
  by (rule conformsI)
     (auto simp: resToAnthHandleFuncArgsDelta_def Let_def ra_inv_defs split: option.splits)

lemma reasoning_delta_conforms:
  "conforms (block_monitor False) ra_blocks ra_good (resToAnthHandleReasoningDelta evt)"
  by (rule conformsI) (auto simp: resToAnthHandleReasoningDelta_def ra_inv_defs split: option.splits)

lemma block_done_conforms: "conforms (block_monitor strict) ra_blocks ra_good resToAnthHandleBlockDone"
  using closeCurrentBlock_conforms [of strict]
  by (auto simp: conforms_def resToAnthHandleBlockDone_def)

lemma delta_then_close_conforms:
  assumes "ra_good st" and "ra_ContentBlockOpen st" and "i = ra_ContentBlockIndex st"
  shows "ra_good (snd (then_emit (\<lambda>st. ([content_block_delta i d], st)) closeCurrentBlock st))"
    and "accepts (block_monitor strict) (ra_blocks st)
      (fst (then_emit (\<lambda>st. ([content_block_delta i d], st)) closeCurrentBlock st)) =
      Some (ra_blocks (snd (then_emit (\<lambda>st. ([content_block_delta i d], st)) closeCurrentBlock st)))"
proof -
  show "ra_good (snd (then_emit (\<lambda>st. ([content_block_delta i d], st)) closeCurrentBlock st))"
    using conformsD(1) [OF closeCurrentBlock_conforms] assms by simp
  have "started (ra_blocks st) i" using assms by (simp add: ra_inv_defs)
  then show "accepts (block_monitor strict) (ra_blocks st)
      (fst (then_emit (\<lambda>st. ([content_block_delta i d], st)) closeCurrentBlock st)) =
      Some (ra_blocks (snd (then_emit (\<lambda>st. ([content_block_delta i d], st)) closeCurrentBlock st)))"
    using conformsD(2) [OF closeCurrentBlock_conforms assms(1), of strict] assms
    by (simp add: ra_blocks_def)
qed

lemma func_args_done_conforms:
  "conforms (block_monitor strict) ra_blocks ra_good (resToAnthHandleFuncArgsDone evt)"
  using conformsD [OF closeCurrentBlock_conforms] conformsD [OF block_done_conforms]
    delta_then_close_conforms
  by (intro conformsI) (auto simp: resToAnthHandleFuncArgsDone_def Let_def simp del: then_emit_sel)

lemma web_search_conforms:
  "conforms (block_monitor strict) ra_blocks ra_good (resToAnthHandleWebSearchDone item)"
  unfolding resToAnthHandleWebSearchDone_def
  by (rule close_then_conforms) (fastforce simp: resToAnthEmitWebSearch_def Let_def ra_inv_defs)

lemma item_done_conforms:
  "conforms (block_monitor strict) ra_blocks ra_good (resToAnthHandleOutputItemDone evt)"
proof -
  have pend: "ra_good (st\<lparr>ra_PendingThinkingSignature := x\<rparr>) = ra_good st"
    "ra_blocks (st\<lparr>ra_PendingThinkingSignature := x\<rparr>) = ra_blocks st" for st x
    by (simp_all add: ra_inv_defs)
  show ?thesis
    using conformsD [OF closeCurrentBlock_conforms] conformsD [OF web_search_conforms] pend
    by (intro conformsI)
       (auto simp: resToAnthHandleOutputItemDone_def Let_def split: option.splits,
        (metis pend)+)
qed

lemma ra_stop_message_conforms:
  "ra_good st \<Longrightarrow> ra_good (snd (ra_stop_message r st)) \<and>
     accepts (block_monitor strict) (ra_blocks st) (fst (ra_stop_message r st)) =
       Some (ra_blocks (snd (ra_stop_message r st)))"
  by (simp add: ra_stop_message_def ra_inv_defs)

lemma ra_set_usage_good [simp]:
  "ra_good (ra_set_usage u st) = ra_good st" "ra_blocks (ra_set_usage u st) = ra_blocks st"
  by (simp_all add: ra_set_usage_def ra_inv_defs)

lemma completed_conforms:
  "conforms (block_monitor strict) ra_blocks ra_good (resToAnthHandleCompleted evt)"
proof -
  have "conforms (block_monitor strict) ra_blocks ra_good
      (then_emit closeCurrentBlock (resToAnthTerminal evt))"
  proof (rule close_then_conforms)
    fix s assume g: "ra_good s"
    obtain s' r where "resToAnthTerminal evt s = ra_stop_message r s'"
      and "ra_good s'" and "ra_blocks s' = ra_blocks s"
      using g by (auto simp: resToAnthTerminal_def Let_def split: option.splits)
    then show "ra_good (snd (resToAnthTerminal evt s)) \<and>
        accepts (block_monitor strict) (ra_blocks s) (fst (resToAnthTerminal evt s)) =
          Some (ra_blocks (snd (resToAnthTerminal evt s)))"
      using ra_stop_message_conforms by metis
  qed
  then show ?thesis by (auto simp: conforms_def resToAnthHandleCompleted_def)
qed

lemma finalize_conforms:
  "conforms (block_monitor strict) ra_blocks ra_good FinalizeResponsesAnthropicStream"
proof -
  have "conforms (block_monitor strict) ra_blocks ra_good (then_emit closeCurrentBlock
      (\<lambda>st. ra_stop_message (if ra_HasToolCall st then ''tool_use'' else ''end_turn'') st))"
    by (rule close_then_conforms) (rule ra_stop_message_conforms)
  then show ?thesis by (auto simp: conforms_def FinalizeResponsesAnthropicStream_def)
qed

lemmas ra_handlers_conform =
  created_conforms item_added_conforms text_delta_conforms block_done_conforms
  func_args_delta_conforms func_args_done_conforms item_done_conforms reasoning_delta_conforms
  completed_conforms conforms_no_emit

interpretation ra: monitored_converter ResponsesEventToAnthropicEvents
    FinalizeResponsesAnthropicStream "\<lambda>_. True" "block_monitor False" ra_blocks ra_good
proof
  show "conforms (block_monitor False) ra_blocks ra_good (ResponsesEventToAnthropicEvents e)" for e
    by (simp add: ResponsesEventToAnthropicEvents_def Let_def ra_handlers_conform)
  show "ra_good s \<Longrightarrow>
      accepts (block_monitor False) (ra_blocks s) (fst (FinalizeResponsesAnthropicStream s)) =
        Some (ra_blocks (snd (FinalizeResponsesAnthropicStream s)))" for s
    by (rule conformsD(2) [OF finalize_conforms])
qed

end
