(* ===== verification/Responses_Protocol.thy ===== *)
theory Responses_Protocol
  imports Client_Deltas
begin

text \<open>
  The OpenAI Responses stream as a specification: the deltas a client reads from it, the
  text a response carries, and the monitors that say what a terminal event owes the
  events before it.
\<close>

section \<open>What a client reads\<close>

definition resp_delta :: "ResponsesStreamEvent \<Rightarrow> client_delta list" where
  "resp_delta e =
     (if re_Type e = ''response.output_text.delta'' then tagged TextDelta (re_Delta e)
      else if re_Type e = ''response.reasoning_summary_text.delta'' then tagged ThinkingDelta (re_Delta e)
      else if re_Type e = ''response.function_call_arguments.delta'' then tagged ArgsDelta (re_Delta e)
      else [])"

definition resp_text :: "ResponsesStreamEvent \<Rightarrow> go_string" where
  "resp_text e = (if re_Type e = ''response.output_text.delta'' then re_Delta e else [])"

lemma text_of_resp_delta: "concat (map text_of (resp_delta e)) = resp_text e"
  by (auto simp: resp_delta_def resp_text_def tagged_def)

text \<open>The text of a response: the output_text parts of its message items.\<close>

definition parts_text :: "ResponsesContentPart list \<Rightarrow> go_string" where
  "parts_text ps = concat (map (\<lambda>p. if rcp_Type p = ''output_text'' then rcp_Text p else []) ps)"

definition items_text :: "ResponsesOutput list \<Rightarrow> go_string" where
  "items_text os = concat (map (\<lambda>i. if ro_Type i = ''message'' then parts_text (ro_Content i) else []) os)"

lemma parts_text_simps [simp]:
  "parts_text [] = []" "parts_text (ps @ qs) = parts_text ps @ parts_text qs"
  by (simp_all add: parts_text_def)

lemma items_text_simps [simp]:
  "items_text [] = []" "items_text (os @ qs) = items_text os @ items_text qs"
  by (simp_all add: items_text_def)

section \<open>Terminal events\<close>

definition resp_terminal :: "ResponsesStreamEvent \<Rightarrow> bool" where
  "resp_terminal e \<longleftrightarrow> re_Type e = ''response.completed'' \<or> re_Type e = ''response.incomplete''"

text \<open>
  The output of the terminal event is the list of the items that were reported done, each
  under its position as output index; there is at most one terminal event.
\<close>

definition items_monitor :: "(ResponsesOutput list \<times> bool, ResponsesStreamEvent) monitor" where
  "items_monitor p e =
     (let (outs, ended) = p in
      if re_Type e = ''response.output_item.done'' then
        (case re_Item e of
           None \<Rightarrow> None
         | Some item \<Rightarrow>
             if re_OutputIndex e = int (length outs) then Some (outs @ [item], ended) else None)
      else if resp_terminal e then
        (case re_Response e of
           None \<Rightarrow> None
         | Some r \<Rightarrow> if \<not> ended \<and> rr_Output r = outs then Some (outs, True) else None)
      else Some p)"

lemma items_monitor_terminals:
  "accepts items_monitor p es = Some q \<Longrightarrow>
     length (filter resp_terminal es) = (if snd q \<and> \<not> snd p then 1 else 0) \<and> (snd p \<longrightarrow> snd q)"
proof (induction es arbitrary: p)
  case Nil
  then show ?case by simp
next
  case (Cons e es)
  then obtain p' where p': "items_monitor p e = Some p'" and rest: "accepts items_monitor p' es = Some q"
    by (auto split: option.splits)
  have "snd p' = (snd p \<or> resp_terminal e)" and "resp_terminal e \<longrightarrow> \<not> snd p"
    using p' by (auto simp: items_monitor_def resp_terminal_def Let_def
        split: if_splits option.splits prod.splits)
  then show ?case using Cons.IH [OF rest] by auto
qed

text \<open>The text a terminal event carries is the text the deltas before it carried.\<close>

definition text_monitor :: "(go_string, ResponsesStreamEvent) monitor" where
  "text_monitor t e =
     (if resp_terminal e then
        (case re_Response e of
           None \<Rightarrow> None
         | Some r \<Rightarrow> if items_text (rr_Output r) = t then Some t else None)
      else Some (t @ resp_text e))"

end
