(* ===== verification/Anth_To_Resp.thy ===== *)
theory Anth_To_Resp
  imports Anthropic_Protocol
begin

text \<open>
  \<^verbatim>\<open>backend/internal/pkg/apicompat/anthropic_to_responses_response.go\<close>: Anthropic Messages
  output as OpenAI Responses output, for a whole response (\<^verbatim>\<open>AnthropicToResponsesResponse\<close>)
  and for a stream (\<^verbatim>\<open>AnthropicEventToResponsesEvents\<close>, its handlers and the finalizer).
  The identifiers that \<^verbatim>\<open>generateItemID\<close> draws come from the byte source the state carries.
  Proved of the stream, for every upstream event sequence: the sequence numbers are
  0, 1, 2, ..., the closed items are numbered by their position and are the output of the
  one terminal event, and no delta is lost or invented.
\<close>

section \<open>Whole responses\<close>

definition output_text_part :: "go_string \<Rightarrow> ResponsesContentPart" where
  "output_text_part t = ResponsesContentPart_zero\<lparr>rcp_Type := ''output_text'', rcp_Text := t\<rparr>"

definition message_item :: "go_string \<Rightarrow> ResponsesContentPart list \<Rightarrow> ResponsesOutput" where
  "message_item i parts =
     ResponsesOutput_zero\<lparr>ro_Type := ''message'', ro_ID := i, ro_Role := ''assistant'',
       ro_Content := parts, ro_Status := ''completed''\<rparr>"

text \<open>
  The loop over \<^verbatim>\<open>resp.Content\<close>: the output items, the message parts and the byte source
  are its state.
\<close>

fun anthropic_block_items ::
    "AnthropicContentBlock list \<Rightarrow> ResponsesOutput list \<Rightarrow> ResponsesContentPart list \<Rightarrow>
     rand_source \<Rightarrow> ResponsesOutput list \<times> ResponsesContentPart list \<times> rand_source" where
  "anthropic_block_items [] outputs msgParts r = (outputs, msgParts, r)"
| "anthropic_block_items (block # rest) outputs msgParts r =
     (if acb_Type block = ''thinking'' then
        (if acb_Thinking block \<noteq> [] then
           let (i, r) = generateItemID r in
           anthropic_block_items rest
             (outputs @ [ResponsesOutput_zero\<lparr>ro_Type := ''reasoning'', ro_ID := i,
                ro_Summary := [\<lparr>rsu_Type = ''summary_text'', rsu_Text = acb_Thinking block\<rparr>]\<rparr>])
             msgParts r
         else anthropic_block_items rest outputs msgParts r)
      else if acb_Type block = ''text'' then
        anthropic_block_items rest outputs
          (if acb_Text block \<noteq> [] then msgParts @ [output_text_part (acb_Text block)] else msgParts) r
      else if acb_Type block = ''tool_use'' then
        (let args = (if acb_Input block \<noteq> [] then acb_Input block else ''{}'');
             (i, r) = generateItemID r in
         anthropic_block_items rest
           (outputs @ [ResponsesOutput_zero\<lparr>ro_Type := ''function_call'', ro_ID := i,
              ro_CallID := toResponsesCallID (acb_ID block), ro_Name := acb_Name block,
              ro_Arguments := args, ro_Status := ''completed''\<rparr>])
           msgParts r)
      else anthropic_block_items rest outputs msgParts r)"

definition anthropicStopReasonToResponsesStatus ::
    "go_string \<Rightarrow> AnthropicContentBlock list \<Rightarrow> go_string" where
  "anthropicStopReasonToResponsesStatus stopReason blocks =
     (if stopReason = ''max_tokens'' then ''incomplete''
      else if stopReason \<in> {''end_turn'', ''tool_use'', ''stop_sequence''} then ''completed''
      else ''completed'')"

text \<open>The usage both the whole-response and the streaming path report.\<close>

definition anthropic_total_usage :: "int \<Rightarrow> int \<Rightarrow> int \<Rightarrow> int \<Rightarrow> ResponsesUsage" where
  "anthropic_total_usage inp cacheRead cacheCreation out =
     (let totalInputTokens = wrap64 (wrap64 (inp + cacheRead) + cacheCreation);
          u = ResponsesUsage_zero\<lparr>ru_InputTokens := totalInputTokens, ru_OutputTokens := out,
                ru_TotalTokens := wrap64 (totalInputTokens + out),
                ru_CacheCreationInputTokens := cacheCreation\<rparr>
      in if 0 < cacheRead
         then u\<lparr>ru_InputTokensDetails :=
                  Some (ResponsesInputTokensDetails_zero\<lparr>ritd_CachedTokens := cacheRead\<rparr>)\<rparr>
         else u)"

definition AnthropicToResponsesResponse ::
    "AnthropicResponse \<Rightarrow> rand_source \<Rightarrow> ResponsesResponse \<times> rand_source" where
  "AnthropicToResponsesResponse resp r =
     (let (i, r) = (if ar_ID resp = [] then generateResponsesID r else (ar_ID resp, r));
          (outputs, msgParts, r) = anthropic_block_items (ar_Content resp) [] [] r;
          (outputs, r) =
            (if msgParts \<noteq> [] then
               let (mi, r) = generateItemID r in (outputs @ [message_item mi msgParts], r)
             else (outputs, r));
          (outputs, r) =
            (if outputs = [] then
               let (mi, r) = generateItemID r in (outputs @ [message_item mi [output_text_part []]], r)
             else (outputs, r));
          status = anthropicStopReasonToResponsesStatus
                     (AnthropicStopReasonString (ar_StopReason resp)) (ar_Content resp);
          u = ar_Usage resp
      in (ResponsesResponse_zero\<lparr>rr_ID := i, rr_Object := ''response'', rr_Model := ar_Model resp,
            rr_Output := outputs, rr_Status := status,
            rr_IncompleteDetails :=
              (if status = ''incomplete'' then Some \<lparr>rid_Reason = ''max_output_tokens''\<rparr> else None),
            rr_Usage := Some (anthropic_total_usage (au_InputTokens u) (au_CacheReadInputTokens u)
              (au_CacheCreationInputTokens u) (au_OutputTokens u))\<rparr>, r))"

section \<open>The stream converter\<close>

record AnthropicEventToResponsesState =
  as_ResponseID :: go_string
  as_Model :: go_string
  as_Created :: int
  as_SequenceNumber :: int
  as_CreatedSent :: bool
  as_CompletedSent :: bool
  as_OutputIndex :: int
  as_CurrentItemID :: go_string
  as_CurrentItemType :: go_string
  as_ContentIndex :: int
  as_TextAccum :: go_string
  as_CurrentCallID :: go_string
  as_CurrentName :: go_string
  as_CurrentContent :: "ResponsesContentPart list"
  as_CurrentArgs :: go_string
  as_CurrentSummary :: go_string
  as_Outputs :: "ResponsesOutput list"
  as_InputTokens :: int
  as_OutputTokens :: int
  as_CacheReadInputTokens :: int
  as_CacheCreationInputTokens :: int
  as_StopReason :: go_string
  as_Rand :: rand_source

type_synonym as_emitter = "(AnthropicEventToResponsesState, ResponsesStreamEvent) emitter"

definition NewAnthropicEventToResponsesState ::
    "int \<Rightarrow> rand_source \<Rightarrow> AnthropicEventToResponsesState" where
  "NewAnthropicEventToResponsesState now r =
     \<lparr>as_ResponseID = [], as_Model = [], as_Created = now, as_SequenceNumber = 0,
      as_CreatedSent = False, as_CompletedSent = False, as_OutputIndex = 0,
      as_CurrentItemID = [], as_CurrentItemType = [], as_ContentIndex = 0, as_TextAccum = [],
      as_CurrentCallID = [], as_CurrentName = [], as_CurrentContent = [], as_CurrentArgs = [],
      as_CurrentSummary = [], as_Outputs = [], as_InputTokens = 0, as_OutputTokens = 0,
      as_CacheReadInputTokens = 0, as_CacheCreationInputTokens = 0, as_StopReason = [],
      as_Rand = r\<rparr>"

definition makeResponsesEvent :: "go_string \<Rightarrow> ResponsesStreamEvent \<Rightarrow> as_emitter" where
  "makeResponsesEvent eventType template st =
     (let seqno = as_SequenceNumber st in
      ([template\<lparr>re_Type := eventType, re_SequenceNumber := seqno\<rparr>],
       st\<lparr>as_SequenceNumber := seqno + 1\<rparr>))"

definition makeResponsesCreatedEvent :: as_emitter where
  "makeResponsesCreatedEvent st =
     (let seqno = as_SequenceNumber st in
      ([ResponsesStreamEvent_zero\<lparr>re_Type := ''response.created'', re_SequenceNumber := seqno,
          re_Response := Some (ResponsesResponse_zero\<lparr>rr_ID := as_ResponseID st,
            rr_Object := ''response'', rr_Model := as_Model st, rr_Status := ''in_progress'',
            rr_Output := []\<rparr>)\<rparr>],
       st\<lparr>as_SequenceNumber := seqno + 1\<rparr>))"

definition makeResponsesCompletedEvent ::
    "go_string \<Rightarrow> ResponsesIncompleteDetails option \<Rightarrow> as_emitter" where
  "makeResponsesCompletedEvent status incompleteDetails st =
     (let seqno = as_SequenceNumber st;
          usage = anthropic_total_usage (as_InputTokens st) (as_CacheReadInputTokens st)
                    (as_CacheCreationInputTokens st) (as_OutputTokens st);
          eventType = (if status = ''incomplete'' then ''response.incomplete''
                       else ''response.completed'')
      in ([ResponsesStreamEvent_zero\<lparr>re_Type := eventType, re_SequenceNumber := seqno,
             re_Response := Some (ResponsesResponse_zero\<lparr>rr_ID := as_ResponseID st,
               rr_Object := ''response'', rr_Model := as_Model st, rr_Status := status,
               rr_Output := as_Outputs st, rr_Usage := Some usage,
               rr_IncompleteDetails := incompleteDetails\<rparr>)\<rparr>],
          st\<lparr>as_SequenceNumber := seqno + 1\<rparr>))"

definition anthropicResponsesStreamTerminalState ::
    "go_string \<Rightarrow> go_string \<times> ResponsesIncompleteDetails option" where
  "anthropicResponsesStreamTerminalState stopReason =
     (if stopReason = ''max_tokens'' then (''incomplete'', Some \<lparr>rid_Reason = ''max_output_tokens''\<rparr>)
      else (''completed'', None))"

text \<open>\<^verbatim>\<open>closeCurrentResponsesItem\<close>: the item it assembles, the fields it resets, the event.\<close>

definition current_item :: "AnthropicEventToResponsesState \<Rightarrow> ResponsesOutput" where
  "current_item st =
     (let item = ResponsesOutput_zero\<lparr>ro_Type := as_CurrentItemType st,
                   ro_ID := as_CurrentItemID st, ro_Status := ''completed''\<rparr>
      in if as_CurrentItemType st = ''message'' then
           item\<lparr>ro_Role := ''assistant'', ro_Content := as_CurrentContent st\<rparr>
         else if as_CurrentItemType st = ''function_call'' then
           item\<lparr>ro_CallID := as_CurrentCallID st, ro_Name := as_CurrentName st,
                ro_Arguments := (if as_CurrentArgs st = [] then ''{}'' else as_CurrentArgs st)\<rparr>
         else if as_CurrentItemType st = ''reasoning'' then
           (if as_CurrentSummary st \<noteq> [] then
              item\<lparr>ro_Summary := [\<lparr>rsu_Type = ''summary_text'', rsu_Text = as_CurrentSummary st\<rparr>]\<rparr>
            else item)
         else item)"

definition reset_current_item ::
    "AnthropicEventToResponsesState \<Rightarrow> AnthropicEventToResponsesState" where
  "reset_current_item st =
     st\<lparr>as_CurrentItemType := [], as_CurrentItemID := [], as_CurrentCallID := [],
        as_CurrentName := [], as_CurrentContent := [], as_CurrentArgs := [],
        as_CurrentSummary := [], as_TextAccum := [], as_OutputIndex := as_OutputIndex st + 1,
        as_ContentIndex := 0\<rparr>"

definition closeCurrentResponsesItem :: as_emitter where
  "closeCurrentResponsesItem st =
     (if as_CurrentItemType st = [] then ([], st)
      else
        let item = current_item st;
            st = st\<lparr>as_Outputs := as_Outputs st @ [item]\<rparr>;
            st = reset_current_item st
        in makeResponsesEvent ''response.output_item.done''
             (ResponsesStreamEvent_zero\<lparr>re_OutputIndex := as_OutputIndex st - 1,
                re_Item := Some item\<rparr>) st)"

definition anthToResHandleMessageStart :: "AnthropicStreamEvent \<Rightarrow> as_emitter" where
  "anthToResHandleMessageStart evt st =
     (let st = (case ae_Message evt of
                  None \<Rightarrow> st
                | Some m \<Rightarrow>
                    let u = ar_Usage m;
                        st = st\<lparr>as_ResponseID := ar_ID m\<rparr>;
                        st = (if as_Model st = [] then st\<lparr>as_Model := ar_Model m\<rparr> else st);
                        st = (if 0 < au_InputTokens u
                              then st\<lparr>as_InputTokens := au_InputTokens u\<rparr> else st);
                        st = (if 0 < au_CacheReadInputTokens u
                              then st\<lparr>as_CacheReadInputTokens := au_CacheReadInputTokens u\<rparr> else st)
                    in if 0 < au_CacheCreationInputTokens u
                       then st\<lparr>as_CacheCreationInputTokens := au_CacheCreationInputTokens u\<rparr> else st)
      in if as_CreatedSent st then ([], st)
         else makeResponsesCreatedEvent (st\<lparr>as_CreatedSent := True\<rparr>))"

text \<open>\<^verbatim>\<open>state.CurrentItemID = generateItemID(); state.CurrentItemType = t\<close>\<close>

definition new_item ::
    "go_string \<Rightarrow> AnthropicEventToResponsesState \<Rightarrow> AnthropicEventToResponsesState" where
  "new_item t st =
     (let (i, r) = generateItemID (as_Rand st) in
      st\<lparr>as_CurrentItemID := i, as_CurrentItemType := t, as_Rand := r\<rparr>)"

definition anthToRes_start_thinking :: as_emitter where
  "anthToRes_start_thinking st =
     (let st = (new_item ''reasoning'' st)\<lparr>as_ContentIndex := 0\<rparr> in
      makeResponsesEvent ''response.output_item.added''
        (ResponsesStreamEvent_zero\<lparr>re_OutputIndex := as_OutputIndex st,
           re_Item := Some (ResponsesOutput_zero\<lparr>ro_Type := ''reasoning'',
             ro_ID := as_CurrentItemID st\<rparr>)\<rparr>) st)"

definition anthToRes_open_message :: as_emitter where
  "anthToRes_open_message st =
     (if as_CurrentItemType st \<noteq> ''message'' then
        let st = (new_item ''message'' st)\<lparr>as_ContentIndex := 0\<rparr> in
        makeResponsesEvent ''response.output_item.added''
          (ResponsesStreamEvent_zero\<lparr>re_OutputIndex := as_OutputIndex st,
             re_Item := Some (ResponsesOutput_zero\<lparr>ro_Type := ''message'',
               ro_ID := as_CurrentItemID st, ro_Role := ''assistant'',
               ro_Status := ''in_progress''\<rparr>)\<rparr>) st
      else ([], st))"

definition anthToRes_add_part :: as_emitter where
  "anthToRes_add_part st =
     (let (events, st) =
        makeResponsesEvent ''response.content_part.added''
          (ResponsesStreamEvent_zero\<lparr>re_OutputIndex := as_OutputIndex st,
             re_ContentIndex := as_ContentIndex st, re_ItemID := as_CurrentItemID st,
             re_Part := Some (output_text_part [])\<rparr>) st
      in (events, st\<lparr>as_TextAccum := []\<rparr>))"

definition anthToRes_open_tool :: "AnthropicContentBlock \<Rightarrow> as_emitter" where
  "anthToRes_open_tool block st =
     (let st = (new_item ''function_call'' st)\<lparr>as_CurrentCallID := toResponsesCallID (acb_ID block),
                 as_CurrentName := acb_Name block\<rparr> in
      makeResponsesEvent ''response.output_item.added''
        (ResponsesStreamEvent_zero\<lparr>re_OutputIndex := as_OutputIndex st,
           re_Item := Some (ResponsesOutput_zero\<lparr>ro_Type := ''function_call'',
             ro_ID := as_CurrentItemID st, ro_CallID := as_CurrentCallID st,
             ro_Name := as_CurrentName st, ro_Status := ''in_progress''\<rparr>)\<rparr>) st)"

definition anthToResHandleContentBlockStart :: "AnthropicStreamEvent \<Rightarrow> as_emitter" where
  "anthToResHandleContentBlockStart evt =
     (case ae_ContentBlock evt of
        None \<Rightarrow> no_emit
      | Some block \<Rightarrow>
          if acb_Type block = ''thinking'' then anthToRes_start_thinking
          else if acb_Type block = ''text'' then then_emit anthToRes_open_message anthToRes_add_part
          else if acb_Type block = ''tool_use'' then
            then_emit closeCurrentResponsesItem (anthToRes_open_tool block)
          else no_emit)"

definition anthToResHandleContentBlockDelta :: "AnthropicStreamEvent \<Rightarrow> as_emitter" where
  "anthToResHandleContentBlockDelta evt st =
     (case ae_Delta evt of
        None \<Rightarrow> ([], st)
      | Some d \<Rightarrow>
          if ad_Type d = ''text_delta'' then
            (if ad_Text d = [] then ([], st)
             else makeResponsesEvent ''response.output_text.delta''
               (ResponsesStreamEvent_zero\<lparr>re_OutputIndex := as_OutputIndex st,
                  re_ContentIndex := as_ContentIndex st, re_Delta := ad_Text d,
                  re_ItemID := as_CurrentItemID st\<rparr>)
               (st\<lparr>as_TextAccum := as_TextAccum st @ ad_Text d\<rparr>))
          else if ad_Type d = ''thinking_delta'' then
            (if ad_Thinking d = [] then ([], st)
             else makeResponsesEvent ''response.reasoning_summary_text.delta''
               (ResponsesStreamEvent_zero\<lparr>re_OutputIndex := as_OutputIndex st,
                  re_SummaryIndex := 0, re_Delta := ad_Thinking d,
                  re_ItemID := as_CurrentItemID st\<rparr>)
               (st\<lparr>as_CurrentSummary := as_CurrentSummary st @ ad_Thinking d\<rparr>))
          else if ad_Type d = ''input_json_delta'' then
            (if ad_PartialJSON d = [] then ([], st)
             else makeResponsesEvent ''response.function_call_arguments.delta''
               (ResponsesStreamEvent_zero\<lparr>re_OutputIndex := as_OutputIndex st,
                  re_Delta := ad_PartialJSON d, re_ItemID := as_CurrentItemID st,
                  re_CallID := as_CurrentCallID st, re_Name := as_CurrentName st\<rparr>)
               (st\<lparr>as_CurrentArgs := as_CurrentArgs st @ ad_PartialJSON d\<rparr>))
          else ([], st))"

text \<open>The text part of a message item ends: two events, both with the part's full text.\<close>

definition anthToRes_text_done :: as_emitter where
  "anthToRes_text_done st =
     (let txt = as_TextAccum st;
          st = st\<lparr>as_TextAccum := [],
                  as_CurrentContent := as_CurrentContent st @ [output_text_part txt]\<rparr>;
          template = ResponsesStreamEvent_zero\<lparr>re_OutputIndex := as_OutputIndex st,
                       re_ContentIndex := as_ContentIndex st, re_ItemID := as_CurrentItemID st\<rparr>
      in then_emit
           (makeResponsesEvent ''response.output_text.done'' (template\<lparr>re_Text := txt\<rparr>))
           (makeResponsesEvent ''response.content_part.done''
              (template\<lparr>re_Part := Some (output_text_part txt)\<rparr>)) st)"

definition anthToResHandleContentBlockStop :: "AnthropicStreamEvent \<Rightarrow> as_emitter" where
  "anthToResHandleContentBlockStop evt st =
     (if as_CurrentItemType st = ''reasoning'' then
        then_emit
          (makeResponsesEvent ''response.reasoning_summary_text.done''
             (ResponsesStreamEvent_zero\<lparr>re_OutputIndex := as_OutputIndex st, re_SummaryIndex := 0,
                re_ItemID := as_CurrentItemID st\<rparr>))
          closeCurrentResponsesItem st
      else if as_CurrentItemType st = ''function_call'' then
        then_emit
          (makeResponsesEvent ''response.function_call_arguments.done''
             (ResponsesStreamEvent_zero\<lparr>re_OutputIndex := as_OutputIndex st,
                re_ItemID := as_CurrentItemID st, re_CallID := as_CurrentCallID st,
                re_Name := as_CurrentName st\<rparr>))
          closeCurrentResponsesItem st
      else if as_CurrentItemType st = ''message'' then anthToRes_text_done st
      else ([], st))"

definition anthToResHandleMessageDelta :: "AnthropicStreamEvent \<Rightarrow> as_emitter" where
  "anthToResHandleMessageDelta evt st =
     (let st = (case ae_Usage evt of
                  None \<Rightarrow> st
                | Some u \<Rightarrow>
                    let st = st\<lparr>as_OutputTokens := au_OutputTokens u\<rparr>;
                        st = (if 0 < au_InputTokens u
                              then st\<lparr>as_InputTokens := au_InputTokens u\<rparr> else st);
                        st = (if 0 < au_CacheReadInputTokens u
                              then st\<lparr>as_CacheReadInputTokens := au_CacheReadInputTokens u\<rparr> else st)
                    in if 0 < au_CacheCreationInputTokens u
                       then st\<lparr>as_CacheCreationInputTokens := au_CacheCreationInputTokens u\<rparr> else st);
          st = (case ae_Delta evt of
                  None \<Rightarrow> st
                | Some d \<Rightarrow> if ad_StopReason d \<noteq> [] then st\<lparr>as_StopReason := ad_StopReason d\<rparr> else st)
      in ([], st))"

text \<open>The common end of \<^verbatim>\<open>message_stop\<close> and of the finalizer.\<close>

definition anthToRes_terminate :: as_emitter where
  "anthToRes_terminate =
     then_emit closeCurrentResponsesItem
       (\<lambda>st. let (status, incompleteDetails) = anthropicResponsesStreamTerminalState (as_StopReason st);
                 (events, st) = makeResponsesCompletedEvent status incompleteDetails st
             in (events, st\<lparr>as_CompletedSent := True\<rparr>))"

definition anthToResHandleMessageStop :: as_emitter where
  "anthToResHandleMessageStop st =
     (if as_CompletedSent st then ([], st) else anthToRes_terminate st)"

definition AnthropicEventToResponsesEvents :: "AnthropicStreamEvent \<Rightarrow> as_emitter" where
  "AnthropicEventToResponsesEvents evt =
     (let t = ae_Type evt in
      if t = ''message_start'' then anthToResHandleMessageStart evt
      else if t = ''content_block_start'' then anthToResHandleContentBlockStart evt
      else if t = ''content_block_delta'' then anthToResHandleContentBlockDelta evt
      else if t = ''content_block_stop'' then anthToResHandleContentBlockStop evt
      else if t = ''message_delta'' then anthToResHandleMessageDelta evt
      else if t = ''message_stop'' then anthToResHandleMessageStop
      else no_emit)"

definition FinalizeAnthropicResponsesStream :: as_emitter where
  "FinalizeAnthropicResponsesStream st =
     (if \<not> as_CreatedSent st \<or> as_CompletedSent st then ([], st) else anthToRes_terminate st)"

end
