(* ===== verification/Anth_To_Resp_Stream.thy ===== *)
theory Anth_To_Resp_Stream
  imports Anth_To_Resp Responses_Protocol
begin

text \<open>
  What the stream converter of \<^verbatim>\<open>anthropic_to_responses_response.go\<close> promises its clients:
  consecutive sequence numbers, the output items under their positions and repeated in the
  one terminal event, every delta passed on, and the streamed text in the final response.
  The last section shows two inputs on which the final response is not what was streamed.
\<close>

lemmas as_block_defs = anthToRes_start_thinking_def anthToRes_open_message_def anthToRes_add_part_def
  anthToRes_open_tool_def anthToRes_text_done_def new_item_def

lemmas as_handler_defs = anthToResHandleContentBlockStart_def anthToResHandleContentBlockDelta_def
  anthToResHandleContentBlockStop_def anthToResHandleMessageDelta_def anthToResHandleMessageStop_def
  anthToRes_terminate_def anthToResHandleMessageStart_def

section \<open>Sequence numbers\<close>

abbreviation as_numbered :: "as_emitter \<Rightarrow> bool" where
  "as_numbered \<equiv> conforms (numbering re_SequenceNumber) as_SequenceNumber (\<lambda>_. True)"

lemma as_numbered_builders:
  "as_numbered (makeResponsesEvent t e)" "as_numbered makeResponsesCreatedEvent"
  "as_numbered (makeResponsesCompletedEvent status details)" "as_numbered closeCurrentResponsesItem"
  by (simp_all add: conforms_def numbering_def makeResponsesEvent_def makeResponsesCreatedEvent_def
      makeResponsesCompletedEvent_def closeCurrentResponsesItem_def reset_current_item_def Let_def)

lemma as_numbered_blocks:
  "as_numbered anthToRes_start_thinking" "as_numbered anthToRes_open_message"
  "as_numbered anthToRes_add_part" "as_numbered (anthToRes_open_tool block)"
  "as_numbered anthToRes_text_done"
  by (simp_all add: conforms_def numbering_def makeResponsesEvent_def as_block_defs Let_def split_beta)

lemma as_numbered_terminate: "as_numbered anthToRes_terminate"
  unfolding anthToRes_terminate_def
  by (intro conforms_then as_numbered_builders)
     (simp add: conforms_def numbering_def makeResponsesCompletedEvent_def Let_def split_beta)

lemma as_numbered_handlers:
  "as_numbered (anthToResHandleMessageStart e)" "as_numbered (anthToResHandleMessageDelta e)"
  "as_numbered anthToResHandleMessageStop" "as_numbered FinalizeAnthropicResponsesStream"
  "as_numbered (anthToResHandleContentBlockStart e)"
  "as_numbered (anthToResHandleContentBlockDelta e)"
  "as_numbered (anthToResHandleContentBlockStop e)"
proof -
  show "as_numbered (anthToResHandleMessageStart e)" "as_numbered (anthToResHandleMessageDelta e)"
    by (auto simp: conforms_def numbering_def anthToResHandleMessageStart_def
        anthToResHandleMessageDelta_def makeResponsesCreatedEvent_def Let_def split: option.splits)
  show "as_numbered anthToResHandleMessageStop" "as_numbered FinalizeAnthropicResponsesStream"
    using as_numbered_terminate
    by (simp_all add: conforms_def anthToResHandleMessageStop_def FinalizeAnthropicResponsesStream_def)
  show "as_numbered (anthToResHandleContentBlockStart e)"
    by (auto simp: anthToResHandleContentBlockStart_def intro!: as_numbered_blocks as_numbered_builders
        split: option.splits)
  show "as_numbered (anthToResHandleContentBlockDelta e)"
    by (auto simp: conforms_def numbering_def anthToResHandleContentBlockDelta_def
        makeResponsesEvent_def Let_def split: option.splits)
  show "as_numbered (anthToResHandleContentBlockStop e)"
    using as_numbered_builders as_numbered_blocks(5)
    by (simp add: conforms_def accepts_append anthToResHandleContentBlockStop_def)
qed

interpretation as_num: numbered_converter AnthropicEventToResponsesEvents
    FinalizeAnthropicResponsesStream as_SequenceNumber re_SequenceNumber
proof
  show "as_numbered (AnthropicEventToResponsesEvents e)" for e
    by (simp add: AnthropicEventToResponsesEvents_def Let_def as_numbered_handlers conforms_no_emit)
  show "as_numbered FinalizeAnthropicResponsesStream" by (rule as_numbered_handlers)
qed

text \<open>
  Whatever the upstream sends, the emitted events carry the sequence numbers
  0, 1, 2, ... without gap or repetition, the finalizer's included.
\<close>

theorem ar_sequence_numbers:
  "map re_SequenceNumber (fst (then_emit (run_conv AnthropicEventToResponsesEvents es)
       FinalizeAnthropicResponsesStream (NewAnthropicEventToResponsesState now r))) =
   map int [0 ..< length (fst (then_emit (run_conv AnthropicEventToResponsesEvents es)
       FinalizeAnthropicResponsesStream (NewAnthropicEventToResponsesState now r)))]"
  using as_num.stream_numbers [of es "NewAnthropicEventToResponsesState now r"]
  by (simp add: NewAnthropicEventToResponsesState_def)

section \<open>Items\<close>

definition as_items :: "AnthropicEventToResponsesState \<Rightarrow> ResponsesOutput list \<times> bool" where
  "as_items st = (as_Outputs st, as_CompletedSent st)"

definition as_good :: "AnthropicEventToResponsesState \<Rightarrow> bool" where
  "as_good st \<longleftrightarrow> as_OutputIndex st = int (length (as_Outputs st))"

abbreviation as_itemwise :: "as_emitter \<Rightarrow> bool" where
  "as_itemwise \<equiv> conforms items_monitor as_items as_good"

lemmas as_item_defs = as_items_def as_good_def items_monitor_def resp_terminal_def

lemma as_itemwise_make:
  assumes "t \<notin> {''response.output_item.done'', ''response.completed'', ''response.incomplete''}"
  shows "as_itemwise (makeResponsesEvent t e)"
  using assms by (simp add: conforms_def makeResponsesEvent_def as_item_defs Let_def)

lemma as_itemwise_close: "as_itemwise closeCurrentResponsesItem"
  by (simp add: conforms_def closeCurrentResponsesItem_def makeResponsesEvent_def
      reset_current_item_def as_item_defs Let_def)

lemma as_itemwise_blocks:
  "as_itemwise anthToRes_start_thinking" "as_itemwise anthToRes_open_message"
  "as_itemwise anthToRes_add_part" "as_itemwise (anthToRes_open_tool block)"
  "as_itemwise anthToRes_text_done"
  by (simp_all add: conforms_def as_item_defs makeResponsesEvent_def as_block_defs Let_def split_beta)

lemma as_itemwise_terminate:
  assumes "as_good st" and "\<not> as_CompletedSent st"
  shows "as_good (snd (anthToRes_terminate st))"
    and "accepts items_monitor (as_items st) (fst (anthToRes_terminate st)) =
      Some (as_items (snd (anthToRes_terminate st)))"
proof -
  have keep: "\<not> as_CompletedSent (snd (closeCurrentResponsesItem st))"
    using assms(2) by (simp add: closeCurrentResponsesItem_def makeResponsesEvent_def
        reset_current_item_def Let_def)
  note close = conformsD [OF as_itemwise_close assms(1)]
  show "as_good (snd (anthToRes_terminate st))"
    using close(1) by (simp add: anthToRes_terminate_def as_good_def makeResponsesCompletedEvent_def
        Let_def split_beta)
  show "accepts items_monitor (as_items st) (fst (anthToRes_terminate st)) =
      Some (as_items (snd (anthToRes_terminate st)))"
    using close keep
    by (simp add: anthToRes_terminate_def accepts_append makeResponsesCompletedEvent_def
        as_item_defs anthropicResponsesStreamTerminalState_def Let_def split_beta)
qed

lemma as_itemwise_handlers:
  "as_itemwise (anthToResHandleMessageStart e)" "as_itemwise (anthToResHandleMessageDelta e)"
  "as_itemwise anthToResHandleMessageStop" "as_itemwise FinalizeAnthropicResponsesStream"
  "as_itemwise (anthToResHandleContentBlockStart e)"
  "as_itemwise (anthToResHandleContentBlockDelta e)"
  "as_itemwise (anthToResHandleContentBlockStop e)"
proof -
  show "as_itemwise (anthToResHandleMessageStart e)" "as_itemwise (anthToResHandleMessageDelta e)"
    by (auto simp: conforms_def as_item_defs anthToResHandleMessageStart_def
        anthToResHandleMessageDelta_def makeResponsesCreatedEvent_def Let_def split: option.splits)
  show "as_itemwise anthToResHandleMessageStop" "as_itemwise FinalizeAnthropicResponsesStream"
    using as_itemwise_terminate
    by (simp_all add: conforms_def anthToResHandleMessageStop_def FinalizeAnthropicResponsesStream_def)
  show "as_itemwise (anthToResHandleContentBlockStart e)"
    by (auto simp: anthToResHandleContentBlockStart_def intro!: as_itemwise_blocks as_itemwise_close
        split: option.splits)
  show "as_itemwise (anthToResHandleContentBlockDelta e)"
    by (auto simp: conforms_def as_item_defs anthToResHandleContentBlockDelta_def
        makeResponsesEvent_def Let_def split: option.splits)
  show "as_itemwise (anthToResHandleContentBlockStop e)"
    using as_itemwise_close as_itemwise_make as_itemwise_blocks(5)
    by (simp add: conforms_def accepts_append anthToResHandleContentBlockStop_def)
qed

interpretation as_out: monitored_converter AnthropicEventToResponsesEvents
    FinalizeAnthropicResponsesStream "\<lambda>_. True" items_monitor as_items as_good
proof
  show "as_itemwise (AnthropicEventToResponsesEvents e)" for e
    by (simp add: AnthropicEventToResponsesEvents_def Let_def as_itemwise_handlers conforms_no_emit)
  show "accepts items_monitor (as_items s) (fst (FinalizeAnthropicResponsesStream s)) =
      Some (as_items (snd (FinalizeAnthropicResponsesStream s)))" if "as_good s" for s
    by (rule conformsD(2) [OF as_itemwise_handlers(4) that])
qed


text \<open>
  C34. Whatever the upstream sends, every \<^verbatim>\<open>response.output_item.done\<close> carries its item under
  the item's position in the output, and the output of the terminal event is exactly the
  list of the items that were reported done before it.
\<close>

theorem ar_items_numbered_and_delivered:
  fixes es now r
  defines "run \<equiv> then_emit (run_conv AnthropicEventToResponsesEvents es)
       FinalizeAnthropicResponsesStream (NewAnthropicEventToResponsesState now r)"
  shows "accepts items_monitor ([], False) (fst run) =
     Some (as_Outputs (snd run), as_CompletedSent (snd run))"
  using as_out.finished_stream_accepted [of "NewAnthropicEventToResponsesState now r" es]
  by (simp add: run_def as_items_def as_good_def NewAnthropicEventToResponsesState_def list_all_iff)

lemma as_created_kept: "as_CreatedSent s \<Longrightarrow> as_CreatedSent (snd (AnthropicEventToResponsesEvents e s))"
  by (auto simp: AnthropicEventToResponsesEvents_def as_handler_defs as_block_defs
      makeResponsesEvent_def makeResponsesCreatedEvent_def makeResponsesCompletedEvent_def
      closeCurrentResponsesItem_def reset_current_item_def Let_def split_beta split: option.splits)

lemma as_created_run:
  "as_CreatedSent s \<Longrightarrow> as_CreatedSent (snd (run_conv AnthropicEventToResponsesEvents es s))"
  by (induction es arbitrary: s) (simp_all add: as_created_kept)

lemma as_created_started:
  "ae_Type e = ''message_start'' \<Longrightarrow> as_CreatedSent (snd (AnthropicEventToResponsesEvents e s))"
  by (auto simp: AnthropicEventToResponsesEvents_def anthToResHandleMessageStart_def
      makeResponsesCreatedEvent_def Let_def split: option.splits)

lemma as_finalize_completes:
  "as_CreatedSent s \<Longrightarrow> as_CompletedSent (snd (FinalizeAnthropicResponsesStream s))"
  by (simp add: FinalizeAnthropicResponsesStream_def anthToRes_terminate_def Let_def split_beta)

text \<open>
  Once a \<^verbatim>\<open>message_start\<close> was seen, the stream ends with exactly one terminal event
  (\<^verbatim>\<open>response.completed\<close> or \<^verbatim>\<open>response.incomplete\<close>), whatever surrounds it and however often
  \<^verbatim>\<open>message_stop\<close> comes.
\<close>

theorem ar_one_terminal_event:
  assumes "ae_Type e = ''message_start''"
  shows "length (filter resp_terminal (fst (then_emit (run_conv AnthropicEventToResponsesEvents (es @ e # fs))
       FinalizeAnthropicResponsesStream (NewAnthropicEventToResponsesState now r)))) = 1"
proof -
  let ?s = "NewAnthropicEventToResponsesState now r"
  let ?run = "then_emit (run_conv AnthropicEventToResponsesEvents (es @ e # fs)) FinalizeAnthropicResponsesStream ?s"
  have "as_CompletedSent (snd ?run)"
    using assms by (simp add: run_conv_append as_finalize_completes as_created_run as_created_started)
  then show ?thesis
    using as_out.finished_stream_accepted [of ?s "es @ e # fs"]
      items_monitor_terminals [of "as_items ?s" "fst ?run" "as_items (snd ?run)"]
    by (simp add: as_items_def as_good_def NewAnthropicEventToResponsesState_def list_all_iff)
qed

theorem ar_one_terminal_event_witness:
  "length (filter resp_terminal (fst (then_emit (run_conv AnthropicEventToResponsesEvents
      [content_block_stop 3, message_start ''m'' ''x'', content_block_start 0 (text_block [])])
       FinalizeAnthropicResponsesStream
       (NewAnthropicEventToResponsesState 0 \<lparr>rs_byte = (\<lambda>_. 0), rs_pos = 0\<rparr>)))) = 1"
  using ar_one_terminal_event [of "message_start ''m'' ''x''" "[content_block_stop 3]"
     "[content_block_start 0 (text_block [])]"] by simp

section \<open>Deltas\<close>

lemma as_silent_blocks:
  "carries resp_delta [] (fst (closeCurrentResponsesItem s))"
  "carries resp_delta [] (fst (anthToRes_start_thinking s))"
  "carries resp_delta [] (fst (anthToRes_open_message s))"
  "carries resp_delta [] (fst (anthToRes_add_part s))"
  "carries resp_delta [] (fst (anthToRes_open_tool b s))"
  "carries resp_delta [] (fst (anthToRes_text_done s))"
  by (simp_all add: resp_delta_def makeResponsesEvent_def as_block_defs
      closeCurrentResponsesItem_def Let_def split_beta carries_def)

lemma as_silent_completed: "carries resp_delta [] (fst (makeResponsesCompletedEvent status details s))"
  by (simp add: resp_delta_def makeResponsesCompletedEvent_def Let_def)

lemma as_silent_terminate: "carries resp_delta [] (fst (anthToRes_terminate s))"
  by (simp add: anthToRes_terminate_def Let_def split_beta as_silent_blocks as_silent_completed
      silent_append)

lemma as_silent_handlers:
  "carries resp_delta [] (fst (anthToResHandleMessageStart e s))"
  "carries resp_delta [] (fst (anthToResHandleContentBlockStart e s))"
  "carries resp_delta [] (fst (anthToResHandleContentBlockStop e s))"
  "carries resp_delta [] (fst (anthToResHandleMessageDelta e s))"
  "carries resp_delta [] (fst (anthToResHandleMessageStop s))"
  "carries resp_delta [] (fst (FinalizeAnthropicResponsesStream s))"
proof -
  show "carries resp_delta [] (fst (anthToResHandleMessageStart e s))"
    "carries resp_delta [] (fst (anthToResHandleMessageDelta e s))"
    by (simp_all add: resp_delta_def anthToResHandleMessageStart_def
        anthToResHandleMessageDelta_def makeResponsesCreatedEvent_def Let_def split: option.splits)
  show "carries resp_delta [] (fst (anthToResHandleContentBlockStart e s))"
    by (simp add: anthToResHandleContentBlockStart_def as_silent_blocks silent_append split: option.splits)
  have "carries resp_delta [] (fst (makeResponsesEvent t tmpl s))"
    if "t = ''response.reasoning_summary_text.done'' \<or> t = ''response.function_call_arguments.done''" for t tmpl
    using that by (auto simp: resp_delta_def makeResponsesEvent_def Let_def)
  then show "carries resp_delta [] (fst (anthToResHandleContentBlockStop e s))"
    by (simp add: anthToResHandleContentBlockStop_def as_silent_blocks silent_append)
  show "carries resp_delta [] (fst (anthToResHandleMessageStop s))"
    "carries resp_delta [] (fst (FinalizeAnthropicResponsesStream s))"
    by (simp_all add: as_silent_terminate anthToResHandleMessageStop_def FinalizeAnthropicResponsesStream_def)
qed

interpretation as_deltas: carrying_converter AnthropicEventToResponsesEvents
    FinalizeAnthropicResponsesStream anth_delta resp_delta
proof
  show "carries resp_delta (anth_delta e) (fst (AnthropicEventToResponsesEvents e s))" for e s
  proof (cases "ae_Type e = ''content_block_delta''")
    case True
    then show ?thesis
      by (simp add: AnthropicEventToResponsesEvents_def anth_delta_def resp_delta_def
          anthToResHandleContentBlockDelta_def makeResponsesEvent_def tagged_def Let_def
          split: option.splits)
  next
    case False
    then show ?thesis using as_silent_handlers
      by (simp add: AnthropicEventToResponsesEvents_def anth_delta_def Let_def)
  qed
  show "carries resp_delta [] (fst (FinalizeAnthropicResponsesStream s))" for s
    by (rule as_silent_handlers)
qed

text \<open>
  Whatever the upstream sends, the nonempty text, thinking and tool-argument deltas reach
  the client in the order and with the bytes they came.
\<close>

theorem ar_deltas_preserved:
  "concat (map resp_delta (fst (then_emit (run_conv AnthropicEventToResponsesEvents es)
     FinalizeAnthropicResponsesStream s))) = concat (map anth_delta es)"
  using as_deltas.stream_carries [of es s] by (simp add: carries_def)

section \<open>The final text\<close>

text \<open>
  The upstream seen as a protocol: one block at a time, text deltas only inside a text
  block, and no thinking block while a message item is open (the first component tells
  whether one is).
\<close>

datatype anth_block = NoBlock | TextBlk | ThinkBlk | ToolBlk | OtherBlk

definition anth_monitor :: "(bool \<times> anth_block, AnthropicStreamEvent) monitor" where
  "anth_monitor u e =
     (let (m, b) = u in
      if ae_Type e = ''content_block_start'' then
        (case ae_ContentBlock e of
           None \<Rightarrow> None
         | Some block \<Rightarrow>
             if b \<noteq> NoBlock then None
             else if acb_Type block = ''thinking'' then (if m then None else Some (m, ThinkBlk))
             else if acb_Type block = ''text'' then Some (True, TextBlk)
             else if acb_Type block = ''tool_use'' then Some (False, ToolBlk)
             else Some (m, OtherBlk))
      else if ae_Type e = ''content_block_delta'' then
        (if delta_text e \<noteq> [] \<and> b \<noteq> TextBlk then None else Some (m, b))
      else if ae_Type e = ''content_block_stop'' then
        (if b = NoBlock then None else Some (m, NoBlock))
      else if ae_Type e = ''message_stop'' then None
      else Some (m, b))"

definition as_follows :: "bool \<times> anth_block \<Rightarrow> AnthropicEventToResponsesState \<Rightarrow> bool" where
  "as_follows u st \<longleftrightarrow>
     (let (m, b) = u; t = as_CurrentItemType st in
      m = (t = ''message'') \<and>
      (case b of ThinkBlk \<Rightarrow> t = ''reasoning'' | ToolBlk \<Rightarrow> t = ''function_call''
       | TextBlk \<Rightarrow> t = ''message'' | _ \<Rightarrow> t = [] \<or> t = ''message'') \<and>
      (b \<noteq> TextBlk \<longrightarrow> as_TextAccum st = []) \<and>
      (\<not> m \<longrightarrow> as_CurrentContent st = []) \<and> \<not> as_CompletedSent st)"

definition as_text :: "AnthropicEventToResponsesState \<Rightarrow> go_string" where
  "as_text st = items_text (as_Outputs st) @ parts_text (as_CurrentContent st) @ as_TextAccum st"

lemma parts_text_single [simp]: "parts_text [output_text_part t] = t"
  by (simp add: parts_text_def output_text_part_def)

lemma items_text_current:
  "items_text [current_item st] =
     (if as_CurrentItemType st = ''message'' then parts_text (as_CurrentContent st) else [])"
  by (simp add: items_text_def current_item_def Let_def)

lemmas as_follow_defs = as_follows_def as_text_def text_monitor_def resp_text_def resp_terminal_def
  makeResponsesEvent_def Let_def

lemma as_close_text:
  assumes "as_TextAccum st = []" and "as_CurrentItemType st \<noteq> ''message'' \<longrightarrow> as_CurrentContent st = []"
  shows "as_text (snd (closeCurrentResponsesItem st)) = as_text st"
    and "accepts text_monitor t (fst (closeCurrentResponsesItem st)) = Some t"
    and "as_CurrentItemType (snd (closeCurrentResponsesItem st)) = []"
    and "as_TextAccum (snd (closeCurrentResponsesItem st)) = []"
    and "as_CurrentContent (snd (closeCurrentResponsesItem st)) = []"
    and "as_CompletedSent (snd (closeCurrentResponsesItem st)) = as_CompletedSent st"
  using assms
  by (auto simp: closeCurrentResponsesItem_def reset_current_item_def items_text_current as_follow_defs)

lemma as_start_follows:
  assumes "anth_monitor u e = Some u'" and "as_follows u st" and "ae_Type e = ''content_block_start''"
  shows "as_follows u' (snd (anthToResHandleContentBlockStart e st)) \<and>
    accepts text_monitor (as_text st) (fst (anthToResHandleContentBlockStart e st)) =
      Some (as_text (snd (anthToResHandleContentBlockStart e st)))"
proof -
  obtain m b where u: "u = (m, b)" by (cases u)
  obtain block where blk: "ae_ContentBlock e = Some block" and nb: "b = NoBlock"
    using assms by (auto simp: anth_monitor_def u split: option.splits if_splits)
  have st: "as_TextAccum st = []" "m = (as_CurrentItemType st = ''message'')"
    "as_CurrentItemType st = [] \<or> as_CurrentItemType st = ''message''"
    "\<not> m \<longrightarrow> as_CurrentContent st = []" "\<not> as_CompletedSent st"
    using assms(2) by (auto simp: u nb as_follows_def Let_def)
  note mon = assms(1) [unfolded u nb anth_monitor_def, simplified assms(3) blk, simplified]
  consider "acb_Type block = ''thinking''" | "acb_Type block = ''text''"
    | "acb_Type block = ''tool_use''"
    | "acb_Type block \<notin> {''thinking'', ''text'', ''tool_use''}" by blast
  then show ?thesis
  proof cases
    case 1
    then show ?thesis using st mon
      by (auto simp: anthToResHandleContentBlockStart_def blk as_block_defs as_follow_defs split_beta
          split: if_splits)
  next
    case 2
    then show ?thesis using st mon
      by (auto simp: anthToResHandleContentBlockStart_def blk as_block_defs as_follow_defs split_beta)
  next
    case 3
    let ?c = "snd (closeCurrentResponsesItem st)"
    note close = as_close_text [OF st(1)]
    have "as_text (snd (anthToRes_open_tool block ?c)) = as_text ?c"
      "accepts text_monitor t (fst (anthToRes_open_tool block ?c)) = Some t"
      "as_follows (False, ToolBlk) (snd (anthToRes_open_tool block ?c))" for t
      using close st by (auto simp: as_block_defs as_follow_defs split_beta)
    then show ?thesis using 3 st close mon
      by (auto simp: anthToResHandleContentBlockStart_def blk accepts_append)
  next
    case 4
    then show ?thesis using st mon
      by (auto simp: anthToResHandleContentBlockStart_def blk as_follow_defs)
  qed
qed

lemma as_delta_follows:
  assumes "anth_monitor u e = Some u'" and "as_follows u st" and "ae_Type e = ''content_block_delta''"
  shows "as_follows u' (snd (anthToResHandleContentBlockDelta e st)) \<and>
    accepts text_monitor (as_text st) (fst (anthToResHandleContentBlockDelta e st)) =
      Some (as_text (snd (anthToResHandleContentBlockDelta e st)))"
proof -
  obtain m b where u: "u = (m, b)" by (cases u)
  have u': "u' = u" and onlytext: "delta_text e \<noteq> [] \<Longrightarrow> b = TextBlk"
    using assms by (auto simp: anth_monitor_def u split: if_splits)
  show ?thesis using assms(2,3) onlytext
    by (auto simp: u u' anthToResHandleContentBlockDelta_def delta_text_def as_follow_defs
        split: option.splits anth_block.splits)
qed

lemma as_stop_follows:
  assumes "anth_monitor u e = Some u'" and "as_follows u st" and "ae_Type e = ''content_block_stop''"
  shows "as_follows u' (snd (anthToResHandleContentBlockStop e st)) \<and>
    accepts text_monitor (as_text st) (fst (anthToResHandleContentBlockStop e st)) =
      Some (as_text (snd (anthToResHandleContentBlockStop e st)))"
proof -
  obtain m b where u: "u = (m, b)" by (cases u)
  have b: "b \<noteq> NoBlock" and u': "u' = (m, NoBlock)"
    using assms by (auto simp: anth_monitor_def u split: if_splits)
  show ?thesis using assms(2) b
    by (cases b)
       (auto simp: u u' anthToResHandleContentBlockStop_def closeCurrentResponsesItem_def
         reset_current_item_def items_text_current anthToRes_text_done_def as_follow_defs)
qed

lemma as_other_kept:
  "as_CurrentItemType (snd (anthToResHandleMessageStart e st)) = as_CurrentItemType st"
  "as_TextAccum (snd (anthToResHandleMessageStart e st)) = as_TextAccum st"
  "as_CurrentContent (snd (anthToResHandleMessageStart e st)) = as_CurrentContent st"
  "as_Outputs (snd (anthToResHandleMessageStart e st)) = as_Outputs st"
  "as_CompletedSent (snd (anthToResHandleMessageStart e st)) = as_CompletedSent st"
  "as_CurrentItemType (snd (anthToResHandleMessageDelta e st)) = as_CurrentItemType st"
  "as_TextAccum (snd (anthToResHandleMessageDelta e st)) = as_TextAccum st"
  "as_CurrentContent (snd (anthToResHandleMessageDelta e st)) = as_CurrentContent st"
  "as_Outputs (snd (anthToResHandleMessageDelta e st)) = as_Outputs st"
  "as_CompletedSent (snd (anthToResHandleMessageDelta e st)) = as_CompletedSent st"
  by (simp_all add: anthToResHandleMessageStart_def anthToResHandleMessageDelta_def
      makeResponsesCreatedEvent_def Let_def split: option.split)

lemma as_other_follows:
  assumes "as_follows u st"
  shows "as_follows u (snd (anthToResHandleMessageStart e st))"
    "as_text (snd (anthToResHandleMessageStart e st)) = as_text st"
    "accepts text_monitor t (fst (anthToResHandleMessageStart e st)) = Some t"
    "as_follows u (snd (anthToResHandleMessageDelta e st))"
    "as_text (snd (anthToResHandleMessageDelta e st)) = as_text st"
    "accepts text_monitor t (fst (anthToResHandleMessageDelta e st)) = Some t"
proof -
  show "as_follows u (snd (anthToResHandleMessageStart e st))"
    "as_follows u (snd (anthToResHandleMessageDelta e st))"
    using assms unfolding as_follows_def as_other_kept by blast+
  show "as_text (snd (anthToResHandleMessageStart e st)) = as_text st"
    "as_text (snd (anthToResHandleMessageDelta e st)) = as_text st"
    by (simp_all add: as_text_def as_other_kept)
  show "accepts text_monitor t (fst (anthToResHandleMessageStart e st)) = Some t"
    "accepts text_monitor t (fst (anthToResHandleMessageDelta e st)) = Some t"
    by (simp_all add: anthToResHandleMessageStart_def anthToResHandleMessageDelta_def
        makeResponsesCreatedEvent_def text_monitor_def resp_terminal_def resp_text_def Let_def)
qed

interpretation as_final: guided_converter AnthropicEventToResponsesEvents anth_monitor
    text_monitor "\<lambda>_. as_text" as_follows
proof
  fix u e u' s
  assume up: "anth_monitor u e = Some u'" and rel: "as_follows u s"
  have "as_follows u' (snd (AnthropicEventToResponsesEvents e s)) \<and>
    accepts text_monitor (as_text s) (fst (AnthropicEventToResponsesEvents e s)) =
      Some (as_text (snd (AnthropicEventToResponsesEvents e s)))"
  proof (cases "ae_Type e \<in> {''content_block_start'', ''content_block_delta'', ''content_block_stop''}")
    case True
    then show ?thesis
      using as_start_follows [OF up rel] as_delta_follows [OF up rel] as_stop_follows [OF up rel]
      by (auto simp: AnthropicEventToResponsesEvents_def)
  next
    case False
    then have "u' = u" and "ae_Type e \<noteq> ''message_stop''"
      using up by (auto simp: anth_monitor_def split: if_splits)
    then show ?thesis using False rel as_other_follows [OF rel]
      by (simp add: AnthropicEventToResponsesEvents_def Let_def)
  qed
  then show "as_follows u' (snd (AnthropicEventToResponsesEvents e s))"
    "accepts text_monitor (as_text s) (fst (AnthropicEventToResponsesEvents e s)) =
      Some (as_text (snd (AnthropicEventToResponsesEvents e s)))" by blast+
qed

text \<open>What the text monitor has read is the text of the deltas, when no terminal event came.\<close>

lemma resp_terminal_text: "resp_terminal e \<Longrightarrow> resp_text e = []"
  by (auto simp: resp_terminal_def resp_text_def)

lemma text_monitor_deltas:
  "accepts text_monitor t es = Some t' \<Longrightarrow> t' = t @ concat (map resp_text es)"
proof (induction es arbitrary: t)
  case Nil
  then show ?case by simp
next
  case (Cons e es)
  then obtain u where u: "text_monitor t e = Some u" and rest: "accepts text_monitor u es = Some t'"
    by (auto split: option.splits)
  have "u = t @ resp_text e"
    using u by (auto simp: text_monitor_def resp_terminal_text split: if_splits option.splits)
  then show ?case using Cons.IH [OF rest] by simp
qed

lemma as_text_carried:
  "concat (map resp_text (fst (run_conv AnthropicEventToResponsesEvents es s))) =
     concat (map delta_text es)"
proof -
  have "concat (map text_of (concat (map resp_delta (fst (run_conv AnthropicEventToResponsesEvents es s))))) =
      concat (map text_of (concat (map anth_delta es)))"
    using as_deltas.run_carries [of es s] by (simp only: carries_def)
  then show ?thesis by (simp only: text_of_concat text_of_resp_delta text_of_anth_delta)
qed

lemma as_terminate_last:
  assumes "as_TextAccum st = []" and "as_CurrentItemType st \<noteq> ''message'' \<longrightarrow> as_CurrentContent st = []"
  shows "\<exists>e r. last (fst (anthToRes_terminate st)) = e \<and> fst (anthToRes_terminate st) \<noteq> [] \<and>
     resp_terminal e \<and> re_Response e = Some r \<and> items_text (rr_Output r) = as_text st"
  using as_close_text [OF assms]
  by (auto simp: anthToRes_terminate_def makeResponsesCompletedEvent_def resp_terminal_def
      anthropicResponsesStreamTerminalState_def as_text_def Let_def split_beta)

text \<open>
  C33. For an upstream message that keeps this order, the response the terminal event carries
  has exactly the text that was streamed: the terminal event is the last one, and the text of
  its output items is the concatenation of the text deltas.
\<close>

theorem ar_final_text_is_streamed_text:
  assumes "accepts anth_monitor (False, NoBlock) es = Some (m, NoBlock)"
    and "ae_Type stop = ''message_stop''"
  shows "\<exists>evts e r. fst (run_conv AnthropicEventToResponsesEvents (es @ [stop])
        (NewAnthropicEventToResponsesState now rnd)) = evts @ [e] \<and>
      resp_terminal e \<and> re_Response e = Some r \<and>
      items_text (rr_Output r) = concat (map delta_text es)"
proof -
  let ?s = "NewAnthropicEventToResponsesState now rnd"
  let ?t = "snd (run_conv AnthropicEventToResponsesEvents es ?s)"
  have new: "as_follows (False, NoBlock) ?s" "as_text ?s = []"
    by (simp_all add: as_follows_def as_text_def NewAnthropicEventToResponsesState_def)
  note run = as_final.guided_stream [OF assms(1) new(1)]
  have streamed: "as_text ?t = concat (map delta_text es)"
    using text_monitor_deltas [OF conjunct2 [OF run]] by (simp add: new(2) as_text_carried)
  have t: "as_TextAccum ?t = []" "as_CurrentItemType ?t \<noteq> ''message'' \<longrightarrow> as_CurrentContent ?t = []"
    "\<not> as_CompletedSent ?t"
    using run by (auto simp: as_follows_def Let_def)
  have fin: "fst (run_conv AnthropicEventToResponsesEvents (es @ [stop]) ?s) =
      fst (run_conv AnthropicEventToResponsesEvents es ?s) @ fst (anthToRes_terminate ?t)"
    using assms(2) t(3)
    by (simp add: run_conv_append AnthropicEventToResponsesEvents_def anthToResHandleMessageStop_def)
  obtain e r where "fst (anthToRes_terminate ?t) = butlast (fst (anthToRes_terminate ?t)) @ [e]"
    "resp_terminal e" "re_Response e = Some r" "items_text (rr_Output r) = as_text ?t"
    using as_terminate_last [OF t(1,2)] by (metis append_butlast_last_id)
  then show ?thesis using fin streamed by (metis append.assoc)
qed

theorem ar_final_text_is_streamed_text_witness:
  "\<exists>evts e r. fst (run_conv AnthropicEventToResponsesEvents
        ([content_block_start 0 (text_block []), content_block_delta 0 (text_delta ''hi''),
          content_block_stop 0] @ [message_stop])
        (NewAnthropicEventToResponsesState 0 \<lparr>rs_byte = (\<lambda>_. 0), rs_pos = 0\<rparr>)) = evts @ [e] \<and>
      resp_terminal e \<and> re_Response e = Some r \<and> items_text (rr_Output r) = ''hi''"
  using ar_final_text_is_streamed_text [of "[content_block_start 0 (text_block []),
      content_block_delta 0 (text_delta ''hi''), content_block_stop 0]" True message_stop 0
      "\<lparr>rs_byte = (\<lambda>_. 0), rs_pos = 0\<rparr>"]
  by (simp add: anth_monitor_def text_block_def)

section \<open>Where the final response falls short\<close>

text \<open>
  A thinking block that starts while a message item is open takes over the item without
  closing it: the message's parts never reach the output.
\<close>

lemma ar_thinking_start_drops_open_message:
  assumes "as_CurrentItemType st = ''message''"
  shows "as_CurrentContent (snd (run_conv AnthropicEventToResponsesEvents
        [content_block_start i (thinking_block [] []), content_block_stop j] st)) = [] \<and>
    items_text (as_Outputs (snd (run_conv AnthropicEventToResponsesEvents
        [content_block_start i (thinking_block [] []), content_block_stop j] st))) = items_text (as_Outputs st)"
  using assms
  by (simp add: AnthropicEventToResponsesEvents_def as_handler_defs as_block_defs Let_def split_beta
     makeResponsesEvent_def closeCurrentResponsesItem_def reset_current_item_def items_text_current
     thinking_block_def)

text \<open>
  The input of a server tool, which opens no item, stays in \<^verbatim>\<open>CurrentArgs\<close> and becomes the
  beginning of the arguments of the next function call.
\<close>

lemma ar_server_tool_input_kept:
  assumes "acb_Type b = ''server_tool_use''" and "as_CurrentItemType st = []" and "q \<noteq> []"
  shows "snd (run_conv AnthropicEventToResponsesEvents
      [content_block_start i b, content_block_delta i (input_json_delta q),
       content_block_stop i] st) =
    st\<lparr>as_CurrentArgs := as_CurrentArgs st @ q, as_SequenceNumber := as_SequenceNumber st + 1\<rparr>"
  using assms
  by (simp add: AnthropicEventToResponsesEvents_def as_handler_defs Let_def
     makeResponsesEvent_def)

lemma ar_function_call_args:
  assumes "as_CurrentItemType st = []" and "a \<noteq> []"
  shows "map (\<lambda>it. (ro_Name it, ro_Arguments it)) (as_Outputs (snd (run_conv AnthropicEventToResponsesEvents
      [content_block_start j (tool_use_block c n ''{}''), content_block_delta j (input_json_delta a),
       content_block_stop j] st))) =
    map (\<lambda>it. (ro_Name it, ro_Arguments it)) (as_Outputs st) @ [(n, as_CurrentArgs st @ a)]"
  using assms
  by (simp add: AnthropicEventToResponsesEvents_def as_handler_defs as_block_defs Let_def split_beta
     makeResponsesEvent_def closeCurrentResponsesItem_def reset_current_item_def current_item_def
     tool_use_block_def)

lemma ar_server_tool_input_leaks:
  assumes "acb_Type b = ''server_tool_use''" and "as_CurrentItemType st = []" and "q \<noteq> []" and "a \<noteq> []"
  shows "map (\<lambda>it. (ro_Name it, ro_Arguments it)) (as_Outputs (snd (run_conv AnthropicEventToResponsesEvents
      ([content_block_start i b, content_block_delta i (input_json_delta q),
       content_block_stop i] @
       [content_block_start j (tool_use_block c n ''{}''), content_block_delta j (input_json_delta a),
       content_block_stop j]) st))) =
    map (\<lambda>it. (ro_Name it, ro_Arguments it)) (as_Outputs st) @ [(n, as_CurrentArgs st @ q @ a)]"
  unfolding run_conv_append then_emit_sel ar_server_tool_input_kept [OF assms(1,2,3)]
  by (subst ar_function_call_args) (use assms in auto)

end
