(* ===== verification/Round_Trip.thy ===== *)
theory Round_Trip
  imports Resp_To_Anth_Stream Anth_To_Resp_Stream
begin

text \<open>
  The two converters between Anthropic Messages and OpenAI Responses composed: what is left
  of an Anthropic response, and of an Anthropic stream, after the way to Responses and back.
\<close>

section \<open>Whole responses\<close>

text \<open>The blocks that survive, split into those that keep their order and the texts behind them.\<close>

definition returned_item :: "AnthropicContentBlock \<Rightarrow> AnthropicContentBlock list" where
  "returned_item b =
     (if acb_Type b = ''thinking'' then
        (if acb_Thinking b = [] then [] else [thinking_block (acb_Thinking b) []])
      else if acb_Type b = ''tool_use'' then
        [tool_use_block (fromResponsesCallID (acb_ID b)) (acb_Name b)
          (sanitizeAnthropicToolUseInput (acb_Name b) (if acb_Input b = [] then ''{}'' else acb_Input b))]
      else [])"

definition returned_text :: "AnthropicContentBlock \<Rightarrow> AnthropicContentBlock list" where
  "returned_text b =
     (if acb_Type b = ''text'' \<and> acb_Text b \<noteq> [] then [text_block (acb_Text b)] else [])"

lemma item_blocks_reasoning:
  "t \<noteq> [] \<Longrightarrow> anthropic_item_blocks (ResponsesOutput_zero\<lparr>ro_Type := ''reasoning'', ro_ID := i,
     ro_Summary := [\<lparr>rsu_Type = ''summary_text'', rsu_Text = t\<rparr>]\<rparr>) = [thinking_block t []]"
  by (simp add: anthropic_item_blocks_def summary_text_def ResponsesOutput_zero_def)

lemma item_blocks_call:
  "anthropic_item_blocks (ResponsesOutput_zero\<lparr>ro_Type := ''function_call'', ro_ID := i,
     ro_CallID := toResponsesCallID c, ro_Name := n, ro_Arguments := a, ro_Status := st\<rparr>) =
   [tool_use_block (fromResponsesCallID c) n (sanitizeAnthropicToolUseInput n a)]"
  by (simp add: anthropic_item_blocks_def toResponsesCallID_def)

lemma item_blocks_message:
  "anthropic_item_blocks (message_item i ps) = map text_block (output_text_parts ps)"
  by (simp add: anthropic_item_blocks_def message_item_def)

lemma output_text_parts_append [simp]:
  "output_text_parts (ps @ qs) = output_text_parts ps @ output_text_parts qs"
  by (simp add: output_text_parts_def)

lemma output_text_parts_single [simp]:
  "output_text_parts [output_text_part t] = (if t = [] then [] else [t])" "output_text_parts [] = []"
  by (simp_all add: output_text_parts_def output_text_part_def)

lemma anthropic_block_items_blocks:
  "concat (map anthropic_item_blocks (fst (anthropic_block_items bs outs ps r))) =
     concat (map anthropic_item_blocks outs) @ concat (map returned_item bs)"
  "map text_block (output_text_parts (fst (snd (anthropic_block_items bs outs ps r)))) =
     map text_block (output_text_parts ps) @ concat (map returned_text bs)"
  by (induction bs arbitrary: outs ps r)
     (simp_all add: returned_item_def returned_text_def item_blocks_reasoning item_blocks_call
       Let_def split_beta)

lemma rr_Output_AnthropicToResponsesResponse:
  fixes resp r
  defines "res \<equiv> anthropic_block_items (ar_Content resp) [] []
      (if ar_ID resp = [] then snd (generateResponsesID r) else r)"
  shows "concat (map anthropic_item_blocks (rr_Output (fst (AnthropicToResponsesResponse resp r)))) =
     concat (map anthropic_item_blocks (fst res)) @ map text_block (output_text_parts (fst (snd res)))"
  unfolding res_def
  by (simp add: AnthropicToResponsesResponse_def Let_def split_beta item_blocks_message)

lemma whole_response_blocks:
  "concat (map anthropic_item_blocks (rr_Output (fst (AnthropicToResponsesResponse resp r)))) =
     concat (map returned_item (ar_Content resp)) @ concat (map returned_text (ar_Content resp))"
  by (simp only: rr_Output_AnthropicToResponsesResponse anthropic_block_items_blocks) simp

text \<open>
  An Anthropic response sent to Responses and back keeps its content: the thinking blocks
  (without their signatures) and the tool uses in their order, then the nonempty texts in
  theirs; an empty result becomes one empty text block.
\<close>

theorem whole_response_content_round_trip:
  "ar_Content (ResponsesToAnthropic (fst (AnthropicToResponsesResponse resp r)) model) =
     (let bs = concat (map returned_item (ar_Content resp)) @
               concat (map returned_text (ar_Content resp))
      in if bs = [] then [text_block []] else bs)"
  using whole_response_blocks [of resp r] by (simp add: ResponsesToAnthropic_def Let_def)

text \<open>
  The token usage comes back unchanged: input tokens without the cached ones, cache reads,
  cache creation and output, as long as the counts are not negative and the total fits an
  \<^verbatim>\<open>int\<close>.
\<close>

theorem usage_round_trip:
  assumes "0 \<le> au_InputTokens u" and "0 \<le> au_CacheReadInputTokens u"
    and "0 \<le> au_CacheCreationInputTokens u"
    and "is_int64 (au_InputTokens u + au_CacheReadInputTokens u + au_CacheCreationInputTokens u)"
    and "ar_Usage resp = u"
  shows "ar_Usage (ResponsesToAnthropic (fst (AnthropicToResponsesResponse resp r)) model) = u"
proof -
  have usage: "rr_Usage (fst (AnthropicToResponsesResponse resp r)) =
      Some (anthropic_total_usage (au_InputTokens u) (au_CacheReadInputTokens u)
        (au_CacheCreationInputTokens u) (au_OutputTokens u))"
    using assms(5) by (simp add: AnthropicToResponsesResponse_def Let_def split: prod.splits)
  have fits: "is_int64 (au_InputTokens u + au_CacheReadInputTokens u)"
    "is_int64 (au_InputTokens u + au_CacheCreationInputTokens u)" "is_int64 (au_InputTokens u)"
    using assms by (auto simp: is_int64_def)
  have "anthropicUsageFromResponsesUsage (Some (anthropic_total_usage (au_InputTokens u)
      (au_CacheReadInputTokens u) (au_CacheCreationInputTokens u) (au_OutputTokens u))) = u"
    using assms fits
    by (cases u) (auto simp: anthropicUsageFromResponsesUsage_def anthropic_total_usage_def wrap64_id
        Let_def zero_defs add.commute add.left_commute)
  then show ?thesis by (simp add: ResponsesToAnthropic_def usage Let_def)
qed

theorem usage_round_trip_witness:
  "ar_Usage (ResponsesToAnthropic (fst (AnthropicToResponsesResponse
      (AnthropicResponse_zero\<lparr>ar_Usage := \<lparr>au_InputTokens = 7, au_OutputTokens = 3,
         au_CacheCreationInputTokens = 20, au_CacheReadInputTokens = 100\<rparr>\<rparr>)
      \<lparr>rs_byte = (\<lambda>_. 0), rs_pos = 0\<rparr>)) ''m'') =
   \<lparr>au_InputTokens = 7, au_OutputTokens = 3, au_CacheCreationInputTokens = 20,
    au_CacheReadInputTokens = 100\<rparr>"
  by (rule usage_round_trip) (simp_all add: is_int64_def)

text \<open>
  The stop reason comes back as the Responses status can tell it: \<^verbatim>\<open>max_tokens\<close> stays,
  any other reason becomes \<^verbatim>\<open>tool_use\<close> when the content uses a tool and \<^verbatim>\<open>end_turn\<close> otherwise.
\<close>

theorem stop_reason_round_trip:
  "ar_StopReason (ResponsesToAnthropic (fst (AnthropicToResponsesResponse resp r)) model) =
     Some (if ar_StopReason resp = Some ''max_tokens'' then ''max_tokens''
           else if containsAnthropicToolUseBlock (ar_Content resp) then ''tool_use'' else ''end_turn'')"
proof -
  have tools: "list_ex (\<lambda>b. acb_Type b = ''tool_use'') (concat (map returned_item bs)) =
      list_ex (\<lambda>b. acb_Type b = ''tool_use'') bs"
    "\<not> list_ex (\<lambda>b. acb_Type b = ''tool_use'') (concat (map returned_text bs))" for bs
    by (induction bs) (auto simp: returned_item_def returned_text_def thinking_block_def
        tool_use_block_def text_block_def)
  have status: "rr_Status (fst (AnthropicToResponsesResponse resp r)) =
      (if ar_StopReason resp = Some ''max_tokens'' then ''incomplete'' else ''completed'')"
    "rr_IncompleteDetails (fst (AnthropicToResponsesResponse resp r)) =
      (if ar_StopReason resp = Some ''max_tokens'' then Some \<lparr>rid_Reason = ''max_output_tokens''\<rparr> else None)"
    by (simp_all add: AnthropicToResponsesResponse_def anthropicStopReasonToResponsesStatus_def
        AnthropicStopReasonString_def Let_def split_beta split: option.splits)
  define bs where "bs = concat (map returned_item (ar_Content resp)) @
      concat (map returned_text (ar_Content resp))"
  have "list_ex (\<lambda>b. acb_Type b = ''tool_use'') bs =
      list_ex (\<lambda>b. acb_Type b = ''tool_use'') (ar_Content resp)"
    using tools [of "ar_Content resp"] by (simp add: bs_def)
  then have "containsAnthropicToolUseBlock (if bs = [] then [text_block []] else bs) =
      containsAnthropicToolUseBlock (ar_Content resp)"
    by (cases "bs = []") (auto simp: containsAnthropicToolUseBlock_def text_block_def)
  then show ?thesis
    using whole_response_blocks [of resp r, folded bs_def]
    by (auto simp: ResponsesToAnthropic_def responsesStatusToAnthropicStopReason_def status
        AnthropicStopReasonPtr_def Let_def)
qed

section \<open>Streams\<close>










end
