(* ===== verification/Resp_To_Chat.thy ===== *)
theory Resp_To_Chat
  imports Go_Json Responses_Protocol
begin

text \<open>
  \<^verbatim>\<open>backend/internal/pkg/apicompat/responses_to_chatcompletions.go\<close>: OpenAI Responses output as
  Chat Completions output, for a whole response (\<^verbatim>\<open>ResponsesToChatCompletions\<close>), for a stream
  (\<^verbatim>\<open>ResponsesEventToChatChunks\<close>, its handlers and the finalizer), and the
  \<^verbatim>\<open>BufferedResponseAccumulator\<close> that rebuilds a whole response from the events of a stream.
\<close>

section \<open>Whole responses\<close>

definition promptDetailsFromResponses ::
    "ResponsesInputTokensDetails option \<Rightarrow> ChatTokenDetails option" where
  "promptDetailsFromResponses src =
     (case src of
        None \<Rightarrow> None
      | Some d \<Rightarrow>
          if ritd_CachedTokens d = 0 \<and> ritd_AudioTokens d = 0 \<and> ritd_CacheCreationTokens d = 0 \<and>
             ritd_CacheWriteTokens d = 0 then None
          else Some (ChatTokenDetails_zero\<lparr>ctd_CachedTokens := ritd_CachedTokens d,
                 ctd_AudioTokens := ritd_AudioTokens d,
                 ctd_CacheCreationTokens := ritd_CacheCreationTokens d,
                 ctd_CacheWriteTokens := ritd_CacheWriteTokens d\<rparr>))"

definition completionDetailsFromResponses ::
    "ResponsesOutputTokensDetails option \<Rightarrow> ChatTokenDetails option" where
  "completionDetailsFromResponses src =
     (case src of
        None \<Rightarrow> None
      | Some d \<Rightarrow>
          if rotd_ReasoningTokens d = 0 \<and> rotd_AudioTokens d = 0 \<and>
             rotd_AcceptedPredictionTokens d = 0 \<and> rotd_RejectedPredictionTokens d = 0 then None
          else Some (ChatTokenDetails_zero\<lparr>ctd_ReasoningTokens := rotd_ReasoningTokens d,
                 ctd_AudioTokens := rotd_AudioTokens d,
                 ctd_AcceptedPredictionTokens := rotd_AcceptedPredictionTokens d,
                 ctd_RejectedPredictionTokens := rotd_RejectedPredictionTokens d\<rparr>))"

definition chatUsageFromResponsesUsage :: "ResponsesUsage option \<Rightarrow> ChatUsage option" where
  "chatUsageFromResponsesUsage usage =
     (case usage of
        None \<Rightarrow> None
      | Some u \<Rightarrow>
          let details = promptDetailsFromResponses (ru_InputTokensDetails u);
              details =
                (if 0 < ru_CacheCreationInputTokens u then
                   let d = (case details of None \<Rightarrow> ChatTokenDetails_zero | Some d \<Rightarrow> d) in
                   Some (if ctd_CacheWriteTokens d = 0 \<and> ctd_CacheCreationTokens d = 0
                         then d\<lparr>ctd_CacheCreationTokens := ru_CacheCreationInputTokens u\<rparr> else d)
                 else details)
          in Some \<lparr>cu_PromptTokens = ru_InputTokens u, cu_CompletionTokens = ru_OutputTokens u,
                   cu_TotalTokens = wrap64 (ru_InputTokens u + ru_OutputTokens u),
                   cu_PromptTokensDetails = details,
                   cu_CompletionTokensDetails =
                     completionDetailsFromResponses (ru_OutputTokensDetails u)\<rparr>)"

definition responsesStatusToChatFinishReason ::
    "go_string \<Rightarrow> ResponsesIncompleteDetails option \<Rightarrow> ChatToolCall list \<Rightarrow> go_string" where
  "responsesStatusToChatFinishReason status details toolCalls =
     (if status = ''incomplete'' then
        (case details of
           None \<Rightarrow> ''stop''
         | Some d \<Rightarrow>
             if rid_Reason d = ''max_output_tokens'' then ''length''
             else if rid_Reason d = ''content_filter'' then ''content_filter''
             else ''stop'')
      else if status = ''completed'' then (if toolCalls \<noteq> [] then ''tool_calls'' else ''stop'')
      else ''stop'')"

text \<open>The three accumulators of the loop over \<^verbatim>\<open>resp.Output\<close>.\<close>

definition chat_item_text :: "ResponsesOutput \<Rightarrow> go_string" where
  "chat_item_text item =
     (if ro_Type item = ''message'' then
        concat (map (\<lambda>p. if rcp_Type p = ''output_text'' \<and> rcp_Text p \<noteq> [] then rcp_Text p else [])
          (ro_Content item))
      else [])"

definition chat_item_reasoning :: "ResponsesOutput \<Rightarrow> go_string" where
  "chat_item_reasoning item =
     (if ro_Type item = ''reasoning'' then
        concat (map (\<lambda>s. if rsu_Type s = ''summary_text'' \<and> rsu_Text s \<noteq> [] then rsu_Text s else [])
          (ro_Summary item))
      else [])"

definition chat_item_calls :: "ResponsesOutput \<Rightarrow> ChatToolCall list" where
  "chat_item_calls item =
     (if ro_Type item = ''function_call'' then
        [ChatToolCall_zero\<lparr>ctc_ID := ro_CallID item, ctc_Type := ''function'',
           ctc_Function := \<lparr>cfc_Name = ro_Name item, cfc_Arguments = ro_Arguments item\<rparr>\<rparr>]
      else [])"

definition chat_message_of :: "ResponsesOutput list \<Rightarrow> ChatMessage" where
  "chat_message_of outputs =
     (let contentText = concat (map chat_item_text outputs);
          reasoningText = concat (map chat_item_reasoning outputs);
          toolCalls = concat (map chat_item_calls outputs);
          msg = ChatMessage_zero\<lparr>cm_Role := ''assistant''\<rparr>;
          msg = (if toolCalls \<noteq> [] then msg\<lparr>cm_ToolCalls := toolCalls\<rparr> else msg);
          msg = (if contentText \<noteq> [] then msg\<lparr>cm_Content := json_quote contentText\<rparr> else msg)
      in if reasoningText \<noteq> [] then msg\<lparr>cm_ReasoningContent := reasoningText\<rparr> else msg)"

definition ResponsesToChatCompletions ::
    "ResponsesResponse \<Rightarrow> go_string \<Rightarrow> int \<Rightarrow> rand_source \<Rightarrow> ChatCompletionsResponse \<times> rand_source" where
  "ResponsesToChatCompletions resp model now r =
     (let (i, r) = (if rr_ID resp = [] then generateChatCmplID r else (rr_ID resp, r));
          msg = chat_message_of (rr_Output resp);
          finishReason = responsesStatusToChatFinishReason (rr_Status resp)
            (rr_IncompleteDetails resp) (concat (map chat_item_calls (rr_Output resp)))
      in (\<lparr>ccr_ID = i, ccr_Object = ''chat.completion'', ccr_Created = now, ccr_Model = model,
           ccr_Choices = [\<lparr>cc_Index = 0, cc_Message = msg, cc_FinishReason = finishReason\<rparr>],
           ccr_Usage = chatUsageFromResponsesUsage (rr_Usage resp),
           ccr_SystemFingerprint = [], ccr_ServiceTier = []\<rparr>, r))"

section \<open>The stream converter\<close>

record ResponsesEventToChatState =
  rc_ID :: go_string
  rc_Model :: go_string
  rc_Created :: int
  rc_SentRole :: bool
  rc_SawToolCall :: bool
  rc_SawText :: bool
  rc_Finalized :: bool
  rc_NextToolCallIndex :: int
  rc_OutputIndexToToolIndex :: "int \<rightharpoonup> int"
  rc_IncludeUsage :: bool
  rc_Usage :: "ChatUsage option"

type_synonym rc_emitter = "(ResponsesEventToChatState, ChatCompletionsChunk) emitter"

definition NewResponsesEventToChatState ::
    "int \<Rightarrow> rand_source \<Rightarrow> ResponsesEventToChatState \<times> rand_source" where
  "NewResponsesEventToChatState now r =
     (let (i, r) = generateChatCmplID r in
      (\<lparr>rc_ID = i, rc_Model = [], rc_Created = now, rc_SentRole = False, rc_SawToolCall = False,
        rc_SawText = False, rc_Finalized = False, rc_NextToolCallIndex = 0,
        rc_OutputIndexToToolIndex = Map.empty, rc_IncludeUsage = False, rc_Usage = None\<rparr>, r))"

definition chat_chunk :: "ResponsesEventToChatState \<Rightarrow> ChatChunkChoice list \<Rightarrow> ChatUsage option \<Rightarrow>
    ChatCompletionsChunk" where
  "chat_chunk st choices usage =
     \<lparr>chk_ID = rc_ID st, chk_Object = ''chat.completion.chunk'', chk_Created = rc_Created st,
      chk_Model = rc_Model st, chk_Choices = choices, chk_Usage = usage,
      chk_SystemFingerprint = [], chk_ServiceTier = []\<rparr>"

definition makeChatDeltaChunk :: "ResponsesEventToChatState \<Rightarrow> ChatDelta \<Rightarrow> ChatCompletionsChunk" where
  "makeChatDeltaChunk st delta =
     chat_chunk st [\<lparr>ccc_Index = 0, ccc_Delta = delta, ccc_FinishReason = None\<rparr>] None"

definition makeChatFinishChunk :: "ResponsesEventToChatState \<Rightarrow> go_string \<Rightarrow> ChatCompletionsChunk" where
  "makeChatFinishChunk st finishReason =
     chat_chunk st [\<lparr>ccc_Index = 0, ccc_Delta = ChatDelta_zero\<lparr>cd_Content := Some []\<rparr>,
       ccc_FinishReason = Some finishReason\<rparr>] None"

text \<open>The usage chunk both ends of a stream append.\<close>

definition usage_chunks :: "ResponsesEventToChatState \<Rightarrow> ChatCompletionsChunk list" where
  "usage_chunks st =
     (if rc_IncludeUsage st \<and> rc_Usage st \<noteq> None then [chat_chunk st [] (rc_Usage st)] else [])"

definition resToChatHandleCreated :: "ResponsesStreamEvent \<Rightarrow> rc_emitter" where
  "resToChatHandleCreated evt st =
     (let st = (case re_Response evt of
                  None \<Rightarrow> st
                | Some r \<Rightarrow>
                    let st = (if rr_ID r \<noteq> [] then st\<lparr>rc_ID := rr_ID r\<rparr> else st) in
                    if rc_Model st = [] \<and> rr_Model r \<noteq> [] then st\<lparr>rc_Model := rr_Model r\<rparr> else st)
      in if rc_SentRole st then ([], st)
         else let st = st\<lparr>rc_SentRole := True\<rparr> in
              ([makeChatDeltaChunk st (ChatDelta_zero\<lparr>cd_Role := ''assistant''\<rparr>)], st))"

definition resToChatHandleTextDelta :: "ResponsesStreamEvent \<Rightarrow> rc_emitter" where
  "resToChatHandleTextDelta evt st =
     (if re_Delta evt = [] then ([], st)
      else let st = st\<lparr>rc_SawText := True\<rparr> in
           ([makeChatDeltaChunk st (ChatDelta_zero\<lparr>cd_Content := Some (re_Delta evt)\<rparr>)], st))"

definition is_call_item :: "ResponsesOutput option \<Rightarrow> bool" where
  "is_call_item it =
     (case it of None \<Rightarrow> False
      | Some i \<Rightarrow> ro_Type i = ''function_call'' \<or> ro_Type i = ''custom_tool_call'')"

definition resToChatHandleOutputItemAdded :: "ResponsesStreamEvent \<Rightarrow> rc_emitter" where
  "resToChatHandleOutputItemAdded evt st =
     (if \<not> is_call_item (re_Item evt) then ([], st)
      else
        let item = the (re_Item evt);
            idx = rc_NextToolCallIndex st;
            st = st\<lparr>rc_SawToolCall := True,
                    rc_OutputIndexToToolIndex := (rc_OutputIndexToToolIndex st)(re_OutputIndex evt \<mapsto> idx),
                    rc_NextToolCallIndex := idx + 1\<rparr>
        in ([makeChatDeltaChunk st (ChatDelta_zero\<lparr>cd_ToolCalls :=
               [ChatToolCall_zero\<lparr>ctc_Index := Some idx, ctc_ID := ro_CallID item,
                  ctc_Type := ''function'',
                  ctc_Function := \<lparr>cfc_Name = ro_Name item, cfc_Arguments = []\<rparr>\<rparr>]\<rparr>)], st))"

definition resToChatHandleFuncArgsDelta :: "ResponsesStreamEvent \<Rightarrow> rc_emitter" where
  "resToChatHandleFuncArgsDelta evt st =
     (if re_Delta evt = [] then ([], st)
      else case rc_OutputIndexToToolIndex st (re_OutputIndex evt) of
        None \<Rightarrow> ([], st)
      | Some idx \<Rightarrow>
          ([makeChatDeltaChunk st (ChatDelta_zero\<lparr>cd_ToolCalls :=
              [ChatToolCall_zero\<lparr>ctc_Index := Some idx,
                 ctc_Function := \<lparr>cfc_Name = [], cfc_Arguments = re_Delta evt\<rparr>\<rparr>]\<rparr>)], st))"

definition resToChatHandleReasoningDelta :: "ResponsesStreamEvent \<Rightarrow> rc_emitter" where
  "resToChatHandleReasoningDelta evt st =
     (if re_Delta evt = [] then ([], st)
      else ([makeChatDeltaChunk st (ChatDelta_zero\<lparr>cd_ReasoningContent := Some (re_Delta evt)\<rparr>)], st))"

definition chat_finish_reason :: "ResponsesStreamEvent \<Rightarrow> bool \<Rightarrow> go_string" where
  "chat_finish_reason evt sawToolCall =
     (case re_Response evt of
        None \<Rightarrow> if sawToolCall then ''tool_calls'' else ''stop''
      | Some r \<Rightarrow>
          if rr_Status r = ''incomplete'' then
            (case rr_IncompleteDetails r of
               None \<Rightarrow> ''stop''
             | Some d \<Rightarrow>
                 if rid_Reason d = ''max_output_tokens'' then ''length''
                 else if rid_Reason d = ''content_filter'' then ''content_filter'' else ''stop'')
          else if rr_Status r = ''completed'' \<and> sawToolCall then ''tool_calls''
          else ''stop'')"

definition resToChatHandleCompleted :: "ResponsesStreamEvent \<Rightarrow> rc_emitter" where
  "resToChatHandleCompleted evt st =
     (let st = st\<lparr>rc_Finalized := True\<rparr>;
          st = (if re_Usage evt \<noteq> None
                then st\<lparr>rc_Usage := chatUsageFromResponsesUsage (re_Usage evt)\<rparr> else st);
          st = (case re_Response evt of
                  None \<Rightarrow> st
                | Some r \<Rightarrow> if rr_Usage r \<noteq> None
                    then st\<lparr>rc_Usage := chatUsageFromResponsesUsage (rr_Usage r)\<rparr> else st);
          finishReason = chat_finish_reason evt (rc_SawToolCall st)
      in (makeChatFinishChunk st finishReason # usage_chunks st, st))"

definition chat_terminal :: "go_string \<Rightarrow> bool" where
  "chat_terminal t \<longleftrightarrow> t = ''response.completed'' \<or> t = ''response.done'' \<or>
     t = ''response.incomplete'' \<or> t = ''response.failed''"

definition args_delta_type :: "go_string \<Rightarrow> bool" where
  "args_delta_type t \<longleftrightarrow> t = ''response.function_call_arguments.delta'' \<or>
     t = ''response.custom_tool_call_input.delta''"

definition reasoning_delta_type :: "go_string \<Rightarrow> bool" where
  "reasoning_delta_type t \<longleftrightarrow> t = ''response.reasoning_summary_text.delta'' \<or>
     t = ''response.reasoning_text.delta''"

definition ResponsesEventToChatChunks :: "ResponsesStreamEvent \<Rightarrow> rc_emitter" where
  "ResponsesEventToChatChunks evt =
     (let t = re_Type evt in
      if t = ''response.created'' then resToChatHandleCreated evt
      else if t = ''response.output_text.delta'' then resToChatHandleTextDelta evt
      else if t = ''response.output_item.added'' then resToChatHandleOutputItemAdded evt
      else if args_delta_type t then resToChatHandleFuncArgsDelta evt
      else if reasoning_delta_type t then resToChatHandleReasoningDelta evt
      else if t = ''response.reasoning_summary_text.done'' then no_emit
      else if chat_terminal t then resToChatHandleCompleted evt
      else no_emit)"

definition FinalizeResponsesChatStream :: rc_emitter where
  "FinalizeResponsesChatStream st =
     (if rc_Finalized st then ([], st)
      else
        let st = st\<lparr>rc_Finalized := True\<rparr>;
            finishReason = (if rc_SawToolCall st then ''tool_calls'' else ''stop'')
        in (makeChatFinishChunk st finishReason # usage_chunks st, st))"

section \<open>The buffered accumulator\<close>

text \<open>
  The arguments of a buffered call are a \<^verbatim>\<open>strings.Builder\<close> held by value in a slice. A
  builder remembers the address of its first write and panics when it is written at another
  address. The calls lie in a backing array, numbered by \<open>ba_array\<close>; \<^verbatim>\<open>append\<close> on a full slice
  moves them to a new array of a capacity the run-time chooses: \<open>grow n\<close>, for a slice of length
  \<open>n\<close>. \<open>ProcessEvent\<close> returns \<open>None\<close> where the code panics. (The builders of the text and the
  reasoning are fields of the accumulator itself, which is never moved.)
\<close>

record bufferedFuncCall =
  bfc_CallID :: go_string
  bfc_Name :: go_string
  bfc_Args :: go_string
  bfc_addr :: "nat option"

record BufferedResponseAccumulator =
  ba_text :: go_string
  ba_reasoning :: go_string
  ba_funcCalls :: "bufferedFuncCall list"
  ba_outputIndexToFuncIdx :: "int \<rightharpoonup> nat"
  ba_array :: nat
  ba_cap :: nat

definition NewBufferedResponseAccumulator :: BufferedResponseAccumulator where
  "NewBufferedResponseAccumulator =
     \<lparr>ba_text = [], ba_reasoning = [], ba_funcCalls = [], ba_outputIndexToFuncIdx = Map.empty,
      ba_array = 0, ba_cap = 0\<rparr>"

definition builder_write :: "nat \<Rightarrow> go_string \<Rightarrow> bufferedFuncCall \<Rightarrow> bufferedFuncCall option" where
  "builder_write here s c =
     (if bfc_addr c = None \<or> bfc_addr c = Some here
      then Some (c\<lparr>bfc_Args := bfc_Args c @ s, bfc_addr := Some here\<rparr>) else None)"

definition append_call :: "(nat \<Rightarrow> nat) \<Rightarrow> bufferedFuncCall \<Rightarrow> BufferedResponseAccumulator \<Rightarrow>
    BufferedResponseAccumulator" where
  "append_call grow c a =
     (let n = length (ba_funcCalls a);
          a' = a\<lparr>ba_funcCalls := ba_funcCalls a @ [c]\<rparr>
      in if n < ba_cap a then a'
         else a'\<lparr>ba_array := ba_array a + 1, ba_cap := grow n\<rparr>)"

definition ProcessEvent :: "(nat \<Rightarrow> nat) \<Rightarrow> BufferedResponseAccumulator \<Rightarrow> ResponsesStreamEvent \<Rightarrow>
    BufferedResponseAccumulator option" where
  "ProcessEvent grow a event =
     (let t = re_Type event in
      if t = ''response.output_text.delta'' then
        (if re_Delta event \<noteq> [] then Some (a\<lparr>ba_text := ba_text a @ re_Delta event\<rparr>) else Some a)
      else if t = ''response.output_item.added'' then
        (if is_call_item (re_Item event) then
           let idx = length (ba_funcCalls a);
               item = the (re_Item event);
               a = a\<lparr>ba_outputIndexToFuncIdx :=
                       (ba_outputIndexToFuncIdx a)(re_OutputIndex event \<mapsto> idx)\<rparr>
           in Some (append_call grow \<lparr>bfc_CallID = ro_CallID item, bfc_Name = ro_Name item,
                 bfc_Args = [], bfc_addr = None\<rparr> a)
         else Some a)
      else if args_delta_type t then
        (if re_Delta event \<noteq> [] then
           (case ba_outputIndexToFuncIdx a (re_OutputIndex event) of
              None \<Rightarrow> Some a
            | Some idx \<Rightarrow>
                if idx < length (ba_funcCalls a) then
                  (case builder_write (ba_array a) (re_Delta event) (ba_funcCalls a ! idx) of
                     None \<Rightarrow> None
                   | Some c \<Rightarrow> Some (a\<lparr>ba_funcCalls := (ba_funcCalls a)[idx := c]\<rparr>))
                else None)
         else Some a)
      else if reasoning_delta_type t then
        (if re_Delta event \<noteq> [] then Some (a\<lparr>ba_reasoning := ba_reasoning a @ re_Delta event\<rparr>)
         else Some a)
      else Some a)"

definition HasContent :: "BufferedResponseAccumulator \<Rightarrow> bool" where
  "HasContent a \<longleftrightarrow> 0 < length (ba_text a) \<or> 0 < length (ba_funcCalls a) \<or> 0 < length (ba_reasoning a)"

definition BuildOutput :: "BufferedResponseAccumulator \<Rightarrow> ResponsesOutput list" where
  "BuildOutput a =
     (if 0 < length (ba_reasoning a) then
        [ResponsesOutput_zero\<lparr>ro_Type := ''reasoning'',
           ro_Summary := [\<lparr>rsu_Type = ''summary_text'', rsu_Text = ba_reasoning a\<rparr>]\<rparr>] else []) @
     (if 0 < length (ba_text a) then
        [ResponsesOutput_zero\<lparr>ro_Type := ''message'', ro_Role := ''assistant'',
           ro_Content := [ResponsesContentPart_zero\<lparr>rcp_Type := ''output_text'',
             rcp_Text := ba_text a\<rparr>]\<rparr>] else []) @
     map (\<lambda>c. ResponsesOutput_zero\<lparr>ro_Type := ''function_call'', ro_CallID := bfc_CallID c,
            ro_Name := bfc_Name c, ro_Arguments := bfc_Args c\<rparr>) (ba_funcCalls a)"

definition SupplementResponseOutput ::
    "BufferedResponseAccumulator \<Rightarrow> ResponsesResponse option \<Rightarrow> ResponsesResponse option" where
  "SupplementResponseOutput a resp =
     (case resp of
        None \<Rightarrow> None
      | Some r \<Rightarrow>
          if 0 < length (rr_Output r) then resp
          else if \<not> HasContent a then resp
          else Some (r\<lparr>rr_Output := BuildOutput a\<rparr>))"

end
