(* ===== verification/Resp_To_Chat_Stream.thy ===== *)
theory Resp_To_Chat_Stream
  imports Resp_To_Chat
begin

text \<open>
  What the Chat Completions side of \<^verbatim>\<open>responses_to_chatcompletions.go\<close> promises: every text and
  reasoning delta reaches the client, tool calls are numbered in the order they open, a
  stream has its finish chunk, and the message a client assembles from the chunks is the
  message the buffered path returns for the same events. The buffered path itself never
  panics as long as the upstream keeps its calls apart.
\<close>

section \<open>Text and reasoning\<close>

definition chat_deltas :: "ChatCompletionsChunk \<Rightarrow> client_delta list" where
  "chat_deltas c =
     concat (map (\<lambda>ch.
       (case cd_Content (ccc_Delta ch) of None \<Rightarrow> [] | Some t \<Rightarrow> tagged TextDelta t) @
       (case cd_ReasoningContent (ccc_Delta ch) of None \<Rightarrow> [] | Some t \<Rightarrow> tagged ThinkingDelta t))
       (chk_Choices c))"

definition resp_content :: "ResponsesStreamEvent \<Rightarrow> client_delta list" where
  "resp_content e =
     (if re_Type e = ''response.output_text.delta'' then tagged TextDelta (re_Delta e)
      else if reasoning_delta_type (re_Type e) then tagged ThinkingDelta (re_Delta e)
      else [])"

lemma chat_deltas_simps [simp]:
  "chat_deltas (makeChatDeltaChunk st d) =
     (case cd_Content d of None \<Rightarrow> [] | Some t \<Rightarrow> tagged TextDelta t) @
     (case cd_ReasoningContent d of None \<Rightarrow> [] | Some t \<Rightarrow> tagged ThinkingDelta t)"
  "chat_deltas (makeChatFinishChunk st r) = []"
  "chat_deltas (chat_chunk st [] u) = []"
  by (simp_all add: chat_deltas_def makeChatDeltaChunk_def makeChatFinishChunk_def chat_chunk_def
      tagged_def ChatDelta_zero_def)

lemma rc_carries_handlers:
  "carries chat_deltas [] (fst (resToChatHandleCreated e s))"
  "carries chat_deltas [] (fst (resToChatHandleOutputItemAdded e s))"
  "carries chat_deltas [] (fst (resToChatHandleFuncArgsDelta e s))"
  "carries chat_deltas [] (fst (resToChatHandleCompleted e s))"
  "carries chat_deltas [] (fst (FinalizeResponsesChatStream s))"
  "carries chat_deltas (tagged TextDelta (re_Delta e)) (fst (resToChatHandleTextDelta e s))"
  "carries chat_deltas (tagged ThinkingDelta (re_Delta e)) (fst (resToChatHandleReasoningDelta e s))"
  by (auto simp: carries_def resToChatHandleCreated_def resToChatHandleOutputItemAdded_def
      resToChatHandleFuncArgsDelta_def resToChatHandleCompleted_def FinalizeResponsesChatStream_def
      resToChatHandleTextDelta_def resToChatHandleReasoningDelta_def usage_chunks_def tagged_def
      ChatDelta_zero_def Let_def split: option.splits)

interpretation rc_text: carrying_converter ResponsesEventToChatChunks FinalizeResponsesChatStream
    resp_content chat_deltas
proof
  show "carries chat_deltas (resp_content e) (fst (ResponsesEventToChatChunks e s))" for e s
    using rc_carries_handlers
    by (simp add: ResponsesEventToChatChunks_def resp_content_def reasoning_delta_type_def
        args_delta_type_def Let_def)
  show "carries chat_deltas [] (fst (FinalizeResponsesChatStream s))" for s
    by (rule rc_carries_handlers)
qed

text \<open>
  Whatever the upstream sends, the nonempty text and reasoning deltas reach the Chat
  Completions client in the order and with the bytes they came.
\<close>

theorem rc_deltas_preserved:
  "concat (map chat_deltas (fst (then_emit (run_conv ResponsesEventToChatChunks es)
     FinalizeResponsesChatStream s))) = concat (map resp_content es)"
  using rc_text.stream_carries [of es s] by (simp add: carries_def)

section \<open>Finish chunks\<close>

definition finish_chunk :: "ChatCompletionsChunk \<Rightarrow> bool" where
  "finish_chunk c \<longleftrightarrow> list_ex (\<lambda>ch. ccc_FinishReason ch \<noteq> None) (chk_Choices c)"

lemma finish_chunk_simps [simp]:
  "\<not> finish_chunk (makeChatDeltaChunk st d)" "finish_chunk (makeChatFinishChunk st r)"
  "\<not> finish_chunk (chat_chunk st [] u)"
  by (simp_all add: finish_chunk_def makeChatDeltaChunk_def makeChatFinishChunk_def chat_chunk_def)

lemma rc_handlers_finish:
  "filter finish_chunk (fst (resToChatHandleCreated e s)) = []"
  "filter finish_chunk (fst (resToChatHandleOutputItemAdded e s)) = []"
  "filter finish_chunk (fst (resToChatHandleFuncArgsDelta e s)) = []"
  "filter finish_chunk (fst (resToChatHandleTextDelta e s)) = []"
  "filter finish_chunk (fst (resToChatHandleReasoningDelta e s)) = []"
  "length (filter finish_chunk (fst (resToChatHandleCompleted e s))) = 1"
  by (simp_all add: resToChatHandleCreated_def resToChatHandleOutputItemAdded_def
      resToChatHandleFuncArgsDelta_def resToChatHandleCompleted_def resToChatHandleTextDelta_def
      resToChatHandleReasoningDelta_def usage_chunks_def Let_def split: option.split)

lemma rc_handlers_finalized:
  "rc_Finalized (snd (resToChatHandleCreated e s)) = rc_Finalized s"
  "rc_Finalized (snd (resToChatHandleOutputItemAdded e s)) = rc_Finalized s"
  "rc_Finalized (snd (resToChatHandleFuncArgsDelta e s)) = rc_Finalized s"
  "rc_Finalized (snd (resToChatHandleTextDelta e s)) = rc_Finalized s"
  "rc_Finalized (snd (resToChatHandleReasoningDelta e s)) = rc_Finalized s"
  "rc_Finalized (snd (resToChatHandleCompleted e s))"
  by (simp_all add: resToChatHandleCreated_def resToChatHandleOutputItemAdded_def
      resToChatHandleFuncArgsDelta_def resToChatHandleCompleted_def resToChatHandleTextDelta_def
      resToChatHandleReasoningDelta_def Let_def split: option.split)

lemma not_chat_terminal [simp]:
  "\<not> chat_terminal ''response.created''" "\<not> chat_terminal ''response.output_text.delta''"
  "\<not> chat_terminal ''response.output_item.added''"
  "\<not> chat_terminal ''response.reasoning_summary_text.done''"
  "args_delta_type t \<Longrightarrow> \<not> chat_terminal t" "reasoning_delta_type t \<Longrightarrow> \<not> chat_terminal t"
  by (auto simp: chat_terminal_def args_delta_type_def reasoning_delta_type_def)

lemma rc_step_finish:
  "length (filter finish_chunk (fst (ResponsesEventToChatChunks e s))) =
     (if chat_terminal (re_Type e) then 1 else 0)"
  "rc_Finalized (snd (ResponsesEventToChatChunks e s)) =
     (rc_Finalized s \<or> chat_terminal (re_Type e))"
  by (simp_all add: ResponsesEventToChatChunks_def rc_handlers_finish rc_handlers_finalized Let_def)

lemma rc_run_finish:
  "length (filter finish_chunk (fst (run_conv ResponsesEventToChatChunks es s))) =
     length (filter (\<lambda>e. chat_terminal (re_Type e)) es)"
  "rc_Finalized (snd (run_conv ResponsesEventToChatChunks es s)) =
     (rc_Finalized s \<or> filter (\<lambda>e. chat_terminal (re_Type e)) es \<noteq> [])"
  by (induction es arbitrary: s) (simp_all add: rc_step_finish)

text \<open>
  A stream has one finish chunk per terminal event, and the finalizer adds the missing
  one when the upstream broke off without any; it adds nothing otherwise.
\<close>

theorem rc_finish_chunks:
  "length (filter finish_chunk (fst (then_emit (run_conv ResponsesEventToChatChunks es)
       FinalizeResponsesChatStream (fst (NewResponsesEventToChatState now r))))) =
     max 1 (length (filter (\<lambda>e. chat_terminal (re_Type e)) es))"
  using rc_run_finish [of es "fst (NewResponsesEventToChatState now r)"]
  by (cases "filter (\<lambda>e. chat_terminal (re_Type e)) es")
     (auto simp: FinalizeResponsesChatStream_def usage_chunks_def NewResponsesEventToChatState_def
       Let_def split_beta)

section \<open>The client\<close>

text \<open>
  A Chat Completions client concatenates contents and reasoning and collects the tool calls
  by their index: an index one past the known calls opens a call, a known one extends its
  arguments. An index beyond that is a protocol error, \<open>None\<close>.
\<close>

record chat_client =
  cl_text :: go_string
  cl_reasoning :: go_string
  cl_calls :: "(go_string \<times> go_string \<times> go_string) list"

definition client_call :: "chat_client \<Rightarrow> ChatToolCall \<Rightarrow> chat_client option" where
  "client_call cl c =
     (case ctc_Index c of
        None \<Rightarrow> None
      | Some i \<Rightarrow>
          if i = int (length (cl_calls cl)) then
            Some (cl\<lparr>cl_calls := cl_calls cl @
              [(ctc_ID c, cfc_Name (ctc_Function c), cfc_Arguments (ctc_Function c))]\<rparr>)
          else if 0 \<le> i \<and> i < int (length (cl_calls cl)) then
            (case cl_calls cl ! nat i of (d, n, a) \<Rightarrow>
              Some (cl\<lparr>cl_calls := (cl_calls cl)[nat i := (d, n, a @ cfc_Arguments (ctc_Function c))]\<rparr>))
          else None)"

definition client_choice :: "chat_client \<Rightarrow> ChatChunkChoice \<Rightarrow> chat_client option" where
  "client_choice cl ch =
     (let d = ccc_Delta ch;
          cl = (case cd_Content d of None \<Rightarrow> cl | Some t \<Rightarrow> cl\<lparr>cl_text := cl_text cl @ t\<rparr>);
          cl = (case cd_ReasoningContent d of None \<Rightarrow> cl
                | Some t \<Rightarrow> cl\<lparr>cl_reasoning := cl_reasoning cl @ t\<rparr>)
      in accepts client_call cl (cd_ToolCalls d))"

definition client_chunk :: "(chat_client, ChatCompletionsChunk) monitor" where
  "client_chunk cl c = accepts client_choice cl (chk_Choices c)"

definition empty_client :: chat_client where
  "empty_client = \<lparr>cl_text = [], cl_reasoning = [], cl_calls = []\<rparr>"

text \<open>What the client should hold when the accumulator has read the same events.\<close>

definition client_of :: "BufferedResponseAccumulator \<Rightarrow> chat_client" where
  "client_of a =
     \<lparr>cl_text = ba_text a, cl_reasoning = ba_reasoning a,
      cl_calls = map (\<lambda>c. (bfc_CallID c, bfc_Name c, bfc_Args c)) (ba_funcCalls a)\<rparr>"

definition rc_in_step :: "BufferedResponseAccumulator \<Rightarrow> ResponsesEventToChatState \<Rightarrow> bool" where
  "rc_in_step a st \<longleftrightarrow>
     rc_NextToolCallIndex st = int (length (ba_funcCalls a)) \<and>
     rc_OutputIndexToToolIndex st = map_option int \<circ> ba_outputIndexToFuncIdx a \<and>
     (\<forall>k i. ba_outputIndexToFuncIdx a k = Some i \<longrightarrow> i < length (ba_funcCalls a))"

lemma client_chunk_simps [simp]:
  "client_chunk cl (makeChatDeltaChunk st d) =
     client_choice cl \<lparr>ccc_Index = 0, ccc_Delta = d, ccc_FinishReason = None\<rparr>"
  "client_chunk cl (makeChatFinishChunk st r) = Some cl"
  "client_chunk cl (chat_chunk st [] u) = Some cl"
  by (simp_all add: client_chunk_def makeChatDeltaChunk_def makeChatFinishChunk_def chat_chunk_def
      client_choice_def ChatDelta_zero_def split: option.split)

lemma client_call_extend:
  assumes "i < length (cl_calls cl)"
  shows "client_call cl (ChatToolCall_zero\<lparr>ctc_Index := Some (int i),
      ctc_Function := \<lparr>cfc_Name = [], cfc_Arguments = x\<rparr>\<rparr>) =
    Some (cl\<lparr>cl_calls := (cl_calls cl)[i := (fst (cl_calls cl ! i), fst (snd (cl_calls cl ! i)),
      snd (snd (cl_calls cl ! i)) @ x)]\<rparr>)"
  using assms by (simp add: client_call_def ChatToolCall_zero_def split_beta)

lemma rc_args_client:
  assumes "rc_in_step a s" and "ProcessEvent grow a e = Some a'" and "args_delta_type (re_Type e)"
  shows "rc_in_step a' (snd (resToChatHandleFuncArgsDelta e s)) \<and>
    accepts client_chunk (client_of a) (fst (resToChatHandleFuncArgsDelta e s)) = Some (client_of a')"
proof (cases "re_Delta e = [] \<or> ba_outputIndexToFuncIdx a (re_OutputIndex e) = None")
  case True
  then show ?thesis using assms
    by (auto simp: ProcessEvent_def args_delta_type_def resToChatHandleFuncArgsDelta_def rc_in_step_def)
next
  case False
  then obtain i where i: "ba_outputIndexToFuncIdx a (re_OutputIndex e) = Some i" by auto
  with assms(1) have lt: "i < length (ba_funcCalls a)" by (auto simp: rc_in_step_def)
  obtain c where c: "builder_write (ba_array a) (re_Delta e) (ba_funcCalls a ! i) = Some c"
    and a': "a' = a\<lparr>ba_funcCalls := (ba_funcCalls a)[i := c]\<rparr>"
    using assms(2,3) False i lt
    by (auto simp: ProcessEvent_def args_delta_type_def split: option.splits)
  have "rc_OutputIndexToToolIndex s (re_OutputIndex e) = Some (int i)"
    using assms(1) i by (simp add: rc_in_step_def)
  moreover have "bfc_CallID c = bfc_CallID (ba_funcCalls a ! i)" "bfc_Name c = bfc_Name (ba_funcCalls a ! i)"
    "bfc_Args c = bfc_Args (ba_funcCalls a ! i) @ re_Delta e"
    using c by (auto simp: builder_write_def split: if_splits)
  ultimately show ?thesis
    using False assms(1) lt
    by (simp add: resToChatHandleFuncArgsDelta_def client_choice_def client_call_extend client_of_def
        rc_in_step_def a' ChatDelta_zero_def map_update Let_def)
qed

lemma rc_added_client:
  assumes "rc_in_step a s" and "ProcessEvent grow a e = Some a'"
    and "re_Type e = ''response.output_item.added''"
  shows "rc_in_step a' (snd (resToChatHandleOutputItemAdded e s)) \<and>
    accepts client_chunk (client_of a) (fst (resToChatHandleOutputItemAdded e s)) = Some (client_of a')"
proof (cases "is_call_item (re_Item e)")
  case False
  then show ?thesis using assms by (simp add: ProcessEvent_def resToChatHandleOutputItemAdded_def)
next
  case True
  let ?item = "the (re_Item e)"
  have "ba_funcCalls a' = ba_funcCalls a @ [\<lparr>bfc_CallID = ro_CallID ?item, bfc_Name = ro_Name ?item,
      bfc_Args = [], bfc_addr = None\<rparr>] \<and>
    ba_outputIndexToFuncIdx a' = (ba_outputIndexToFuncIdx a)(re_OutputIndex e \<mapsto> length (ba_funcCalls a)) \<and>
    ba_text a' = ba_text a \<and> ba_reasoning a' = ba_reasoning a"
    using assms(2,3) True by (auto simp: ProcessEvent_def append_call_def Let_def)
  then show ?thesis
    using assms(1) True
    by (auto simp: resToChatHandleOutputItemAdded_def client_choice_def client_call_def client_of_def
        rc_in_step_def ChatDelta_zero_def ChatToolCall_zero_def Let_def less_Suc_eq fun_eq_iff)
qed

text \<open>The other events touch no call; each leaves the client where the accumulator is.\<close>

lemma rc_kept_calls:
  "rc_in_step a (snd (resToChatHandleCreated e s)) = rc_in_step a s"
  "rc_in_step a (snd (resToChatHandleCompleted e s)) = rc_in_step a s"
  "rc_in_step a (snd (resToChatHandleTextDelta e s)) = rc_in_step a s"
  "rc_in_step a (snd (resToChatHandleReasoningDelta e s)) = rc_in_step a s"
  "rc_in_step (a\<lparr>ba_text := x\<rparr>) s = rc_in_step a s"
  "rc_in_step (a\<lparr>ba_reasoning := x\<rparr>) s = rc_in_step a s"
  by (simp_all add: rc_in_step_def resToChatHandleCreated_def resToChatHandleCompleted_def
      resToChatHandleTextDelta_def resToChatHandleReasoningDelta_def Let_def split: option.split)

lemma rc_silent_client:
  "accepts client_chunk cl (fst (resToChatHandleCreated e s)) = Some cl"
  "accepts client_chunk cl (fst (resToChatHandleCompleted e s)) = Some cl"
  by (simp_all add: resToChatHandleCreated_def resToChatHandleCompleted_def usage_chunks_def
      client_choice_def ChatDelta_zero_def Let_def split: option.split)

lemma rc_delta_client:
  "accepts client_chunk (client_of a) (fst (resToChatHandleTextDelta e s)) =
     Some (client_of (a\<lparr>ba_text := ba_text a @ re_Delta e\<rparr>))"
  "accepts client_chunk (client_of a) (fst (resToChatHandleReasoningDelta e s)) =
     Some (client_of (a\<lparr>ba_reasoning := ba_reasoning a @ re_Delta e\<rparr>))"
  by (simp_all add: resToChatHandleTextDelta_def resToChatHandleReasoningDelta_def client_of_def
      client_choice_def ChatDelta_zero_def Let_def)

lemma rc_other_client:
  assumes "rc_in_step a s" and "ProcessEvent grow a e = Some a'"
    and "re_Type e \<noteq> ''response.output_item.added''" and "\<not> args_delta_type (re_Type e)"
  shows "rc_in_step a' (snd (ResponsesEventToChatChunks e s)) \<and>
    accepts client_chunk (client_of a) (fst (ResponsesEventToChatChunks e s)) = Some (client_of a')"
proof -
  consider "re_Type e = ''response.output_text.delta''" | "reasoning_delta_type (re_Type e)"
    | "re_Type e \<noteq> ''response.output_text.delta''" "\<not> reasoning_delta_type (re_Type e)" by blast
  then show ?thesis
  proof cases
    case 1
    then have "a' = a\<lparr>ba_text := ba_text a @ re_Delta e\<rparr>"
      using assms(2) by (auto simp: ProcessEvent_def split: if_splits)
    then show ?thesis using 1 assms(1)
      by (simp add: ResponsesEventToChatChunks_def rc_delta_client rc_kept_calls)
  next
    case 2
    then have "a' = a\<lparr>ba_reasoning := ba_reasoning a @ re_Delta e\<rparr>"
      using assms(2-4) by (auto simp: ProcessEvent_def reasoning_delta_type_def Let_def split: if_splits)
    moreover have "ResponsesEventToChatChunks e = resToChatHandleReasoningDelta e"
      using 2 assms(3,4) by (auto simp: ResponsesEventToChatChunks_def reasoning_delta_type_def Let_def)
    ultimately show ?thesis using assms(1) by (simp add: rc_delta_client rc_kept_calls)
  next
    case 3
    then have "a' = a" using assms(2-4) by (simp add: ProcessEvent_def Let_def)
    then show ?thesis using 3 assms(1,3,4)
      by (simp add: ResponsesEventToChatChunks_def rc_silent_client rc_kept_calls Let_def)
  qed
qed

interpretation rc_client: guided_converter ResponsesEventToChatChunks "ProcessEvent grow" client_chunk
    "\<lambda>a _. client_of a" rc_in_step for grow
proof
  fix a e a' s
  assume ev: "ProcessEvent grow a e = Some a'" and rel: "rc_in_step a s"
  have "rc_in_step a' (snd (ResponsesEventToChatChunks e s)) \<and>
      accepts client_chunk (client_of a) (fst (ResponsesEventToChatChunks e s)) = Some (client_of a')"
  proof (cases "re_Type e = ''response.output_item.added'' \<or> args_delta_type (re_Type e)")
    case True
    then show ?thesis
      using rc_added_client [OF rel ev] rc_args_client [OF rel ev]
      by (auto simp: ResponsesEventToChatChunks_def args_delta_type_def)
  next
    case False
    then show ?thesis using rc_other_client [OF rel ev] by blast
  qed
  then show "rc_in_step a' (snd (ResponsesEventToChatChunks e s))"
    "accepts client_chunk (client_of a) (fst (ResponsesEventToChatChunks e s)) = Some (client_of a')"
    by blast+
qed

text \<open>The message of the buffered path, in the client's terms.\<close>

lemma BuildOutput_message:
  "concat (map chat_item_text (BuildOutput a)) = ba_text a"
  "concat (map chat_item_reasoning (BuildOutput a)) = ba_reasoning a"
  "map (\<lambda>t. (ctc_ID t, cfc_Name (ctc_Function t), cfc_Arguments (ctc_Function t)))
     (concat (map chat_item_calls (BuildOutput a))) = cl_calls (client_of a)"
proof -
  have calls: "chat_item_text (ResponsesOutput_zero\<lparr>ro_Type := ''function_call'', ro_CallID := i,
      ro_Name := n, ro_Arguments := x\<rparr>) = []"
    "chat_item_reasoning (ResponsesOutput_zero\<lparr>ro_Type := ''function_call'', ro_CallID := i,
      ro_Name := n, ro_Arguments := x\<rparr>) = []" for i n x
    by (simp_all add: chat_item_text_def chat_item_reasoning_def)
  show "concat (map chat_item_text (BuildOutput a)) = ba_text a"
    "concat (map chat_item_reasoning (BuildOutput a)) = ba_reasoning a"
    by (simp_all add: BuildOutput_def comp_def calls)
       (simp_all add: chat_item_text_def chat_item_reasoning_def)
  show "map (\<lambda>t. (ctc_ID t, cfc_Name (ctc_Function t), cfc_Arguments (ctc_Function t)))
     (concat (map chat_item_calls (BuildOutput a))) = cl_calls (client_of a)"
    by (simp add: BuildOutput_def comp_def client_of_def chat_item_calls_def map_concat)
qed

lemma rc_in_step_new:
  "rc_in_step NewBufferedResponseAccumulator (fst (NewResponsesEventToChatState now r))"
  "client_of NewBufferedResponseAccumulator = empty_client"
  by (simp_all add: rc_in_step_def client_of_def empty_client_def NewBufferedResponseAccumulator_def
      NewResponsesEventToChatState_def fun_eq_iff Let_def split_beta)

lemma supplement_message:
  assumes "SupplementResponseOutput a (Some resp) = Some resp'" and "rr_Output resp = []"
  shows "concat (map chat_item_text (rr_Output resp')) = ba_text a"
    "concat (map chat_item_reasoning (rr_Output resp')) = ba_reasoning a"
    "map (\<lambda>t. (ctc_ID t, cfc_Name (ctc_Function t), cfc_Arguments (ctc_Function t)))
       (concat (map chat_item_calls (rr_Output resp'))) = cl_calls (client_of a)"
  using assms BuildOutput_message [of a]
  by (auto simp: SupplementResponseOutput_def HasContent_def client_of_def split: if_splits)

text \<open>
  C23. The streaming and the buffered path agree: when the accumulator read an event stream
  and fills in a response that came without output, the message that
  \<^verbatim>\<open>ResponsesToChatCompletions\<close> makes of it has the text, the reasoning and the tool calls that
  a client assembles from the chunks streamed for the same events.
\<close>

theorem streamed_message_is_buffered_message:
  assumes "accepts (ProcessEvent grow) NewBufferedResponseAccumulator es = Some a"
    and "rr_Output resp = []"
    and "SupplementResponseOutput a (Some resp) = Some resp'"
    and "cc_Message (hd (ccr_Choices (fst (ResponsesToChatCompletions resp' model now r)))) = msg"
  shows "\<exists>cl. accepts client_chunk empty_client
        (fst (run_conv ResponsesEventToChatChunks es (fst (NewResponsesEventToChatState now r)))) = Some cl \<and>
      cm_Content msg = (if cl_text cl = [] then [] else json_quote (cl_text cl)) \<and>
      cm_ReasoningContent msg = cl_reasoning cl \<and>
      map (\<lambda>t. (ctc_ID t, cfc_Name (ctc_Function t), cfc_Arguments (ctc_Function t))) (cm_ToolCalls msg) =
        cl_calls cl"
proof (intro exI conjI)
  show "accepts client_chunk empty_client (fst (run_conv ResponsesEventToChatChunks es
      (fst (NewResponsesEventToChatState now r)))) = Some (client_of a)"
    using rc_client.guided_stream [OF assms(1) rc_in_step_new(1)] by (simp add: rc_in_step_new(2))
  have msg: "msg = chat_message_of (rr_Output resp')"
    using assms(4) by (simp add: ResponsesToChatCompletions_def Let_def split_beta)
  note out = supplement_message [OF assms(3,2)]
  show "cm_Content msg = (if cl_text (client_of a) = [] then [] else json_quote (cl_text (client_of a)))"
    "cm_ReasoningContent msg = cl_reasoning (client_of a)"
    using out(1,2)
    by (simp_all add: msg chat_message_of_def client_of_def ChatMessage_zero_def Let_def)
  have "cm_ToolCalls msg = concat (map chat_item_calls (rr_Output resp'))"
    by (simp add: msg chat_message_of_def ChatMessage_zero_def Let_def)
  then show "map (\<lambda>t. (ctc_ID t, cfc_Name (ctc_Function t), cfc_Arguments (ctc_Function t)))
      (cm_ToolCalls msg) = cl_calls (client_of a)"
    using out(3) by simp
qed

theorem streamed_message_is_buffered_message_witness:
  "\<exists>cl. accepts client_chunk empty_client
        (fst (run_conv ResponsesEventToChatChunks
          [ResponsesStreamEvent_zero\<lparr>re_Type := ''response.output_text.delta'', re_Delta := ''ok''\<rparr>]
          (fst (NewResponsesEventToChatState 0 \<lparr>rs_byte = (\<lambda>_. 0), rs_pos = 0\<rparr>)))) = Some cl \<and>
      json_quote ''ok'' = (if cl_text cl = [] then [] else json_quote (cl_text cl))"
proof -
  let ?es = "[ResponsesStreamEvent_zero\<lparr>re_Type := ''response.output_text.delta'', re_Delta := ''ok''\<rparr>]"
  let ?a = "NewBufferedResponseAccumulator\<lparr>ba_text := ''ok''\<rparr>"
  let ?resp = "ResponsesResponse_zero\<lparr>rr_ID := ''r''\<rparr>"
  have read: "accepts (ProcessEvent Suc) NewBufferedResponseAccumulator ?es = Some ?a"
    by (simp add: ProcessEvent_def NewBufferedResponseAccumulator_def)
  have bare: "rr_Output ?resp = []" by (simp add: ResponsesResponse_zero_def)
  have filled: "SupplementResponseOutput ?a (Some ?resp) = Some (?resp\<lparr>rr_Output := BuildOutput ?a\<rparr>)"
    by (simp add: SupplementResponseOutput_def HasContent_def ResponsesResponse_zero_def)
  have content: "cm_Content (chat_message_of (BuildOutput ?a)) = json_quote ''ok''"
    by (simp add: chat_message_of_def BuildOutput_message ChatMessage_zero_def Let_def)
  have message: "cc_Message (hd (ccr_Choices (fst (ResponsesToChatCompletions
      (?resp\<lparr>rr_Output := BuildOutput ?a\<rparr>) ''m'' 0 \<lparr>rs_byte = (\<lambda>_. 0), rs_pos = 0\<rparr>)))) =
      chat_message_of (BuildOutput ?a)"
    by (simp add: ResponsesToChatCompletions_def)
  show ?thesis
    using streamed_message_is_buffered_message [OF read bare filled message] content by auto
qed

section \<open>Tool call indices\<close>

definition index_call :: "(int, ChatToolCall) monitor" where
  "index_call n c =
     (case ctc_Index c of
        None \<Rightarrow> None
      | Some i \<Rightarrow> if i = n then Some (n + 1) else if 0 \<le> i \<and> i < n then Some n else None)"

definition index_monitor :: "(int, ChatCompletionsChunk) monitor" where
  "index_monitor n c = accepts index_call n (concat (map (\<lambda>ch. cd_ToolCalls (ccc_Delta ch)) (chk_Choices c)))"

definition rc_good :: "ResponsesEventToChatState \<Rightarrow> bool" where
  "rc_good st \<longleftrightarrow> (\<forall>k i. rc_OutputIndexToToolIndex st k = Some i \<longrightarrow> 0 \<le> i \<and> i < rc_NextToolCallIndex st) \<and>
     0 \<le> rc_NextToolCallIndex st"

lemma index_monitor_simps [simp]:
  "index_monitor n (makeChatDeltaChunk st d) = accepts index_call n (cd_ToolCalls d)"
  "index_monitor n (makeChatFinishChunk st r) = Some n"
  "index_monitor n (chat_chunk st [] u) = Some n"
  by (simp_all add: index_monitor_def makeChatDeltaChunk_def makeChatFinishChunk_def chat_chunk_def
      ChatDelta_zero_def)

abbreviation rc_indexed :: "rc_emitter \<Rightarrow> bool" where
  "rc_indexed \<equiv> conforms index_monitor rc_NextToolCallIndex rc_good"

lemma rc_indexed_calls:
  "rc_indexed (resToChatHandleOutputItemAdded e)" "rc_indexed (resToChatHandleFuncArgsDelta e)"
  by (auto simp: conforms_def rc_good_def resToChatHandleOutputItemAdded_def
      resToChatHandleFuncArgsDelta_def index_call_def ChatDelta_zero_def ChatToolCall_zero_def Let_def
      split: option.splits) fastforce+

lemma rc_indexed_others:
  "rc_indexed (resToChatHandleCreated e)" "rc_indexed (resToChatHandleCompleted e)"
  "rc_indexed (resToChatHandleTextDelta e)" "rc_indexed (resToChatHandleReasoningDelta e)"
  "rc_indexed FinalizeResponsesChatStream" "rc_indexed no_emit"
  by (auto simp: conforms_def rc_good_def resToChatHandleCreated_def resToChatHandleCompleted_def
      resToChatHandleTextDelta_def resToChatHandleReasoningDelta_def FinalizeResponsesChatStream_def
      usage_chunks_def ChatDelta_zero_def Let_def split: option.splits)

interpretation rc_index: monitored_converter ResponsesEventToChatChunks FinalizeResponsesChatStream
    "\<lambda>_. True" index_monitor rc_NextToolCallIndex rc_good
proof
  show "rc_indexed (ResponsesEventToChatChunks e)" for e
    by (simp add: ResponsesEventToChatChunks_def Let_def rc_indexed_calls rc_indexed_others)
  show "accepts index_monitor (rc_NextToolCallIndex s) (fst (FinalizeResponsesChatStream s)) =
      Some (rc_NextToolCallIndex (snd (FinalizeResponsesChatStream s)))" if "rc_good s" for s
    by (rule conformsD(2) [OF rc_indexed_others(5) that])
qed

text \<open>
  Whatever the upstream sends, the tool calls of the chunks are numbered 0, 1, 2, ... in the
  order they open, and arguments go only to calls that were opened.
\<close>

theorem rc_tool_indices_sequential:
  "accepts index_monitor 0 (fst (then_emit (run_conv ResponsesEventToChatChunks es)
       FinalizeResponsesChatStream (fst (NewResponsesEventToChatState now r)))) \<noteq> None"
  using rc_index.finished_stream_accepted [of "fst (NewResponsesEventToChatState now r)" es]
  by (simp add: rc_good_def NewResponsesEventToChatState_def list_all_iff Let_def split_beta)

section \<open>Panics of the accumulator\<close>

text \<open>
  The upstream keeps its calls apart when every argument delta names the call that was added
  last.
\<close>

definition call_order :: "(int option, ResponsesStreamEvent) monitor" where
  "call_order u e =
     (if re_Type e = ''response.output_item.added'' \<and> is_call_item (re_Item e) then
        Some (Some (re_OutputIndex e))
      else if args_delta_type (re_Type e) \<and> re_Delta e \<noteq> [] then
        (if u = Some (re_OutputIndex e) then Some u else None)
      else Some u)"

definition last_call_live :: "int option \<Rightarrow> BufferedResponseAccumulator \<Rightarrow> bool" where
  "last_call_live u a \<longleftrightarrow>
     (case u of
        None \<Rightarrow> True
      | Some oi \<Rightarrow> ba_funcCalls a \<noteq> [] \<and>
          ba_outputIndexToFuncIdx a oi = Some (length (ba_funcCalls a) - 1) \<and>
          (bfc_addr (last (ba_funcCalls a)) = None \<or> bfc_addr (last (ba_funcCalls a)) = Some (ba_array a)))"

lemma process_event_live:
  assumes "call_order u e = Some u'" and "last_call_live u a"
  shows "\<exists>a'. ProcessEvent grow a e = Some a' \<and> last_call_live u' a'"
proof -
  consider (added) "re_Type e = ''response.output_item.added''" "is_call_item (re_Item e)"
    | (args) "args_delta_type (re_Type e)" "re_Delta e \<noteq> []"
    | (other) "\<not> (re_Type e = ''response.output_item.added'' \<and> is_call_item (re_Item e))"
        "\<not> (args_delta_type (re_Type e) \<and> re_Delta e \<noteq> [])" by blast
  then show ?thesis
  proof cases
    case added
    then show ?thesis using assms
      by (auto simp: call_order_def ProcessEvent_def append_call_def last_call_live_def Let_def)
  next
    case args
    then have u: "u = Some (re_OutputIndex e)" "u' = u"
      using assms(1) by (auto simp: call_order_def args_delta_type_def split: if_splits)
    then have ne: "ba_funcCalls a \<noteq> []"
      and oi: "ba_outputIndexToFuncIdx a (re_OutputIndex e) = Some (length (ba_funcCalls a) - 1)"
      and live: "bfc_addr (last (ba_funcCalls a)) = None \<or>
        bfc_addr (last (ba_funcCalls a)) = Some (ba_array a)"
      using assms(2) by (auto simp: last_call_live_def)
    have ty: "re_Type e \<noteq> ''response.output_text.delta''" "re_Type e \<noteq> ''response.output_item.added''"
      using args(1) by (auto simp: args_delta_type_def)
    obtain c where "builder_write (ba_array a) (re_Delta e) (ba_funcCalls a ! (length (ba_funcCalls a) - 1)) = Some c"
      and "bfc_addr c = Some (ba_array a)"
      using live ne by (auto simp: builder_write_def last_conv_nth)
    then show ?thesis
      using args ne oi ty
      by (auto simp: ProcessEvent_def Let_def u last_call_live_def last_list_update)
  next
    case other
    then have "u' = u" using assms(1) by (auto simp: call_order_def split: if_splits)
    then show ?thesis using other assms(2)
      by (auto simp: ProcessEvent_def last_call_live_def Let_def split: option.splits)
  qed
qed

lemma accumulator_live:
  "accepts call_order u es \<noteq> None \<Longrightarrow> last_call_live u a \<Longrightarrow> accepts (ProcessEvent grow) a es \<noteq> None"
proof (induction es arbitrary: u a)
  case Nil
  then show ?case by simp
next
  case (Cons e es)
  then obtain u' where u': "call_order u e = Some u'" and rest: "accepts call_order u' es \<noteq> None"
    by (auto split: option.splits)
  obtain a' where "ProcessEvent grow a e = Some a'" and "last_call_live u' a'"
    using process_event_live [OF u' Cons.prems(2)] by blast
  then show ?case using Cons.IH [OF rest] by simp
qed

text \<open>
  C36. The buffered accumulator reads, without panicking, every event stream in which each
  argument delta belongs to the call that was added last, whatever capacities the run-time
  gives the growing slice.
\<close>

theorem accumulator_does_not_panic:
  assumes "accepts call_order None es \<noteq> None"
  shows "accepts (ProcessEvent grow) NewBufferedResponseAccumulator es \<noteq> None"
  using accumulator_live [OF assms] by (simp add: last_call_live_def)

definition call_added :: "int \<Rightarrow> ResponsesStreamEvent" where
  "call_added oi = ResponsesStreamEvent_zero\<lparr>re_Type := ''response.output_item.added'',
     re_OutputIndex := oi, re_Item := Some (ResponsesOutput_zero\<lparr>ro_Type := ''function_call''\<rparr>)\<rparr>"

definition args_delta :: "int \<Rightarrow> go_string \<Rightarrow> ResponsesStreamEvent" where
  "args_delta oi s = ResponsesStreamEvent_zero\<lparr>re_Type := ''response.function_call_arguments.delta'',
     re_OutputIndex := oi, re_Delta := s\<rparr>"

theorem accumulator_does_not_panic_witness:
  "accepts (ProcessEvent Suc) NewBufferedResponseAccumulator
     [call_added 0, args_delta 0 ''{}'', call_added 1, args_delta 1 ''{}''] \<noteq> None"
  using accumulator_does_not_panic [of "[call_added 0, args_delta 0 ''{}'', call_added 1, args_delta 1 ''{}'']" Suc]
  by (simp add: call_order_def call_added_def args_delta_def is_call_item_def args_delta_type_def)

text \<open>
  Two calls whose arguments interleave make it panic: the second call moves the first one's
  builder, which was written before and is written again. An empty slice that grows to
  capacity one, as Go's does, is enough.
\<close>

lemma accumulator_panics_on_interleaved_calls:
  assumes "grow 0 = 1" and "x \<noteq> []" and "y \<noteq> []"
  shows "accepts (ProcessEvent grow) NewBufferedResponseAccumulator
     [call_added 0, args_delta 0 x, call_added 1, args_delta 0 y] = None"
  using assms
  by (simp add: ProcessEvent_def append_call_def builder_write_def NewBufferedResponseAccumulator_def
      call_added_def args_delta_def is_call_item_def args_delta_type_def Let_def)

end
