(* ===== verification/Chat_To_Anth.thy ===== *)
theory Chat_To_Anth
  imports Go_Json Anthropic_Protocol "HOL-Library.AList"
begin

text \<open>
  The streaming half of \<^verbatim>\<open>backend/internal/pkg/apicompat/chatcompletions_anthropic_bridge.go\<close>:
  Chat Completions chunks converted directly into Anthropic events
  (\<^verbatim>\<open>ChatCompletionsChunkToAnthropicEvents\<close>, its helpers and the finalizer). Go maps of the state
  that the finalizer iterates over are association lists; the others are HOL maps. The chunk
  and the state are not nil.
\<close>

section \<open>Usage and stop reasons\<close>

definition chatUsageToAnthropicUsage :: "ChatUsage option \<Rightarrow> AnthropicUsage" where
  "chatUsageToAnthropicUsage usage =
     (case usage of
        None \<Rightarrow> AnthropicUsage_zero
      | Some u \<Rightarrow>
          let cachedTokens =
                (case cu_PromptTokensDetails u of None \<Rightarrow> 0 | Some d \<Rightarrow> ctd_CachedTokens d);
              cacheCreationTokens =
                (case cu_PromptTokensDetails u of
                   None \<Rightarrow> 0
                 | Some d \<Rightarrow> if 0 < ctd_CacheWriteTokens d then ctd_CacheWriteTokens d
                            else ctd_CacheCreationTokens d);
              inputTokens =
                wrap64 (wrap64 (cu_PromptTokens u - cachedTokens) - cacheCreationTokens);
              inputTokens = (if inputTokens < 0 then 0 else inputTokens)
          in AnthropicUsage_zero\<lparr>au_InputTokens := inputTokens,
               au_OutputTokens := cu_CompletionTokens u,
               au_CacheReadInputTokens := cachedTokens,
               au_CacheCreationInputTokens := cacheCreationTokens\<rparr>)"

definition ccFinishReasonToAnthropicStopReason :: "go_string \<Rightarrow> bool \<Rightarrow> go_string" where
  "ccFinishReasonToAnthropicStopReason reason hasToolCall =
     (if reason = ''length'' then ''max_tokens''
      else if reason = ''tool_calls'' then ''tool_use''
      else if reason = ''stop'' then (if hasToolCall then ''tool_use'' else ''end_turn'')
      else if hasToolCall then ''tool_use'' else ''end_turn'')"

section \<open>State\<close>

record ChatCompletionsToAnthropicStreamState =
  ca_MessageStartSent :: bool
  ca_MessageStopSent :: bool
  ca_ContentBlockIndex :: int
  ca_ContentBlockOpen :: bool
  ca_CurrentBlockType :: go_string
  ca_CurrentToolName :: go_string
  ca_CurrentToolHadDelta :: bool
  ca_HasToolCall :: bool
  ca_toolBlockIndex :: "int \<rightharpoonup> int"
  ca_toolAnnounced :: "int \<rightharpoonup> bool"
  ca_toolName :: "int \<rightharpoonup> go_string"
  ca_pendingToolCallID :: "(int \<times> go_string) list"
  ca_pendingToolArgs :: "int \<rightharpoonup> go_string"
  ca_FinishReason :: go_string
  ca_InputTokens :: int
  ca_OutputTokens :: int
  ca_CacheReadInputTokens :: int
  ca_CacheCreationInputTokens :: int
  ca_ResponseID :: go_string
  ca_Model :: go_string
  ca_Created :: int
  ca_Rand :: rand_source

type_synonym ca_emitter = "(ChatCompletionsToAnthropicStreamState, AnthropicStreamEvent) emitter"

definition NewChatCompletionsToAnthropicStreamState ::
    "go_string \<Rightarrow> int \<Rightarrow> rand_source \<Rightarrow> ChatCompletionsToAnthropicStreamState" where
  "NewChatCompletionsToAnthropicStreamState model now r =
     (let (i, r) = generateResponsesID r in
      \<lparr>ca_MessageStartSent = False, ca_MessageStopSent = False, ca_ContentBlockIndex = 0,
       ca_ContentBlockOpen = False, ca_CurrentBlockType = [], ca_CurrentToolName = [],
       ca_CurrentToolHadDelta = False, ca_HasToolCall = False, ca_toolBlockIndex = Map.empty,
       ca_toolAnnounced = Map.empty, ca_toolName = Map.empty, ca_pendingToolCallID = [],
       ca_pendingToolArgs = Map.empty, ca_FinishReason = [], ca_InputTokens = 0,
       ca_OutputTokens = 0, ca_CacheReadInputTokens = 0, ca_CacheCreationInputTokens = 0,
       ca_ResponseID = i, ca_Model = model, ca_Created = now, ca_Rand = r\<rparr>)"

section \<open>Blocks\<close>

definition closeCCAnthropicBlock :: ca_emitter where
  "closeCCAnthropicBlock st =
     (if \<not> ca_ContentBlockOpen st then ([], st)
      else
        let idx = ca_ContentBlockIndex st;
            events = (if ca_CurrentBlockType st = ''tool_use'' \<and> \<not> ca_CurrentToolHadDelta st
                      then [content_block_delta idx (input_json_delta ''{}'')] else []);
            st = st\<lparr>ca_ContentBlockOpen := False, ca_ContentBlockIndex := ca_ContentBlockIndex st + 1,
                    ca_CurrentBlockType := [], ca_CurrentToolName := [],
                    ca_CurrentToolHadDelta := False\<rparr>
        in (events @ [content_block_stop idx], st))"

definition closeCCAnthropicBlockIfOpen :: "go_string \<Rightarrow> ca_emitter" where
  "closeCCAnthropicBlockIfOpen blockType st =
     (if \<not> ca_ContentBlockOpen st \<or> ca_CurrentBlockType st \<noteq> blockType then ([], st)
      else closeCCAnthropicBlock st)"

definition ccAnthropicDelta :: "AnthropicDelta \<Rightarrow> ca_emitter" where
  "ccAnthropicDelta delta st =
     (if \<not> ca_ContentBlockOpen st then ([], st)
      else ([content_block_delta (ca_ContentBlockIndex st) delta], st))"

definition ensureCCAnthropicMessageStart :: ca_emitter where
  "ensureCCAnthropicMessageStart st =
     (if ca_MessageStartSent st then ([], st)
      else ([message_start (ca_ResponseID st) (ca_Model st)], st\<lparr>ca_MessageStartSent := True\<rparr>))"

text \<open>\<^verbatim>\<open>state.ContentBlockOpen = true; state.CurrentBlockType = t\<close> and the start event.\<close>

definition open_cc_block :: "go_string \<Rightarrow> AnthropicContentBlock \<Rightarrow> ca_emitter" where
  "open_cc_block t block st =
     ([content_block_start (ca_ContentBlockIndex st) block],
      st\<lparr>ca_ContentBlockOpen := True, ca_CurrentBlockType := t\<rparr>)"

definition ensureCCAnthropicThinkingBlock :: ca_emitter where
  "ensureCCAnthropicThinkingBlock st =
     (if ca_ContentBlockOpen st \<and> ca_CurrentBlockType st = ''thinking'' then ([], st)
      else then_emit closeCCAnthropicBlock (open_cc_block ''thinking'' (thinking_block [] [])) st)"

definition ensureCCAnthropicTextBlock :: ca_emitter where
  "ensureCCAnthropicTextBlock st =
     (if ca_ContentBlockOpen st \<and> ca_CurrentBlockType st = ''text'' then ([], st)
      else then_emit closeCCAnthropicBlock (open_cc_block ''text'' (text_block [])) st)"

definition announceCCAnthropicToolBlock :: "int \<Rightarrow> go_string \<Rightarrow> go_string \<Rightarrow> ca_emitter" where
  "announceCCAnthropicToolBlock idx callID name st =
     (let blockIdx = ca_ContentBlockIndex st;
          st = st\<lparr>ca_toolBlockIndex := (ca_toolBlockIndex st)(idx \<mapsto> blockIdx),
                  ca_toolAnnounced := (ca_toolAnnounced st)(idx \<mapsto> True),
                  ca_toolName := (ca_toolName st)(idx \<mapsto> name),
                  ca_CurrentToolName := name, ca_CurrentToolHadDelta := False,
                  ca_ContentBlockOpen := True, ca_CurrentBlockType := ''tool_use'',
                  ca_pendingToolCallID := AList.delete idx (ca_pendingToolCallID st)\<rparr>;
          events = [content_block_start blockIdx (tool_use_block (fromResponsesCallID callID) name ''{}'')];
          pending = go_get [] (ca_pendingToolArgs st idx)
      in if pending \<noteq> [] then
           (events @ [content_block_delta blockIdx (input_json_delta pending)],
            st\<lparr>ca_pendingToolArgs := (ca_pendingToolArgs st)(idx := None),
               ca_CurrentToolHadDelta := True\<rparr>)
         else (events, st))"

section \<open>Tool calls\<close>

definition cc_call_id :: "ChatToolCall \<Rightarrow> rand_source \<Rightarrow> go_string \<times> rand_source" where
  "cc_call_id toolCall r =
     (if ctc_ID toolCall = [] then generateItemID r else (ctc_ID toolCall, r))"

text \<open>The first branch: a call index that was not seen before.\<close>

definition cc_register_call :: "int \<Rightarrow> ChatToolCall \<Rightarrow> ca_emitter" where
  "cc_register_call idx toolCall st =
     (let st = st\<lparr>ca_HasToolCall := True\<rparr>;
          (callID, r) = cc_call_id toolCall (ca_Rand st);
          st = st\<lparr>ca_Rand := r\<rparr>;
          name = cfc_Name (ctc_Function toolCall)
      in if name \<noteq> [] then announceCCAnthropicToolBlock idx callID name st
         else ([], st\<lparr>ca_toolAnnounced := (ca_toolAnnounced st)(idx \<mapsto> False),
                      ca_pendingToolCallID := AList.update idx callID (ca_pendingToolCallID st)\<rparr>))"

text \<open>The second branch: the name of a pending call has arrived.\<close>

definition cc_announce_deferred :: "int \<Rightarrow> ChatToolCall \<Rightarrow> ca_emitter" where
  "cc_announce_deferred idx toolCall st =
     (let callID = go_get [] (map_of (ca_pendingToolCallID st) idx);
          callID = (if ctc_ID toolCall \<noteq> [] then ctc_ID toolCall else callID)
      in then_emit closeCCAnthropicBlock
           (announceCCAnthropicToolBlock idx callID (cfc_Name (ctc_Function toolCall))) st)"

definition cc_tool_arguments :: "int \<Rightarrow> go_string \<Rightarrow> ca_emitter" where
  "cc_tool_arguments idx arguments st =
     (if arguments = [] then ([], st)
      else if go_get False (ca_toolAnnounced st idx) then
        let blockIdx = go_get 0 (ca_toolBlockIndex st idx);
            st = (if ca_ContentBlockOpen st \<and> blockIdx = ca_ContentBlockIndex st
                  then st\<lparr>ca_CurrentToolHadDelta := True\<rparr> else st)
        in ([content_block_delta blockIdx (input_json_delta arguments)], st)
      else
        ([], st\<lparr>ca_pendingToolArgs :=
           (ca_pendingToolArgs st)(idx \<mapsto> go_get [] (ca_pendingToolArgs st idx) @ arguments)\<rparr>))"

definition cc_tool_announcement :: "int \<Rightarrow> ChatToolCall \<Rightarrow> ca_emitter" where
  "cc_tool_announcement idx toolCall st =
     (if ca_toolAnnounced st idx = None then
        then_emit closeCCAnthropicBlock (cc_register_call idx toolCall) st
      else if \<not> go_get False (ca_toolAnnounced st idx) \<and> cfc_Name (ctc_Function toolCall) \<noteq> [] then
        cc_announce_deferred idx toolCall st
      else ([], st))"

definition handleCCAnthropicToolCall :: "ChatToolCall \<Rightarrow> ca_emitter" where
  "handleCCAnthropicToolCall toolCall =
     (let idx = go_get 0 (ctc_Index toolCall) in
      then_emit (cc_tool_announcement idx toolCall)
        (cc_tool_arguments idx (cfc_Arguments (ctc_Function toolCall))))"

section \<open>Chunks\<close>

definition cc_reasoning :: "go_string option \<Rightarrow> ca_emitter" where
  "cc_reasoning rc =
     (case rc of
        None \<Rightarrow> no_emit
      | Some t \<Rightarrow>
          if t = [] then no_emit
          else then_emit ensureCCAnthropicThinkingBlock (ccAnthropicDelta (thinking_delta t)))"

definition cc_content :: "go_string option \<Rightarrow> ca_emitter" where
  "cc_content ct =
     (case ct of
        None \<Rightarrow> no_emit
      | Some t \<Rightarrow>
          if t = [] then no_emit
          else then_emit (closeCCAnthropicBlockIfOpen ''thinking'')
            (then_emit ensureCCAnthropicTextBlock (ccAnthropicDelta (text_delta t))))"

definition cc_tool_call :: "ChatToolCall \<Rightarrow> ca_emitter" where
  "cc_tool_call toolCall =
     then_emit (closeCCAnthropicBlockIfOpen ''thinking'') (handleCCAnthropicToolCall toolCall)"

definition cc_finish :: "go_string option \<Rightarrow> ca_emitter" where
  "cc_finish fr st =
     (case fr of
        None \<Rightarrow> ([], st)
      | Some t \<Rightarrow> ([], if t \<noteq> [] then st\<lparr>ca_FinishReason := t\<rparr> else st))"

definition cc_choice :: "ChatChunkChoice \<Rightarrow> ca_emitter" where
  "cc_choice choice =
     then_emit (cc_reasoning (cd_ReasoningContent (ccc_Delta choice)))
       (then_emit (cc_content (cd_Content (ccc_Delta choice)))
         (then_emit (run_conv cc_tool_call (cd_ToolCalls (ccc_Delta choice)))
           (cc_finish (ccc_FinishReason choice))))"

definition cc_chunk_header :: "ChatCompletionsChunk \<Rightarrow> ChatCompletionsToAnthropicStreamState \<Rightarrow>
    ChatCompletionsToAnthropicStreamState" where
  "cc_chunk_header chunk st =
     (let st = (if chk_ID chunk \<noteq> [] then st\<lparr>ca_ResponseID := chk_ID chunk\<rparr> else st);
          st = (if ca_Model st = [] \<and> chk_Model chunk \<noteq> [] then st\<lparr>ca_Model := chk_Model chunk\<rparr> else st)
      in if chk_Usage chunk \<noteq> None then
           let u = chatUsageToAnthropicUsage (chk_Usage chunk) in
           st\<lparr>ca_InputTokens := au_InputTokens u, ca_OutputTokens := au_OutputTokens u,
              ca_CacheReadInputTokens := au_CacheReadInputTokens u,
              ca_CacheCreationInputTokens := au_CacheCreationInputTokens u\<rparr>
         else st)"

definition ChatCompletionsChunkToAnthropicEvents :: "ChatCompletionsChunk \<Rightarrow> ca_emitter" where
  "ChatCompletionsChunkToAnthropicEvents chunk st =
     then_emit ensureCCAnthropicMessageStart (run_conv cc_choice (chk_Choices chunk))
       (cc_chunk_header chunk st)"

section \<open>The end of a stream\<close>

definition announce_pending :: "int \<Rightarrow> ca_emitter" where
  "announce_pending idx st =
     (let callID = go_get [] (map_of (ca_pendingToolCallID st) idx) in
      then_emit closeCCAnthropicBlock (announceCCAnthropicToolBlock idx callID []) st)"

definition ca_stop_message :: ca_emitter where
  "ca_stop_message st =
     ([message_delta (ccFinishReasonToAnthropicStopReason (ca_FinishReason st) (ca_HasToolCall st))
         (AnthropicUsage_zero\<lparr>au_InputTokens := ca_InputTokens st, au_OutputTokens := ca_OutputTokens st,
            au_CacheReadInputTokens := ca_CacheReadInputTokens st,
            au_CacheCreationInputTokens := ca_CacheCreationInputTokens st\<rparr>),
       message_stop], st\<lparr>ca_MessageStopSent := True\<rparr>)"

definition FinalizeChatCompletionsAnthropicStream :: ca_emitter where
  "FinalizeChatCompletionsAnthropicStream st =
     (if ca_MessageStopSent st then ([], st)
      else then_emit ensureCCAnthropicMessageStart
        (\<lambda>st. then_emit (run_conv announce_pending (sort (map fst (ca_pendingToolCallID st))))
           (then_emit closeCCAnthropicBlock ca_stop_message) st) st)"

end
