(* ===== verification/Chat_To_Anth_Stream.thy ===== *)
theory Chat_To_Anth_Stream
  imports Chat_To_Anth
begin

text \<open>
  What the direct Chat Completions to Anthropic bridge promises: any sequence of chunks,
  finalized, is one complete Anthropic message, and the text and the reasoning of the chunks
  reach the client.
\<close>

section \<open>Messages\<close>

definition ca_message :: "ChatCompletionsToAnthropicStreamState \<Rightarrow> message_phase" where
  "ca_message st = \<lparr>bp_next = ca_ContentBlockIndex st, bp_open = ca_ContentBlockOpen st,
     mp_stage = (if ca_MessageStopSent st then Ended
                 else if ca_MessageStartSent st then Within else Before)\<rparr>"

text \<open>Every announced call has a block, and it was started.\<close>

definition ca_calls_good :: "ChatCompletionsToAnthropicStreamState \<Rightarrow> bool" where
  "ca_calls_good st \<longleftrightarrow>
     (\<forall>i. ca_toolAnnounced st i = Some True \<longrightarrow> ca_toolBlockIndex st i \<noteq> None) \<and>
     (\<forall>i b. ca_toolBlockIndex st i = Some b \<longrightarrow>
        0 \<le> b \<and> (b < ca_ContentBlockIndex st \<or> (ca_ContentBlockOpen st \<and> b = ca_ContentBlockIndex st)))"

definition ca_in_message :: "ChatCompletionsToAnthropicStreamState \<Rightarrow> bool" where
  "ca_in_message st \<longleftrightarrow> 0 \<le> ca_ContentBlockIndex st \<and> ca_calls_good st \<and>
     ca_MessageStartSent st \<and> \<not> ca_MessageStopSent st"

lemmas ca_inv_defs = ca_in_message_def ca_calls_good_def ca_message_def

abbreviation ca_ok :: "ca_emitter \<Rightarrow> bool" where
  "ca_ok \<equiv> conforms (message_monitor False) ca_message ca_in_message"

lemma message_monitor_blocks [simp]:
  "mp_stage p = Within \<Longrightarrow> message_monitor strict p (content_block_start i b) =
     (if \<not> bp_open p \<and> i = bp_next p then Some (p\<lparr>bp_open := True\<rparr>) else None)"
  "mp_stage p = Within \<Longrightarrow> message_monitor strict p (content_block_stop i) =
     (if bp_open p \<and> i = bp_next p then Some (p\<lparr>bp_next := bp_next p + 1, bp_open := False\<rparr>) else None)"
  "mp_stage p = Within \<Longrightarrow> message_monitor strict p (content_block_delta i d) =
     (if if strict then bp_open p \<and> i = bp_next p
         else 0 \<le> i \<and> (i < bp_next p \<or> (bp_open p \<and> i = bp_next p)) then Some p else None)"
  by (cases p; simp add: message_monitor_def block_monitor_def block_phase.truncate_def started_def)+

lemma ca_close_closed [simp]: "\<not> ca_ContentBlockOpen (snd (closeCCAnthropicBlock st))"
  by (simp add: closeCCAnthropicBlock_def Let_def)

lemma ca_close_ok: "ca_ok closeCCAnthropicBlock"
  by (rule conformsI) (fastforce simp: closeCCAnthropicBlock_def Let_def ca_inv_defs)+

lemma ca_close_if_ok: "ca_ok (closeCCAnthropicBlockIfOpen t)"
  using ca_close_ok by (simp add: conforms_def closeCCAnthropicBlockIfOpen_def)

lemma ca_delta_ok: "ca_ok (ccAnthropicDelta d)"
  by (rule conformsI) (auto simp: ccAnthropicDelta_def ca_inv_defs)

lemma ca_close_then_ok:
  assumes "\<And>s. ca_in_message s \<Longrightarrow> \<not> ca_ContentBlockOpen s \<Longrightarrow> ca_in_message (snd (g s)) \<and>
      accepts (message_monitor False) (ca_message s) (fst (g s)) = Some (ca_message (snd (g s)))"
  shows "ca_ok (then_emit closeCCAnthropicBlock g)"
  using ca_close_ok ca_close_closed assms by (rule conforms_then_post)

lemma ca_open_ok:
  assumes "ca_in_message s" and "\<not> ca_ContentBlockOpen s"
  shows "ca_in_message (snd (open_cc_block t b s)) \<and>
    accepts (message_monitor False) (ca_message s) (fst (open_cc_block t b s)) =
      Some (ca_message (snd (open_cc_block t b s)))"
  using assms by (auto simp: open_cc_block_def ca_inv_defs)

lemma ca_ensure_ok: "ca_ok ensureCCAnthropicThinkingBlock" "ca_ok ensureCCAnthropicTextBlock"
  unfolding ensureCCAnthropicThinkingBlock_def [abs_def] ensureCCAnthropicTextBlock_def [abs_def]
  by (intro conforms_if conforms_id ca_close_then_ok ca_open_ok; assumption)+

lemma ca_announce_ok:
  assumes "ca_in_message s" and "\<not> ca_ContentBlockOpen s"
  shows "ca_in_message (snd (announceCCAnthropicToolBlock i c n s)) \<and>
    accepts (message_monitor False) (ca_message s) (fst (announceCCAnthropicToolBlock i c n s)) =
      Some (ca_message (snd (announceCCAnthropicToolBlock i c n s)))"
  using assms by (auto simp: announceCCAnthropicToolBlock_def ca_inv_defs Let_def)

lemma ca_kept [simp]:
  "ca_in_message (s\<lparr>ca_Rand := r\<rparr>) = ca_in_message s" "ca_message (s\<lparr>ca_Rand := r\<rparr>) = ca_message s"
  "ca_in_message (s\<lparr>ca_HasToolCall := x\<rparr>) = ca_in_message s"
  "ca_message (s\<lparr>ca_HasToolCall := x\<rparr>) = ca_message s"
  by (simp_all add: ca_inv_defs)

lemma ca_register_ok:
  assumes "ca_in_message s" and "\<not> ca_ContentBlockOpen s"
  shows "ca_in_message (snd (cc_register_call i c s)) \<and>
    accepts (message_monitor False) (ca_message s) (fst (cc_register_call i c s)) =
      Some (ca_message (snd (cc_register_call i c s)))"
proof -
  obtain callID r where id: "cc_call_id c (ca_Rand s) = (callID, r)" by fastforce
  let ?s = "s\<lparr>ca_HasToolCall := True, ca_Rand := r\<rparr>"
  have s: "ca_in_message ?s" "\<not> ca_ContentBlockOpen ?s" "ca_message ?s = ca_message s"
    using assms by simp_all
  show ?thesis
    using ca_announce_ok [OF s(1,2)] s assms
    by (auto simp: cc_register_call_def id Let_def ca_inv_defs)
qed

lemma ca_close_announce_ok: "ca_ok (then_emit closeCCAnthropicBlock (announceCCAnthropicToolBlock i c n))"
  by (rule ca_close_then_ok) (rule ca_announce_ok)

lemma ca_deferred_ok: "ca_ok (cc_announce_deferred i c)"
  using ca_close_announce_ok unfolding cc_announce_deferred_def [abs_def] Let_def
  by (rule conforms_param [where f = "\<lambda>x. then_emit closeCCAnthropicBlock
      (announceCCAnthropicToolBlock i x (cfc_Name (ctc_Function c)))"])

lemma ca_tool_call_ok: "ca_ok (cc_tool_call c)"
proof -
  have announce: "ca_ok (cc_tool_announcement i c)" for i
    unfolding cc_tool_announcement_def [abs_def]
    by (intro conforms_if conforms_id ca_deferred_ok ca_close_then_ok ca_register_ok; assumption)
  have args: "ca_ok (cc_tool_arguments i a)" for i a
    by (rule conformsI)
       (auto simp: cc_tool_arguments_def go_get_def ca_inv_defs Let_def split: option.splits)
  show ?thesis
    unfolding cc_tool_call_def handleCCAnthropicToolCall_def Let_def
    by (intro conforms_then ca_close_if_ok announce args)
qed

lemma ca_choice_ok: "ca_ok (cc_choice c)"
proof -
  have "ca_ok (cc_reasoning t)" "ca_ok (cc_content t)" for t
    by (auto simp: cc_reasoning_def cc_content_def split: option.split
        intro!: ca_ensure_ok ca_delta_ok ca_close_if_ok)
  moreover have "ca_ok (cc_finish t)" for t
    by (auto simp: conforms_def cc_finish_def ca_inv_defs split: option.splits)
  moreover have "ca_ok (run_conv cc_tool_call cs)" for cs
    by (rule conforms_run) (rule ca_tool_call_ok)
  ultimately show ?thesis unfolding cc_choice_def by (intro conforms_then)
qed

text \<open>A fresh state and a state inside a message; the first chunk takes one to the other.\<close>

definition ca_live :: "ChatCompletionsToAnthropicStreamState \<Rightarrow> bool" where
  "ca_live st \<longleftrightarrow> 0 \<le> ca_ContentBlockIndex st \<and> ca_calls_good st \<and> \<not> ca_MessageStopSent st"

lemma ca_start_live:
  assumes "ca_live s"
  shows "ca_in_message (snd (ensureCCAnthropicMessageStart s))"
    and "accepts (message_monitor False) (ca_message s) (fst (ensureCCAnthropicMessageStart s)) =
      Some (ca_message (snd (ensureCCAnthropicMessageStart s)))"
  using assms by (auto simp: ensureCCAnthropicMessageStart_def ca_live_def ca_inv_defs)

lemma ca_header_live [simp]:
  "ca_live (cc_chunk_header c s) = ca_live s" "ca_message (cc_chunk_header c s) = ca_message s"
  by (simp_all add: cc_chunk_header_def ca_live_def ca_calls_good_def ca_message_def Let_def)

lemma ca_pending_ok: "ca_ok (run_conv announce_pending is)"
proof (rule conforms_run)
  show "ca_ok (announce_pending i)" for i
    using ca_close_announce_ok unfolding announce_pending_def [abs_def] Let_def
    by (rule conforms_param [where f = "\<lambda>x. then_emit closeCCAnthropicBlock
        (announceCCAnthropicToolBlock i x [])"])
qed

interpretation ca: monitored_converter ChatCompletionsChunkToAnthropicEvents
    FinalizeChatCompletionsAnthropicStream "\<lambda>_. True" "message_monitor False" ca_message ca_live
proof
  have live: "ca_in_message s \<Longrightarrow> ca_live s" for s by (simp add: ca_live_def ca_in_message_def)
  show "conforms (message_monitor False) ca_message ca_live (ChatCompletionsChunkToAnthropicEvents c)" for c
  proof (rule conformsI)
    fix s assume "ca_live s"
    then have h: "ca_live (cc_chunk_header c s)" by simp
    have run: "ca_ok (run_conv cc_choice (chk_Choices c))" by (rule conforms_run) (rule ca_choice_ok)
    show "ca_live (snd (ChatCompletionsChunkToAnthropicEvents c s))"
      using conformsD(1) [OF run ca_start_live(1) [OF h]]
      by (simp add: ChatCompletionsChunkToAnthropicEvents_def live)
    show "accepts (message_monitor False) (ca_message s) (fst (ChatCompletionsChunkToAnthropicEvents c s)) =
        Some (ca_message (snd (ChatCompletionsChunkToAnthropicEvents c s)))"
      using conformsD(2) [OF run ca_start_live(1) [OF h]] ca_start_live(2) [OF h]
      by (simp add: ChatCompletionsChunkToAnthropicEvents_def accepts_append)
  qed
  fix s assume s: "ca_live s"
  let ?s1 = "snd (ensureCCAnthropicMessageStart s)"
  let ?p = "run_conv announce_pending (sort (map fst (ca_pendingToolCallID ?s1)))"
  have "ca_ok (then_emit ?p closeCCAnthropicBlock)" by (intro conforms_then ca_pending_ok ca_close_ok)
  note pre = conformsD [OF this ca_start_live(1) [OF s]]
  show "accepts (message_monitor False) (ca_message s) (fst (FinalizeChatCompletionsAnthropicStream s)) =
      Some (ca_message (snd (FinalizeChatCompletionsAnthropicStream s)))"
    using s pre ca_start_live(2) [OF s]
    by (simp add: FinalizeChatCompletionsAnthropicStream_def ca_live_def accepts_append ca_stop_message_def
        ca_in_message_def split: option.splits) (auto simp: ca_message_def)
qed

text \<open>
  C6. Any sequence of Chat Completions chunks, finalized, is one complete Anthropic message:
  \<^verbatim>\<open>message_start\<close>, blocks opened and closed one at a time under the indices 0, 1, 2, ..., every
  delta on a block that was started, \<^verbatim>\<open>message_delta\<close>, \<^verbatim>\<open>message_stop\<close>. This holds whatever the
  order in which the names, the identifiers and the arguments of the tool calls arrive.
\<close>

theorem ca_stream_is_complete_message:
  "complete_message False (fst (then_emit (run_conv ChatCompletionsChunkToAnthropicEvents cs)
     FinalizeChatCompletionsAnthropicStream (NewChatCompletionsToAnthropicStreamState model now r)))"
proof -
  let ?s = "NewChatCompletionsToAnthropicStreamState model now r"
  let ?t = "snd (run_conv ChatCompletionsChunkToAnthropicEvents cs ?s)"
  have new: "ca_live ?s" "ca_message ?s = fresh_message"
    by (simp_all add: NewChatCompletionsToAnthropicStreamState_def ca_live_def ca_calls_good_def
        ca_message_def fresh_message_def Let_def split_beta)
  have "ca_live ?t" by (rule ca.stream_invariant [OF new(1)]) (simp add: list_all_iff)
  then have "mp_stage (ca_message (snd (FinalizeChatCompletionsAnthropicStream ?t))) = Ended"
    by (simp add: FinalizeChatCompletionsAnthropicStream_def ca_live_def ca_stop_message_def ca_message_def)
  then show ?thesis
    using ca.finished_stream_accepted [OF new(1), of cs]
    by (simp add: complete_message_def new(2) list_all_iff)
qed

section \<open>Content\<close>

definition anth_content :: "AnthropicStreamEvent \<Rightarrow> client_delta list" where
  "anth_content e = filter is_content (anth_delta e)"

lemma ca_silent_blocks:
  "carries anth_content [] (fst (closeCCAnthropicBlock s))"
  "carries anth_content [] (fst (closeCCAnthropicBlockIfOpen t s))"
  "carries anth_content [] (fst (ensureCCAnthropicMessageStart s))"
  "carries anth_content [] (fst (open_cc_block t b s))"
  "carries anth_content [] (fst (announceCCAnthropicToolBlock i c n s))"
  by (auto simp: carries_def anth_content_def closeCCAnthropicBlock_def
      closeCCAnthropicBlockIfOpen_def ensureCCAnthropicMessageStart_def open_cc_block_def
      announceCCAnthropicToolBlock_def Let_def)

lemma ca_silent_ensure:
  "carries anth_content [] (fst (ensureCCAnthropicThinkingBlock s))"
  "carries anth_content [] (fst (ensureCCAnthropicTextBlock s))"
  by (simp_all add: ensureCCAnthropicThinkingBlock_def ensureCCAnthropicTextBlock_def
      ca_silent_blocks silent_append)

lemma ca_ensure_open:
  "ca_ContentBlockOpen (snd (ensureCCAnthropicThinkingBlock s))"
  "ca_ContentBlockOpen (snd (ensureCCAnthropicTextBlock s))"
  by (simp_all add: ensureCCAnthropicThinkingBlock_def ensureCCAnthropicTextBlock_def open_cc_block_def)

lemma ca_silent_tool_call: "carries anth_content [] (fst (cc_tool_call c s))"
proof -
  have "carries anth_content [] (fst (cc_register_call i c s))" for i s
    by (simp add: cc_register_call_def ca_silent_blocks Let_def split_beta)
  then have "carries anth_content [] (fst (cc_tool_announcement i c s))" for i s
    by (simp add: cc_tool_announcement_def cc_announce_deferred_def ca_silent_blocks silent_append Let_def)
  moreover have "carries anth_content [] (fst (cc_tool_arguments i a s))" for i a s
    by (simp add: cc_tool_arguments_def anth_content_def Let_def)
  ultimately show ?thesis
    by (simp add: cc_tool_call_def handleCCAnthropicToolCall_def ca_silent_blocks silent_append Let_def)
qed

lemma ca_open_delta:
  "ca_ContentBlockOpen s \<Longrightarrow> carries anth_content (anth_content (content_block_delta 0 d))
     (fst (ccAnthropicDelta d s))"
  by (simp add: ccAnthropicDelta_def anth_content_def anth_delta_def)

lemma ca_content_pieces:
  "carries anth_content (case t of None \<Rightarrow> [] | Some t \<Rightarrow> tagged ThinkingDelta t) (fst (cc_reasoning t s))"
  "carries anth_content (case t of None \<Rightarrow> [] | Some t \<Rightarrow> tagged TextDelta t) (fst (cc_content t s))"
proof -
  have think: "carries anth_content (tagged ThinkingDelta x) (fst (then_emit ensureCCAnthropicThinkingBlock
      (ccAnthropicDelta (thinking_delta x)) s))" for x
    using ca_open_delta [OF ca_ensure_open(1), of "thinking_delta x" s]
    by (intro silent_then ca_silent_ensure) (simp add: anth_content_def)
  have texts: "carries anth_content (tagged TextDelta x) (fst (then_emit (closeCCAnthropicBlockIfOpen ''thinking'')
      (then_emit ensureCCAnthropicTextBlock (ccAnthropicDelta (text_delta x))) s))" for x
    using ca_open_delta [OF ca_ensure_open(2), of "text_delta x"]
    by (intro silent_then ca_silent_blocks ca_silent_ensure) (simp add: anth_content_def)
  show "carries anth_content (case t of None \<Rightarrow> [] | Some t \<Rightarrow> tagged ThinkingDelta t)
      (fst (cc_reasoning t s))"
    by (cases t; cases "the t = []")
       (use think in \<open>simp_all add: cc_reasoning_def del: then_emit_sel\<close>, simp_all add: tagged_def)
  show "carries anth_content (case t of None \<Rightarrow> [] | Some t \<Rightarrow> tagged TextDelta t) (fst (cc_content t s))"
    by (cases t; cases "the t = []")
       (use texts in \<open>simp_all add: cc_content_def del: then_emit_sel\<close>, simp_all add: tagged_def)
qed

interpretation ca_choices: carrying_converter cc_choice no_emit
    "\<lambda>ch. (case cd_ReasoningContent (ccc_Delta ch) of None \<Rightarrow> [] | Some t \<Rightarrow> tagged ThinkingDelta t) @
         (case cd_Content (ccc_Delta ch) of None \<Rightarrow> [] | Some t \<Rightarrow> tagged TextDelta t)" anth_content
proof
  fix ch s
  have "carries anth_content [] (fst (cc_finish f s))" for f s
    by (simp add: cc_finish_def split: option.split)
  then show "carries anth_content ((case cd_ReasoningContent (ccc_Delta ch) of None \<Rightarrow> []
      | Some t \<Rightarrow> tagged ThinkingDelta t) @
      (case cd_Content (ccc_Delta ch) of None \<Rightarrow> [] | Some t \<Rightarrow> tagged TextDelta t)) (fst (cc_choice ch s))"
    unfolding cc_choice_def
    by (intro then_carries then_silent [OF ca_content_pieces(2)] ca_content_pieces(1)
        silent_then silent_run ca_silent_tool_call)
qed simp

interpretation ca_content: carrying_converter ChatCompletionsChunkToAnthropicEvents
    FinalizeChatCompletionsAnthropicStream chunk_content anth_content
proof
  show "carries anth_content (chunk_content c) (fst (ChatCompletionsChunkToAnthropicEvents c s))" for c s
    unfolding ChatCompletionsChunkToAnthropicEvents_def chunk_content_def
    by (intro silent_then ca_silent_blocks ca_choices.run_carries)
  have "carries anth_content [] (fst (announce_pending i s))" for i s
    by (simp add: announce_pending_def ca_silent_blocks silent_append Let_def)
  moreover have "carries anth_content [] (fst (ca_stop_message s))" for s
    by (simp add: ca_stop_message_def carries_def anth_content_def)
  ultimately show "carries anth_content [] (fst (FinalizeChatCompletionsAnthropicStream s))" for s
    unfolding FinalizeChatCompletionsAnthropicStream_def
    by (cases "ca_MessageStopSent s")
       (simp, simp only: if_False not_False_eq_True, intro silent_then ca_silent_blocks silent_run)
qed

text \<open>
  The nonempty reasoning and content fragments of the chunks reach the client in order,
  each fragment byte for byte, the reasoning of a chunk's choice before its content.
\<close>

theorem ca_content_preserved:
  "concat (map anth_content (fst (then_emit (run_conv ChatCompletionsChunkToAnthropicEvents cs)
     FinalizeChatCompletionsAnthropicStream s))) = concat (map chunk_content cs)"
  using ca_content.stream_carries [of cs s] by (simp add: carries_def)

end
