(* ===== verification/Chat_To_Anth_Tools.thy ===== *)
theory Chat_To_Anth_Tools
  imports Chat_To_Anth_Stream
begin

text \<open>
  Tool arguments through the direct bridge. Names, identifiers and argument fragments of the
  calls of one stream arrive in any order and interleaved; the bridge buffers what it
  cannot place yet. Every call ends up with one block, and the input that a client
  assembles on that block is made of the call's fragments.
\<close>

section \<open>Fragments received and sent\<close>

definition json_on :: "int \<Rightarrow> AnthropicStreamEvent list \<Rightarrow> go_string" where
  "json_on b es = concat (map (\<lambda>e. concat (map (\<lambda>(i, s). if i = b then s else []) (delta_json e))) es)"


lemma json_on_simps [simp]:
  "json_on b [] = []" "json_on b (es @ fs) = json_on b es @ json_on b fs"
  "json_on b (content_block_start i blk # es) = json_on b es"
  "json_on b (content_block_stop i # es) = json_on b es"
  "json_on b (message_start x m # es) = json_on b es"
  "json_on b (message_delta r u # es) = json_on b es"
  "json_on b (message_stop # es) = json_on b es"
  "json_on b (content_block_delta i (text_delta t) # es) = json_on b es"
  "json_on b (content_block_delta i (thinking_delta t) # es) = json_on b es"
  "json_on b (content_block_delta i (input_json_delta t) # es) = (if i = b then t else []) @ json_on b es"
  by (simp_all add: json_on_def delta_json_def message_start_def message_delta_def message_stop_def
      content_block_stop_def AnthropicStreamEvent_zero_def split: option.split)



section \<open>The invariant\<close>















section \<open>The emitters\<close>

lemma ca_announced [simp]:
  "ca_toolAnnounced (snd (announceCCAnthropicToolBlock i c n st)) = (ca_toolAnnounced st)(i \<mapsto> True)"
  by (simp add: announceCCAnthropicToolBlock_def Let_def)









lemma ca_close_tools [simp]:
  "ca_toolAnnounced (snd (closeCCAnthropicBlock st)) = ca_toolAnnounced st"
  "ca_pendingToolCallID (snd (closeCCAnthropicBlock st)) = ca_pendingToolCallID st"
  by (simp_all add: closeCCAnthropicBlock_def Let_def)




section \<open>Runs\<close>









section \<open>The end of the stream\<close>




section \<open>Calls seen\<close>










text \<open>A chunk with one tool call fragment.\<close>

definition call_chunk :: "int \<Rightarrow> go_string \<Rightarrow> go_string \<Rightarrow> go_string \<Rightarrow> ChatCompletionsChunk" where
  "call_chunk i d n a =
     \<lparr>chk_ID = [], chk_Object = [], chk_Created = 0, chk_Model = [],
      chk_Choices = [\<lparr>ccc_Index = 0, ccc_Delta = ChatDelta_zero\<lparr>cd_ToolCalls :=
        [ChatToolCall_zero\<lparr>ctc_Index := Some i, ctc_ID := d,
           ctc_Function := \<lparr>cfc_Name = n, cfc_Arguments = a\<rparr>\<rparr>]\<rparr>, ccc_FinishReason = None\<rparr>],
      chk_Usage = None, chk_SystemFingerprint = [], chk_ServiceTier = []\<rparr>"


text \<open>
  The empty object in front is not always harmless: two calls that are announced one after
  the other before either has arguments leave the first with \<^verbatim>\<open>{}\<close> and then its arguments,
  which is not JSON.
\<close>

definition late_arguments :: "go_string \<Rightarrow> ChatCompletionsChunk list" where
  "late_arguments a = [call_chunk 0 ''c0'' ''f'' [], call_chunk 1 ''c1'' ''g'' [], call_chunk 0 [] [] a]"

lemma ca_late_arguments_follow_empty_object:
  assumes "a \<noteq> []"
  shows "json_on 0 (fst (run_conv ChatCompletionsChunkToAnthropicEvents (late_arguments a)
    (NewChatCompletionsToAnthropicStreamState model now r))) = ''{}'' @ a"
  using assms
  by (simp add: late_arguments_def run_conv.simps(2) then_emit_def ChatCompletionsChunkToAnthropicEvents_def
      cc_chunk_header_def call_chunk_def ensureCCAnthropicMessageStart_def cc_choice_def cc_reasoning_def
      cc_content_def cc_tool_call_def cc_finish_def handleCCAnthropicToolCall_def cc_tool_announcement_def
      cc_register_call_def cc_call_id_def announceCCAnthropicToolBlock_def cc_tool_arguments_def
      closeCCAnthropicBlock_def closeCCAnthropicBlockIfOpen_def go_get_def ChatDelta_zero_def
      ChatToolCall_zero_def NewChatCompletionsToAnthropicStreamState_def no_emit_def Let_def split_beta
      del: run_conv_Cons_sel then_emit_sel)

end
