(* ===== verification/Idempotency_Repo.thy ===== *)
theory Idempotency_Repo
  imports Gateway_Prelude
begin

text \<open>
  \<^verbatim>\<open>backend/internal/repository/idempotency_repo.go\<close>: the table behind idempotent requests. Each
  operation is one SQL statement and so one atomic step on the table. The table is a list of
  rows and the sequence of the primary key; times are nanoseconds. \<open>dbnow\<close> is \<^verbatim>\<open>NOW()\<close> of the
  statement. A statement that fails leaves the table alone; the coordinator's model says which
  ones do.
\<close>

section \<open>Rows\<close>

record IdempotencyRecord =
  ir_ID :: int
  ir_Scope :: go_string
  ir_IdempotencyKeyHash :: go_string
  ir_RequestFingerprint :: go_string
  ir_Status :: go_string
  ir_ResponseStatus :: "int option"
  ir_ResponseBody :: "go_string option"
  ir_ErrorReason :: "go_string option"
  ir_LockedUntil :: "int option"
  ir_ExpiresAt :: int
  ir_CreatedAt :: int
  ir_UpdatedAt :: int

record idempotency_records =
  it_rows :: "IdempotencyRecord list"
  it_next_id :: int

definition IdempotencyStatusProcessing :: go_string where
  "IdempotencyStatusProcessing = ''processing''"

definition IdempotencyStatusSucceeded :: go_string where
  "IdempotencyStatusSucceeded = ''succeeded''"

definition IdempotencyStatusFailedRetryable :: go_string where
  "IdempotencyStatusFailedRetryable = ''failed_retryable''"

lemmas idem_statuses =
  IdempotencyStatusProcessing_def IdempotencyStatusSucceeded_def IdempotencyStatusFailedRetryable_def

definition has_key :: "go_string \<Rightarrow> go_string \<Rightarrow> IdempotencyRecord \<Rightarrow> bool" where
  "has_key scope keyHash row \<longleftrightarrow> ir_Scope row = scope \<and> ir_IdempotencyKeyHash row = keyHash"

section \<open>Operations\<close>

text \<open>
  \<^verbatim>\<open>INSERT ... ON CONFLICT (scope, idempotency_key_hash) DO NOTHING RETURNING id, ...\<close>; the
  sequence advances whether or not the row is inserted.
\<close>

definition CreateProcessing ::
    "int \<Rightarrow> IdempotencyRecord \<Rightarrow> idempotency_records \<Rightarrow>
     (bool \<times> IdempotencyRecord) \<times> idempotency_records" where
  "CreateProcessing dbnow record tbl =
     (let i = it_next_id tbl; tbl' = tbl\<lparr>it_next_id := i + 1\<rparr> in
      if list_ex (has_key (ir_Scope record) (ir_IdempotencyKeyHash record)) (it_rows tbl)
      then ((False, record), tbl')
      else
        let row = \<lparr>ir_ID = i, ir_Scope = ir_Scope record,
                   ir_IdempotencyKeyHash = ir_IdempotencyKeyHash record,
                   ir_RequestFingerprint = ir_RequestFingerprint record,
                   ir_Status = ir_Status record, ir_ResponseStatus = None, ir_ResponseBody = None,
                   ir_ErrorReason = None, ir_LockedUntil = ir_LockedUntil record,
                   ir_ExpiresAt = ir_ExpiresAt record, ir_CreatedAt = dbnow, ir_UpdatedAt = dbnow\<rparr>
        in ((True, record\<lparr>ir_ID := i, ir_CreatedAt := dbnow, ir_UpdatedAt := dbnow\<rparr>),
            tbl'\<lparr>it_rows := it_rows tbl @ [row]\<rparr>))"

definition GetByScopeAndKeyHash ::
    "go_string \<Rightarrow> go_string \<Rightarrow> idempotency_records \<Rightarrow> IdempotencyRecord option" where
  "GetByScopeAndKeyHash scope keyHash tbl = find (has_key scope keyHash) (it_rows tbl)"

text \<open>\<^verbatim>\<open>UPDATE ... WHERE ...\<close>: the rows that qualify are changed and counted.\<close>

definition update_where ::
    "(IdempotencyRecord \<Rightarrow> bool) \<Rightarrow> (IdempotencyRecord \<Rightarrow> IdempotencyRecord) \<Rightarrow>
     idempotency_records \<Rightarrow> nat \<times> idempotency_records" where
  "update_where p f tbl =
     (length (filter p (it_rows tbl)),
      tbl\<lparr>it_rows := map (\<lambda>r. if p r then f r else r) (it_rows tbl)\<rparr>)"

definition TryReclaim ::
    "int \<Rightarrow> int \<Rightarrow> go_string \<Rightarrow> int \<Rightarrow> int \<Rightarrow> int \<Rightarrow> idempotency_records \<Rightarrow> bool \<times> idempotency_records" where
  "TryReclaim dbnow i fromStatus now newLockedUntil newExpiresAt tbl =
     (let (affected, tbl') =
        update_where
          (\<lambda>r. ir_ID r = i \<and> ir_Status r = fromStatus \<and>
               (case ir_LockedUntil r of None \<Rightarrow> True | Some l \<Rightarrow> l \<le> now))
          (\<lambda>r. r\<lparr>ir_Status := IdempotencyStatusProcessing, ir_LockedUntil := Some newLockedUntil,
                 ir_ErrorReason := None, ir_UpdatedAt := dbnow, ir_ExpiresAt := newExpiresAt\<rparr>) tbl
      in (0 < affected, tbl'))"

definition ExtendProcessingLock ::
    "int \<Rightarrow> int \<Rightarrow> go_string \<Rightarrow> int \<Rightarrow> int \<Rightarrow> idempotency_records \<Rightarrow> bool \<times> idempotency_records" where
  "ExtendProcessingLock dbnow i requestFingerprint newLockedUntil newExpiresAt tbl =
     (let (affected, tbl') =
        update_where
          (\<lambda>r. ir_ID r = i \<and> ir_Status r = IdempotencyStatusProcessing \<and>
               ir_RequestFingerprint r = requestFingerprint)
          (\<lambda>r. r\<lparr>ir_LockedUntil := Some newLockedUntil, ir_ExpiresAt := newExpiresAt,
                 ir_UpdatedAt := dbnow\<rparr>) tbl
      in (0 < affected, tbl'))"

definition MarkSucceeded ::
    "int \<Rightarrow> int \<Rightarrow> int \<Rightarrow> go_string \<Rightarrow> int \<Rightarrow> idempotency_records \<Rightarrow> idempotency_records" where
  "MarkSucceeded dbnow i responseStatus responseBody expiresAt tbl =
     snd (update_where (\<lambda>r. ir_ID r = i)
       (\<lambda>r. r\<lparr>ir_Status := IdempotencyStatusSucceeded, ir_ResponseStatus := Some responseStatus,
              ir_ResponseBody := Some responseBody, ir_ErrorReason := None, ir_LockedUntil := None,
              ir_ExpiresAt := expiresAt, ir_UpdatedAt := dbnow\<rparr>) tbl)"

definition MarkFailedRetryable ::
    "int \<Rightarrow> int \<Rightarrow> go_string \<Rightarrow> int \<Rightarrow> int \<Rightarrow> idempotency_records \<Rightarrow> idempotency_records" where
  "MarkFailedRetryable dbnow i errorReason lockedUntil expiresAt tbl =
     snd (update_where (\<lambda>r. ir_ID r = i)
       (\<lambda>r. r\<lparr>ir_Status := IdempotencyStatusFailedRetryable, ir_ErrorReason := Some errorReason,
              ir_LockedUntil := Some lockedUntil, ir_ExpiresAt := expiresAt,
              ir_UpdatedAt := dbnow\<rparr>) tbl)"

text \<open>\<^verbatim>\<open>ORDER BY expires_at ASC LIMIT n\<close>; among equal times the older row comes first.\<close>

definition DeleteExpired :: "int \<Rightarrow> int \<Rightarrow> idempotency_records \<Rightarrow> int \<times> idempotency_records" where
  "DeleteExpired now limit tbl =
     (let limit = (if limit \<le> 0 then 500 else limit);
          victims = map ir_ID (take (nat limit)
            (sort_key ir_ExpiresAt (filter (\<lambda>r. ir_ExpiresAt r \<le> now) (it_rows tbl))));
          gone = filter (\<lambda>r. ir_ID r \<in> set victims) (it_rows tbl)
      in (int (length gone), tbl\<lparr>it_rows := filter (\<lambda>r. ir_ID r \<notin> set victims) (it_rows tbl)\<rparr>))"

section \<open>The table's invariant\<close>

text \<open>Primary key and the unique constraint.\<close>

definition row_key :: "IdempotencyRecord \<Rightarrow> go_string \<times> go_string" where
  "row_key r = (ir_Scope r, ir_IdempotencyKeyHash r)"

definition table_ok :: "idempotency_records \<Rightarrow> bool" where
  "table_ok tbl \<longleftrightarrow> distinct (map ir_ID (it_rows tbl)) \<and> distinct (map row_key (it_rows tbl)) \<and>
     list_all (\<lambda>r. 0 < ir_ID r \<and> ir_ID r < it_next_id tbl) (it_rows tbl) \<and> 0 < it_next_id tbl"

lemma has_key_row_key: "has_key s k r \<longleftrightarrow> row_key r = (s, k)"
  by (auto simp: has_key_def row_key_def)

text \<open>An update that keeps identity and key keeps the invariant.\<close>

lemma map_if_same: "(\<And>r. g (f r) = g r) \<Longrightarrow> map g (map (\<lambda>r. if p r then f r else r) rs) = map g rs"
  by (simp add: comp_def)

lemma table_ok_update_where:
  assumes "table_ok tbl" and "\<And>r. ir_ID (f r) = ir_ID r" and "\<And>r. row_key (f r) = row_key r"
  shows "table_ok (snd (update_where p f tbl))"
proof -
  have ids: "map ir_ID (map (\<lambda>r. if p r then f r else r) (it_rows tbl)) = map ir_ID (it_rows tbl)"
    and keys: "map row_key (map (\<lambda>r. if p r then f r else r) (it_rows tbl)) = map row_key (it_rows tbl)"
    by (rule map_if_same, rule assms)+
  have "list_all (\<lambda>r. 0 < ir_ID r \<and> ir_ID r < it_next_id tbl) (map (\<lambda>r. if p r then f r else r) (it_rows tbl))"
    using assms(1,2) by (auto simp: table_ok_def list_all_iff)
  then show ?thesis using assms(1) ids keys by (simp add: table_ok_def update_where_def del: map_map)
qed

lemma table_ok_operations:
  assumes "table_ok tbl"
  shows "table_ok (snd (CreateProcessing t rcd tbl))"
    and "table_ok (snd (TryReclaim t i st now l x tbl))"
    and "table_ok (snd (ExtendProcessingLock t i fp l x tbl))"
    and "table_ok (MarkSucceeded t i rs b x tbl)"
    and "table_ok (MarkFailedRetryable t i e l x tbl)"
    and "table_ok (snd (DeleteExpired now lim tbl))"
proof -
  show "table_ok (snd (CreateProcessing t rcd tbl))"
    using assms
    by (auto simp: table_ok_def CreateProcessing_def Let_def list_all_iff list_ex_iff has_key_def row_key_def)
  show "table_ok (snd (TryReclaim t i st now l x tbl))" "table_ok (snd (ExtendProcessingLock t i fp l x tbl))"
    "table_ok (MarkSucceeded t i rs b x tbl)" "table_ok (MarkFailedRetryable t i e l x tbl)"
    unfolding TryReclaim_def ExtendProcessingLock_def MarkSucceeded_def MarkFailedRetryable_def
      Let_def split_beta snd_conv
    by (rule table_ok_update_where [OF assms]; simp add: row_key_def)+
  show "table_ok (snd (DeleteExpired now lim tbl))"
    using assms by (simp add: table_ok_def DeleteExpired_def Let_def list_all_iff distinct_map_filter)
qed

section \<open>The store the coordinator relies on\<close>

text \<open>The row under a primary key, and a row that is claimed until \<open>l\<close>.\<close>

definition row_of :: "idempotency_records \<Rightarrow> int \<Rightarrow> IdempotencyRecord option" where
  "row_of tbl i = find (\<lambda>r. ir_ID r = i) (it_rows tbl)"

definition claimed :: "IdempotencyRecord option \<Rightarrow> go_string \<times> go_string \<Rightarrow> int \<Rightarrow> int \<Rightarrow> bool" where
  "claimed ro key l x \<longleftrightarrow>
     (case ro of
        None \<Rightarrow> False
      | Some r \<Rightarrow> row_key r = key \<and> ir_Status r = IdempotencyStatusProcessing \<and>
          ir_LockedUntil r = Some l \<and> ir_ExpiresAt r = x)"

definition lock_free :: "int \<Rightarrow> IdempotencyRecord \<Rightarrow> bool" where
  "lock_free now r \<longleftrightarrow> (case ir_LockedUntil r of None \<Rightarrow> True | Some l \<Rightarrow> l \<le> now)"

text \<open>
  The laws of \<^verbatim>\<open>IdempotencyRepository\<close>: a creation takes a fresh identity or changes nothing; a
  reclaim succeeds exactly on a row of the given status whose lock is free, and then holds the
  new lock; marks touch one row; a purge keeps what has not expired.
\<close>

locale idempotency_store =
  fixes ok :: "'t \<Rightarrow> bool"
    and row :: "'t \<Rightarrow> int \<Rightarrow> IdempotencyRecord option"
    and create :: "int \<Rightarrow> IdempotencyRecord \<Rightarrow> 't \<Rightarrow> (bool \<times> IdempotencyRecord) \<times> 't"
    and reclaim :: "int \<Rightarrow> int \<Rightarrow> go_string \<Rightarrow> int \<Rightarrow> int \<Rightarrow> int \<Rightarrow> 't \<Rightarrow> bool \<times> 't"
    and mark_ok :: "int \<Rightarrow> int \<Rightarrow> int \<Rightarrow> go_string \<Rightarrow> int \<Rightarrow> 't \<Rightarrow> 't"
    and mark_failed :: "int \<Rightarrow> int \<Rightarrow> go_string \<Rightarrow> int \<Rightarrow> int \<Rightarrow> 't \<Rightarrow> 't"
    and purge :: "int \<Rightarrow> int \<Rightarrow> 't \<Rightarrow> int \<times> 't"
  assumes create_taken: "ok t \<Longrightarrow> create n rcd t = ((True, rcd'), t') \<Longrightarrow>
      row t (ir_ID rcd') = None \<and> (\<exists>r. row t' = (row t)(ir_ID rcd' \<mapsto> r) \<and> row_key r = row_key rcd \<and>
        ir_Status r = ir_Status rcd \<and> ir_LockedUntil r = ir_LockedUntil rcd \<and>
        ir_ExpiresAt r = ir_ExpiresAt rcd)"
    and create_refused: "create n rcd t = ((False, rcd'), t') \<Longrightarrow> row t' = row t"
    and reclaim_other: "k \<noteq> i \<Longrightarrow> row (snd (reclaim n i st now l x t)) k = row t k"
    and reclaim_taken: "ok t \<Longrightarrow> fst (reclaim n i st now l x t) \<Longrightarrow>
      \<exists>r r'. row t i = Some r \<and> ir_Status r = st \<and> lock_free now r \<and>
        row (snd (reclaim n i st now l x t)) i = Some r' \<and> claimed (Some r') (row_key r) l x"
    and reclaim_refused: "\<not> fst (reclaim n i st now l x t) \<Longrightarrow> row (snd (reclaim n i st now l x t)) = row t"
    and mark_ok_other: "k \<noteq> i \<Longrightarrow> row (mark_ok n i s b x t) k = row t k"
    and mark_failed_other: "k \<noteq> i \<Longrightarrow> row (mark_failed n i e l x t) k = row t k"
    and purge_keeps: "ok t \<Longrightarrow> row t i = Some r \<Longrightarrow> now < ir_ExpiresAt r \<Longrightarrow>
      row (snd (purge now lim t)) i = Some r"
begin

lemma create_claims:
  assumes "ok t" and "create n rcd t = ((True, rcd'), t')"
    and "ir_Status rcd = IdempotencyStatusProcessing" and "ir_LockedUntil rcd = Some l"
  shows "claimed (row t' (ir_ID rcd')) (row_key rcd) l (ir_ExpiresAt rcd)"
    and "claimed (row t i) key l' x' \<Longrightarrow> i \<noteq> ir_ID rcd' \<and> claimed (row t' i) key l' x'"
  using create_taken [OF assms(1,2)] assms(3,4) by (auto simp: claimed_def)

lemma create_keeps_claim:
  assumes "ok t" and "claimed (row t i) key l x"
  shows "claimed (row (snd (create n rcd t)) i) key l x"
proof -
  obtain b rcd' t' where c: "create n rcd t = ((b, rcd'), t')" by (metis surj_pair)
  show ?thesis
  proof (cases b)
    case True
    then have "create n rcd t = ((True, rcd'), t')" using c by simp
    from create_taken [OF assms(1) this]
    have "row t (ir_ID rcd') = None" "\<exists>r. row t' = (row t)(ir_ID rcd' \<mapsto> r)" by blast+
    then show ?thesis using c assms(2) by (auto simp: claimed_def)
  next
    case False
    then show ?thesis using c create_refused assms(2) by simp
  qed
qed

lemma reclaim_wrong_status:
  assumes "ok t" and "row t i = Some r" and "ir_Status r \<noteq> st"
  shows "\<not> fst (reclaim n i st now l x t)" and "row (snd (reclaim n i st now l x t)) = row t"
proof -
  show "\<not> fst (reclaim n i st now l x t)" using reclaim_taken [OF assms(1)] assms(2,3) by fastforce
  then show "row (snd (reclaim n i st now l x t)) = row t" by (rule reclaim_refused)
qed

lemma create_keeps_row:
  assumes "ok t" and "row t i = Some r" and "create n rcd t = ((b, rcd'), t')"
  shows "row t' i = Some r" and "b \<Longrightarrow> ir_ID rcd' \<noteq> i"
proof -
  consider "b" "create n rcd t = ((True, rcd'), t')" | "\<not> b" "create n rcd t = ((False, rcd'), t')"
    using assms(3) by (cases b) auto
  then have "row t' i = Some r \<and> (b \<longrightarrow> ir_ID rcd' \<noteq> i)"
  proof cases
    case 1
    then show ?thesis using create_taken [OF assms(1)] assms(2) by fastforce
  next
    case 2
    then show ?thesis using create_refused assms(2) by simp
  qed
  then show "row t' i = Some r" and "b \<Longrightarrow> ir_ID rcd' \<noteq> i" by simp_all
qed

text \<open>A claimed row cannot be reclaimed while its lock holds, or as a row of another status.\<close>

lemma claim_excludes_reclaim:
  assumes "ok t" and "claimed (row t i) key l x" and "now < l \<or> st \<noteq> IdempotencyStatusProcessing"
  shows "\<not> fst (reclaim n i st now l' x' t)" and "row (snd (reclaim n i st now l' x' t)) = row t"
proof -
  show "\<not> fst (reclaim n i st now l' x' t)"
    using reclaim_taken [OF assms(1)] assms(2,3) by (fastforce simp: claimed_def lock_free_def)
  then show "row (snd (reclaim n i st now l' x' t)) = row t" by (rule reclaim_refused)
qed

lemma reclaim_keeps_claim:
  assumes "ok t" and "claimed (row t i) key l x"
    and "k = i \<Longrightarrow> now < l \<or> st \<noteq> IdempotencyStatusProcessing"
  shows "claimed (row (snd (reclaim n k st now l' x' t)) i) key l x"
proof (cases "k = i")
  case True
  then show ?thesis using claim_excludes_reclaim(2) [OF assms(1,2)] assms(2,3) by simp
next
  case False
  then show ?thesis using reclaim_other [of i k] assms(2) by simp
qed

lemma reclaim_claims:
  assumes "ok t" and "fst (reclaim n i st now l x t)" and "\<And>r. row t i = Some r \<Longrightarrow> row_key r = key"
  shows "claimed (row (snd (reclaim n i st now l x t)) i) key l x"
  using reclaim_taken [OF assms(1,2)] assms(3) by fastforce

lemma purge_keeps_claim:
  assumes "ok t" and "claimed (row t i) key l x" and "now < x"
  shows "claimed (row (snd (purge now lim t)) i) key l x"
  using purge_keeps [OF assms(1)] assms(2,3) by (auto simp: claimed_def split: option.splits)

end

lemma find_append: "find p (xs @ ys) = (case find p xs of None \<Rightarrow> find p ys | Some x \<Rightarrow> Some x)"
  by (induction xs) auto

lemma row_of_Some:
  assumes "table_ok tbl"
  shows "row_of tbl i = Some r \<longleftrightarrow> r \<in> set (it_rows tbl) \<and> ir_ID r = i"
proof
  show "row_of tbl i = Some r \<Longrightarrow> r \<in> set (it_rows tbl) \<and> ir_ID r = i"
    by (auto simp: row_of_def find_Some_iff)
  assume r: "r \<in> set (it_rows tbl) \<and> ir_ID r = i"
  then obtain r' where "row_of tbl i = Some r'" unfolding row_of_def
    by (metis (mono_tags, lifting) find_None_iff not_None_eq)
  then have "r' \<in> set (it_rows tbl)" and "ir_ID r' = i" by (auto simp: row_of_def find_Some_iff)
  then show "row_of tbl i = Some r"
    using r inj_onD [of ir_ID "set (it_rows tbl)" r r'] assms \<open>row_of tbl i = Some r'\<close>
    by (auto simp: table_ok_def distinct_map)
qed

lemma row_of_update_where:
  assumes "\<And>r. ir_ID (f r) = ir_ID r"
  shows "row_of (snd (update_where p f tbl)) i = map_option (\<lambda>r. if p r then f r else r) (row_of tbl i)"
proof -
  have "find (\<lambda>r. ir_ID r = i) (map (\<lambda>r. if p r then f r else r) rs) =
      map_option (\<lambda>r. if p r then f r else r) (find (\<lambda>r. ir_ID r = i) rs)" for rs
    using assms by (induction rs) auto
  then show ?thesis by (simp add: row_of_def update_where_def)
qed

lemma update_where_count: "0 < fst (update_where p f tbl) \<longleftrightarrow> (\<exists>r \<in> set (it_rows tbl). p r)"
  by (auto simp: update_where_def filter_empty_conv)

interpretation sql_store: idempotency_store table_ok row_of CreateProcessing TryReclaim MarkSucceeded
    MarkFailedRetryable DeleteExpired
proof
  fix t n rcd rcd' t'
  show "CreateProcessing n rcd t = ((False, rcd'), t') \<Longrightarrow> row_of t' = row_of t"
    by (auto simp: CreateProcessing_def row_of_def fun_eq_iff Let_def split: if_splits)
  assume ok: "table_ok t" and c: "CreateProcessing n rcd t = ((True, rcd'), t')"
  have "find (\<lambda>r. ir_ID r = it_next_id t) (it_rows t) = None"
    using ok by (auto simp: table_ok_def list_all_iff find_None_iff)
  then show "row_of t (ir_ID rcd') = None \<and> (\<exists>r. row_of t' = (row_of t)(ir_ID rcd' \<mapsto> r) \<and>
      row_key r = row_key rcd \<and> ir_Status r = ir_Status rcd \<and> ir_LockedUntil r = ir_LockedUntil rcd \<and>
      ir_ExpiresAt r = ir_ExpiresAt rcd)"
    using c
    by (auto simp: CreateProcessing_def row_of_def fun_eq_iff find_append row_key_def Let_def
        split: if_splits option.splits)
next
  fix k i n st now l x t
  let ?p = "\<lambda>r. ir_ID r = i \<and> ir_Status r = st \<and>
      (case ir_LockedUntil r of None \<Rightarrow> True | Some l \<Rightarrow> l \<le> now)"
  let ?f = "\<lambda>r. r\<lparr>ir_Status := IdempotencyStatusProcessing, ir_LockedUntil := Some l,
      ir_ErrorReason := None, ir_UpdatedAt := n, ir_ExpiresAt := x\<rparr>"
  have row: "row_of (snd (TryReclaim n i st now l x t)) k =
      map_option (\<lambda>r. if ?p r then ?f r else r) (row_of t k)" for k
    unfolding TryReclaim_def Let_def split_beta snd_conv by (rule row_of_update_where) simp
  have ids: "row_of t k = Some r \<Longrightarrow> ir_ID r = k" for k r by (auto simp: row_of_def find_Some_iff)
  have taken: "fst (TryReclaim n i st now l x t) \<longleftrightarrow> (\<exists>r \<in> set (it_rows t). ?p r)"
    by (simp add: TryReclaim_def split_beta update_where_count)
  show "k \<noteq> i \<Longrightarrow> row_of (snd (TryReclaim n i st now l x t)) k = row_of t k"
    by (cases "row_of t k") (auto simp: row dest: ids)
  have mem: "row_of t k = Some r \<Longrightarrow> r \<in> set (it_rows t)" for k r
    by (auto simp: row_of_def find_Some_iff)
  have "row_of (snd (TryReclaim n i st now l x t)) k = row_of t k"
    if "\<not> fst (TryReclaim n i st now l x t)" for k
    using that mem by (cases "row_of t k") (auto simp: row taken)
  then show "\<not> fst (TryReclaim n i st now l x t) \<Longrightarrow> row_of (snd (TryReclaim n i st now l x t)) = row_of t"
    by (intro ext)
  assume ok: "table_ok t" and "fst (TryReclaim n i st now l x t)"
  then obtain r where r: "r \<in> set (it_rows t)" "?p r" using taken by blast
  then have "row_of t i = Some r" using row_of_Some [OF ok] by blast
  then show "\<exists>r r'. row_of t i = Some r \<and> ir_Status r = st \<and> lock_free now r \<and>
      row_of (snd (TryReclaim n i st now l x t)) i = Some r' \<and> claimed (Some r') (row_key r) l x"
    using r by (intro exI [of _ r] exI [of _ "?f r"]) (simp add: row claimed_def lock_free_def row_key_def)
next
  fix k i n s b x e l t
  have ids: "row_of t k = Some r \<Longrightarrow> ir_ID r = k" for k r by (auto simp: row_of_def find_Some_iff)
  show "k \<noteq> i \<Longrightarrow> row_of (MarkSucceeded n i s b x t) k = row_of t k"
    "k \<noteq> i \<Longrightarrow> row_of (MarkFailedRetryable n i e l x t) k = row_of t k"
    unfolding MarkSucceeded_def MarkFailedRetryable_def
    by (subst row_of_update_where; cases "row_of t k"; auto dest: ids)+
next
  fix t i r now lim
  assume ok: "table_ok t" and r: "row_of t i = Some r" and live: "now < ir_ExpiresAt r"
  then have mem: "r \<in> set (it_rows t)" and i: "ir_ID r = i" using row_of_Some by blast+
  have fresh: "\<not> ir_ExpiresAt v \<le> now" if "v \<in> set (it_rows t)" "ir_ID v = ir_ID r" for v
    using that live mem ok inj_onD [of ir_ID "set (it_rows t)" v r] by (auto simp: table_ok_def distinct_map)
  have "ir_ID r \<notin> ir_ID ` set (take m (sort_key ir_ExpiresAt
      (filter (\<lambda>r. ir_ExpiresAt r \<le> now) (it_rows t))))" for m
    using fresh by (auto dest!: in_set_takeD)
  then have "r \<in> set (it_rows (snd (DeleteExpired now lim t)))"
    using mem by (simp add: DeleteExpired_def Let_def)
  then show "row_of (snd (DeleteExpired now lim t)) i = Some r"
    using row_of_Some [OF table_ok_operations(6) [OF ok]] i by blast
qed

end
