(* ===== verification/Go_Sha256.thy ===== *)
theory Go_Sha256
  imports Gateway_Prelude
begin

text \<open>
  \<^verbatim>\<open>crypto/sha256\<close>: SHA-256 of a byte string (FIPS 180-4), on 32-bit words. The gateway uses it
  for idempotency keys and request fingerprints, always hex-encoded.
\<close>

unbundle bit_operations_syntax

definition rotr32 :: "nat \<Rightarrow> 32 word \<Rightarrow> 32 word" where
  "rotr32 n x = drop_bit n x OR push_bit (32 - n) x"

definition sha_K :: "32 word list" where
  "sha_K =
    [1116352408, 1899447441, 3049323471, 3921009573, 961987163, 1508970993, 2453635748, 2870763221,
     3624381080, 310598401, 607225278, 1426881987, 1925078388, 2162078206, 2614888103, 3248222580,
     3835390401, 4022224774, 264347078, 604807628, 770255983, 1249150122, 1555081692, 1996064986,
     2554220882, 2821834349, 2952996808, 3210313671, 3336571891, 3584528711, 113926993, 338241895,
     666307205, 773529912, 1294757372, 1396182291, 1695183700, 1986661051, 2177026350, 2456956037,
     2730485921, 2820302411, 3259730800, 3345764771, 3516065817, 3600352804, 4094571909, 275423344,
     430227734, 506948616, 659060556, 883997877, 958139571, 1322822218, 1537002063, 1747873779,
     1955562222, 2024104815, 2227730452, 2361852424, 2428436474, 2756734187, 3204031479, 3329325298]"

definition sha_init :: "32 word list" where
  "sha_init = [1779033703, 3144134277, 1013904242, 2773480762,
               1359893119, 2600822924, 528734635, 1541459225]"

definition big_endian :: "nat \<Rightarrow> nat \<Rightarrow> 8 word list" where
  "big_endian n x = map (\<lambda>i. word_of_nat (x div 256 ^ (n - 1 - i))) [0 ..< n]"

definition sha_pad :: "8 word list \<Rightarrow> 8 word list" where
  "sha_pad m =
     m @ [0x80] @ replicate ((119 - length m mod 64) mod 64) 0 @ big_endian 8 (8 * length m)"

definition word_be :: "8 word list \<Rightarrow> 32 word" where
  "word_be bs = foldl (\<lambda>a b. push_bit 8 a OR ucast b) 0 bs"

fun groups :: "nat \<Rightarrow> nat \<Rightarrow> 'a list \<Rightarrow> 'a list list" where
  "groups 0 n xs = []"
| "groups (Suc k) n xs = take n xs # groups k n (drop n xs)"

text \<open>The message schedule, built by its recurrence from the sixteen words of a block.\<close>

fun sha_schedule :: "nat \<Rightarrow> 32 word list \<Rightarrow> 32 word list" where
  "sha_schedule 0 ws = ws"
| "sha_schedule (Suc k) ws =
     (let t = length ws;
          w15 = ws ! (t - 15); w2 = ws ! (t - 2);
          s0 = rotr32 7 w15 XOR rotr32 18 w15 XOR drop_bit 3 w15;
          s1 = rotr32 17 w2 XOR rotr32 19 w2 XOR drop_bit 10 w2
      in sha_schedule k (ws @ [ws ! (t - 16) + s0 + ws ! (t - 7) + s1]))"

fun sha_round :: "32 word list \<Rightarrow> 32 word \<times> 32 word \<Rightarrow> 32 word list" where
  "sha_round [a, b, c, d, e, f, g, h] (k, w) =
     (let t1 = h + (rotr32 6 e XOR rotr32 11 e XOR rotr32 25 e) +
                 ((e AND f) XOR (NOT e AND g)) + k + w;
          t2 = (rotr32 2 a XOR rotr32 13 a XOR rotr32 22 a) +
                 ((a AND b) XOR (a AND c) XOR (b AND c))
      in [t1 + t2, a, b, c, d + t1, e, f, g])"
| "sha_round hs _ = hs"

definition sha_block :: "32 word list \<Rightarrow> 8 word list \<Rightarrow> 32 word list" where
  "sha_block hs block =
     (let ws = sha_schedule 48 (map word_be (groups 16 4 block))
      in map2 (+) hs (foldl sha_round hs (zip sha_K ws)))"

definition sha256 :: "8 word list \<Rightarrow> 8 word list" where
  "sha256 m =
     (let p = sha_pad m;
          hs = foldl sha_block sha_init (groups (length p div 64) 64 p)
      in concat (map (\<lambda>h. big_endian 4 (unat h)) hs))"

text \<open>\<^verbatim>\<open>hex.EncodeToString(sha256.Sum256([]byte(s)))\<close>\<close>

definition sha256_hex :: "go_string \<Rightarrow> go_string" where
  "sha256_hex s = hex_encode (sha256 (map (\<lambda>c. word_of_nat (of_char c)) s))"

lemma length_sha_round [simp]: "length (sha_round hs kw) = length hs"
  by (induction hs kw rule: sha_round.induct) (simp_all add: Let_def)

lemma length_sha_rounds: "length (foldl sha_round hs kws) = length hs"
  by (induction kws arbitrary: hs) simp_all

lemma length_sha_blocks: "length (foldl sha_block hs bs) = length hs"
proof (induction bs arbitrary: hs)
  case (Cons b bs)
  have "length (sha_block hs b) = length hs" by (simp add: sha_block_def Let_def length_sha_rounds)
  then show ?case using Cons.IH [of "sha_block hs b"] by simp
qed simp

lemma length_sha256 [simp]: "length (sha256 m) = 32"
proof -
  have "length (concat (map (\<lambda>h. big_endian 4 (unat h)) hs)) = 4 * length hs" for hs :: "32 word list"
    by (induction hs) (simp_all add: big_endian_def)
  then show ?thesis by (simp add: sha256_def Let_def length_sha_blocks sha_init_def)
qed

lemma length_sha256_hex [simp]: "length (sha256_hex s) = 64"
  by (simp add: sha256_hex_def)

end
