(* ===== verification/Idempotency.thy ===== *)
theory Idempotency
  imports Idempotency_Repo Go_Json Go_Sha256
begin

text \<open>
  \<^verbatim>\<open>backend/internal/service/idempotency.go\<close>: the coordinator that runs a request at most once per
  idempotency key. \<open>Execute\<close> is a walk through phases; each phase makes at most one repository
  call, so the same phases serve the sequential function here and the interleaved runs of
  \<open>Idempotency_Race\<close>. Metrics and audit logs are left out.

  Arguments stand for what the code gets from elsewhere (\<open>idem_env\<close>): the clock and the failing
  statements at each call site, \<^verbatim>\<open>json.Marshal\<close> of the response value, the log redaction of
  \<^verbatim>\<open>logredact.RedactText\<close>, and \<^verbatim>\<open>strings.ToUpper\<close> outside ASCII.
\<close>

section \<open>Configuration, options, results\<close>

record IdempotencyConfig =
  ic_DefaultTTL :: int
  ic_SystemOperationTTL :: int
  ic_ProcessingTimeout :: int
  ic_FailedRetryBackoff :: int
  ic_MaxStoredResponseLen :: int
  ic_ObserveOnly :: bool

definition seconds :: "int \<Rightarrow> int" where
  "seconds n = n * 1000000000"

definition DefaultIdempotencyConfig :: IdempotencyConfig where
  "DefaultIdempotencyConfig =
     \<lparr>ic_DefaultTTL = seconds (24 * 3600), ic_SystemOperationTTL = seconds 3600,
      ic_ProcessingTimeout = seconds 30, ic_FailedRetryBackoff = seconds 5,
      ic_MaxStoredResponseLen = 64 * 1024, ic_ObserveOnly = True\<rparr>"

text \<open>\<^verbatim>\<open>Payload\<close> is given by its JSON, \<open>None\<close> when \<^verbatim>\<open>json.Marshal\<close> fails on it.\<close>

record IdempotencyExecuteOptions =
  io_Scope :: go_string
  io_ActorScope :: go_string
  io_Method :: go_string
  io_Route :: go_string
  io_IdempotencyKey :: go_string
  io_Payload :: "raw_json option"
  io_TTL :: int
  io_RequireKey :: bool

text \<open>The result data: the value the executor returned, or what the stored text decodes to.\<close>

datatype 'd idem_data = Value 'd | Decoded raw_json | EmptyObject

record 'd IdempotencyExecuteResult =
  ix_Data :: "'d idem_data"
  ix_Replayed :: bool

text \<open>The executor's error, known by its reason code (empty when it has none).\<close>

datatype exec_error = ExecError go_string

datatype idem_error =
    ErrIdempotencyKeyRequired
  | ErrIdempotencyKeyInvalid
  | ErrIdempotencyKeyConflict
  | ErrIdempotencyInProgress "int option"
  | ErrIdempotencyRetryBackoff "int option"
  | ErrIdempotencyStoreUnavail
  | ErrIdempotencyInvalidPayload
  | ErrScopeRequired
  | ErrExecutor exec_error

datatype idem_op = OpCreate | OpGet | OpReclaimExpired | OpReread | OpReclaim | OpRun | OpMark

record 'd idem_env =
  en_clock :: "idem_op \<Rightarrow> int"
  en_fails :: "idem_op \<Rightarrow> bool"
  en_marshal :: "'d \<Rightarrow> raw_json option"
  en_redact :: "go_string \<Rightarrow> go_string"
  en_upper :: "go_string \<Rightarrow> go_string"

section \<open>Keys and fingerprints\<close>

definition NormalizeIdempotencyKey :: "go_string \<Rightarrow> idem_error + go_string" where
  "NormalizeIdempotencyKey raw =
     (let key = go_trim_space raw in
      if key = [] then Inr []
      else if 128 < length key then Inl ErrIdempotencyKeyInvalid
      else if list_ex (\<lambda>c. of_char c < (33 :: nat) \<or> 126 < (of_char c :: nat)) key
      then Inl ErrIdempotencyKeyInvalid
      else Inr key)"

definition HashIdempotencyKey :: "go_string \<Rightarrow> go_string" where
  "HashIdempotencyKey key = sha256_hex key"

definition ascii_upper :: "char \<Rightarrow> char" where
  "ascii_upper c =
     (let n = of_char c :: nat in if 97 \<le> n \<and> n \<le> 122 then char_of (n - 32) else c)"

definition go_to_upper :: "(go_string \<Rightarrow> go_string) \<Rightarrow> go_string \<Rightarrow> go_string" where
  "go_to_upper unicode s =
     (if list_all (\<lambda>c. of_char c < (128 :: nat)) s then map ascii_upper s else unicode s)"

definition BuildIdempotencyFingerprint ::
    "(go_string \<Rightarrow> go_string) \<Rightarrow> go_string \<Rightarrow> go_string \<Rightarrow> go_string \<Rightarrow> raw_json option \<Rightarrow>
     idem_error + go_string" where
  "BuildIdempotencyFingerprint unicode httpMethod route actorScope payload =
     (let httpMethod = (if httpMethod = [] then ''POST'' else httpMethod);
          route = (if route = [] then ''/'' else route);
          actorScope = (if actorScope = [] then ''anonymous'' else actorScope);
          nl = [CHR 0x0A]
      in case payload of
           None \<Rightarrow> Inl ErrIdempotencyInvalidPayload
         | Some raw \<Rightarrow>
             Inr (sha256_hex (go_to_upper unicode httpMethod @ nl @ route @ nl @ actorScope @ nl @ raw)))"

section \<open>Stored responses\<close>

text \<open>\<^verbatim>\<open>utf8.ValidString\<close>: every prefix decodes as a well-formed rune.\<close>

function utf8_valid :: "go_string \<Rightarrow> bool" where
  "utf8_valid s =
     (if s = [] then True else if utf8_len s = 0 then False else utf8_valid (drop (utf8_len s) s))"
  by pat_completeness auto
termination
  by (relation "measure length") auto

declare utf8_valid.simps [simp del]

fun cut_to_valid :: "nat \<Rightarrow> go_string \<Rightarrow> go_string" where
  "cut_to_valid 0 s = []"
| "cut_to_valid (Suc n) s = (if utf8_valid (take (Suc n) s) then take (Suc n) s else cut_to_valid n s)"

definition truncateUTF8 :: "go_string \<Rightarrow> int \<Rightarrow> go_string" where
  "truncateUTF8 s maxBytes =
     (if maxBytes \<le> 0 \<or> int (length s) \<le> maxBytes then s else cut_to_valid (nat maxBytes) s)"

definition marshalStoredResponse :: "IdempotencyConfig \<Rightarrow> 'd idem_env \<Rightarrow> 'd \<Rightarrow> go_string option" where
  "marshalStoredResponse cfg env data =
     (case en_marshal env data of
        None \<Rightarrow> None
      | Some raw \<Rightarrow>
          let redacted = en_redact env raw in
          Some (if 0 < ic_MaxStoredResponseLen cfg \<and>
                   ic_MaxStoredResponseLen cfg < int (length redacted)
                then truncateUTF8 redacted (ic_MaxStoredResponseLen cfg) @ ''...(truncated)''
                else redacted))"

definition decodeStoredResponse :: "go_string option \<Rightarrow> 'd idem_data option" where
  "decodeStoredResponse stored =
     (case stored of
        None \<Rightarrow> Some EmptyObject
      | Some s \<Rightarrow>
          if go_trim_space s = [] then Some EmptyObject
          else if json_Valid s then Some (Decoded s) else None)"

section \<open>The phases of a request\<close>

text \<open>The locals that \<^verbatim>\<open>Execute\<close> computes before its first repository call.\<close>

record idem_request =
  rq_Scope :: go_string
  rq_keyHash :: go_string
  rq_fingerprint :: go_string
  rq_now :: int
  rq_lockedUntil :: int
  rq_expiresAt :: int

datatype 'd idem_phase =
    Claiming
  | LookingUp
  | ReclaimingExpired IdempotencyRecord
  | Rereading
  | Reclaiming IdempotencyRecord
  | Running int
  | MarkingFailed int exec_error int
  | MarkingSucceeded int go_string 'd
  | Finished "idem_error + 'd IdempotencyExecuteResult"

definition conflictWithRetryAfter ::
    "(int option \<Rightarrow> idem_error) \<Rightarrow> int option \<Rightarrow> int \<Rightarrow> idem_error" where
  "conflictWithRetryAfter base lockedUntil now =
     (case lockedUntil of
        None \<Rightarrow> base None
      | Some l \<Rightarrow>
          let sec = (l - now) div seconds 1 in base (Some (if sec \<le> 0 then 1 else sec)))"

definition unavailable :: "'d idem_phase" where
  "unavailable = Finished (Inl ErrIdempotencyStoreUnavail)"

text \<open>After a claim: \<^verbatim>\<open>record.ID == 0\<close> is refused, otherwise the executor runs.\<close>

definition owning :: "int \<Rightarrow> 'd idem_phase" where
  "owning i = (if i = 0 then unavailable else Running i)"

text \<open>The switch on the status of an existing record.\<close>

definition dispatch_existing :: "idem_request \<Rightarrow> IdempotencyRecord \<Rightarrow> 'd idem_phase" where
  "dispatch_existing rq existing =
     (if ir_Status existing = IdempotencyStatusSucceeded then
        (case decodeStoredResponse (ir_ResponseBody existing) of
           None \<Rightarrow> unavailable
         | Some data \<Rightarrow> Finished (Inr \<lparr>ix_Data = data, ix_Replayed = True\<rparr>))
      else if ir_Status existing = IdempotencyStatusProcessing then
        Finished (Inl (conflictWithRetryAfter ErrIdempotencyInProgress (ir_LockedUntil existing) (rq_now rq)))
      else if ir_Status existing = IdempotencyStatusFailedRetryable then
        (if (case ir_LockedUntil existing of None \<Rightarrow> False | Some l \<Rightarrow> rq_now rq < l)
         then Finished (Inl (conflictWithRetryAfter ErrIdempotencyRetryBackoff
                (ir_LockedUntil existing) (rq_now rq)))
         else Reclaiming existing)
      else Finished (Inl ErrIdempotencyKeyConflict))"

definition new_record :: "idem_request \<Rightarrow> IdempotencyRecord" where
  "new_record rq =
     \<lparr>ir_ID = 0, ir_Scope = rq_Scope rq, ir_IdempotencyKeyHash = rq_keyHash rq,
      ir_RequestFingerprint = rq_fingerprint rq, ir_Status = IdempotencyStatusProcessing,
      ir_ResponseStatus = None, ir_ResponseBody = None, ir_ErrorReason = None,
      ir_LockedUntil = Some (rq_lockedUntil rq), ir_ExpiresAt = rq_expiresAt rq,
      ir_CreatedAt = 0, ir_UpdatedAt = 0\<rparr>"

definition claim_step :: "'d idem_env \<Rightarrow> idem_request \<Rightarrow> idempotency_records \<Rightarrow>
    'd idem_phase \<times> idempotency_records" where
  "claim_step env rq tbl =
     (if en_fails env OpCreate then (unavailable, tbl)
      else
        let ((owner, record), tbl) = CreateProcessing (en_clock env OpCreate) (new_record rq) tbl in
        (if owner then owning (ir_ID record) else LookingUp, tbl))"

definition lookup_step :: "'d idem_env \<Rightarrow> idem_request \<Rightarrow> idempotency_records \<Rightarrow> 'd idem_phase" where
  "lookup_step env rq tbl =
     (if en_fails env OpGet then unavailable
      else case GetByScopeAndKeyHash (rq_Scope rq) (rq_keyHash rq) tbl of
        None \<Rightarrow> unavailable
      | Some existing \<Rightarrow>
          if ir_RequestFingerprint existing \<noteq> rq_fingerprint rq
          then Finished (Inl ErrIdempotencyKeyConflict)
          else if \<not> rq_now rq < ir_ExpiresAt existing then ReclaimingExpired existing
          else dispatch_existing rq existing)"

definition reclaim_expired_step :: "'d idem_env \<Rightarrow> idem_request \<Rightarrow> IdempotencyRecord \<Rightarrow>
    idempotency_records \<Rightarrow> 'd idem_phase \<times> idempotency_records" where
  "reclaim_expired_step env rq existing tbl =
     (if en_fails env OpReclaimExpired then (unavailable, tbl)
      else
        let (taken, tbl) = TryReclaim (en_clock env OpReclaimExpired) (ir_ID existing)
              (ir_Status existing) (rq_now rq) (rq_lockedUntil rq) (rq_expiresAt rq) tbl in
        (if taken then owning (ir_ID existing) else Rereading, tbl))"

definition reread_step :: "'d idem_env \<Rightarrow> idem_request \<Rightarrow> idempotency_records \<Rightarrow> 'd idem_phase" where
  "reread_step env rq tbl =
     (if en_fails env OpReread then unavailable
      else case GetByScopeAndKeyHash (rq_Scope rq) (rq_keyHash rq) tbl of
        None \<Rightarrow> unavailable
      | Some latest \<Rightarrow>
          if ir_RequestFingerprint latest \<noteq> rq_fingerprint rq
          then Finished (Inl ErrIdempotencyKeyConflict)
          else dispatch_existing rq latest)"

definition reclaim_step :: "'d idem_env \<Rightarrow> idem_request \<Rightarrow> IdempotencyRecord \<Rightarrow>
    idempotency_records \<Rightarrow> 'd idem_phase \<times> idempotency_records" where
  "reclaim_step env rq existing tbl =
     (if en_fails env OpReclaim then (unavailable, tbl)
      else
        let (taken, tbl) = TryReclaim (en_clock env OpReclaim) (ir_ID existing)
              IdempotencyStatusFailedRetryable (rq_now rq) (rq_lockedUntil rq) (rq_expiresAt rq) tbl in
        (if \<not> taken
         then Finished (Inl (conflictWithRetryAfter ErrIdempotencyInProgress
                (ir_LockedUntil existing) (rq_now rq)))
         else owning (ir_ID existing), tbl))"

text \<open>What follows the executor's return, and the two final repository calls.\<close>

definition returned :: "IdempotencyConfig \<Rightarrow> 'd idem_env \<Rightarrow> int \<Rightarrow> exec_error + 'd \<Rightarrow> 'd idem_phase" where
  "returned cfg env i res =
     (case res of
        Inl err \<Rightarrow> MarkingFailed i err (en_clock env OpRun + ic_FailedRetryBackoff cfg)
      | Inr data \<Rightarrow>
          (case marshalStoredResponse cfg env data of
             None \<Rightarrow> unavailable
           | Some storedBody \<Rightarrow> MarkingSucceeded i storedBody data))"

definition mark_failed_step :: "'d idem_env \<Rightarrow> idem_request \<Rightarrow> int \<Rightarrow> exec_error \<Rightarrow> int \<Rightarrow>
    idempotency_records \<Rightarrow> 'd idem_phase \<times> idempotency_records" where
  "mark_failed_step env rq i err backoffUntil tbl =
     (let reason = (case err of ExecError r \<Rightarrow> if r = [] then ''EXECUTION_FAILED'' else r) in
      (Finished (Inl (ErrExecutor err)),
       if en_fails env OpMark then tbl
       else MarkFailedRetryable (en_clock env OpMark) i reason backoffUntil (rq_expiresAt rq) tbl))"

definition mark_succeeded_step :: "'d idem_env \<Rightarrow> idem_request \<Rightarrow> int \<Rightarrow> go_string \<Rightarrow> 'd \<Rightarrow>
    idempotency_records \<Rightarrow> 'd idem_phase \<times> idempotency_records" where
  "mark_succeeded_step env rq i storedBody data tbl =
     (if en_fails env OpMark then (unavailable, tbl)
      else (Finished (Inr \<lparr>ix_Data = Value data, ix_Replayed = False\<rparr>),
            MarkSucceeded (en_clock env OpMark) i 200 storedBody (rq_expiresAt rq) tbl))"

section \<open>Execute\<close>

fun phase_rank :: "'d idem_phase \<Rightarrow> nat" where
  "phase_rank Claiming = 7"
| "phase_rank LookingUp = 6"
| "phase_rank (ReclaimingExpired x) = 5"
| "phase_rank Rereading = 4"
| "phase_rank (Reclaiming x) = 3"
| "phase_rank (Running i) = 2"
| "phase_rank (MarkingFailed i e t) = 1"
| "phase_rank (MarkingSucceeded i b d) = 1"
| "phase_rank (Finished r) = 0"

lemma phase_rank_targets [simp]:
  "phase_rank unavailable = 0" "phase_rank (owning i) \<le> 2" "phase_rank (dispatch_existing rq x) \<le> 3"
  "phase_rank (returned cfg env i res) \<le> 1"
  by (auto simp: unavailable_def owning_def dispatch_existing_def returned_def split: option.split sum.split)

text \<open>One repository call, or one run of the executor on the world \<open>w\<close>.\<close>

fun exec_phase :: "IdempotencyConfig \<Rightarrow> 'd idem_env \<Rightarrow> idem_request \<Rightarrow> ('w \<Rightarrow> (exec_error + 'd) \<times> 'w) \<Rightarrow>
    'd idem_phase \<Rightarrow> idempotency_records \<times> 'w \<Rightarrow> 'd idem_phase \<times> idempotency_records \<times> 'w" where
  "exec_phase cfg env rq execute Claiming (tbl, w) =
     (let (p, tbl) = claim_step env rq tbl in (p, tbl, w))"
| "exec_phase cfg env rq execute LookingUp (tbl, w) = (lookup_step env rq tbl, tbl, w)"
| "exec_phase cfg env rq execute (ReclaimingExpired x) (tbl, w) =
     (let (p, tbl) = reclaim_expired_step env rq x tbl in (p, tbl, w))"
| "exec_phase cfg env rq execute Rereading (tbl, w) = (reread_step env rq tbl, tbl, w)"
| "exec_phase cfg env rq execute (Reclaiming x) (tbl, w) =
     (let (p, tbl) = reclaim_step env rq x tbl in (p, tbl, w))"
| "exec_phase cfg env rq execute (Running i) (tbl, w) =
     (let (res, w) = execute w in (returned cfg env i res, tbl, w))"
| "exec_phase cfg env rq execute (MarkingFailed i e t) (tbl, w) =
     (let (p, tbl) = mark_failed_step env rq i e t tbl in (p, tbl, w))"
| "exec_phase cfg env rq execute (MarkingSucceeded i b d) (tbl, w) =
     (let (p, tbl) = mark_succeeded_step env rq i b d tbl in (p, tbl, w))"
| "exec_phase cfg env rq execute (Finished r) (tbl, w) = (Finished r, tbl, w)"

lemma phase_rank_below [simp]:
  "2 < n \<Longrightarrow> phase_rank (owning i) < n" "3 < n \<Longrightarrow> phase_rank (dispatch_existing rq x) < n"
  "1 < n \<Longrightarrow> phase_rank (returned cfg env i res) < n"
  by (meson le_less_trans phase_rank_targets)+

lemma exec_phase_decreases:
  assumes "phase_rank p \<noteq> 0"
  shows "phase_rank (fst (exec_phase cfg env rq execute p s)) < phase_rank p"
  using assms
  by (cases p; cases s)
     (auto simp: claim_step_def lookup_step_def reclaim_expired_step_def reread_step_def
        reclaim_step_def mark_failed_step_def mark_succeeded_step_def Let_def split_beta split: option.split)

fun outcome :: "'d idem_phase \<Rightarrow> (idem_error + 'd IdempotencyExecuteResult) option" where
  "outcome (Finished r) = Some r"
| "outcome _ = None"

lemma outcome_None: "outcome p = None \<longleftrightarrow> phase_rank p \<noteq> 0"
  by (cases p) simp_all

function drive :: "IdempotencyConfig \<Rightarrow> 'd idem_env \<Rightarrow> idem_request \<Rightarrow> ('w \<Rightarrow> (exec_error + 'd) \<times> 'w) \<Rightarrow>
    'd idem_phase \<Rightarrow> idempotency_records \<times> 'w \<Rightarrow>
    (idem_error + 'd IdempotencyExecuteResult) \<times> idempotency_records \<times> 'w" where
  "drive cfg env rq execute p s =
     (case outcome p of
        Some r \<Rightarrow> (r, s)
      | None \<Rightarrow> let (p', s') = exec_phase cfg env rq execute p s in drive cfg env rq execute p' s')"
  by pat_completeness auto
termination
proof (relation "measure (\<lambda>(cfg, env, rq, execute, p, s). phase_rank p)", goal_cases)
  case (2 cfg env rq execute p s ps p' s')
  then have "phase_rank p \<noteq> 0" and "p' = fst (exec_phase cfg env rq execute p s)"
    by (simp add: outcome_None, metis fst_conv)
  then show ?case using exec_phase_decreases by simp
qed simp

declare drive.simps [simp del]

definition new_request :: "IdempotencyConfig \<Rightarrow> IdempotencyExecuteOptions \<Rightarrow> go_string \<Rightarrow> go_string \<Rightarrow> int \<Rightarrow>
    idem_request" where
  "new_request cfg opts key fingerprint now =
     (let ttl = (if io_TTL opts \<le> 0 then ic_DefaultTTL cfg else io_TTL opts) in
      \<lparr>rq_Scope = io_Scope opts, rq_keyHash = HashIdempotencyKey key, rq_fingerprint = fingerprint,
       rq_now = now, rq_lockedUntil = now + ic_ProcessingTimeout cfg, rq_expiresAt = now + ttl\<rparr>)"

definition Execute :: "IdempotencyConfig \<Rightarrow> 'd idem_env \<Rightarrow> IdempotencyExecuteOptions \<Rightarrow> int \<Rightarrow>
    ('w \<Rightarrow> (exec_error + 'd) \<times> 'w) \<Rightarrow> idempotency_records \<times> 'w \<Rightarrow>
    (idem_error + 'd IdempotencyExecuteResult) \<times> idempotency_records \<times> 'w" where
  "Execute cfg env opts now execute s =
     (case NormalizeIdempotencyKey (io_IdempotencyKey opts) of
        Inl err \<Rightarrow> (Inl err, s)
      | Inr key \<Rightarrow>
          if key = [] then
            (if io_RequireKey opts \<and> \<not> ic_ObserveOnly cfg then (Inl ErrIdempotencyKeyRequired, s)
             else
               let (tbl, w) = s; (res, w) = execute w in
               (case res of
                  Inl err \<Rightarrow> (Inl (ErrExecutor err), tbl, w)
                | Inr data \<Rightarrow> (Inr \<lparr>ix_Data = Value data, ix_Replayed = False\<rparr>, tbl, w)))
          else if io_Scope opts = [] then (Inl ErrScopeRequired, s)
          else
            case BuildIdempotencyFingerprint (en_upper env) (io_Method opts) (io_Route opts)
                   (io_ActorScope opts) (io_Payload opts) of
              Inl err \<Rightarrow> (Inl err, s)
            | Inr fingerprint \<Rightarrow>
                drive cfg env (new_request cfg opts key fingerprint now) execute Claiming s)"

end
