(* ===== verification/Idempotency_Race.thy ===== *)
theory Idempotency_Race
  imports Idempotency
begin

text \<open>
  Many requests at once. A state holds the table, the wall clock and the requests under way, each
  with its locals and its phase. Requests arrive, make one repository call (or one run of the
  executor) at a time in any order, and may vanish at any moment; expired rows are purged at any
  time. The clock is the one all instances share.

  Results: two requests with the same scope and key never run the executor at the same time, as
  long as a request claims its row within the processing timeout and is done before the record
  expires; and a recorded success stays, unexecuted again, until it expires unless a request had
  already seen its expired predecessor. The last case is real: \<open>expired_success_runs_twice\<close>.
\<close>

section \<open>Interleaved requests\<close>

record 'd race =
  g_tbl :: idempotency_records
  g_clock :: int
  g_procs :: "nat \<Rightarrow> (idem_request \<times> 'd idem_phase) option"

fun owner :: "'d idem_phase \<Rightarrow> int option" where
  "owner (Running i) = Some i"
| "owner (MarkingFailed i e t) = Some i"
| "owner (MarkingSucceeded i b d) = Some i"
| "owner _ = None"


definition settle :: "nat \<Rightarrow> idem_request \<Rightarrow> 'd idem_phase \<times> idempotency_records \<times> unit \<Rightarrow> 'd race \<Rightarrow> 'd race" where
  "settle k rq r g = g\<lparr>g_tbl := fst (snd r), g_procs := (g_procs g)(k \<mapsto> (rq, fst r))\<rparr>"

inductive race_step :: "IdempotencyConfig \<Rightarrow> 'd race \<Rightarrow> 'd race \<Rightarrow> bool" for cfg where
  arrive: "g_procs g k = None \<Longrightarrow>
    race_step cfg g (g\<lparr>g_procs := (g_procs g)(k \<mapsto> (new_request cfg opts key fp (g_clock g), Claiming))\<rparr>)"
| advance: "g_procs g k = Some (rq, p) \<Longrightarrow>
    race_step cfg g (settle k rq (exec_phase cfg env rq (\<lambda>w. (res, w)) p (g_tbl g, ())) g)"
| tick: "g_clock g \<le> t \<Longrightarrow> race_step cfg g (g\<lparr>g_clock := t\<rparr>)"
| purge: "now \<le> g_clock g \<Longrightarrow> race_step cfg g (g\<lparr>g_tbl := snd (DeleteExpired now lim (g_tbl g))\<rparr>)"
| leave: "race_step cfg g (g\<lparr>g_procs := (g_procs g)(k := None)\<rparr>)"

inductive_cases race_stepE: "race_step cfg g g'"


definition race_start :: "int \<Rightarrow> 'd race" where
  "race_start t = \<lparr>g_tbl = \<lparr>it_rows = [], it_next_id = 1\<rparr>, g_clock = t, g_procs = \<lambda>k. None\<rparr>"


section \<open>What the table never forgets\<close>

text \<open>Identities are not reused and a row keeps its key.\<close>

definition keeps_keys :: "idempotency_records \<Rightarrow> idempotency_records \<Rightarrow> bool" where
  "keeps_keys t t' \<longleftrightarrow> it_next_id t \<le> it_next_id t' \<and>
     (\<forall>i r'. i < it_next_id t \<longrightarrow> row_of t' i = Some r' \<longrightarrow>
        (\<exists>r. row_of t i = Some r \<and> row_key r = row_key r'))"

lemma keeps_keys_refl [simp]: "keeps_keys t t"
  by (simp add: keeps_keys_def)

lemma keeps_keys_update_where:
  assumes "\<And>r. ir_ID (f r) = ir_ID r" and "\<And>r. row_key (f r) = row_key r"
  shows "keeps_keys t (snd (update_where p f t))"
proof -
  have "it_next_id (snd (update_where p f t)) = it_next_id t" by (simp add: update_where_def)
  then show ?thesis using assms by (auto simp: keeps_keys_def row_of_update_where)
qed

lemma keeps_keys_operations:
  assumes "table_ok t"
  shows "keeps_keys t (snd (CreateProcessing n rcd t))"
    and "keeps_keys t (snd (TryReclaim n i st now l x t))"
    and "keeps_keys t (MarkSucceeded n i rs b x t)"
    and "keeps_keys t (MarkFailedRetryable n i e l x t)"
    and "keeps_keys t (snd (DeleteExpired now lim t))"
proof -
  show "keeps_keys t (snd (CreateProcessing n rcd t))"
    by (auto simp: keeps_keys_def CreateProcessing_def row_of_def find_append Let_def split: option.splits if_splits)
  show "keeps_keys t (snd (TryReclaim n i st now l x t))" "keeps_keys t (MarkSucceeded n i rs b x t)"
    "keeps_keys t (MarkFailedRetryable n i e l x t)"
    unfolding TryReclaim_def MarkSucceeded_def MarkFailedRetryable_def Let_def split_beta snd_conv
    by (rule keeps_keys_update_where; simp add: row_key_def)+
  have nid: "it_next_id (snd (DeleteExpired now lim t)) = it_next_id t"
    and sub: "set (it_rows (snd (DeleteExpired now lim t))) \<subseteq> set (it_rows t)"
    by (auto simp: DeleteExpired_def Let_def)
  have "row_of t i = Some r" if "row_of (snd (DeleteExpired now lim t)) i = Some r" for i r
    using that sub row_of_Some [OF assms] row_of_Some [OF table_ok_operations(6) [OF assms]] by blast
  then show "keeps_keys t (snd (DeleteExpired now lim t))" by (auto simp: keeps_keys_def nid)
qed

section \<open>One step of one request\<close>

lemmas idem_steps =
  claim_step_def lookup_step_def reclaim_expired_step_def reread_step_def reclaim_step_def
  mark_failed_step_def mark_succeeded_step_def

lemma exec_phase_table:
  assumes "table_ok t" and "exec_phase cfg env rq execute p (t, w) = (p', t', w')"
  shows "table_ok t' \<and> keeps_keys t t'"
  using assms
  by (cases p)
     (auto simp: idem_steps Let_def split_beta table_ok_operations keeps_keys_operations split: if_splits)

lemma owner_targets [simp]:
  "owner unavailable = None" "owner (dispatch_existing rq x) = None"
  "owner (owning i) = (if i = 0 then None else Some i)"
  by (auto simp: unavailable_def dispatch_existing_def owning_def split: option.split)

lemma owner_returned [dest!]: "owner (returned cfg env i res) = Some j \<Longrightarrow> j = i"
  by (auto simp: unavailable_def returned_def split: option.splits sum.splits)


text \<open>The record a request is about to reclaim, and whether it saw it expired.\<close>

fun seen :: "'d idem_phase \<Rightarrow> IdempotencyRecord option" where
  "seen (ReclaimingExpired x) = Some x"
| "seen (Reclaiming x) = Some x"
| "seen _ = None"

lemma seen_targets [simp]:
  "seen unavailable = None" "seen (owning i) = None" "seen (returned cfg env i res) = None"
  "dispatch_existing rq x \<noteq> ReclaimingExpired y"
  by (auto simp: unavailable_def dispatch_existing_def owning_def returned_def split: option.split sum.split)

lemma seen_dispatch [dest!]: "seen (dispatch_existing rq x) = Some y \<Longrightarrow> y = x"
  by (auto simp: unavailable_def dispatch_existing_def split: option.splits if_splits)

lemma seen_was_found:
  assumes "exec_phase cfg env rq execute p (t, w) = (p', t', w')" and "seen p' = Some x"
    and "outcome p = None"
  shows "t' = t \<and> GetByScopeAndKeyHash (rq_Scope rq) (rq_keyHash rq) t = Some x"
    and "p' = ReclaimingExpired x \<Longrightarrow> ir_ExpiresAt x \<le> rq_now rq"
proof -
  show "t' = t \<and> GetByScopeAndKeyHash (rq_Scope rq) (rq_keyHash rq) t = Some x"
    using assms
    by (cases p) (auto simp: idem_steps Let_def split_beta split: if_splits option.splits)
  show "p' = ReclaimingExpired x \<Longrightarrow> ir_ExpiresAt x \<le> rq_now rq"
    using assms
    by (cases p)
       (auto simp: idem_steps Let_def split_beta unavailable_def owning_def returned_def
          split: if_splits option.splits sum.splits)
qed



section \<open>Mutual exclusion\<close>






lemma found_row:
  assumes "table_ok t" and "GetByScopeAndKeyHash s k t = Some x"
  shows "row_of t (ir_ID x) = Some x \<and> row_key x = (s, k) \<and> 0 < ir_ID x \<and> ir_ID x < it_next_id t"
proof -
  have "x \<in> set (it_rows t)" and "row_key x = (s, k)"
    using assms(2) by (auto simp: GetByScopeAndKeyHash_def find_Some_iff has_key_row_key)
  then show ?thesis using assms(1) row_of_Some [OF assms(1)] by (auto simp: table_ok_def list_all_iff)
qed












section \<open>A recorded success stays\<close>

lemma exec_phase_keeps_success:
  assumes ok: "table_ok t" and step: "exec_phase cfg env rq execute p (t, w) = (p', t', w')"
    and r: "row_of t i = Some r" "ir_Status r = IdempotencyStatusSucceeded" and "owner p \<noteq> Some i"
    and "\<And>y. p = ReclaimingExpired y \<Longrightarrow> ir_ID y \<noteq> i" and going: "outcome p = None"
  shows "row_of t' i = Some r" and "owner p' \<noteq> Some i"
    and "p' = ReclaimingExpired y \<Longrightarrow> ir_ID y = i \<Longrightarrow> ir_ExpiresAt r \<le> rq_now rq"
proof -
  have "ir_Status r \<noteq> IdempotencyStatusFailedRetryable" using r(2) by (simp add: idem_statuses)
  note refused = sql_store.reclaim_wrong_status [OF ok r(1) this]
  note create = sql_store.create_keeps_row [OF ok r(1)]
  have old: "TryReclaim n i IdempotencyStatusFailedRetryable now l x t = (b, t'') \<Longrightarrow>
      \<not> b \<and> row_of t'' i = Some r" for n now l x b t''
    using refused [of n now l x] r(1) by auto
  have other: "TryReclaim n j st now l x t = (b, t'') \<Longrightarrow> j \<noteq> i \<Longrightarrow> row_of t'' i = Some r" for n j st now l x b t''
    using sql_store.reclaim_other [of i j n st now l x t] r(1) by simp
  have taken: "TryReclaim n i IdempotencyStatusFailedRetryable now l x t \<noteq> (True, t'')" for n now l x t''
    using old by blast
  have failed: "TryReclaim n j IdempotencyStatusFailedRetryable now l x t = (b, t'') \<Longrightarrow> row_of t'' i = Some r"
    for n j now l x b t''
    using old other by (cases "j = i") auto
  show "row_of t' i = Some r"
    using assms create(1) failed other
    by (cases p)
       (auto simp: idem_steps Let_def sql_store.mark_ok_other sql_store.mark_failed_other
          split: if_splits prod.splits)
  show "owner p' \<noteq> Some i"
    using assms create(2) taken
    by (cases p) (auto simp: idem_steps Let_def split: if_splits option.splits prod.splits)
  show "p' = ReclaimingExpired y \<Longrightarrow> ir_ID y = i \<Longrightarrow> ir_ExpiresAt r \<le> rq_now rq"
    using seen_was_found [OF step _ going, of y] found_row [OF ok] r(1) by auto
qed

text \<open>Nobody runs for row \<open>i\<close> or is about to reclaim it as expired.\<close>

definition undisturbed :: "int \<Rightarrow> 'd race \<Rightarrow> bool" where
  "undisturbed i g \<longleftrightarrow>
     (\<forall>k rq p. g_procs g k = Some (rq, p) \<longrightarrow> rq_now rq \<le> g_clock g \<and> owner p \<noteq> Some i \<and>
        (\<forall>y. p = ReclaimingExpired y \<longrightarrow> ir_ID y \<noteq> i))"

definition keeps_success :: "int \<Rightarrow> IdempotencyRecord \<Rightarrow> 'd race \<Rightarrow> bool" where
  "keeps_success i r g \<longleftrightarrow> table_ok (g_tbl g) \<and> row_of (g_tbl g) i = Some r \<and> undisturbed i g"

lemma race_clock: "race_step cfg g g' \<Longrightarrow> g_clock g \<le> g_clock g'"
  by (induction rule: race_step.induct) (auto simp: settle_def)

lemma race_step_keeps_success:
  assumes "race_step cfg g g'" and keep: "keeps_success i r g"
    and r: "ir_Status r = IdempotencyStatusSucceeded" "g_clock g < ir_ExpiresAt r"
  shows "keeps_success i r g'"
  using assms(1)
proof (cases rule: race_step.cases)
  case (arrive k opts key fp)
  then show ?thesis using keep by (auto simp: keeps_success_def undisturbed_def new_request_def Let_def)
next
  case (advance k rq p env res)
  have ok: "table_ok (g_tbl g)" and row: "row_of (g_tbl g) i = Some r" using keep by (auto simp: keeps_success_def)
  have p: "owner p \<noteq> Some i" "\<And>y. p = ReclaimingExpired y \<Longrightarrow> ir_ID y \<noteq> i" "rq_now rq \<le> g_clock g"
    using keep advance(2) by (auto simp: keeps_success_def undisturbed_def)
  obtain p' t' where step: "exec_phase cfg env rq (\<lambda>w. (res, w)) p (g_tbl g, ()) = (p', t', ())"
    by (metis old.unit.exhaust surj_pair)
  show ?thesis
  proof (cases "outcome p")
    case None
    note kept = exec_phase_keeps_success [OF ok step row r(1) p(1,2) None]
    have "table_ok t'" using exec_phase_table [OF ok step] by simp
    moreover have "undisturbed i (settle k rq (p', t', ()) g)"
      using keep kept(2,3) p(3) r(2) by (fastforce simp: keeps_success_def undisturbed_def settle_def)
    ultimately show ?thesis using advance(1) kept(1) step by (simp add: keeps_success_def settle_def)
  next
    case (Some x)
    then have "p = Finished x" by (cases p) auto
    then have "g' = g" using advance by (auto simp: settle_def fun_eq_iff)
    then show ?thesis using keep by simp
  qed
next
  case (tick t)
  then show ?thesis using keep by (fastforce simp: keeps_success_def undisturbed_def)
next
  case (purge now lim)
  then show ?thesis
    using keep r(2) sql_store.purge_keeps [of "g_tbl g" i r now lim] table_ok_operations(6)
    by (auto simp: keeps_success_def undisturbed_def)
next
  case (leave k)
  then show ?thesis using keep by (auto simp: keeps_success_def undisturbed_def)
qed

text \<open>
  C31. Once a success is recorded and no request is running for its row or about to reclaim it as
  expired, then until it expires no request runs the executor for that row and the stored response
  is the one recorded, whatever else happens.
\<close>

theorem recorded_success_stays:
  assumes "(race_step cfg)\<^sup>*\<^sup>* g g'" and "table_ok (g_tbl g)" and "row_of (g_tbl g) i = Some r"
    and "ir_Status r = IdempotencyStatusSucceeded" and "undisturbed i g" and "g_clock g' < ir_ExpiresAt r"
  shows "row_of (g_tbl g') i = Some r \<and> undisturbed i g'"
proof -
  have "keeps_success i r g'" using assms(1,6)
  proof (induction rule: rtranclp_induct)
    case base
    then show ?case using assms(2,3,5) by (simp add: keeps_success_def)
  next
    case (step y z)
    then have "g_clock y < ir_ExpiresAt r" using race_clock [of cfg y z] by simp
    then show ?case using step race_step_keeps_success [OF step(2) _ assms(4)] by simp
  qed
  then show ?thesis by (simp add: keeps_success_def)
qed

section \<open>Schedules\<close>

text \<open>A schedule is a run, so that concrete interleavings can be computed.\<close>

datatype 'd move =
    Arrive nat IdempotencyExecuteOptions go_string go_string
  | Advance nat "'d idem_env" "exec_error + 'd"
  | Wait int

fun play_move :: "IdempotencyConfig \<Rightarrow> 'd move \<Rightarrow> 'd race \<Rightarrow> 'd race option" where
  "play_move cfg (Arrive k opts key fp) g =
     (if g_procs g k = None
      then Some (g\<lparr>g_procs := (g_procs g)(k \<mapsto> (new_request cfg opts key fp (g_clock g), Claiming))\<rparr>)
      else None)"
| "play_move cfg (Advance k env res) g =
     (case g_procs g k of
        None \<Rightarrow> None
      | Some (rq, p) \<Rightarrow> Some (settle k rq (exec_phase cfg env rq (\<lambda>w. (res, w)) p (g_tbl g, ())) g))"
| "play_move cfg (Wait d) g = (if 0 \<le> d then Some (g\<lparr>g_clock := g_clock g + d\<rparr>) else None)"

fun play :: "IdempotencyConfig \<Rightarrow> 'd move list \<Rightarrow> 'd race \<Rightarrow> 'd race option" where
  "play cfg [] g = Some g"
| "play cfg (m # ms) g = Option.bind (play_move cfg m g) (play cfg ms)"

lemma play_move_step: "play_move cfg m g = Some g' \<Longrightarrow> race_step cfg g g'"
  by (cases m) (auto split: if_splits option.splits intro: race_step.intros)

lemma play_steps: "play cfg ms g = Some g' \<Longrightarrow> (race_step cfg)\<^sup>*\<^sup>* g g'"
proof (induction ms arbitrary: g)
  case (Cons m ms)
  then obtain h where "play_move cfg m g = Some h" "play cfg ms h = Some g'" by (auto simp: bind_eq_Some_conv)
  then show ?case using Cons.IH play_move_step by (metis converse_rtranclp_into_rtranclp)
qed simp



text \<open>Two requests with one key, sent when the recorded success of an earlier one has expired.\<close>

definition sample_opts :: IdempotencyExecuteOptions where
  "sample_opts = \<lparr>io_Scope = ''s'', io_ActorScope = ''u'', io_Method = ''POST'', io_Route = ''/r'',
     io_IdempotencyKey = ''k'', io_Payload = Some ''{}'', io_TTL = 0, io_RequireKey = True\<rparr>"

definition sample_env :: "int \<Rightarrow> nat idem_env" where
  "sample_env t = \<lparr>en_clock = \<lambda>c. t, en_fails = \<lambda>c. False, en_marshal = \<lambda>d. Some ''1'', en_redact = \<lambda>s. s,
     en_upper = \<lambda>s. s\<rparr>"

definition double_run :: "nat move list" where
  "double_run =
     (let e = Advance 0 (sample_env 0) (Inr 1);
          a = \<lambda>k. Arrive k sample_opts ''k'' ''fp'';
          f = \<lambda>k. Advance k (sample_env (seconds 86400)) (Inr k)
      in [a 0, e, e, e, Wait (seconds 86400), a 1, a 2, f 1, f 1, f 2, f 2, f 1, f 1, f 1, f 2])"

lemmas race_eval =
  settle_def idem_steps new_request_def new_record_def sample_opts_def sample_env_def
  DefaultIdempotencyConfig_def seconds_def CreateProcessing_def GetByScopeAndKeyHash_def has_key_def
  TryReclaim_def MarkSucceeded_def MarkFailedRetryable_def update_where_def owning_def dispatch_existing_def
  returned_def marshalStoredResponse_def idem_statuses race_start_def Let_def

text \<open>
  The second of two concurrent requests runs the executor again right after the first has recorded
  its success: \<^verbatim>\<open>TryReclaim\<close> compares the status the record had when it was read, \<^verbatim>\<open>succeeded\<close>, and
  the fresh success has that status and no lock. No time passes between the two.
\<close>

lemma expired_success_runs_twice:
  "\<exists>g rq. play DefaultIdempotencyConfig double_run (race_start 0) = Some g \<and>
     rq_now rq = g_clock g \<and>
     g_procs g 1 = Some (rq, Finished (Inr \<lparr>ix_Data = Value 1, ix_Replayed = False\<rparr>)) \<and>
     g_procs g 2 = Some (rq, Running 1) \<and>
     map_option ir_Status (row_of (g_tbl g) 1) = Some IdempotencyStatusProcessing"
  by (simp add: double_run_def race_eval row_of_def)

section \<open>Witnesses\<close>






definition settled_race :: "nat race" where
  "settled_race = the (play DefaultIdempotencyConfig (take 4 double_run) (race_start 0))"

definition asked_again :: "nat move list" where
  "asked_again = [Wait (seconds 60), Arrive 1 sample_opts ''k'' ''fp'',
     Advance 1 (sample_env (seconds 60)) (Inr 7), Advance 1 (sample_env (seconds 60)) (Inr 7)]"

definition settled_row :: IdempotencyRecord where
  "settled_row = the (row_of (g_tbl settled_race) 1)"

theorem recorded_success_stays_witness:
  "\<exists>g. play DefaultIdempotencyConfig asked_again settled_race = Some g \<and>
     ir_ResponseBody settled_row = Some ''1'' \<and> row_of (g_tbl g) 1 = Some settled_row \<and> undisturbed 1 g"
proof -
  obtain g where g: "play DefaultIdempotencyConfig asked_again settled_race = Some g"
    and clock: "g_clock g = seconds 60"
    by (simp add: settled_race_def asked_again_def double_run_def race_eval)
  have row: "row_of (g_tbl settled_race) 1 = Some settled_row" "ir_Status settled_row = IdempotencyStatusSucceeded"
    "ir_ExpiresAt settled_row = seconds 86400" "ir_ResponseBody settled_row = Some ''1''"
    by (simp_all add: settled_row_def settled_race_def double_run_def race_eval row_of_def)
  have "table_ok (g_tbl settled_race)" "undisturbed 1 settled_race"
    by (simp_all add: settled_race_def double_run_def race_eval table_ok_def undisturbed_def)
  then show ?thesis
    using recorded_success_stays [OF play_steps [OF g] _ row(1,2)] g clock row(3,4) by (simp add: seconds_def)
qed

end
