(* ===== verification/Idempotency_Sequential.thy ===== *)
theory Idempotency_Sequential
  imports Idempotency_Race
begin

text \<open>
  One request after another: what \<open>Execute\<close> returns, whether it runs the executor and what it
  leaves in the table is a function of the stored record of its key (\<open>decide\<close>). Replays, conflicts
  and retries follow.
\<close>

section \<open>Lookups after updates\<close>

lemma lookup_update_where:
  assumes "\<And>r. row_key (f r) = row_key r"
  shows "GetByScopeAndKeyHash s k (snd (update_where p f t)) =
    map_option (\<lambda>r. if p r then f r else r) (GetByScopeAndKeyHash s k t)"
proof -
  have "find (has_key s k) (map (\<lambda>r. if p r then f r else r) rs) =
      map_option (\<lambda>r. if p r then f r else r) (find (has_key s k) rs)" for rs
    using assms by (induction rs) (auto simp: has_key_row_key)
  then show ?thesis by (simp add: GetByScopeAndKeyHash_def update_where_def)
qed

lemma lookup_reclaim:
  "GetByScopeAndKeyHash s k (snd (TryReclaim n i st now l x t)) =
     map_option (\<lambda>r. if ir_ID r = i \<and> ir_Status r = st \<and> lock_free now r
       then r\<lparr>ir_Status := IdempotencyStatusProcessing, ir_LockedUntil := Some l,
              ir_ErrorReason := None, ir_UpdatedAt := n, ir_ExpiresAt := x\<rparr> else r)
       (GetByScopeAndKeyHash s k t)"
  unfolding TryReclaim_def Let_def split_beta snd_conv lock_free_def
  by (rule lookup_update_where) (simp add: row_key_def)

lemma lookup_mark_succeeded:
  "GetByScopeAndKeyHash s k (MarkSucceeded n i c b x t) =
     map_option (\<lambda>r. if ir_ID r = i
       then r\<lparr>ir_Status := IdempotencyStatusSucceeded, ir_ResponseStatus := Some c, ir_ResponseBody := Some b,
              ir_ErrorReason := None, ir_LockedUntil := None, ir_ExpiresAt := x, ir_UpdatedAt := n\<rparr> else r)
       (GetByScopeAndKeyHash s k t)"
  unfolding MarkSucceeded_def by (rule lookup_update_where) (simp add: row_key_def)

lemma lookup_mark_failed:
  "GetByScopeAndKeyHash s k (MarkFailedRetryable n i e l x t) =
     map_option (\<lambda>r. if ir_ID r = i
       then r\<lparr>ir_Status := IdempotencyStatusFailedRetryable, ir_ErrorReason := Some e,
              ir_LockedUntil := Some l, ir_ExpiresAt := x, ir_UpdatedAt := n\<rparr> else r)
       (GetByScopeAndKeyHash s k t)"
  unfolding MarkFailedRetryable_def by (rule lookup_update_where) (simp add: row_key_def)

lemma reclaim_succeeds:
  assumes "table_ok t" and "GetByScopeAndKeyHash s k t = Some r"
  shows "fst (TryReclaim n (ir_ID r) st now l x t) \<longleftrightarrow> ir_Status r = st \<and> lock_free now r"
proof -
  have row: "row_of t (ir_ID r) = Some r" using found_row [OF assms] by simp
  then have "r \<in> set (it_rows t)" using row_of_Some [OF assms(1)] by blast
  then show ?thesis
    using sql_store.reclaim_taken [OF assms(1), of n "ir_ID r" st now l x] row
    by (auto simp: TryReclaim_def split_beta update_where_count lock_free_def)
qed

lemma find_filter_None: "find p xs = None \<longleftrightarrow> \<not> list_ex p xs"
  by (induction xs) auto

section \<open>The decision\<close>

datatype 'd decision = RunExecutor | Answer "idem_error + 'd IdempotencyExecuteResult"

definition decide :: "idem_request \<Rightarrow> IdempotencyRecord option \<Rightarrow> 'd decision" where
  "decide rq stored =
     (case stored of
        None \<Rightarrow> RunExecutor
      | Some r \<Rightarrow>
          if ir_RequestFingerprint r \<noteq> rq_fingerprint rq then Answer (Inl ErrIdempotencyKeyConflict)
          else if ir_ExpiresAt r \<le> rq_now rq \<and> lock_free (rq_now rq) r then RunExecutor
          else if ir_Status r = IdempotencyStatusSucceeded then
            Answer (case decodeStoredResponse (ir_ResponseBody r) of
                      None \<Rightarrow> Inl ErrIdempotencyStoreUnavail
                    | Some data \<Rightarrow> Inr \<lparr>ix_Data = data, ix_Replayed = True\<rparr>)
          else if ir_Status r = IdempotencyStatusProcessing then
            Answer (Inl (conflictWithRetryAfter ErrIdempotencyInProgress (ir_LockedUntil r) (rq_now rq)))
          else if ir_Status r = IdempotencyStatusFailedRetryable then
            (if lock_free (rq_now rq) r then RunExecutor
             else Answer (Inl (conflictWithRetryAfter ErrIdempotencyRetryBackoff
                    (ir_LockedUntil r) (rq_now rq))))
          else Answer (Inl ErrIdempotencyKeyConflict))"

text \<open>What a run of the executor gives: the answer, and what it leaves under the key.\<close>

definition run_answer :: "IdempotencyConfig \<Rightarrow> 'd idem_env \<Rightarrow> exec_error + 'd \<Rightarrow>
    idem_error + 'd IdempotencyExecuteResult" where
  "run_answer cfg env res =
     (case res of
        Inl e \<Rightarrow> Inl (ErrExecutor e)
      | Inr d \<Rightarrow>
          (case marshalStoredResponse cfg env d of
             None \<Rightarrow> Inl ErrIdempotencyStoreUnavail
           | Some b \<Rightarrow> Inr \<lparr>ix_Data = Value d, ix_Replayed = False\<rparr>))"

definition run_leaves :: "IdempotencyConfig \<Rightarrow> 'd idem_env \<Rightarrow> idem_request \<Rightarrow> exec_error + 'd \<Rightarrow>
    IdempotencyRecord \<Rightarrow> bool" where
  "run_leaves cfg env rq res r \<longleftrightarrow>
     ir_RequestFingerprint r = rq_fingerprint rq \<and> ir_ExpiresAt r = rq_expiresAt rq \<and>
     (case res of
        Inl e \<Rightarrow> ir_Status r = IdempotencyStatusFailedRetryable \<and>
          ir_LockedUntil r = Some (en_clock env OpRun + ic_FailedRetryBackoff cfg)
      | Inr d \<Rightarrow>
          (case marshalStoredResponse cfg env d of
             None \<Rightarrow> ir_Status r = IdempotencyStatusProcessing \<and> ir_LockedUntil r = Some (rq_lockedUntil rq)
           | Some b \<Rightarrow> ir_Status r = IdempotencyStatusSucceeded \<and> ir_ResponseBody r = Some b \<and>
               ir_LockedUntil r = None))"

definition reliable :: "'d idem_env \<Rightarrow> bool" where
  "reliable env \<longleftrightarrow> (\<forall>c. \<not> en_fails env c)"

definition ran_executor :: "IdempotencyConfig \<Rightarrow> 'd idem_env \<Rightarrow> idem_request \<Rightarrow> ('w \<Rightarrow> (exec_error + 'd) \<times> 'w) \<Rightarrow> 'w \<Rightarrow>
    (idem_error + 'd IdempotencyExecuteResult) \<times> idempotency_records \<times> 'w \<Rightarrow> bool" where
  "ran_executor cfg env rq execute w out \<longleftrightarrow>
     (case out of (res, t', w') \<Rightarrow>
        res = run_answer cfg env (fst (execute w)) \<and> w' = snd (execute w) \<and>
        (\<exists>r'. GetByScopeAndKeyHash (rq_Scope rq) (rq_keyHash rq) t' = Some r' \<and>
           run_leaves cfg env rq (fst (execute w)) r'))"

text \<open>One step at a time, for statements that do not fail.\<close>

lemma drive_step:
  "outcome p = None \<Longrightarrow> exec_phase cfg env rq execute p s = (p', s') \<Longrightarrow>
     drive cfg env rq execute p s = drive cfg env rq execute p' s'"
  by (simp add: drive.simps [of cfg env rq execute p s])

lemma drive_done: "drive cfg env rq execute (Finished r) s = (r, s)"
  by (simp add: drive.simps)

text \<open>From the moment a request owns its row.\<close>

lemma drive_running:
  assumes env: "reliable env" and r: "GetByScopeAndKeyHash (rq_Scope rq) (rq_keyHash rq) t = Some r"
    and st: "ir_Status r = IdempotencyStatusProcessing" "ir_LockedUntil r = Some (rq_lockedUntil rq)"
    and keep: "ir_ExpiresAt r = rq_expiresAt rq" "ir_RequestFingerprint r = rq_fingerprint rq"
  shows "ran_executor cfg env rq execute w (drive cfg env rq execute (Running (ir_ID r)) (t, w))"
proof -
  obtain out w1 where ex: "execute w = (out, w1)" by fastforce
  have run: "drive cfg env rq execute (Running (ir_ID r)) (t, w) =
      drive cfg env rq execute (returned cfg env (ir_ID r) out) (t, w1)"
    by (rule drive_step) (simp_all add: ex)
  show ?thesis
  proof (cases out)
    case (Inl e)
    have "\<exists>reason. drive cfg env rq execute (MarkingFailed (ir_ID r) e b) (t, w1) =
        (Inl (ErrExecutor e), MarkFailedRetryable (en_clock env OpMark) (ir_ID r) reason b (rq_expiresAt rq) t, w1)"
      for b using env
      by (auto simp: drive.simps [of cfg env rq execute "MarkingFailed (ir_ID r) e b"] mark_failed_step_def
          drive_done reliable_def Let_def)
    then obtain reason where "drive cfg env rq execute
        (MarkingFailed (ir_ID r) e (en_clock env OpRun + ic_FailedRetryBackoff cfg)) (t, w1) =
        (Inl (ErrExecutor e), MarkFailedRetryable (en_clock env OpMark) (ir_ID r) reason
           (en_clock env OpRun + ic_FailedRetryBackoff cfg) (rq_expiresAt rq) t, w1)"
      by blast
    then show ?thesis
      using r keep
      by (simp add: run Inl ex ran_executor_def returned_def run_answer_def run_leaves_def lookup_mark_failed)
  next
    case (Inr d)
    show ?thesis
    proof (cases "marshalStoredResponse cfg env d")
      case None
      then show ?thesis
        using r st keep
        by (simp add: run Inr ex ran_executor_def returned_def run_answer_def run_leaves_def unavailable_def drive_done)
    next
      case (Some b)
      have "drive cfg env rq execute (MarkingSucceeded (ir_ID r) b d) (t, w1) =
          (Inr \<lparr>ix_Data = Value d, ix_Replayed = False\<rparr>,
           MarkSucceeded (en_clock env OpMark) (ir_ID r) 200 b (rq_expiresAt rq) t, w1)"
        using env
        by (simp add: drive.simps [of cfg env rq execute "MarkingSucceeded (ir_ID r) b d"]
            mark_succeeded_step_def drive_done reliable_def)
      then show ?thesis
        using r keep
        by (simp add: run Inr Some ex ran_executor_def returned_def run_answer_def run_leaves_def
            lookup_mark_succeeded)
    qed
  qed
qed

text \<open>What a reclaim by the request leaves satisfies the owner's hypotheses.\<close>

lemma drive_reclaimed:
  assumes "reliable env" "table_ok t" "GetByScopeAndKeyHash (rq_Scope rq) (rq_keyHash rq) t = Some r"
    and "lock_free (rq_now rq) r" "ir_RequestFingerprint r = rq_fingerprint rq"
  shows "ran_executor cfg env rq execute w (drive cfg env rq execute (Running (ir_ID r))
      (snd (TryReclaim n (ir_ID r) (ir_Status r) (rq_now rq) (rq_lockedUntil rq) (rq_expiresAt rq) t), w))"
  by (rule drive_running [OF assms(1), where r = "r\<lparr>ir_Status := IdempotencyStatusProcessing,
        ir_LockedUntil := Some (rq_lockedUntil rq), ir_ErrorReason := None, ir_UpdatedAt := n,
        ir_ExpiresAt := rq_expiresAt rq\<rparr>", simplified])
     (use assms in \<open>simp_all add: lookup_reclaim\<close>)

definition decided :: "IdempotencyConfig \<Rightarrow> 'd idem_env \<Rightarrow> idem_request \<Rightarrow> ('w \<Rightarrow> (exec_error + 'd) \<times> 'w) \<Rightarrow>
    IdempotencyRecord option \<Rightarrow> idempotency_records \<Rightarrow> 'w \<Rightarrow>
    (idem_error + 'd IdempotencyExecuteResult) \<times> idempotency_records \<times> 'w \<Rightarrow> bool" where
  "decided cfg env rq execute stored t w out \<longleftrightarrow>
     (case decide rq stored of
        Answer a \<Rightarrow> fst out = a \<and> snd (snd out) = w \<and> it_rows (fst (snd out)) = it_rows t
      | RunExecutor \<Rightarrow> ran_executor cfg env rq execute w out)"

lemma refused_reclaim:
  assumes "\<not> fst (TryReclaim n i st now l x t)"
  shows "snd (TryReclaim n i st now l x t) = t"
proof -
  have "map (\<lambda>r. if p r then f r else r) rs = rs" if "\<forall>r \<in> set rs. \<not> p r" for p f and rs :: "IdempotencyRecord list"
    using that by (induction rs) auto
  then show ?thesis using assms by (simp add: TryReclaim_def update_where_def filter_empty_conv split_beta)
qed

lemma dispatch_decided:
  fixes env :: "'d idem_env"
  assumes "reliable env" "table_ok t" "GetByScopeAndKeyHash (rq_Scope rq) (rq_keyHash rq) t = Some r"
    and "ir_RequestFingerprint r = rq_fingerprint rq"
    and "rq_now rq < ir_ExpiresAt r \<or> \<not> lock_free (rq_now rq) r"
  shows "decided cfg env rq execute (Some r) t w (drive cfg env rq execute (dispatch_existing rq r) (t, w))"
proof (cases "ir_Status r = IdempotencyStatusFailedRetryable \<and> lock_free (rq_now rq) r")
  case True
  have id: "ir_ID r \<noteq> 0" using found_row [OF assms(2,3)] by simp
  have d: "dispatch_existing rq r = Reclaiming r" and run: "decide rq (Some r) = RunExecutor"
    using True assms(4,5)
    by (auto simp: dispatch_existing_def decide_def lock_free_def idem_statuses split: option.splits)
  let ?t = "snd (TryReclaim (en_clock env OpReclaim) (ir_ID r) (ir_Status r) (rq_now rq) (rq_lockedUntil rq)
      (rq_expiresAt rq) t)"
  have "fst (TryReclaim (en_clock env OpReclaim) (ir_ID r) IdempotencyStatusFailedRetryable (rq_now rq)
      (rq_lockedUntil rq) (rq_expiresAt rq) t)"
    using reclaim_succeeds [OF assms(2,3)] True by blast
  then have "exec_phase cfg env rq execute (Reclaiming r) (t, w) = (Running (ir_ID r), ?t, w)"
    using assms(1) True id by (simp add: reclaim_step_def reliable_def split_beta owning_def)
  then have "drive cfg env rq execute (Reclaiming r) (t, w) = drive cfg env rq execute (Running (ir_ID r)) (?t, w)"
    by (intro drive_step) simp_all
  then show ?thesis
    using drive_reclaimed [OF assms(1-3) _ assms(4)] True by (simp add: decided_def run d)
next
  case False
  then have "\<exists>a. decide rq (Some r) = Answer a \<and> dispatch_existing rq r = (Finished a :: 'd idem_phase)"
    using assms(4,5)
    by (auto simp: dispatch_existing_def decide_def lock_free_def unavailable_def idem_statuses not_le
        split: option.splits)
  then obtain a where "decide rq (Some r) = Answer a" and "dispatch_existing rq r = (Finished a :: 'd idem_phase)"
    by blast
  then show ?thesis by (simp add: decided_def drive_done)
qed

lemma lookup_decided:
  fixes env :: "'d idem_env"
  assumes env: "reliable env" and ok: "table_ok t"
    and r: "GetByScopeAndKeyHash (rq_Scope rq) (rq_keyHash rq) t = Some r"
  shows "decided cfg env rq execute (Some r) t w (drive cfg env rq execute LookingUp (t, w))"
proof -
  have look: "drive cfg env rq execute LookingUp (t, w) = drive cfg env rq execute (lookup_step env rq t) (t, w)"
    by (rule drive_step) simp_all
  consider "ir_RequestFingerprint r \<noteq> rq_fingerprint rq"
    | "ir_RequestFingerprint r = rq_fingerprint rq" "rq_now rq < ir_ExpiresAt r"
    | "ir_RequestFingerprint r = rq_fingerprint rq" "ir_ExpiresAt r \<le> rq_now rq" "lock_free (rq_now rq) r"
    | "ir_RequestFingerprint r = rq_fingerprint rq" "ir_ExpiresAt r \<le> rq_now rq" "\<not> lock_free (rq_now rq) r"
    by fastforce
  then show ?thesis
  proof cases
    case 1
    then show ?thesis
      using env r by (simp add: look lookup_step_def reliable_def decided_def decide_def drive_done)
  next
    case 2
    then show ?thesis
      using dispatch_decided [OF env ok r 2(1)] env r by (simp add: look lookup_step_def reliable_def)
  next
    case 3
    let ?got = "TryReclaim (en_clock env OpReclaimExpired) (ir_ID r) (ir_Status r) (rq_now rq) (rq_lockedUntil rq)
      (rq_expiresAt rq) t"
    have "exec_phase cfg env rq execute (ReclaimingExpired r) (t, w) = (Running (ir_ID r), snd ?got, w)"
      using reclaim_succeeds [OF ok r] 3(3) env found_row [OF ok r]
      by (simp add: reclaim_expired_step_def reliable_def split_beta owning_def)
    then have "drive cfg env rq execute (ReclaimingExpired r) (t, w) =
        drive cfg env rq execute (Running (ir_ID r)) (snd ?got, w)"
      by (intro drive_step) simp_all
    then show ?thesis
      using drive_reclaimed [OF env ok r 3(3,1)] 3 env r
      by (simp add: look lookup_step_def reliable_def decided_def decide_def)
  next
    case 4
    have no: "\<not> fst (TryReclaim n (ir_ID r) (ir_Status r) (rq_now rq) l x t)" for n l x
      using reclaim_succeeds [OF ok r] 4(3) by blast
    then have "exec_phase cfg env rq execute (ReclaimingExpired r) (t, w) = (Rereading, t, w)"
      using env by (simp add: reclaim_expired_step_def reliable_def split_beta refused_reclaim)
    then have "drive cfg env rq execute (ReclaimingExpired r) (t, w) = drive cfg env rq execute Rereading (t, w)"
      by (intro drive_step) simp_all
    also have "\<dots> = drive cfg env rq execute (dispatch_existing rq r) (t, w)"
      using env r 4(1) by (intro drive_step) (simp_all add: reread_step_def reliable_def)
    finally show ?thesis
      using dispatch_decided [OF env ok r 4(1)] 4 env r by (simp add: look lookup_step_def reliable_def)
  qed
qed

lemma claiming_decided:
  assumes env: "reliable env" and ok: "table_ok t"
  shows "decided cfg env rq execute (GetByScopeAndKeyHash (rq_Scope rq) (rq_keyHash rq) t) t w
    (drive cfg env rq execute Claiming (t, w))"
proof (cases "GetByScopeAndKeyHash (rq_Scope rq) (rq_keyHash rq) t")
  case None
  then have free: "\<not> list_ex (has_key (rq_Scope rq) (rq_keyHash rq)) (it_rows t)"
    by (simp add: GetByScopeAndKeyHash_def find_filter_None)
  define row where "row = (new_record rq)\<lparr>ir_ID := it_next_id t, ir_CreatedAt := en_clock env OpCreate,
    ir_UpdatedAt := en_clock env OpCreate\<rparr>"
  define t1 where "t1 = t\<lparr>it_next_id := it_next_id t + 1, it_rows := it_rows t @ [row]\<rparr>"
  have "exec_phase cfg env rq execute Claiming (t, w) = (Running (ir_ID row), t1, w)"
    using free env ok
    by (simp add: claim_step_def reliable_def CreateProcessing_def new_record_def owning_def row_def t1_def
        table_ok_def Let_def)
  then have "drive cfg env rq execute Claiming (t, w) = drive cfg env rq execute (Running (ir_ID row)) (t1, w)"
    by (intro drive_step) simp_all
  moreover have "GetByScopeAndKeyHash (rq_Scope rq) (rq_keyHash rq) t1 = Some row"
    using None by (simp add: GetByScopeAndKeyHash_def t1_def find_append row_def new_record_def has_key_def)
  ultimately show ?thesis
    using drive_running [OF env, of rq t1 row cfg execute w] None by (simp add: decided_def decide_def row_def new_record_def)
next
  case (Some r)
  let ?t = "t\<lparr>it_next_id := it_next_id t + 1\<rparr>"
  have same: "GetByScopeAndKeyHash s k ?t = GetByScopeAndKeyHash s k t" for s k
    by (simp add: GetByScopeAndKeyHash_def)
  have "list_ex (has_key (rq_Scope rq) (rq_keyHash rq)) (it_rows t)"
    using Some find_filter_None [of "has_key (rq_Scope rq) (rq_keyHash rq)" "it_rows t"]
    by (simp add: GetByScopeAndKeyHash_def)
  then have "exec_phase cfg env rq execute Claiming (t, w) = (LookingUp, ?t, w)"
    using env by (simp add: claim_step_def reliable_def CreateProcessing_def new_record_def Let_def)
  then have "drive cfg env rq execute Claiming (t, w) = drive cfg env rq execute LookingUp (?t, w)"
    by (intro drive_step) simp_all
  moreover have "table_ok ?t" using ok by (auto simp: table_ok_def list_all_iff)
  ultimately show ?thesis
    using lookup_decided [OF env, of ?t rq r cfg execute w] Some same by (auto simp: decided_def split: decision.splits)
qed

section \<open>Execute\<close>

text \<open>Options that reach the store, with the key and the fingerprint they have.\<close>

definition accepted :: "'d idem_env \<Rightarrow> IdempotencyExecuteOptions \<Rightarrow> go_string \<Rightarrow> go_string \<Rightarrow> bool" where
  "accepted env opts key fp \<longleftrightarrow>
     NormalizeIdempotencyKey (io_IdempotencyKey opts) = Inr key \<and> key \<noteq> [] \<and> io_Scope opts \<noteq> [] \<and>
     BuildIdempotencyFingerprint (en_upper env) (io_Method opts) (io_Route opts) (io_ActorScope opts)
       (io_Payload opts) = Inr fp"

lemma Execute_accepted:
  "accepted env opts key fp \<Longrightarrow>
     Execute cfg env opts now execute s = drive cfg env (new_request cfg opts key fp now) execute Claiming s"
  by (simp add: accepted_def Execute_def)

lemma drive_table_ok:
  "table_ok (fst s) \<Longrightarrow> table_ok (fst (snd (drive cfg env rq execute p s)))"
proof (induction cfg env rq execute p s rule: drive.induct)
  case (1 cfg env rq execute p s)
  show ?case
  proof (cases "outcome p")
    case None
    obtain t w where s: "s = (t, w)" by fastforce
    obtain p' t' w' where step: "exec_phase cfg env rq execute p (t, w) = (p', t', w')" by (metis surj_pair)
    then have "table_ok t'" using exec_phase_table 1(2) s by fastforce
    then show ?thesis
      using 1(1) [OF None refl, of p' "(t', w')"] step s by (simp add: drive_step [OF None step])
  next
    case (Some r)
    then show ?thesis using 1(2) by (simp add: drive.simps)
  qed
qed

definition stored_row :: "idem_request \<Rightarrow> idempotency_records \<Rightarrow> IdempotencyRecord option" where
  "stored_row rq t = GetByScopeAndKeyHash (rq_Scope rq) (rq_keyHash rq) t"

lemma Execute_decided:
  assumes "reliable env" "table_ok t" "accepted env opts key fp"
  shows "decided cfg env (new_request cfg opts key fp now) execute (stored_row (new_request cfg opts key fp now) t) t w
    (Execute cfg env opts now execute (t, w))"
  using claiming_decided [OF assms(1,2)] by (simp add: Execute_accepted [OF assms(3)] stored_row_def)

text \<open>
  C22. With a store that answers, \<open>Execute\<close> does what the stored record of its key says. Either it
  returns the decided answer, without running the executor and without touching a row; or it runs
  the executor exactly once, returns its outcome, and leaves a record of the request with that
  outcome: the response to replay, or the time before which not to retry.
\<close>

theorem execute_follows_decision:
  assumes "reliable env" "table_ok t" "accepted env opts key fp"
    and "rq = new_request cfg opts key fp now"
    and "Execute cfg env opts now execute (t, w) = (res, t', w')"
  shows "case decide rq (stored_row rq t) of
      Answer a \<Rightarrow> res = a \<and> w' = w \<and> it_rows t' = it_rows t
    | RunExecutor \<Rightarrow> res = run_answer cfg env (fst (execute w)) \<and> w' = snd (execute w) \<and>
        (\<exists>r'. stored_row rq t' = Some r' \<and> run_leaves cfg env rq (fst (execute w)) r')"
  using Execute_decided [OF assms(1-3), of cfg now execute w] assms(4,5)
  by (auto simp: decided_def ran_executor_def stored_row_def split: decision.splits)

section \<open>Two requests with one key\<close>

text \<open>The first request ran \<open>execute\<close> in \<open>w\<close> and left \<open>t'\<close>.\<close>

definition first_ran :: "IdempotencyConfig \<Rightarrow> 'd idem_env \<Rightarrow> IdempotencyExecuteOptions \<Rightarrow> go_string \<Rightarrow> go_string \<Rightarrow>
    int \<Rightarrow> ('w \<Rightarrow> (exec_error + 'd) \<times> 'w) \<Rightarrow> 'w \<Rightarrow> idempotency_records \<Rightarrow> bool" where
  "first_ran cfg env opts key fp now execute w t' \<longleftrightarrow> reliable env \<and> accepted env opts key fp \<and>
     (\<exists>t. table_ok t \<and> stored_row (new_request cfg opts key fp now) t = None \<and>
        t' = fst (snd (Execute cfg env opts now execute (t, w))))"

lemma first_ran_leaves:
  assumes "first_ran cfg env opts key fp now execute w t'"
  shows "table_ok t'"
    and "\<exists>r. stored_row (new_request cfg opts key fp now) t' = Some r \<and>
      run_leaves cfg env (new_request cfg opts key fp now) (fst (execute w)) r"
proof -
  obtain t where env: "reliable env" "table_ok t" "accepted env opts key fp"
    and none: "stored_row (new_request cfg opts key fp now) t = None"
    and t': "t' = fst (snd (Execute cfg env opts now execute (t, w)))"
    using assms by (auto simp: first_ran_def)
  show "table_ok t'" using env(2) by (simp add: t' Execute_accepted [OF env(3)] drive_table_ok)
  show "\<exists>r. stored_row (new_request cfg opts key fp now) t' = Some r \<and>
      run_leaves cfg env (new_request cfg opts key fp now) (fst (execute w)) r"
    using Execute_decided [OF env, of cfg now execute w] none
    by (auto simp: t' decided_def decide_def ran_executor_def stored_row_def split: prod.splits)
qed

lemma same_key_row:
  "io_Scope opts2 = io_Scope opts \<Longrightarrow>
     stored_row (new_request cfg opts2 key fp2 now2) t = stored_row (new_request cfg opts key fp now) t"
  by (simp add: stored_row_def new_request_def Let_def)

lemma second_decided:
  assumes "first_ran cfg env opts key fp now execute w t'" and "reliable env2" and "accepted env2 opts2 key fp2"
    and "io_Scope opts2 = io_Scope opts"
  shows "\<exists>r. run_leaves cfg env (new_request cfg opts key fp now) (fst (execute w)) r \<and>
    decided cfg env2 (new_request cfg opts2 key fp2 now2) execute2 (Some r) t' w2
      (Execute cfg env2 opts2 now2 execute2 (t', w2))"
  using first_ran_leaves [OF assms(1)] Execute_decided [OF assms(2) _ assms(3), of t' cfg now2 execute2 w2]
    same_key_row [OF assms(4)] by metis

lemma new_request_sel [simp]:
  "rq_fingerprint (new_request cfg opts key fp now) = fp" "rq_now (new_request cfg opts key fp now) = now"
  by (simp_all add: new_request_def Let_def)


text \<open>
  A key that is stored with the fingerprint of another request (another method, route, actor
  or payload) is a conflict, whatever the state of that record and however old it is; the executor
  is not run and no record changes.
\<close>

theorem other_request_conflicts:
  assumes "reliable env" and "table_ok t" and "accepted env opts key fp"
    and "stored_row (new_request cfg opts key fp now) t = Some r" and "ir_RequestFingerprint r \<noteq> fp"
  shows "\<exists>t'. Execute cfg env opts now execute (t, w) = (Inl ErrIdempotencyKeyConflict, t', w) \<and>
    it_rows t' = it_rows t"
  using Execute_decided [OF assms(1-3), of cfg now execute w] assms(4,5)
  by (auto simp: decided_def decide_def prod_eq_iff)

lemma decide_failed:
  assumes "ir_Status r = IdempotencyStatusFailedRetryable" and "ir_LockedUntil r = Some until"
    and "ir_RequestFingerprint r = rq_fingerprint rq"
  shows "decide rq (Some r) =
    (if rq_now rq < until
     then Answer (Inl (ErrIdempotencyRetryBackoff (Some (max 1 ((until - rq_now rq) div seconds 1)))))
     else RunExecutor)"
  using assms by (auto simp: decide_def lock_free_def conflictWithRetryAfter_def idem_statuses Let_def)

text \<open>
  C35. After a failure, a retry before the backoff ends is refused with the whole seconds left (at
  least one) and does not run the executor; a retry from then on runs it.
\<close>

theorem failure_backs_off:
  assumes "first_ran cfg env opts key fp now execute w t'" and "fst (execute w) = Inl e"
    and "reliable env2" and "accepted env2 opts key fp"
    and "until = en_clock env OpRun + ic_FailedRetryBackoff cfg"
  shows "if now2 < until
    then \<exists>t''. Execute cfg env2 opts now2 execute2 (t', w2) =
      (Inl (ErrIdempotencyRetryBackoff (Some (max 1 ((until - now2) div seconds 1)))), t'', w2)
    else snd (snd (Execute cfg env2 opts now2 execute2 (t', w2))) = snd (execute2 w2)"
proof -
  obtain r where r: "run_leaves cfg env (new_request cfg opts key fp now) (fst (execute w)) r"
    and d: "decided cfg env2 (new_request cfg opts key fp now2) execute2 (Some r) t' w2
      (Execute cfg env2 opts now2 execute2 (t', w2))"
    using second_decided [OF assms(1,3,4) refl, of now2 execute2 w2] by blast
  have st: "ir_Status r = IdempotencyStatusFailedRetryable" "ir_LockedUntil r = Some until"
    "ir_RequestFingerprint r = rq_fingerprint (new_request cfg opts key fp now2)"
    using r assms(2,5) by (simp_all add: run_leaves_def)
  obtain res t'' w' where ex: "Execute cfg env2 opts now2 execute2 (t', w2) = (res, t'', w')"
    by (metis surj_pair)
  show ?thesis
    using d unfolding decided_def decide_failed [OF st] ex
    by (simp add: ran_executor_def split: if_splits)
qed

section \<open>Truncated responses\<close>

text \<open>
  A response longer than the limit is stored cut, with a suffix, and is not JSON any more:
  the request can never be replayed. Sent again it is answered with an error of the store, and
  not with the response.
\<close>

theorem truncated_response_is_lost:
  assumes "en_marshal env d = Some raw" and "0 < ic_MaxStoredResponseLen cfg"
    and "ic_MaxStoredResponseLen cfg < int (length (en_redact env raw))"
  shows "\<exists>b. marshalStoredResponse cfg env d = Some b \<and> decodeStoredResponse (Some b) = None"
proof -
  let ?cut = "truncateUTF8 (en_redact env raw) (ic_MaxStoredResponseLen cfg)"
  have b: "marshalStoredResponse cfg env d = Some (?cut @ ''...(truncated)'')"
    using assms by (simp add: marshalStoredResponse_def)
  have "\<not> json_Valid ((?cut @ ''...(truncated'') @ '')'')" by (rule json_Valid_no_trailing_paren)
  then have "\<not> json_Valid (?cut @ ''...(truncated)'')" by simp
  moreover have "CHR ''('' \<in> set (go_trim_space (?cut @ ''...(truncated)''))"
    by (rule go_trim_space_keeps) (simp_all add: space_runes_def)
  ultimately show ?thesis using b by (auto simp: decodeStoredResponse_def)
qed

section \<open>Witnesses\<close>

definition no_records :: idempotency_records where
  "no_records = \<lparr>it_rows = [], it_next_id = 1\<rparr>"

definition sample_fp :: go_string where
  "sample_fp = sha256_hex (''POST'' @ [CHR 0x0A] @ ''/r'' @ [CHR 0x0A] @ ''u'' @ [CHR 0x0A] @ ''{}'')"

definition other_records :: idempotency_records where
  "other_records = \<lparr>it_rows = [\<lparr>ir_ID = 1, ir_Scope = ''s'', ir_IdempotencyKeyHash = HashIdempotencyKey ''k'',
      ir_RequestFingerprint = ''other'', ir_Status = IdempotencyStatusProcessing, ir_ResponseStatus = None,
      ir_ResponseBody = None, ir_ErrorReason = None, ir_LockedUntil = None, ir_ExpiresAt = 7,
      ir_CreatedAt = 0, ir_UpdatedAt = 0\<rparr>], it_next_id = 2\<rparr>"

lemma trim_k: "NormalizeIdempotencyKey ''k'' = Inr ''k''"
  by code_simp

lemma upper_post: "go_to_upper f ''POST'' = ''POST''"
  by (simp add: go_to_upper_def ascii_upper_def)

lemma sample_accepted:
  "accepted (sample_env t) sample_opts ''k'' sample_fp"
  by (simp add: accepted_def sample_opts_def trim_k BuildIdempotencyFingerprint_def upper_post sample_fp_def)

lemma sample_fp_differs: "''other'' \<noteq> sample_fp"
proof -
  have "length sample_fp = 64" by (simp add: sample_fp_def)
  moreover have "length ''other'' = (5 :: nat)" by simp
  ultimately show ?thesis by (metis numeral_eq_iff semiring_norm(88,90))
qed

lemma sample_reliable: "reliable (sample_env t)"
  by (simp add: reliable_def sample_env_def)

definition after_first :: "exec_error + nat \<Rightarrow> idempotency_records" where
  "after_first out = fst (snd (Execute DefaultIdempotencyConfig (sample_env 0) sample_opts 0 (\<lambda>w. (out, w + 1))
     (no_records, 0 :: nat)))"

lemma sample_first_ran:
  "first_ran DefaultIdempotencyConfig (sample_env 0) sample_opts ''k'' sample_fp 0 (\<lambda>w :: nat. (out, w + 1)) 0
     (after_first out)"
  unfolding first_ran_def after_first_def
  using sample_reliable sample_accepted
  by (auto simp: stored_row_def GetByScopeAndKeyHash_def no_records_def table_ok_def intro!: exI [of _ no_records])

lemma sample_stored:
  "marshalStoredResponse DefaultIdempotencyConfig (sample_env 0) 1 = Some ''1''"
  "decodeStoredResponse (Some ''1'') = Some (Decoded ''1'' :: nat idem_data)"
  by (simp add: marshalStoredResponse_def sample_env_def DefaultIdempotencyConfig_def, code_simp)

theorem execute_follows_decision_witness:
  "\<exists>t'. Execute DefaultIdempotencyConfig (sample_env 0) sample_opts 0 (\<lambda>w. (Inr 1, w + 1)) (no_records, 0 :: nat) =
     (Inr \<lparr>ix_Data = Value 1, ix_Replayed = False\<rparr>, t', 1)"
proof -
  obtain res t' w' where ex: "Execute DefaultIdempotencyConfig (sample_env 0) sample_opts 0 (\<lambda>w. (Inr 1, w + 1))
      (no_records, 0 :: nat) = (res, t', w')"
    by (metis surj_pair)
  have "table_ok no_records" by (simp add: table_ok_def no_records_def)
  from execute_follows_decision [OF sample_reliable this sample_accepted refl ex]
  show ?thesis
    using ex by (simp add: stored_row_def GetByScopeAndKeyHash_def no_records_def decide_def run_answer_def
        sample_stored [simplified])
qed


theorem other_request_conflicts_witness:
  "\<exists>t'. Execute DefaultIdempotencyConfig (sample_env 0) sample_opts (seconds 60) (\<lambda>w. (Inr 2, w + 1))
     (other_records, 5 :: nat) = (Inl ErrIdempotencyKeyConflict, t', 5) \<and> it_rows t' = it_rows other_records"
  by (rule other_request_conflicts [OF sample_reliable _ sample_accepted, where r = "hd (it_rows other_records)"])
     (simp_all add: other_records_def table_ok_def stored_row_def GetByScopeAndKeyHash_def has_key_def
       new_request_def sample_opts_def sample_fp_differs)

theorem failure_backs_off_witness:
  "\<exists>t''. Execute DefaultIdempotencyConfig (sample_env 0) sample_opts (seconds 3) (\<lambda>w. (Inr 2, w + 1))
     (after_first (Inl (ExecError [])), 5 :: nat) = (Inl (ErrIdempotencyRetryBackoff (Some 2)), t'', 5)"
  using failure_backs_off [OF sample_first_ran [of "Inl (ExecError [])"] _ sample_reliable [of 0] sample_accepted refl,
      of "ExecError []" "seconds 3" "\<lambda>w. (Inr 2, w + 1)" "5 :: nat"]
  by (simp add: sample_env_def DefaultIdempotencyConfig_def seconds_def)

theorem truncated_response_is_lost_witness:
  "\<exists>b. marshalStoredResponse (DefaultIdempotencyConfig\<lparr>ic_MaxStoredResponseLen := 3\<rparr>)
     ((sample_env 0)\<lparr>en_marshal := \<lambda>d. Some ''12345''\<rparr>) 0 = Some b \<and>
     decodeStoredResponse (Some b) = (None :: nat idem_data option)"
  by (rule truncated_response_is_lost [where raw = "''12345''"]) (simp_all add: sample_env_def)

end
