(* ===== verification/Auth_Abuse.thy ===== *)
theory Auth_Abuse
  imports Gateway_Prelude "HOL-Library.AList"
begin

text \<open>
  \<^verbatim>\<open>backend/internal/service/invalid_auth_abuse_limiter.go\<close>: clients that keep presenting invalid
  keys are blocked for a while. Entries live in 16 shards, chosen by FNV-1a of the client key, and
  their number is bounded; failures of clients for which there is no room are counted together in
  the overflow. Each shard is an association list with distinct keys; times are nanoseconds, and
  \<open>None\<close> is the zero \<^verbatim>\<open>time.Time\<close>, which lies before every reading of the clock. \<^verbatim>\<open>l.now()\<close> is the
  argument \<open>now\<close>. The sections under a shard's mutex are atomic.
\<close>

unbundle bit_operations_syntax

section \<open>State\<close>

definition invalidAuthAbuseShardCount :: nat where
  "invalidAuthAbuseShardCount = 16"

record invalidAuthAbuseEntry =
  ab_failures :: int
  ab_windowStart :: int
  ab_blockedUntil :: "int option"

type_synonym abuse_shard = "(go_string \<times> invalidAuthAbuseEntry) list"

record invalidAuthOverflow =
  ov_failures :: int
  ov_windowStart :: "int option"
  ov_blockedUntil :: "int option"

record invalidAuthAbuseLimiter =
  al_threshold :: int
  al_window :: int
  al_block :: int
  al_capacity :: int
  al_shards :: "abuse_shard list"
  al_overflow :: invalidAuthOverflow
  al_tracked :: int
  al_recorded :: "64 word"
  al_blocked :: "64 word"
  al_rejected :: "64 word"
  al_expired :: "64 word"
  al_overflowed :: "64 word"
  al_globalBlocked :: "64 word"
  al_cleanupNext :: int
  al_cleanupCursor :: "32 word"

record InvalidAuthAbuseHealth =
  ah_Enabled :: bool
  ah_Tracked :: int
  ah_Capacity :: int
  ah_Recorded :: "64 word"
  ah_Blocks :: "64 word"
  ah_Rejected :: "64 word"
  ah_Expired :: "64 word"
  ah_Overflowed :: "64 word"
  ah_GlobalBlocked :: "64 word"

text \<open>\<^verbatim>\<open>cfg.APIKeyAuth.InvalidAbuse\<close>\<close>

record InvalidAuthAbuseConfig =
  iac_Enabled :: bool
  iac_Threshold :: int
  iac_WindowSeconds :: int
  iac_BlockSeconds :: int
  iac_Capacity :: int

definition newInvalidAuthAbuseLimiter :: "InvalidAuthAbuseConfig option \<Rightarrow> invalidAuthAbuseLimiter option" where
  "newInvalidAuthAbuseLimiter cfg =
     (case cfg of
        None \<Rightarrow> None
      | Some c \<Rightarrow>
          if \<not> iac_Enabled c then None
          else if iac_Threshold c \<le> 0 \<or> iac_WindowSeconds c \<le> 0 \<or> iac_BlockSeconds c \<le> 0 \<or> iac_Capacity c \<le> 0
          then None
          else Some
            \<lparr>al_threshold = iac_Threshold c, al_window = wrap64 (iac_WindowSeconds c * 1000000000),
             al_block = wrap64 (iac_BlockSeconds c * 1000000000), al_capacity = iac_Capacity c,
             al_shards = replicate invalidAuthAbuseShardCount [],
             al_overflow = \<lparr>ov_failures = 0, ov_windowStart = None, ov_blockedUntil = None\<rparr>,
             al_tracked = 0, al_recorded = 0, al_blocked = 0, al_rejected = 0, al_expired = 0,
             al_overflowed = 0, al_globalBlocked = 0, al_cleanupNext = 0, al_cleanupCursor = 0\<rparr>)"

section \<open>Helpers\<close>

text \<open>\<^verbatim>\<open>t.After(now)\<close> for a time that may be zero.\<close>

definition is_after :: "int option \<Rightarrow> int \<Rightarrow> bool" where
  "is_after t now \<longleftrightarrow> (case t of None \<Rightarrow> False | Some u \<Rightarrow> now < u)"

definition entryExpired :: "invalidAuthAbuseLimiter \<Rightarrow> invalidAuthAbuseEntry \<Rightarrow> int \<Rightarrow> bool" where
  "entryExpired l entry now \<longleftrightarrow>
     \<not> is_after (ab_blockedUntil entry) now \<and> \<not> now < ab_windowStart entry \<and>
     \<not> now < ab_windowStart entry + al_window l"

definition fnv_step :: "32 word \<Rightarrow> char \<Rightarrow> 32 word" where
  "fnv_step hash c = (hash XOR word_of_nat (of_char c)) * 16777619"

definition shard_of :: "go_string \<Rightarrow> nat" where
  "shard_of clientKey = unat (foldl fnv_step 2166136261 clientKey mod 16)"

definition lookup_entry :: "go_string \<Rightarrow> invalidAuthAbuseLimiter \<Rightarrow> invalidAuthAbuseEntry option" where
  "lookup_entry key l = map_of (al_shards l ! shard_of key) key"

definition on_shard :: "nat \<Rightarrow> (abuse_shard \<Rightarrow> abuse_shard) \<Rightarrow> invalidAuthAbuseLimiter \<Rightarrow> invalidAuthAbuseLimiter" where
  "on_shard i f l = l\<lparr>al_shards := (al_shards l)[i := f (al_shards l ! i)]\<rparr>"

text \<open>The lookup at the start of both operations, which drops an expired entry.\<close>

definition drop_expired :: "int \<Rightarrow> go_string \<Rightarrow> invalidAuthAbuseLimiter \<Rightarrow>
    invalidAuthAbuseEntry option \<times> invalidAuthAbuseLimiter" where
  "drop_expired now key l =
     (case lookup_entry key l of
        None \<Rightarrow> (None, l)
      | Some entry \<Rightarrow>
          if entryExpired l entry now
          then (None, (on_shard (shard_of key) (AList.delete key) l)
                 \<lparr>al_tracked := al_tracked l - 1, al_expired := al_expired l + 1\<rparr>)
          else (Some entry, l))"

definition maybeCleanupAtCapacity :: "int \<Rightarrow> invalidAuthAbuseLimiter \<Rightarrow> invalidAuthAbuseLimiter" where
  "maybeCleanupAtCapacity now l =
     (if al_tracked l < al_capacity l then l
      else if now < al_cleanupNext l then l
      else
        let index = al_cleanupCursor l;
            l = l\<lparr>al_cleanupNext := now + 100000000, al_cleanupCursor := index + 1\<rparr>;
            i = unat (index mod 16);
            (gone, kept) = partition (\<lambda>(key, entry). entryExpired l entry now) (al_shards l ! i)
        in (on_shard i (\<lambda>_. kept) l)
             \<lparr>al_tracked := al_tracked l - int (length gone),
              al_expired := al_expired l + word_of_nat (length gone)\<rparr>)"

definition reserveEntry :: "invalidAuthAbuseLimiter \<Rightarrow> bool \<times> invalidAuthAbuseLimiter" where
  "reserveEntry l =
     (if al_capacity l \<le> al_tracked l then (False, l) else (True, l\<lparr>al_tracked := al_tracked l + 1\<rparr>))"

section \<open>Overflow\<close>

definition recordOverflow :: "int \<Rightarrow> invalidAuthAbuseLimiter \<Rightarrow> invalidAuthAbuseLimiter" where
  "recordOverflow now l =
     (let l = l\<lparr>al_overflowed := al_overflowed l + 1\<rparr>; o1 = al_overflow l in
      if is_after (ov_blockedUntil o1) now then l
      else
        let o2 = (if (case ov_windowStart o1 of None \<Rightarrow> True | Some ws \<Rightarrow> \<not> now < ws + al_window l)
                  then o1\<lparr>ov_windowStart := Some now, ov_failures := 0\<rparr> else o1);
            o3 = o2\<lparr>ov_failures := ov_failures o2 + 1\<rparr>
        in if al_threshold l \<le> ov_failures o3
           then l\<lparr>al_overflow := o3\<lparr>ov_failures := 0, ov_blockedUntil := Some (now + al_block l),
                     ov_windowStart := Some (now + al_block l)\<rparr>,
                  al_blocked := al_blocked l + 1\<rparr>
           else l\<lparr>al_overflow := o3\<rparr>)"

definition checkOverflow :: "int \<Rightarrow> invalidAuthAbuseLimiter \<Rightarrow> int \<times> bool" where
  "checkOverflow now l =
     (case ov_blockedUntil (al_overflow l) of
        None \<Rightarrow> (0, False)
      | Some u \<Rightarrow> if now < u then (u - now, True) else (0, False))"

section \<open>The two operations\<close>

definition abuse_check :: "int \<Rightarrow> go_string \<Rightarrow> invalidAuthAbuseLimiter \<Rightarrow>
    (int \<times> bool) \<times> invalidAuthAbuseLimiter" where
  "abuse_check now clientKey l =
     (if clientKey = [] then ((0, False), l)
      else
        let l = maybeCleanupAtCapacity now l;
            (entry, l) = drop_expired now clientKey l
        in case entry of
             Some e \<Rightarrow>
               (case ab_blockedUntil e of
                  Some u \<Rightarrow>
                    if now < u then ((u - now, True), l\<lparr>al_rejected := al_rejected l + 1\<rparr>)
                    else ((0, False), l)
                | None \<Rightarrow> ((0, False), l))
           | None \<Rightarrow>
               if al_capacity l \<le> al_tracked l then
                 (case checkOverflow now l of
                    (retry, blocked) \<Rightarrow>
                      if blocked
                      then ((retry, True), l\<lparr>al_rejected := al_rejected l + 1,
                              al_globalBlocked := al_globalBlocked l + 1\<rparr>)
                      else ((0, False), l))
               else ((0, False), l))"

text \<open>A failure counted on an entry: the entry, and whether it was blocked by it.\<close>

definition count_failure :: "int \<Rightarrow> invalidAuthAbuseLimiter \<Rightarrow> invalidAuthAbuseEntry \<Rightarrow>
    invalidAuthAbuseEntry \<times> bool" where
  "count_failure now l entry =
     (if is_after (ab_blockedUntil entry) now then (entry, False)
      else
        let entry = (if now < ab_windowStart entry \<or> \<not> now < ab_windowStart entry + al_window l
                     then entry\<lparr>ab_windowStart := now, ab_failures := 0\<rparr> else entry);
            entry = entry\<lparr>ab_failures := ab_failures entry + 1\<rparr>
        in if al_threshold l \<le> ab_failures entry
           then (entry\<lparr>ab_failures := 0, ab_blockedUntil := Some (now + al_block l),
                       ab_windowStart := now + al_block l\<rparr>, True)
           else (entry, False))"

definition store_entry :: "go_string \<Rightarrow> invalidAuthAbuseEntry \<Rightarrow> invalidAuthAbuseLimiter \<Rightarrow>
    invalidAuthAbuseLimiter" where
  "store_entry key entry = on_shard (shard_of key) (AList.update key entry)"

definition count_and_store :: "int \<Rightarrow> go_string \<Rightarrow> invalidAuthAbuseEntry \<Rightarrow> invalidAuthAbuseLimiter \<Rightarrow>
    invalidAuthAbuseLimiter" where
  "count_and_store now key entry l =
     (let (entry, hit) = count_failure now l entry; l = store_entry key entry l in
      if hit then l\<lparr>al_blocked := al_blocked l + 1\<rparr> else l)"

definition abuse_record :: "int \<Rightarrow> go_string \<Rightarrow> invalidAuthAbuseLimiter \<Rightarrow> invalidAuthAbuseLimiter" where
  "abuse_record now clientKey l =
     (if clientKey = [] then l
      else
        let l = l\<lparr>al_recorded := al_recorded l + 1\<rparr>;
            l = maybeCleanupAtCapacity now l;
            (found, l) = drop_expired now clientKey l
        in case found of
             Some entry \<Rightarrow> count_and_store now clientKey entry l
           | None \<Rightarrow>
               let (ok, l) = reserveEntry l in
               if ok
               then count_and_store now clientKey
                      \<lparr>ab_failures = 0, ab_windowStart = now, ab_blockedUntil = None\<rparr> l
               else recordOverflow now l)"

definition abuse_health :: "invalidAuthAbuseLimiter \<Rightarrow> InvalidAuthAbuseHealth" where
  "abuse_health l =
     \<lparr>ah_Enabled = True, ah_Tracked = al_tracked l, ah_Capacity = al_capacity l, ah_Recorded = al_recorded l,
      ah_Blocks = al_blocked l, ah_Rejected = al_rejected l, ah_Expired = al_expired l,
      ah_Overflowed = al_overflowed l, ah_GlobalBlocked = al_globalBlocked l\<rparr>"

text \<open>The service's entry points; without a limiter nothing is limited.\<close>

definition CheckInvalidAuthAbuse :: "int \<Rightarrow> go_string \<Rightarrow> invalidAuthAbuseLimiter option \<Rightarrow>
    (int \<times> bool) \<times> invalidAuthAbuseLimiter option" where
  "CheckInvalidAuthAbuse now clientKey s =
     (case s of
        None \<Rightarrow> ((0, False), None)
      | Some l \<Rightarrow> let (r, l) = abuse_check now clientKey l in (r, Some l))"

definition RecordInvalidAuthFailure :: "int \<Rightarrow> go_string \<Rightarrow> invalidAuthAbuseLimiter option \<Rightarrow>
    invalidAuthAbuseLimiter option" where
  "RecordInvalidAuthFailure now clientKey s = map_option (abuse_record now clientKey) s"

definition service_InvalidAuthAbuseHealth :: "invalidAuthAbuseLimiter option \<Rightarrow> InvalidAuthAbuseHealth" where
  "service_InvalidAuthAbuseHealth s =
     (case s of
        None \<Rightarrow>
          \<lparr>ah_Enabled = False, ah_Tracked = 0, ah_Capacity = 0, ah_Recorded = 0, ah_Blocks = 0,
           ah_Rejected = 0, ah_Expired = 0, ah_Overflowed = 0, ah_GlobalBlocked = 0\<rparr>
      | Some l \<Rightarrow> abuse_health l)"

section \<open>Invariant\<close>

text \<open>
  Sixteen shards, every key once and in the shard of its hash, and the counter of entries equal to
  their number, within the capacity.
\<close>

definition shard_ok :: "nat \<Rightarrow> abuse_shard \<Rightarrow> bool" where
  "shard_ok i s \<longleftrightarrow> distinct (map fst s) \<and> list_all (\<lambda>(key, entry). shard_of key = i) s"

definition entry_count :: "invalidAuthAbuseLimiter \<Rightarrow> nat" where
  "entry_count l = sum_list (map length (al_shards l))"

definition limiter_ok :: "invalidAuthAbuseLimiter \<Rightarrow> bool" where
  "limiter_ok l \<longleftrightarrow> length (al_shards l) = invalidAuthAbuseShardCount \<and>
     (\<forall>i < invalidAuthAbuseShardCount. shard_ok i (al_shards l ! i)) \<and>
     al_tracked l = int (entry_count l) \<and> al_tracked l \<le> al_capacity l \<and> 0 < al_window l"

lemma shard_of_less [simp]: "shard_of key < 16"
proof -
  have "unat (x mod 16 :: 32 word) < 16" for x by (simp add: unat_mod)
  then show ?thesis by (simp add: shard_of_def)
qed

lemma limiter_okD:
  assumes "limiter_ok l"
  shows "length (al_shards l) = 16" and "i < 16 \<Longrightarrow> distinct (map fst (al_shards l ! i))"
    and "i < 16 \<Longrightarrow> (k, e) \<in> set (al_shards l ! i) \<Longrightarrow> shard_of k = i"
  using assms
  by (auto simp: limiter_ok_def invalidAuthAbuseShardCount_def shard_ok_def list_all_iff)

text \<open>Replacing one shard.\<close>

lemma limiter_ok_on_shard:
  assumes "limiter_ok l" and "i < 16" and "shard_ok i s" and "al_shards l' = (al_shards l)[i := s]"
    and "al_tracked l' = al_tracked l + int (length s) - int (length (al_shards l ! i))"
    and "al_tracked l' \<le> al_capacity l" and "al_capacity l' = al_capacity l" and "al_window l' = al_window l"
  shows "limiter_ok l'"
proof -
  have len: "length (al_shards l) = 16" by (rule limiter_okD [OF assms(1)])
  have "length (al_shards l ! i) \<le> entry_count l"
    unfolding entry_count_def using len assms(2) by (intro member_le_sum_list) simp_all
  moreover have "entry_count l' = entry_count l + length s - length (al_shards l ! i)"
    unfolding entry_count_def assms(4) using len assms(2) by (simp add: map_update sum_list_update)
  moreover have "shard_ok j ((al_shards l)[i := s] ! j)" if "j < 16" for j
    using that assms(1,3) len by (cases "j = i") (simp_all add: limiter_ok_def invalidAuthAbuseShardCount_def)
  ultimately show ?thesis
    using assms len by (simp add: limiter_ok_def invalidAuthAbuseShardCount_def of_nat_diff)
qed

lemma limiter_ok_cong:
  assumes "limiter_ok l" and "al_shards l' = al_shards l" and "al_tracked l' = al_tracked l"
    and "al_capacity l' = al_capacity l" and "al_window l' = al_window l"
  shows "limiter_ok l'"
  using assms by (simp add: limiter_ok_def entry_count_def)

lemma shard_ok_nth: "limiter_ok l \<Longrightarrow> i < 16 \<Longrightarrow> shard_ok i (al_shards l ! i)"
  by (simp add: limiter_ok_def invalidAuthAbuseShardCount_def)

lemma shard_ok_filter: "shard_ok i s \<Longrightarrow> shard_ok i (filter p s)"
  by (auto simp: shard_ok_def list_all_iff distinct_map_filter)

lemma shard_ok_update: "shard_ok i s \<Longrightarrow> shard_of key = i \<Longrightarrow> shard_ok i (AList.update key e s)"
  by (induction s) (auto simp: shard_ok_def dom_update distinct_update)

lemma length_delete:
  "distinct (map fst s) \<Longrightarrow> map_of s key = Some e \<Longrightarrow> Suc (length (AList.delete key s)) = length s"
proof (induction s)
  case (Cons a s)
  show ?case
  proof (cases "fst a = key")
    case True
    then have "key \<notin> fst ` set s" using Cons.prems(1) by auto
    then show ?thesis using True by (simp add: AList.delete_eq split_beta filter_id_conv image_iff)
  next
    case False
    then show ?thesis using Cons by (auto simp: AList.delete_eq split: if_splits)
  qed
qed simp

lemma length_update:
  "length (AList.update key e s) = (if map_of s key = None then Suc (length s) else length s)"
  by (induction s) auto

subsection \<open>Every operation keeps it\<close>

lemma limiter_ok_drop_expired:
  assumes "limiter_ok l"
  shows "limiter_ok (snd (drop_expired now key l))"
proof (cases "\<exists>e. lookup_entry key l = Some e \<and> entryExpired l e now")
  case True
  then obtain e where e: "map_of (al_shards l ! shard_of key) key = Some e" "entryExpired l e now"
    by (auto simp: lookup_entry_def)
  have len: "Suc (length (AList.delete key (al_shards l ! shard_of key))) = length (al_shards l ! shard_of key)"
    using length_delete [OF limiter_okD(2) [OF assms] e(1)] by simp
  show ?thesis
    by (rule limiter_ok_on_shard [OF assms shard_of_less,
          of key "AList.delete key (al_shards l ! shard_of key)"])
       (use assms e len in \<open>auto simp: drop_expired_def lookup_entry_def on_shard_def AList.delete_eq
          shard_ok_filter shard_ok_nth limiter_ok_def\<close>)
next
  case False
  then show ?thesis using assms by (auto simp: drop_expired_def split: option.splits)
qed

lemma limiter_ok_cleanup:
  assumes "limiter_ok l"
  shows "limiter_ok (maybeCleanupAtCapacity now l)"
proof (cases "al_tracked l < al_capacity l \<or> now < al_cleanupNext l")
  case False
  let ?i = "unat (al_cleanupCursor l mod 16)"
  let ?p = "\<lambda>(key, entry). entryExpired l entry now"
  have i: "?i < 16" by (simp add: unat_mod)
  have e: "entryExpired (l\<lparr>al_cleanupNext := t, al_cleanupCursor := c\<rparr>) = entryExpired l" for t c
    by (simp add: fun_eq_iff entryExpired_def)
  have len: "length (filter ?p s) + length (filter (Not \<circ> ?p) s) = length s" for s
    by (rule sum_length_filter_compl [unfolded comp_def [symmetric]])
  show ?thesis
    by (rule limiter_ok_on_shard [OF assms i, of "filter (Not \<circ> ?p) (al_shards l ! ?i)"])
       (use assms False len [of "al_shards l ! ?i"] in
         \<open>auto simp: maybeCleanupAtCapacity_def on_shard_def e shard_ok_filter shard_ok_nth i limiter_ok_def Let_def\<close>)
next
  case True
  then show ?thesis using assms by (auto simp: maybeCleanupAtCapacity_def)
qed

lemma cleanup_kept [simp]:
  "al_capacity (maybeCleanupAtCapacity now l) = al_capacity l" "al_window (maybeCleanupAtCapacity now l) = al_window l"
  "al_threshold (maybeCleanupAtCapacity now l) = al_threshold l" "al_block (maybeCleanupAtCapacity now l) = al_block l"
  "al_tracked (maybeCleanupAtCapacity now l) \<le> al_tracked l"
  "al_overflow (maybeCleanupAtCapacity now l) = al_overflow l"
  by (auto simp: maybeCleanupAtCapacity_def on_shard_def Let_def)

lemma drop_expired_kept [simp]:
  "al_capacity (snd (drop_expired now key l)) = al_capacity l" "al_window (snd (drop_expired now key l)) = al_window l"
  "al_threshold (snd (drop_expired now key l)) = al_threshold l" "al_block (snd (drop_expired now key l)) = al_block l"
  "al_tracked (snd (drop_expired now key l)) \<le> al_tracked l"
  "al_overflow (snd (drop_expired now key l)) = al_overflow l"
  by (auto simp: drop_expired_def on_shard_def split: option.splits)

text \<open>Storing an entry, for a key that has one or whose place was reserved.\<close>

lemma limiter_ok_store:
  assumes "limiter_ok l" and "lookup_entry key l \<noteq> None"
  shows "limiter_ok (store_entry key e l)"
  by (rule limiter_ok_on_shard [OF assms(1) shard_of_less, of key "AList.update key e (al_shards l ! shard_of key)"])
     (use assms in \<open>auto simp: store_entry_def on_shard_def shard_ok_update shard_ok_nth length_update lookup_entry_def
        limiter_ok_def\<close>)

lemma limiter_ok_store_new:
  assumes "limiter_ok l" and "lookup_entry key l = None" and "al_tracked l < al_capacity l"
  shows "limiter_ok (store_entry key e (l\<lparr>al_tracked := al_tracked l + 1\<rparr>))"
  by (rule limiter_ok_on_shard [OF assms(1) shard_of_less, of key "AList.update key e (al_shards l ! shard_of key)"])
     (use assms in \<open>auto simp: store_entry_def on_shard_def shard_ok_update shard_ok_nth length_update lookup_entry_def
        limiter_ok_def\<close>)

lemma limiter_ok_count:
  assumes "limiter_ok (store_entry key (fst (count_failure now l entry)) l)"
  shows "limiter_ok (count_and_store now key entry l)"
  using assms by (auto simp: count_and_store_def split_beta Let_def intro: limiter_ok_cong)

lemma limiter_ok_recordOverflow: "limiter_ok l \<Longrightarrow> limiter_ok (recordOverflow now l)"
  by (erule limiter_ok_cong) (simp_all add: recordOverflow_def Let_def)

text \<open>What is left of the entry that was looked up.\<close>

lemma drop_expired_found:
  assumes "limiter_ok l"
  shows "fst (drop_expired now key l) = lookup_entry key (snd (drop_expired now key l))"
proof -
  have "length (al_shards l) = 16" by (rule limiter_okD [OF assms])
  then show ?thesis
    by (auto simp: drop_expired_def lookup_entry_def on_shard_def delete_conv split: option.splits)
qed

lemma limiter_ok_record:
  assumes "limiter_ok l"
  shows "limiter_ok (abuse_record now key l)"
proof -
  let ?l1 = "maybeCleanupAtCapacity now (l\<lparr>al_recorded := al_recorded l + 1\<rparr>)"
  obtain found l2 where d: "drop_expired now key ?l1 = (found, l2)" by fastforce
  have ok1: "limiter_ok ?l1" by (intro limiter_ok_cleanup limiter_ok_cong [OF assms]) simp_all
  have ok2: "limiter_ok l2" and found: "found = lookup_entry key l2"
    using limiter_ok_drop_expired [OF ok1, of now key] drop_expired_found [OF ok1, of now key] d by simp_all
  have old: "limiter_ok (count_and_store now key e l2)" if "found = Some e" for e
    using that found ok2 by (intro limiter_ok_count limiter_ok_store) auto
  have new: "limiter_ok (count_and_store now key e (l2\<lparr>al_tracked := al_tracked l2 + 1\<rparr>))"
    if "found = None" "al_tracked l2 < al_capacity l2" for e
    using that found ok2 by (intro limiter_ok_count limiter_ok_store_new) auto
  show ?thesis
    using d assms ok2 old new limiter_ok_recordOverflow
    by (auto simp: abuse_record_def Let_def reserveEntry_def split: option.splits)
qed

lemma limiter_ok_check:
  assumes "limiter_ok l"
  shows "limiter_ok (snd (abuse_check now key l))"
proof -
  obtain found l2 where d: "drop_expired now key (maybeCleanupAtCapacity now l) = (found, l2)" by fastforce
  have "limiter_ok l2"
    using limiter_ok_drop_expired [OF limiter_ok_cleanup [OF assms], of now key now] d by simp
  then show ?thesis
    using d assms
    by (auto simp: abuse_check_def Let_def split: option.splits prod.splits if_splits elim!: limiter_ok_cong)
qed

lemma new_limiter_ok:
  assumes "newInvalidAuthAbuseLimiter (Some c) = Some l0" and "iac_WindowSeconds c \<le> 9223372036"
  shows "limiter_ok l0"
proof -
  have "wrap64 (iac_WindowSeconds c * 1000000000) = iac_WindowSeconds c * 1000000000" "0 < iac_WindowSeconds c"
    using assms by (auto simp: newInvalidAuthAbuseLimiter_def is_int64_def intro!: wrap64_id split: if_splits)
  then show ?thesis
    using assms(1)
    by (auto simp: newInvalidAuthAbuseLimiter_def limiter_ok_def entry_count_def shard_ok_def
        invalidAuthAbuseShardCount_def nth_replicate split: if_splits)
qed

text \<open>
  C37. A limiter that the configuration allows starts within its invariant, and checks and failures,
  in any order and at any time, keep it: the counter is the number of entries, never above the
  capacity, and every client has at most one entry, in the shard its key hashes to.
\<close>

theorem abuse_limiter_invariant:
  assumes "newInvalidAuthAbuseLimiter (Some c) = Some l0" and "iac_WindowSeconds c \<le> 9223372036"
  shows "limiter_ok l0 \<and> (\<forall>l now key. limiter_ok l \<longrightarrow>
    limiter_ok (abuse_record now key l) \<and> limiter_ok (snd (abuse_check now key l)))"
  using new_limiter_ok [OF assms] limiter_ok_record limiter_ok_check by blast

definition sample_abuse_config :: InvalidAuthAbuseConfig where
  "sample_abuse_config = \<lparr>iac_Enabled = True, iac_Threshold = 2, iac_WindowSeconds = 10, iac_BlockSeconds = 30,
     iac_Capacity = 100\<rparr>"

definition sample_limiter :: invalidAuthAbuseLimiter where
  "sample_limiter = the (newInvalidAuthAbuseLimiter (Some sample_abuse_config))"

lemma sample_limiter_new: "newInvalidAuthAbuseLimiter (Some sample_abuse_config) = Some sample_limiter"
  by (simp add: sample_limiter_def newInvalidAuthAbuseLimiter_def sample_abuse_config_def)

theorem abuse_limiter_invariant_witness:
  "limiter_ok sample_limiter \<and> limiter_ok (abuse_record 5 ''1.2.3.4'' sample_limiter)"
  using abuse_limiter_invariant [OF sample_limiter_new] by (simp add: sample_abuse_config_def)

end
