(* ===== verification/Auth_Abuse_Client.thy ===== *)
theory Auth_Abuse_Client
  imports Auth_Abuse "HOL-Library.Sublist"
begin

text \<open>
  What one client sees of the shared limiter. As long as the table has room, the limiter with its
  shards, its cleanup and all other clients behaves for this client like a private counter that
  only its own failures change. Blocking and its limits are then facts about that counter.
\<close>

section \<open>The live entry of a client\<close>

definition visible :: "invalidAuthAbuseLimiter \<Rightarrow> int \<Rightarrow> invalidAuthAbuseEntry \<Rightarrow> invalidAuthAbuseEntry option" where
  "visible l now e = (if entryExpired l e now then None else Some e)"

definition live :: "invalidAuthAbuseLimiter \<Rightarrow> int \<Rightarrow> go_string \<Rightarrow> invalidAuthAbuseEntry option" where
  "live l now key = Option.bind (lookup_entry key l) (visible l now)"

definition client_failure :: "invalidAuthAbuseLimiter \<Rightarrow> int \<Rightarrow> invalidAuthAbuseEntry option \<Rightarrow>
    invalidAuthAbuseEntry" where
  "client_failure l now eo =
     fst (count_failure now l
       (case eo of None \<Rightarrow> \<lparr>ab_failures = 0, ab_windowStart = now, ab_blockedUntil = None\<rparr> | Some e \<Rightarrow> e))"

definition same_params :: "invalidAuthAbuseLimiter \<Rightarrow> invalidAuthAbuseLimiter \<Rightarrow> bool" where
  "same_params l l' \<longleftrightarrow> al_threshold l = al_threshold l' \<and> al_window l = al_window l' \<and>
     al_block l = al_block l' \<and> al_capacity l = al_capacity l'"

lemma same_params_cong:
  assumes "same_params l l'"
  shows "entryExpired l = entryExpired l'" and "visible l = visible l'" and "client_failure l = client_failure l'"
    and "count_failure now l = count_failure now l'"
proof -
  show e: "entryExpired l = entryExpired l'" and c: "count_failure now l = count_failure now l'" for now
    using assms by (simp_all add: fun_eq_iff same_params_def entryExpired_def count_failure_def Let_def)
  show "visible l = visible l'" "client_failure l = client_failure l'"
    by (simp_all add: fun_eq_iff visible_def client_failure_def e c)
qed

lemma expired_later: "entryExpired l e now \<Longrightarrow> now \<le> t \<Longrightarrow> entryExpired l e t"
  by (auto simp: entryExpired_def is_after_def split: option.splits)

lemma visible_later: "now \<le> t \<Longrightarrow> Option.bind (visible l now e) (visible l t) = visible l t e"
  using expired_later by (auto simp: visible_def)

lemma live_later: "now \<le> t \<Longrightarrow> Option.bind (live l now key) (visible l t) = live l t key"
  by (cases "lookup_entry key l") (simp_all add: live_def visible_later)

lemma lookup_on_shard:
  assumes "limiter_ok l" and "i < 16"
  shows "lookup_entry key (on_shard i f l) =
    (if shard_of key = i then map_of (f (al_shards l ! i)) key else lookup_entry key l)"
  using limiter_okD(1) [OF assms(1)] assms(2) by (simp add: lookup_entry_def on_shard_def)

lemma live_cong:
  "lookup_entry key l' = lookup_entry key l \<Longrightarrow> same_params l' l \<Longrightarrow> live l' t key = live l t key"
  by (simp add: live_def same_params_cong(2))

subsection \<open>Tidying is not seen\<close>

lemma live_drop_expired:
  assumes "limiter_ok l" and "now \<le> t"
  shows "live (snd (drop_expired now key l)) t k = live l t k"
proof (cases "k = key \<and> (\<exists>e. lookup_entry key l = Some e \<and> entryExpired l e now)")
  case True
  then obtain e where k: "k = key" and e: "lookup_entry key l = Some e" "entryExpired l e now" by blast
  have "lookup_entry k (snd (drop_expired now key l)) = None"
    using k e limiter_okD(1) [OF assms(1)] by (simp add: drop_expired_def lookup_entry_def on_shard_def delete_conv)
  moreover have "live l t k = None" using k e expired_later [OF e(2) assms(2)] by (simp add: live_def visible_def)
  ultimately show ?thesis by (simp add: live_def)
next
  case False
  show ?thesis
  proof (rule live_cong)
    show "lookup_entry k (snd (drop_expired now key l)) = lookup_entry k l"
      using False limiter_okD(1) [OF assms(1)]
      by (cases "shard_of k = shard_of key")
         (auto simp: drop_expired_def lookup_entry_def on_shard_def delete_conv split: option.splits)
    show "same_params (snd (drop_expired now key l)) l" by (simp add: same_params_def)
  qed
qed

lemma map_of_filter_distinct:
  "distinct (map fst s) \<Longrightarrow>
     map_of (filter (\<lambda>(k, e). p e) s) k = Option.bind (map_of s k) (\<lambda>e. if p e then Some e else None)"
proof (induction s)
  case (Cons a s)
  have "map_of s (fst a) = None" using Cons.prems by (simp add: map_of_eq_None_iff)
  then show ?case using Cons by (cases a) (auto split: if_splits)
qed simp

lemma live_cleanup:
  assumes "limiter_ok l" and "now \<le> t"
  shows "live (maybeCleanupAtCapacity now l) t k = live l t k"
proof (cases "al_tracked l < al_capacity l \<or> now < al_cleanupNext l")
  case False
  let ?i = "unat (al_cleanupCursor l mod 16)"
  have i: "?i < 16" by (simp add: unat_mod)
  have e: "entryExpired (l\<lparr>al_cleanupNext := u, al_cleanupCursor := c\<rparr>) = entryExpired l" for u c
    by (simp add: fun_eq_iff entryExpired_def)
  have f: "filter (Not \<circ> (\<lambda>(key, entry). entryExpired l entry now)) s =
      filter (\<lambda>(k, e). \<not> entryExpired l e now) s" for s :: abuse_shard
    by (rule filter_cong) auto
  have "lookup_entry k (maybeCleanupAtCapacity now l) =
      (if shard_of k = ?i then Option.bind (lookup_entry k l) (visible l now) else lookup_entry k l)"
    using False i limiter_okD(1) [OF assms(1)] map_of_filter_distinct [OF limiter_okD(2) [OF assms(1) i]]
    by (auto simp: maybeCleanupAtCapacity_def Let_def lookup_entry_def on_shard_def e f visible_def
        intro!: Option.bind_cong)
  then have "Option.bind (lookup_entry k (maybeCleanupAtCapacity now l)) (visible l t) =
      Option.bind (lookup_entry k l) (visible l t)"
    using visible_later [OF assms(2)] by (cases "lookup_entry k l") auto
  moreover have "visible (maybeCleanupAtCapacity now l) = visible l"
    by (rule same_params_cong) (simp add: same_params_def)
  ultimately show ?thesis by (simp add: live_def)
next
  case True
  then show ?thesis by (auto simp: maybeCleanupAtCapacity_def)
qed

subsection \<open>The two operations\<close>

lemma drop_expired_live: "fst (drop_expired now key l) = live l now key"
  by (auto simp: drop_expired_def live_def visible_def split: option.splits)

lemma lookup_count_and_store:
  assumes "limiter_ok l"
  shows "lookup_entry k (count_and_store now key e (l\<lparr>al_tracked := n\<rparr>)) =
    (if k = key then Some (fst (count_failure now l e)) else lookup_entry k l)"
proof -
  have "count_failure now (l\<lparr>al_tracked := n\<rparr>) = count_failure now l"
    by (rule same_params_cong) (simp add: same_params_def)
  moreover have "lookup_entry k (store_entry key e' (l\<lparr>al_tracked := n\<rparr>)) =
      (if k = key then Some e' else lookup_entry k l)" for e' k
    using limiter_okD(1) [OF assms]
    by (auto simp: store_entry_def lookup_entry_def on_shard_def update_conv nth_list_update)
  moreover have "lookup_entry k (u\<lparr>al_blocked := b\<rparr>) = lookup_entry k u" for u b k by (simp add: lookup_entry_def)
  ultimately show ?thesis by (simp add: count_and_store_def split_beta Let_def)
qed

lemma params_kept:
  "same_params (maybeCleanupAtCapacity now l) l" "same_params (snd (drop_expired now key l)) l"
  "same_params (count_and_store now key e l) l" "same_params (recordOverflow now l) l"
  "same_params (l\<lparr>al_recorded := r\<rparr>) l" "same_params (l\<lparr>al_tracked := n\<rparr>) l"
  by (auto simp: same_params_def count_and_store_def store_entry_def on_shard_def recordOverflow_def Let_def
      split: prod.splits)

lemma same_params_trans: "same_params l l' \<Longrightarrow> same_params l' l'' \<Longrightarrow> same_params l l''"
  by (simp add: same_params_def)

text \<open>The state both operations reach after the lookup.\<close>

definition tidied :: "int \<Rightarrow> go_string \<Rightarrow> invalidAuthAbuseLimiter \<Rightarrow> invalidAuthAbuseLimiter" where
  "tidied now key l = snd (drop_expired now key (maybeCleanupAtCapacity now l))"

lemma tidied:
  assumes "limiter_ok l"
  shows "limiter_ok (tidied now key l)" and "same_params (tidied now key l) l"
    and "now \<le> t \<Longrightarrow> live (tidied now key l) t k = live l t k"
    and "drop_expired now key (maybeCleanupAtCapacity now l) = (live l now key, tidied now key l)"
    and "al_tracked (tidied now key l) \<le> al_tracked l"
    and "al_overflow (tidied now key l) = al_overflow l"
proof -
  note ok = limiter_ok_cleanup [OF assms, of now]
  show "limiter_ok (tidied now key l)" by (simp add: tidied_def limiter_ok_drop_expired ok)
  show "same_params (tidied now key l) l"
    unfolding tidied_def by (rule same_params_trans) (rule params_kept)+
  show "now \<le> t \<Longrightarrow> live (tidied now key l) t k = live l t k"
    by (simp add: tidied_def live_drop_expired [OF ok] live_cleanup [OF assms])
  show "drop_expired now key (maybeCleanupAtCapacity now l) = (live l now key, tidied now key l)"
    by (simp add: tidied_def prod_eq_iff drop_expired_live live_cleanup [OF assms])
  show "al_tracked (tidied now key l) \<le> al_tracked l"
    unfolding tidied_def by (rule order_trans) (rule drop_expired_kept cleanup_kept)+
  show "al_overflow (tidied now key l) = al_overflow l" by (simp add: tidied_def)
qed

lemma abuse_record_tidied:
  fixes now
  assumes "limiter_ok l" and "key \<noteq> []"
  defines "l' \<equiv> tidied now key (l\<lparr>al_recorded := al_recorded l + 1\<rparr>)"
  shows "abuse_record now key l =
    (case live l now key of
       Some e \<Rightarrow> count_and_store now key e l'
     | None \<Rightarrow> if al_capacity l' \<le> al_tracked l' then recordOverflow now l'
         else count_and_store now key \<lparr>ab_failures = 0, ab_windowStart = now, ab_blockedUntil = None\<rparr>
           (l'\<lparr>al_tracked := al_tracked l' + 1\<rparr>))"
proof -
  have ok: "limiter_ok (l\<lparr>al_recorded := al_recorded l + 1\<rparr>)" by (rule limiter_ok_cong [OF assms(1)]) simp_all
  have "live (l\<lparr>al_recorded := al_recorded l + 1\<rparr>) now key = live l now key"
    by (rule live_cong) (simp_all add: lookup_entry_def params_kept)
  then show ?thesis
    using tidied(4) [OF ok, of now key] assms(2)
    by (simp add: abuse_record_def reserveEntry_def l'_def Let_def split: option.split)
qed

lemma live_record:
  assumes ok: "limiter_ok l" and t: "now \<le> t" and key: "key \<noteq> []"
  shows "k \<noteq> key \<Longrightarrow> live (abuse_record now key l) t k = live l t k"
    and "live l now key \<noteq> None \<or> al_tracked l < al_capacity l \<Longrightarrow>
      live (abuse_record now key l) t key = visible l t (client_failure l now (live l now key))"
proof -
  define l0 where "l0 = l\<lparr>al_recorded := al_recorded l + 1\<rparr>"
  define l' where "l' = tidied now key l0"
  have ok0: "limiter_ok l0" unfolding l0_def by (rule limiter_ok_cong [OF ok]) simp_all
  have p0: "same_params l0 l" by (simp add: l0_def params_kept)
  note ok' = tidied(1) [OF ok0, of now key, folded l'_def]
  have p: "same_params l' l" using same_params_trans [OF tidied(2) [OF ok0] p0] by (simp add: l'_def)
  have live': "live l' t k = live l t k" for k
    using tidied(3) [OF ok0 t] live_cong [of k l0 l t] p0 by (simp add: l'_def l0_def lookup_entry_def)
  have tr: "al_tracked l' \<le> al_tracked l" using tidied(5) [OF ok0, of now key] by (simp add: l'_def l0_def)
  have cap: "al_capacity l' = al_capacity l" using p by (simp add: same_params_def)
  have stored: "lookup_entry k (count_and_store now key e (l'\<lparr>al_tracked := n\<rparr>)) =
      (if k = key then Some (fst (count_failure now l e)) else lookup_entry k l')" for k e n
    using lookup_count_and_store [OF ok'] same_params_cong(4) [OF p] by simp
  have same: "l'\<lparr>al_tracked := al_tracked l'\<rparr> = l'" by simp
  have vis: "visible (count_and_store now key e (l'\<lparr>al_tracked := n\<rparr>)) = visible l" for e n
    by (rule same_params_cong(2)) (rule same_params_trans [OF params_kept(3) same_params_trans [OF params_kept(6) p]])
  have over: "live (recordOverflow now l') t k = live l' t k" for k
    by (rule live_cong [OF _ params_kept(4)]) (simp add: lookup_entry_def recordOverflow_def Let_def)
  have store_live: "live (count_and_store now key e (l'\<lparr>al_tracked := n\<rparr>)) t k =
      (if k = key then visible l t (fst (count_failure now l e)) else live l' t k)" for k e n
    using same_params_cong(2) [OF p] by (simp add: live_def stored vis)
  note step = abuse_record_tidied [OF ok key, of now, folded l0_def l'_def]
  show "k \<noteq> key \<Longrightarrow> live (abuse_record now key l) t k = live l t k"
    using store_live [of _ "al_tracked l'" k] store_live [of _ "al_tracked l' + 1" k] same live' over
    by (simp add: step split: option.split)
  show "live (abuse_record now key l) t key = visible l t (client_failure l now (live l now key))"
    if "live l now key \<noteq> None \<or> al_tracked l < al_capacity l"
    using that tr cap store_live [of _ "al_tracked l'" key] store_live [of _ "al_tracked l' + 1" key] same
    by (auto simp: step client_failure_def split: option.split)
qed

lemma check_tidied:
  assumes "limiter_ok l" and "key \<noteq> []"
  shows "al_shards (snd (abuse_check now key l)) = al_shards (tidied now key l) \<and>
      al_tracked (snd (abuse_check now key l)) = al_tracked (tidied now key l) \<and>
      same_params (snd (abuse_check now key l)) (tidied now key l)"
    and "fst (abuse_check now key l) =
      (case live l now key of
         Some e \<Rightarrow> (case ab_blockedUntil e of
             Some u \<Rightarrow> if now < u then (u - now, True) else (0, False)
           | None \<Rightarrow> (0, False))
       | None \<Rightarrow> if al_capacity l \<le> al_tracked (tidied now key l) then checkOverflow now l else (0, False))"
proof -
  have cap: "al_capacity (tidied now key l) = al_capacity l"
    using tidied(2) [OF assms(1), of now key] by (simp add: same_params_def)
  show "al_shards (snd (abuse_check now key l)) = al_shards (tidied now key l) \<and>
      al_tracked (snd (abuse_check now key l)) = al_tracked (tidied now key l) \<and>
      same_params (snd (abuse_check now key l)) (tidied now key l)"
    using tidied(4) [OF assms(1), of now key] assms(2)
    by (simp add: abuse_check_def same_params_def split: option.split prod.split)
  show "fst (abuse_check now key l) =
      (case live l now key of
         Some e \<Rightarrow> (case ab_blockedUntil e of
             Some u \<Rightarrow> if now < u then (u - now, True) else (0, False)
           | None \<Rightarrow> (0, False))
       | None \<Rightarrow> if al_capacity l \<le> al_tracked (tidied now key l) then checkOverflow now l else (0, False))"
    using tidied(4) [OF assms(1), of now key] tidied(6) [OF assms(1), of now key] assms(2) cap
    by (auto simp: abuse_check_def Let_def checkOverflow_def split: option.split prod.split)
qed

lemma live_check:
  assumes ok: "limiter_ok l" and t: "now \<le> t"
  shows "live (snd (abuse_check now key l)) t k = live l t k"
proof (cases "key = []")
  case False
  have "live (snd (abuse_check now key l)) t k = live (tidied now key l) t k"
    using check_tidied(1) [OF ok False] by (intro live_cong) (simp_all add: lookup_entry_def)
  then show ?thesis using tidied(3) [OF ok t] by simp
qed (simp add: abuse_check_def)

section \<open>One client among many\<close>

datatype 'k client_op = Check 'k | Failure 'k

text \<open>A run of timed operations, and the private counter that only the client's own failures change.\<close>

fun perform :: "(int \<Rightarrow> 'k \<Rightarrow> 's \<Rightarrow> 's) \<Rightarrow> (int \<Rightarrow> 'k \<Rightarrow> 's \<Rightarrow> 's) \<Rightarrow> (int \<times> 'k client_op) list \<Rightarrow> 's \<Rightarrow> 's" where
  "perform failure chk [] s = s"
| "perform failure chk ((now, Check k) # ops) s = perform failure chk ops (chk now k s)"
| "perform failure chk ((now, Failure k) # ops) s = perform failure chk ops (failure now k s)"

fun own_counter :: "(int \<Rightarrow> 'e option \<Rightarrow> 'e) \<Rightarrow> (int \<Rightarrow> 'e \<Rightarrow> 'e option) \<Rightarrow> 'k \<Rightarrow>
    (int \<times> 'k client_op) list \<Rightarrow> 'e option \<Rightarrow> 'e option" where
  "own_counter fl ag k [] e = e"
| "own_counter fl ag k ((now, Check k') # ops) e = own_counter fl ag k ops e"
| "own_counter fl ag k ((now, Failure k') # ops) e =
     own_counter fl ag k ops (if k' = k then Some (fl now (Option.bind e (ag now))) else e)"

text \<open>
  The contract of a limiter shared by clients, seen from one of them: what it has on record for a
  client (\<open>entry\<close>, at a time), how a failure changes a record (\<open>fail\<close>) and how a record ages
  (\<open>age\<close>). Other clients' operations and checks change nothing; \<open>room\<close> is the number of clients
  that can still be added.
\<close>

locale shared_limiter =
  fixes ok :: "'s \<Rightarrow> bool" and room :: "'s \<Rightarrow> int" and client :: "'k \<Rightarrow> bool"
    and entry :: "'s \<Rightarrow> int \<Rightarrow> 'k \<Rightarrow> 'e option"
    and record_failure :: "int \<Rightarrow> 'k \<Rightarrow> 's \<Rightarrow> 's" and do_check :: "int \<Rightarrow> 'k \<Rightarrow> 's \<Rightarrow> 's"
    and fail :: "int \<Rightarrow> 'e option \<Rightarrow> 'e" and age :: "int \<Rightarrow> 'e \<Rightarrow> 'e option"
  assumes failure_ok: "ok s \<Longrightarrow> ok (record_failure now k s)"
    and check_ok: "ok s \<Longrightarrow> ok (do_check now k s)"
    and failure_room: "ok s \<Longrightarrow> room s - 1 \<le> room (record_failure now k s)"
    and check_room: "ok s \<Longrightarrow> room s \<le> room (do_check now k s)"
    and failure_other: "ok s \<Longrightarrow> now \<le> t \<Longrightarrow> k' \<noteq> k \<Longrightarrow> entry (record_failure now k' s) t k = entry s t k"
    and check_unseen: "ok s \<Longrightarrow> now \<le> t \<Longrightarrow> entry (do_check now k' s) t k = entry s t k"
    and failure_own: "ok s \<Longrightarrow> now \<le> t \<Longrightarrow> client k \<Longrightarrow> 0 < room s \<Longrightarrow>
      entry (record_failure now k s) t k = age t (fail now (entry s now k))"
    and entry_ages: "ok s \<Longrightarrow> now \<le> t \<Longrightarrow> entry s t k = Option.bind (entry s now k) (age t)"
begin

lemma client_sees_private_counter:
  assumes "ok s" and "client k" and "int (length ops) \<le> room s" and "sorted (map fst ops)"
    and "\<forall>now \<in> fst ` set ops. t0 \<le> now \<and> now \<le> t" and "t0 \<le> t"
    and "\<forall>u \<ge> t0. entry s u k = Option.bind e (age u)"
  shows "entry (perform record_failure do_check ops s) t k = Option.bind (own_counter fail age k ops e) (age t)"
  using assms
proof (induction ops arbitrary: s e t0)
  case Nil
  then show ?case by simp
next
  case (Cons x ops)
  obtain now k' where x: "x = (now, Check k') \<or> x = (now, Failure k')" by (cases x; cases "snd x") auto
  have now: "t0 \<le> now" "now \<le> t" "int (length ops) + 1 \<le> room s" "sorted (map fst ops)"
    "\<forall>u \<in> fst ` set ops. now \<le> u \<and> u \<le> t"
    using Cons.prems(3-5) x by auto
  show ?case
  proof (cases "x = (now, Check k')")
    case True
    have "\<forall>u \<ge> now. entry (do_check now k' s) u k = Option.bind e (age u)"
      using Cons.prems(1,7) now(1) by (simp add: check_unseen)
    then show ?thesis
      using Cons.IH [of "do_check now k' s" now e] Cons.prems(1,2) check_ok check_room [of s now k'] now True
      by simp
  next
    case False
    let ?e = "if k' = k then Some (fail now (Option.bind e (age now))) else e"
    have "\<forall>u \<ge> now. entry (record_failure now k' s) u k = Option.bind ?e (age u)"
      using Cons.prems(1,2,7) now(1,3) by (simp add: failure_other failure_own)
    then show ?thesis
      using Cons.IH [of "record_failure now k' s" now ?e] Cons.prems(1,2) failure_ok failure_room [of s now k'] now x False
      by simp
  qed
qed

end

lemma count_and_store_tracked [simp]: "al_tracked (count_and_store now key e l) = al_tracked l"
  by (simp add: count_and_store_def store_entry_def on_shard_def split_beta Let_def)

lemma recordOverflow_tracked [simp]: "al_tracked (recordOverflow now l) = al_tracked l"
  by (simp add: recordOverflow_def Let_def)

lemma record_params: "limiter_ok l \<Longrightarrow> same_params (abuse_record now key l) l"
  and record_tracked: "limiter_ok l \<Longrightarrow> al_tracked (abuse_record now key l) \<le> al_tracked l + 1"
proof -
  assume ok: "limiter_ok l"
  let ?l = "l\<lparr>al_recorded := al_recorded l + 1\<rparr>"
  have ok0: "limiter_ok ?l" by (rule limiter_ok_cong [OF ok]) simp_all
  have p: "same_params (tidied now key ?l) l"
    by (rule same_params_trans [OF tidied(2) [OF ok0] params_kept(5)])
  have q: "same_params (count_and_store now key e (u\<lparr>al_tracked := n\<rparr>)) u"
    "same_params (count_and_store now key e u) u" "same_params (recordOverflow now u) u" for e n u
    using params_kept same_params_trans by blast+
  show "same_params (abuse_record now key l) l"
  proof (cases "key = []")
    case False
    then show ?thesis
      by (auto simp: abuse_record_tidied [OF ok] intro: same_params_trans [OF _ p] q split: option.split)
  qed (simp add: abuse_record_def same_params_def)
  show "al_tracked (abuse_record now key l) \<le> al_tracked l + 1"
  proof (cases "key = []")
    case False
    then show ?thesis
      using tidied(5) [OF ok0, of now key] by (auto simp: abuse_record_tidied [OF ok] split: option.split)
  qed (simp add: abuse_record_def)
qed

lemma check_params: "limiter_ok l \<Longrightarrow> same_params (snd (abuse_check now key l)) l"
  and check_tracked: "limiter_ok l \<Longrightarrow> al_tracked (snd (abuse_check now key l)) \<le> al_tracked l"
proof -
  assume ok: "limiter_ok l"
  show "same_params (snd (abuse_check now key l)) l"
    using check_tidied(1) [OF ok] tidied(2) [OF ok] same_params_trans
    by (cases "key = []") (auto simp: abuse_check_def same_params_def)
  show "al_tracked (snd (abuse_check now key l)) \<le> al_tracked l"
    using check_tidied(1) [OF ok] tidied(5) [OF ok] by (cases "key = []") (auto simp: abuse_check_def)
qed

interpretation abuse: shared_limiter "\<lambda>l. limiter_ok l \<and> same_params l l0" "\<lambda>l. al_capacity l - al_tracked l"
    "\<lambda>key. key \<noteq> []" live abuse_record "\<lambda>now key l. snd (abuse_check now key l)" "client_failure l0" "visible l0"
    for l0
proof (unfold_locales, goal_cases)
  case (1 s now k)
  then show ?case using limiter_ok_record record_params same_params_trans by blast
next
  case (2 s now k)
  then show ?case using limiter_ok_check check_params same_params_trans by blast
next
  case (3 s now k)
  then show ?case using record_params [of s now k] record_tracked [of s now k] by (simp add: same_params_def)
next
  case (4 s now k)
  then show ?case using check_params [of s now k] check_tracked [of s now k] by (simp add: same_params_def)
next
  case (5 s now t k' k)
  then show ?case using live_record(1) by (cases "k' = []") (auto simp: abuse_record_def)
next
  case (6 s now t k' k)
  then show ?case using live_check by simp
next
  case (7 s now t k)
  then show ?case using live_record(2) [of s now t k] same_params_cong [of s l0] by simp
next
  case (8 s now t k)
  then show ?case using live_later [of now t s k] same_params_cong(2) [of s l0] by simp
qed

abbreviation abuse_run :: "(int \<times> go_string client_op) list \<Rightarrow> invalidAuthAbuseLimiter \<Rightarrow> invalidAuthAbuseLimiter" where
  "abuse_run \<equiv> perform abuse_record (\<lambda>now key l. snd (abuse_check now key l))"

section \<open>The private counter\<close>

definition fail_times :: "'k \<Rightarrow> (int \<times> 'k client_op) list \<Rightarrow> int list" where
  "fail_times k ops = map fst (filter (\<lambda>x. snd x = Failure k) ops)"

definition fail_fold :: "invalidAuthAbuseLimiter \<Rightarrow> int list \<Rightarrow> invalidAuthAbuseEntry option" where
  "fail_fold l = foldl (\<lambda>e now. Some (client_failure l now (Option.bind e (visible l now)))) None"

lemma own_counter_fold:
  "own_counter fl ag k ops e = foldl (\<lambda>e now. Some (fl now (Option.bind e (ag now)))) e (fail_times k ops)"
  by (induction fl ag k ops e rule: own_counter.induct) (simp_all add: fail_times_def)











section \<open>What a client meets\<close>

text \<open>A run of operations at the times they are given, from a state that has room for all of them.\<close>

definition quiet_start :: "go_string \<Rightarrow> int \<Rightarrow> (int \<times> go_string client_op) list \<Rightarrow> int \<Rightarrow>
    invalidAuthAbuseLimiter \<Rightarrow> bool" where
  "quiet_start k t0 ops t l \<longleftrightarrow> limiter_ok l \<and> k \<noteq> [] \<and> live l t0 k = None \<and> t0 \<le> t \<and>
     sorted (map fst ops) \<and> (\<forall>now \<in> fst ` set ops. t0 \<le> now \<and> now \<le> t) \<and>
     al_tracked l + int (length ops) < al_capacity l"

lemma quiet_start_live:
  assumes "quiet_start k t0 ops t l"
  shows "live (abuse_run ops l) t k = Option.bind (fail_fold l (fail_times k ops)) (visible l t)"
proof -
  have q: "limiter_ok l \<and> same_params l l" "k \<noteq> []" "int (length ops) \<le> al_capacity l - al_tracked l"
    "sorted (map fst ops)" "\<forall>now \<in> fst ` set ops. t0 \<le> now \<and> now \<le> t" "t0 \<le> t"
    using assms by (auto simp: quiet_start_def same_params_def)
  have "\<forall>u \<ge> t0. live l u k = Option.bind None (visible l u)"
    using assms live_later [of t0 _ l k] by (auto simp: quiet_start_def)
  from abuse.client_sees_private_counter [OF q this] show ?thesis
    by (simp add: own_counter_fold fail_fold_def)
qed

lemma abuse_run_ok:
  assumes "limiter_ok l"
  shows "limiter_ok (abuse_run ops l) \<and> same_params (abuse_run ops l) l \<and>
    al_tracked (abuse_run ops l) \<le> al_tracked l + int (length ops)"
  using assms
proof (induction "abuse_record" "\<lambda>now key l. snd (abuse_check now key l)" ops l rule: perform.induct)
  case (1 l)
  then show ?case by (simp add: same_params_def)
next
  case (2 now k ops l)
  then show ?case
    using limiter_ok_check check_params [OF 2(2), of now k] check_tracked [OF 2(2), of now k]
    by (fastforce simp: same_params_def)
next
  case (3 now k ops l)
  then show ?case
    using limiter_ok_record record_params [OF 3(2), of now k] record_tracked [OF 3(2), of now k]
    by (fastforce simp: same_params_def)
qed

text \<open>With room left a check answers from the client's own entry.\<close>

lemma quiet_check:
  assumes "quiet_start k t0 ops t l"
  shows "fst (abuse_check t k (abuse_run ops l)) =
    (case Option.bind (fail_fold l (fail_times k ops)) (visible l t) of
       Some e \<Rightarrow> (case ab_blockedUntil e of Some u \<Rightarrow> if t < u then (u - t, True) else (0, False) | None \<Rightarrow> (0, False))
     | None \<Rightarrow> (0, False))"
proof -
  have r: "limiter_ok (abuse_run ops l)" "same_params (abuse_run ops l) l"
    "al_tracked (abuse_run ops l) \<le> al_tracked l + int (length ops)"
    using abuse_run_ok [of l ops] assms by (auto simp: quiet_start_def)
  have "al_tracked (tidied t k (abuse_run ops l)) < al_capacity (abuse_run ops l)"
    using tidied(5) [OF r(1), of t k] r(2,3) assms by (simp add: quiet_start_def same_params_def)
  then show ?thesis
    using check_tidied(2) [OF r(1), of k t] quiet_start_live [OF assms] assms
    by (simp add: quiet_start_def split: option.split)
qed

text \<open>
  C38. Among any traffic of other clients, the limiter treats a client like a private counter of the
  client's own failures, as long as the table has room: same verdict, same time to wait.
\<close>

theorem client_is_isolated:
  assumes "quiet_start k t0 ops t l" and "quiet_start k t0 ops' t l" and "fail_times k ops = fail_times k ops'"
  shows "fst (abuse_check t k (abuse_run ops l)) = fst (abuse_check t k (abuse_run ops' l))"
  using quiet_check [OF assms(1)] quiet_check [OF assms(2)] assms(3) by simp



section \<open>Witnesses\<close>

definition sample_ops :: "(int \<times> go_string client_op) list" where
  "sample_ops = [(1, Failure ''a''), (2, Failure ''b''), (3, Check ''a''), (4, Failure ''a'')]"

lemma sample_params:
  "al_threshold sample_limiter = 2" "al_window sample_limiter = 10000000000"
  "al_block sample_limiter = 30000000000" "al_capacity sample_limiter = 100" "al_tracked sample_limiter = 0"
  by (simp_all add: sample_limiter_def newInvalidAuthAbuseLimiter_def sample_abuse_config_def wrap64_def)

lemma sample_quiet:
  "ops = sample_ops \<or> ops = [(1, Failure ''a''), (4, Failure ''a'')] \<Longrightarrow> quiet_start ''a'' 0 ops 5 sample_limiter"
proof -
  have "limiter_ok sample_limiter" by (rule new_limiter_ok [OF sample_limiter_new]) (simp add: sample_abuse_config_def)
  moreover have "live sample_limiter 0 ''a'' = None"
    by (simp add: live_def lookup_entry_def sample_limiter_def newInvalidAuthAbuseLimiter_def sample_abuse_config_def
        invalidAuthAbuseShardCount_def nth_replicate)
  ultimately show "quiet_start ''a'' 0 ops 5 sample_limiter"
    if "ops = sample_ops \<or> ops = [(1, Failure ''a''), (4, Failure ''a'')]"
    using that by (auto simp: quiet_start_def sample_params sample_ops_def)
qed

lemma sample_fail_times: "fail_times ''a'' sample_ops = [1, 4]" "fail_times ''a'' [(1, Failure ''a''), (4, Failure ''a'')] = [1, 4]"
  by (simp_all add: fail_times_def sample_ops_def)

theorem client_is_isolated_witness:
  "fst (abuse_check 5 ''a'' (abuse_run sample_ops sample_limiter)) =
   fst (abuse_check 5 ''a'' (abuse_run [(1, Failure ''a''), (4, Failure ''a'')] sample_limiter))"
  by (rule client_is_isolated [OF sample_quiet sample_quiet]) (simp_all add: sample_fail_times)




end
