(* ===== verification/Chat_Content.thy ===== *)
theory Chat_Content
  imports Go_Json Api_Types
begin

text \<open>
  The content of a Chat Completions message as text (\<^verbatim>\<open>chatMessageContentText\<close> of
  \<^verbatim>\<open>chatcompletions_responses_bridge.go\<close>) and what it uses of \<^verbatim>\<open>encoding/json\<close>: decoding into a
  string, and into a slice of content parts. Decoding stops at nothing but a syntax error; a value of
  the wrong kind is remembered and makes \<^verbatim>\<open>json.Unmarshal\<close> fail at the end, so only whether one
  occurred is kept.
\<close>

section \<open>Decoding a string\<close>

text \<open>\<^verbatim>\<open>null\<close> leaves the string as it was.\<close>

definition decode_string :: "raw_json \<Rightarrow> go_string \<Rightarrow> go_string option" where
  "decode_string raw old =
     (if first_nonspace raw = Some (CHR 0x22) then Some (json_unquote (go_trim_space raw))
      else if first_nonspace raw = Some (CHR ''n'') then Some old
      else None)"

definition unmarshal_string :: "raw_json \<Rightarrow> go_string option" where
  "unmarshal_string raw = (if json_Valid raw then decode_string raw [] else None)"

section \<open>Decoding a slice\<close>

text \<open>The elements of an array, as \<open>split_object\<close> finds the members of an object.\<close>

record arr_split =
  sl_scan :: scanner
  sl_val :: raw_json \<comment> \<open>reversed\<close>
  sl_items :: "raw_json list" \<comment> \<open>reversed\<close>

definition arr_step :: "arr_split \<Rightarrow> char \<Rightarrow> arr_split" where
  "arr_step a c =
     (let sc = sl_scan a; (v, sc') = scan_step sc c; a' = a\<lparr>sl_scan := sc'\<rparr> in
      if sc_parseState sc = [] then a'
      else if length (sc_parseState sc) = 1 \<and> v = ScanSkipSpace then a'
      else if length (sc_parseState sc) = 1 \<and> (v = ScanArrayValue \<or> v = ScanEndArray) then
        (if sl_val a = [] then a' else a'\<lparr>sl_val := [], sl_items := rev (sl_val a) # sl_items a\<rparr>)
      else a'\<lparr>sl_val := c # sl_val a\<rparr>)"

definition split_array :: "raw_json \<Rightarrow> raw_json list" where
  "split_array s =
     rev (sl_items (foldl arr_step \<lparr>sl_scan = scan_reset, sl_val = [], sl_items = []\<rparr> s))"

section \<open>Content parts\<close>

record ChatImageURL =
  ciu_URL :: go_string
  ciu_Detail :: go_string

record ChatContentPart =
  ccp_Type :: go_string
  ccp_Text :: go_string
  ccp_ImageURL :: "ChatImageURL option"

definition ChatImageURL_zero :: ChatImageURL where
  "ChatImageURL_zero = \<lparr>ciu_URL = [], ciu_Detail = []\<rparr>"

definition ChatContentPart_zero :: ChatContentPart where
  "ChatContentPart_zero = \<lparr>ccp_Type = [], ccp_Text = [], ccp_ImageURL = None\<rparr>"

text \<open>
  A member name matches a field up to the case of its letters. The names at hand have no letter k
  or s, the only ones that a rune outside ASCII folds to.
\<close>

definition ascii_lower_char :: "char \<Rightarrow> char" where
  "ascii_lower_char c = (if byte_in 65 90 c then char_of (of_char c + 32 :: nat) else c)"

definition field_match :: "go_string \<Rightarrow> go_string \<Rightarrow> bool" where
  "field_match key field \<longleftrightarrow> map ascii_lower_char key = field"

text \<open>A decoded value with whether every value so far had the right kind.\<close>

definition set_string :: "(go_string \<Rightarrow> 'a) \<Rightarrow> go_string \<Rightarrow> raw_json \<Rightarrow> 'a \<Rightarrow> 'a \<times> bool" where
  "set_string upd old raw x =
     (case decode_string raw old of None \<Rightarrow> (x, False) | Some s \<Rightarrow> (upd s, True))"

definition decode_image_field :: "ChatImageURL \<times> bool \<Rightarrow> go_string \<times> raw_json \<Rightarrow> ChatImageURL \<times> bool" where
  "decode_image_field p kv =
     (let (x, ok) = p; (key, raw) = kv;
          (x', ok') =
            (if field_match key ''url'' then set_string (\<lambda>s. x\<lparr>ciu_URL := s\<rparr>) (ciu_URL x) raw x
             else if field_match key ''detail'' then set_string (\<lambda>s. x\<lparr>ciu_Detail := s\<rparr>) (ciu_Detail x) raw x
             else (x, True))
      in (x', ok \<and> ok'))"

definition decode_image :: "raw_json \<Rightarrow> ChatImageURL option \<Rightarrow> ChatImageURL option \<times> bool" where
  "decode_image raw old =
     (if first_nonspace raw = Some (CHR ''n'') then (None, True)
      else
        let x = (case old of None \<Rightarrow> ChatImageURL_zero | Some x \<Rightarrow> x) in
        if first_nonspace raw = Some (CHR ''{'')
        then (let (x', ok) = foldl decode_image_field (x, True) (split_object raw) in (Some x', ok))
        else (Some x, False))"

definition decode_part_field ::
    "ChatContentPart \<times> bool \<Rightarrow> go_string \<times> raw_json \<Rightarrow> ChatContentPart \<times> bool" where
  "decode_part_field p kv =
     (let (x, ok) = p; (key, raw) = kv;
          (x', ok') =
            (if field_match key ''type'' then set_string (\<lambda>s. x\<lparr>ccp_Type := s\<rparr>) (ccp_Type x) raw x
             else if field_match key ''text'' then set_string (\<lambda>s. x\<lparr>ccp_Text := s\<rparr>) (ccp_Text x) raw x
             else if field_match key ''image_url'' then
               (let (i, ok) = decode_image raw (ccp_ImageURL x) in (x\<lparr>ccp_ImageURL := i\<rparr>, ok))
             else (x, True))
      in (x', ok \<and> ok'))"

definition decode_part :: "raw_json \<Rightarrow> ChatContentPart \<times> bool" where
  "decode_part raw =
     (if first_nonspace raw = Some (CHR ''{'')
      then foldl decode_part_field (ChatContentPart_zero, True) (split_object raw)
      else (ChatContentPart_zero, first_nonspace raw = Some (CHR ''n'')))"

definition unmarshal_parts :: "raw_json \<Rightarrow> ChatContentPart list option" where
  "unmarshal_parts raw =
     (if \<not> json_Valid raw then None
      else if first_nonspace raw = Some (CHR ''['') then
        let ps = map decode_part (split_array raw) in
        if list_all snd ps then Some (map fst ps) else None
      else if first_nonspace raw = Some (CHR ''n'') then Some []
      else None)"

section \<open>Content as text\<close>

definition bytesTrimSpace :: "raw_json \<Rightarrow> raw_json" where
  "bytesTrimSpace raw = go_trim_space raw"

text \<open>\<^verbatim>\<open>strings.Join\<close>\<close>

fun go_join :: "go_string \<Rightarrow> go_string list \<Rightarrow> go_string" where
  "go_join sep [] = []"
| "go_join sep [x] = x"
| "go_join sep (x # y # ys) = x @ sep @ go_join sep (y # ys)"

definition chatMessageContentText :: "raw_json \<Rightarrow> go_string" where
  "chatMessageContentText raw =
     (let raw = bytesTrimSpace raw in
      if raw = [] \<or> raw = ''null'' then []
      else
        (case unmarshal_string raw of
           Some text \<Rightarrow> text
         | None \<Rightarrow>
             (case unmarshal_parts raw of
                Some parts \<Rightarrow>
                  go_join [CHR 0x0A, CHR 0x0A]
                    (map ccp_Text (filter (\<lambda>p. ccp_Type p = ''text'' \<and> ccp_Text p \<noteq> []) parts))
              | None \<Rightarrow> [])))"

section \<open>Arguments of custom tools\<close>

definition extractCustomToolCallInput :: "go_string \<Rightarrow> go_string" where
  "extractCustomToolCallInput arguments =
     (let trimmed = go_trim_space arguments in
      if trimmed = [] then []
      else
        (case unmarshal_raw_map trimmed of
           None \<Rightarrow> trimmed
         | Some obj \<Rightarrow>
             (case map_of obj ''input'' of
                Some raw \<Rightarrow>
                  (case unmarshal_string raw of Some s \<Rightarrow> s | None \<Rightarrow> trimmed)
              | None \<Rightarrow> if obj = [] then [] else trimmed)))"

definition toolSearchCallArgumentsJSON :: "go_string \<Rightarrow> raw_json" where
  "toolSearchCallArgumentsJSON arguments =
     (let trimmed = go_trim_space arguments in
      if trimmed = [] then ''{}''
      else if json_Valid trimmed then trimmed
      else json_quote arguments)"

end
