(* ===== verification/Chat_To_Resp.thy ===== *)
theory Chat_To_Resp
  imports Chat_Content "HOL-Library.AList"
begin

text \<open>
  The response half of \<^verbatim>\<open>backend/internal/pkg/apicompat/chatcompletions_responses_bridge.go\<close>: Chat
  Completions responses and chunks converted into Responses objects and events. Go maps whose size
  the code reads are association lists with distinct keys; the others are HOL maps. Responses,
  chunks and states are not nil, except where the code gives a nil response a meaning of its own.
\<close>

section \<open>Usage\<close>

definition ChatUsageToResponsesUsage :: "ChatUsage option \<Rightarrow> ResponsesUsage option" where
  "ChatUsageToResponsesUsage usage =
     (case usage of
        None \<Rightarrow> None
      | Some u \<Rightarrow>
          let out = ResponsesUsage_zero\<lparr>ru_InputTokens := cu_PromptTokens u,
                      ru_OutputTokens := cu_CompletionTokens u, ru_TotalTokens := cu_TotalTokens u\<rparr>;
              out = (if ru_TotalTokens out = 0
                     then out\<lparr>ru_TotalTokens := wrap64 (ru_InputTokens out + ru_OutputTokens out)\<rparr> else out)
          in (case cu_PromptTokensDetails u of
                None \<Rightarrow> Some out
              | Some d \<Rightarrow>
                  if 0 < ctd_CachedTokens d \<or> 0 < ctd_CacheCreationTokens d \<or> 0 < ctd_CacheWriteTokens d
                  then Some (out\<lparr>ru_InputTokensDetails :=
                           Some (ResponsesInputTokensDetails_zero\<lparr>ritd_CachedTokens := ctd_CachedTokens d,
                             ritd_CacheCreationTokens := ctd_CacheCreationTokens d,
                             ritd_CacheWriteTokens := ctd_CacheWriteTokens d\<rparr>),
                         ru_CacheCreationInputTokens :=
                           (if 0 < ctd_CacheWriteTokens d then ctd_CacheWriteTokens d
                            else ctd_CacheCreationTokens d)\<rparr>)
                  else Some out))"

section \<open>Items\<close>

record NamespacedToolName =
  nt_Namespace :: go_string
  nt_Name :: go_string

definition toolSearchProxyName :: go_string where
  "toolSearchProxyName = ''tool_search''"

definition output_text_of :: "go_string \<Rightarrow> ResponsesContentPart" where
  "output_text_of t = ResponsesContentPart_zero\<lparr>rcp_Type := ''output_text'', rcp_Text := t\<rparr>"

definition message_output :: "go_string \<Rightarrow> go_string \<Rightarrow> ResponsesOutput" where
  "message_output i text = ResponsesOutput_zero\<lparr>ro_Type := ''message'', ro_ID := i, ro_Role := ''assistant'',
     ro_Content := [output_text_of text], ro_Status := ''completed''\<rparr>"

definition summary_of :: "go_string \<Rightarrow> ResponsesSummary" where
  "summary_of t = \<lparr>rsu_Type = ''summary_text'', rsu_Text = t\<rparr>"

definition reasoning_output :: "go_string \<Rightarrow> go_string \<Rightarrow> ResponsesOutput" where
  "reasoning_output i t = ResponsesOutput_zero\<lparr>ro_Type := ''reasoning'', ro_ID := i, ro_Summary := [summary_of t]\<rparr>"

definition custom_call_output :: "go_string \<Rightarrow> go_string \<Rightarrow> go_string \<Rightarrow> go_string \<Rightarrow> ResponsesOutput" where
  "custom_call_output i callID name input = ResponsesOutput_zero\<lparr>ro_Type := ''custom_tool_call'', ro_ID := i,
     ro_CallID := callID, ro_Name := name, ro_Input := input, ro_Status := ''completed''\<rparr>"

definition tool_search_output :: "go_string \<Rightarrow> go_string \<Rightarrow> go_string \<Rightarrow> ResponsesOutput" where
  "tool_search_output i callID arguments = ResponsesOutput_zero\<lparr>ro_Type := ''tool_search_call'', ro_ID := i,
     ro_CallID := callID, ro_Arguments := arguments, ro_Status := ''completed''\<rparr>"

definition function_call_output ::
    "go_string \<Rightarrow> go_string \<Rightarrow> go_string \<Rightarrow> go_string \<Rightarrow> go_string \<Rightarrow> ResponsesOutput" where
  "function_call_output i callID name namespace arguments = ResponsesOutput_zero\<lparr>ro_Type := ''function_call'',
     ro_ID := i, ro_CallID := callID, ro_Name := name, ro_Namespace := namespace, ro_Arguments := arguments,
     ro_Status := ''completed''\<rparr>"

text \<open>Blank arguments become an empty object.\<close>

definition call_arguments :: "ChatToolCall \<Rightarrow> go_string" where
  "call_arguments toolCall =
     (let arguments = cfc_Arguments (ctc_Function toolCall) in
      if go_trim_space arguments = [] then ''{}'' else arguments)"

section \<open>Whole responses\<close>

definition emptyResponsesMessageOutput :: "rand_source \<Rightarrow> ResponsesOutput \<times> rand_source" where
  "emptyResponsesMessageOutput r = (let (i, r) = generateItemID r in (message_output i [], r))"

definition toolCallToResponsesOutput :: "(go_string \<times> bool) list \<Rightarrow> bool \<Rightarrow>
    (go_string \<times> NamespacedToolName) list \<Rightarrow> ChatToolCall \<Rightarrow> rand_source \<Rightarrow> ResponsesOutput list \<times> rand_source" where
  "toolCallToResponsesOutput customTools toolSearch namespaceTools toolCall r =
     (let arguments = call_arguments toolCall; name = cfc_Name (ctc_Function toolCall);
          (i, r) = generateItemID r
      in if go_get False (map_of customTools name) then
           ([custom_call_output i (ctc_ID toolCall) name (extractCustomToolCallInput arguments)], r)
         else if toolSearch \<and> name = toolSearchProxyName then
           ([tool_search_output i (ctc_ID toolCall) arguments], r)
         else
           (case map_of namespaceTools name of
              Some ns \<Rightarrow>
                ([function_call_output i (ctc_ID toolCall) (nt_Name ns) (nt_Namespace ns) arguments], r)
            | None \<Rightarrow> ([function_call_output i (ctc_ID toolCall) name [] arguments], r)))"

text \<open>The text of a message, or its reasoning when there is neither text nor a call.\<close>

definition shownText :: "ChatMessage \<Rightarrow> go_string" where
  "shownText message =
     (let text = chatMessageContentText (cm_Content message) in
      if text = [] \<and> go_trim_space (cm_ReasoningContent message) \<noteq> [] \<and> cm_ToolCalls message = []
      then cm_ReasoningContent message else text)"

definition chatMessageToResponsesOutput :: "ChatMessage \<Rightarrow> (go_string \<times> bool) list \<Rightarrow> bool \<Rightarrow>
    (go_string \<times> NamespacedToolName) list \<Rightarrow> rand_source \<Rightarrow> ResponsesOutput list \<times> rand_source" where
  "chatMessageToResponsesOutput message customTools toolSearch namespaceTools =
     then_emit
       (\<lambda>r. if cm_ReasoningContent message \<noteq> []
            then (let (i, r) = generateItemID r in ([reasoning_output i (cm_ReasoningContent message)], r))
            else ([], r))
       (then_emit
         (\<lambda>r. let text = shownText message in
              if text \<noteq> [] \<or> cm_ToolCalls message = []
              then (let (i, r) = generateItemID r in ([message_output i text], r))
              else ([], r))
         (run_conv (toolCallToResponsesOutput customTools toolSearch namespaceTools) (cm_ToolCalls message)))"

definition response_id :: "go_string \<Rightarrow> rand_source \<Rightarrow> go_string \<times> rand_source" where
  "response_id i r = (if i = [] then generateResponsesID r else (i, r))"

definition ChatCompletionsResponseToResponses :: "ChatCompletionsResponse option \<Rightarrow> go_string \<Rightarrow>
    (go_string \<times> bool) list \<Rightarrow> bool \<Rightarrow> (go_string \<times> NamespacedToolName) list \<Rightarrow> rand_source \<Rightarrow>
    ResponsesResponse \<times> rand_source" where
  "ChatCompletionsResponseToResponses resp model customTools toolSearch namespaceTools r =
     (let (i, r) = response_id (case resp of None \<Rightarrow> [] | Some p \<Rightarrow> ccr_ID p) r;
          out = ResponsesResponse_zero\<lparr>rr_ID := i, rr_Object := ''response'', rr_Model := model,
                  rr_Status := ''completed''\<rparr>
      in case resp of
           None \<Rightarrow> (let (m, r) = emptyResponsesMessageOutput r in (out\<lparr>rr_Output := [m]\<rparr>, r))
         | Some p \<Rightarrow>
             let out = (if rr_Model out = [] then out\<lparr>rr_Model := ccr_Model p\<rparr> else out);
                 (out, r) =
                   (case ccr_Choices p of
                      [] \<Rightarrow> (out, r)
                    | choice # _ \<Rightarrow>
                        let (output, r) = chatMessageToResponsesOutput (cc_Message choice) customTools
                              toolSearch namespaceTools r;
                            out = out\<lparr>rr_Output := output\<rparr>
                        in (if cc_FinishReason choice = ''length''
                            then out\<lparr>rr_Status := ''incomplete'',
                                   rr_IncompleteDetails := Some \<lparr>rid_Reason = ''max_output_tokens''\<rparr>\<rparr>
                            else out, r));
                 (out, r) =
                   (if rr_Output out = []
                    then (let (m, r) = emptyResponsesMessageOutput r in (out\<lparr>rr_Output := [m]\<rparr>, r))
                    else (out, r))
             in (if ccr_Usage p \<noteq> None
                 then out\<lparr>rr_Usage := ChatUsageToResponsesUsage (ccr_Usage p)\<rparr> else out, r))"

section \<open>Stream state\<close>

record ChatCompletionsToResponsesStreamState =
  cb_ResponseID :: go_string
  cb_Model :: go_string
  cb_Created :: int
  cb_SequenceNumber :: int
  cb_CreatedSent :: bool
  cb_CompletedSent :: bool
  cb_nextOutputIndex :: int
  cb_ReasoningItemID :: go_string
  cb_ReasoningIndex :: int
  cb_ReasoningOpen :: bool
  cb_ReasoningDone :: bool
  cb_MessageItemID :: go_string
  cb_MessageIndex :: int
  cb_TextPartOpen :: bool
  cb_Text :: go_string
  cb_Reasoning :: go_string
  cb_ToolCalls :: "(int \<times> ChatToolCall) list"
  cb_ToolItemIDs :: "int \<rightharpoonup> go_string"
  cb_ToolOutputIndex :: "int \<rightharpoonup> int"
  cb_CustomTools :: "(go_string \<times> bool) list"
  cb_ToolSearchDeclared :: bool
  cb_NamespaceTools :: "(go_string \<times> NamespacedToolName) list"
  cb_toolIsCustom :: "int \<rightharpoonup> bool"
  cb_toolIsToolSearch :: "int \<rightharpoonup> bool"
  cb_toolNamespace :: "int \<rightharpoonup> NamespacedToolName"
  cb_toolAnnounced :: "int \<rightharpoonup> bool"
  cb_FinishReason :: go_string
  cb_Usage :: "ResponsesUsage option"
  cb_Rand :: rand_source

type_synonym cb_emitter = "(ChatCompletionsToResponsesStreamState, ResponsesStreamEvent) emitter"

definition NewChatCompletionsToResponsesStreamState ::
    "go_string \<Rightarrow> int \<Rightarrow> rand_source \<Rightarrow> ChatCompletionsToResponsesStreamState" where
  "NewChatCompletionsToResponsesStreamState model now r =
     (let (i, r) = generateResponsesID r in
      \<lparr>cb_ResponseID = i, cb_Model = model, cb_Created = now, cb_SequenceNumber = 0, cb_CreatedSent = False,
       cb_CompletedSent = False, cb_nextOutputIndex = 0, cb_ReasoningItemID = [], cb_ReasoningIndex = 0,
       cb_ReasoningOpen = False, cb_ReasoningDone = False, cb_MessageItemID = [], cb_MessageIndex = 0,
       cb_TextPartOpen = False, cb_Text = [], cb_Reasoning = [], cb_ToolCalls = [],
       cb_ToolItemIDs = Map.empty, cb_ToolOutputIndex = Map.empty, cb_CustomTools = [],
       cb_ToolSearchDeclared = False, cb_NamespaceTools = [], cb_toolIsCustom = Map.empty,
       cb_toolIsToolSearch = Map.empty, cb_toolNamespace = Map.empty, cb_toolAnnounced = Map.empty,
       cb_FinishReason = [], cb_Usage = None, cb_Rand = r\<rparr>)"

text \<open>The state the gateway starts a stream with.\<close>

definition chat_fallback_state :: "go_string \<Rightarrow> int \<Rightarrow> rand_source \<Rightarrow> (go_string \<times> bool) list \<Rightarrow> bool \<Rightarrow>
    (go_string \<times> NamespacedToolName) list \<Rightarrow> ChatCompletionsToResponsesStreamState" where
  "chat_fallback_state model now r customTools toolSearch namespaceTools =
     (NewChatCompletionsToResponsesStreamState model now r)
       \<lparr>cb_CustomTools := customTools, cb_ToolSearchDeclared := toolSearch, cb_NamespaceTools := namespaceTools\<rparr>"

definition allocOutputIndex :: "ChatCompletionsToResponsesStreamState \<Rightarrow>
    int \<times> ChatCompletionsToResponsesStreamState" where
  "allocOutputIndex st = (cb_nextOutputIndex st, st\<lparr>cb_nextOutputIndex := cb_nextOutputIndex st + 1\<rparr>)"

definition stateItemID :: "ChatCompletionsToResponsesStreamState \<Rightarrow>
    go_string \<times> ChatCompletionsToResponsesStreamState" where
  "stateItemID st = (let (i, r) = generateItemID (cb_Rand st) in (i, st\<lparr>cb_Rand := r\<rparr>))"

definition chatToResponsesEvent :: "go_string \<Rightarrow> ResponsesStreamEvent \<Rightarrow> cb_emitter" where
  "chatToResponsesEvent eventType template st =
     (let seqno = cb_SequenceNumber st in
      ([template\<lparr>re_Type := eventType, re_SequenceNumber := seqno\<rparr>], st\<lparr>cb_SequenceNumber := seqno + 1\<rparr>))"

section \<open>Opening and closing items\<close>

definition ensureChatToResponsesCreated :: cb_emitter where
  "ensureChatToResponsesCreated st =
     (if cb_CreatedSent st then ([], st)
      else
        let st = st\<lparr>cb_CreatedSent := True\<rparr> in
        chatToResponsesEvent ''response.created''
          (ResponsesStreamEvent_zero\<lparr>re_Response := Some (ResponsesResponse_zero\<lparr>rr_ID := cb_ResponseID st,
             rr_Object := ''response'', rr_Model := cb_Model st, rr_Status := ''in_progress'', rr_Output := []\<rparr>)\<rparr>) st)"

text \<open>The events of an item of the state name it and its output index.\<close>

definition reasoning_event :: "ChatCompletionsToResponsesStreamState \<Rightarrow> ResponsesStreamEvent" where
  "reasoning_event st = ResponsesStreamEvent_zero\<lparr>re_OutputIndex := cb_ReasoningIndex st, re_SummaryIndex := 0,
     re_ItemID := cb_ReasoningItemID st\<rparr>"

definition message_event :: "ChatCompletionsToResponsesStreamState \<Rightarrow> ResponsesStreamEvent" where
  "message_event st = ResponsesStreamEvent_zero\<lparr>re_OutputIndex := cb_MessageIndex st, re_ContentIndex := 0,
     re_ItemID := cb_MessageItemID st\<rparr>"

definition item_event :: "int \<Rightarrow> ResponsesOutput \<Rightarrow> ResponsesStreamEvent" where
  "item_event idx item = ResponsesStreamEvent_zero\<lparr>re_OutputIndex := idx, re_Item := Some item\<rparr>"

definition ensureChatReasoningItem :: cb_emitter where
  "ensureChatReasoningItem st =
     (if cb_ReasoningOpen st \<or> cb_ReasoningDone st then ([], st)
      else
        let st = st\<lparr>cb_ReasoningOpen := True\<rparr>;
            (i, st) = stateItemID st; st = st\<lparr>cb_ReasoningItemID := i\<rparr>;
            (k, st) = allocOutputIndex st; st = st\<lparr>cb_ReasoningIndex := k\<rparr>
        in then_emit
             (chatToResponsesEvent ''response.output_item.added'' (item_event (cb_ReasoningIndex st)
                (ResponsesOutput_zero\<lparr>ro_Type := ''reasoning'', ro_ID := cb_ReasoningItemID st,
                   ro_Status := ''in_progress''\<rparr>)))
             (chatToResponsesEvent ''response.reasoning_summary_part.added''
                ((reasoning_event st)\<lparr>re_Part := Some (ResponsesContentPart_zero\<lparr>rcp_Type := ''summary_text''\<rparr>)\<rparr>)) st)"

definition closeChatReasoningItem :: cb_emitter where
  "closeChatReasoningItem st =
     (if \<not> cb_ReasoningOpen st then ([], st)
      else
        let st = st\<lparr>cb_ReasoningOpen := False, cb_ReasoningDone := True\<rparr>; reasoning = cb_Reasoning st in
        then_emit
          (chatToResponsesEvent ''response.reasoning_summary_text.done''
             ((reasoning_event st)\<lparr>re_Text := reasoning\<rparr>))
          (then_emit
            (chatToResponsesEvent ''response.reasoning_summary_part.done''
               ((reasoning_event st)\<lparr>re_Part :=
                  Some (ResponsesContentPart_zero\<lparr>rcp_Type := ''summary_text'', rcp_Text := reasoning\<rparr>)\<rparr>))
            (chatToResponsesEvent ''response.output_item.done'' (item_event (cb_ReasoningIndex st)
               ((reasoning_output (cb_ReasoningItemID st) reasoning)\<lparr>ro_Status := ''completed''\<rparr>)))) st)"

definition ensureChatToResponsesMessageItem :: cb_emitter where
  "ensureChatToResponsesMessageItem st =
     (if cb_MessageItemID st \<noteq> [] then ([], st)
      else
        let (i, st) = stateItemID st; st = st\<lparr>cb_MessageItemID := i\<rparr>;
            (k, st) = allocOutputIndex st; st = st\<lparr>cb_MessageIndex := k\<rparr>
        in chatToResponsesEvent ''response.output_item.added'' (item_event (cb_MessageIndex st)
             ((message_output (cb_MessageItemID st) [])\<lparr>ro_Status := ''in_progress''\<rparr>)) st)"

definition ensureChatToResponsesTextPart :: cb_emitter where
  "ensureChatToResponsesTextPart st =
     (if cb_TextPartOpen st then ([], st)
      else
        let st = st\<lparr>cb_TextPartOpen := True\<rparr> in
        chatToResponsesEvent ''response.content_part.added''
          ((message_event st)\<lparr>re_Part := Some (output_text_of [])\<rparr>) st)"

text \<open>\<^verbatim>\<open>state.Text.WriteString(text)\<close> and the delta event.\<close>

definition write_text :: "go_string \<Rightarrow> cb_emitter" where
  "write_text text st =
     (let st = st\<lparr>cb_Text := cb_Text st @ text\<rparr> in
      chatToResponsesEvent ''response.output_text.delta'' ((message_event st)\<lparr>re_Delta := text\<rparr>) st)"

definition synthesizeChatReasoningFallbackMessage :: cb_emitter where
  "synthesizeChatReasoningFallbackMessage st =
     (if cb_MessageItemID st \<noteq> [] \<or> cb_Text st \<noteq> [] \<or> cb_Reasoning st = [] \<or> cb_ToolCalls st \<noteq> [] then ([], st)
      else
        let text = cb_Reasoning st in
        if go_trim_space text = [] then ([], st)
        else then_emit ensureChatToResponsesMessageItem
               (then_emit ensureChatToResponsesTextPart (write_text text)) st)"

section \<open>Tool calls\<close>

definition stored_call :: "ChatCompletionsToResponsesStreamState \<Rightarrow> int \<Rightarrow> ChatToolCall option" where
  "stored_call st idx = map_of (cb_ToolCalls st) idx"

definition tool_event :: "ChatCompletionsToResponsesStreamState \<Rightarrow> int \<Rightarrow> ResponsesStreamEvent" where
  "tool_event st idx = ResponsesStreamEvent_zero\<lparr>re_OutputIndex := go_get 0 (cb_ToolOutputIndex st idx),
     re_ItemID := go_get [] (cb_ToolItemIDs st idx)\<rparr>"

definition function_args_event :: "ChatCompletionsToResponsesStreamState \<Rightarrow> int \<Rightarrow> ChatToolCall \<Rightarrow> go_string \<Rightarrow>
    ResponsesStreamEvent" where
  "function_args_event st idx stored delta =
     (tool_event st idx)\<lparr>re_Delta := delta, re_CallID := ctc_ID stored, re_Name := cfc_Name (ctc_Function stored)\<rparr>"

text \<open>How a call of that name is announced: as a custom call, a tool search, or a function of a namespace.\<close>

definition is_custom_tool :: "ChatCompletionsToResponsesStreamState \<Rightarrow> go_string \<Rightarrow> bool" where
  "is_custom_tool st fname = go_get False (map_of (cb_CustomTools st) fname)"

definition is_tool_search :: "ChatCompletionsToResponsesStreamState \<Rightarrow> go_string \<Rightarrow> bool" where
  "is_tool_search st fname \<longleftrightarrow> \<not> is_custom_tool st fname \<and> cb_ToolSearchDeclared st \<and> fname = toolSearchProxyName"

definition is_function_tool :: "ChatCompletionsToResponsesStreamState \<Rightarrow> go_string \<Rightarrow> bool" where
  "is_function_tool st fname \<longleftrightarrow> \<not> is_custom_tool st fname \<and> \<not> is_tool_search st fname"

definition tool_item_type :: "ChatCompletionsToResponsesStreamState \<Rightarrow> go_string \<Rightarrow> go_string" where
  "tool_item_type st fname =
     (if is_tool_search st fname then ''tool_search_call''
      else if is_custom_tool st fname then ''custom_tool_call'' else ''function_call'')"

definition tool_namespace :: "ChatCompletionsToResponsesStreamState \<Rightarrow> go_string \<Rightarrow> NamespacedToolName option" where
  "tool_namespace st fname =
     (if is_function_tool st fname then map_of (cb_NamespaceTools st) fname else None)"

definition announced_state :: "int \<Rightarrow> go_string \<Rightarrow> ChatCompletionsToResponsesStreamState \<Rightarrow>
    ChatCompletionsToResponsesStreamState" where
  "announced_state idx fname st =
     st\<lparr>cb_toolAnnounced := (cb_toolAnnounced st)(idx \<mapsto> True),
        cb_toolIsCustom := (cb_toolIsCustom st)(idx \<mapsto> is_custom_tool st fname),
        cb_toolIsToolSearch := (cb_toolIsToolSearch st)(idx \<mapsto> is_tool_search st fname),
        cb_toolNamespace :=
          (case tool_namespace st fname of
             Some ns \<Rightarrow> (cb_toolNamespace st)(idx \<mapsto> ns)
           | None \<Rightarrow> cb_toolNamespace st)\<rparr>"

definition announced_item :: "int \<Rightarrow> ChatToolCall \<Rightarrow> ChatCompletionsToResponsesStreamState \<Rightarrow> ResponsesOutput" where
  "announced_item idx stored st =
     (let fname = cfc_Name (ctc_Function stored); ns = tool_namespace st fname in
      ResponsesOutput_zero\<lparr>ro_Type := tool_item_type st fname, ro_ID := go_get [] (cb_ToolItemIDs st idx),
        ro_CallID := ctc_ID stored, ro_Name := (case ns of Some n \<Rightarrow> nt_Name n | None \<Rightarrow> fname),
        ro_Namespace := (case ns of Some n \<Rightarrow> nt_Namespace n | None \<Rightarrow> []), ro_Status := ''in_progress''\<rparr>)"

text \<open>Nothing is announced twice, nor before the name that decides how.\<close>

definition announcement_waits :: "int \<Rightarrow> ChatToolCall \<Rightarrow> bool \<Rightarrow> ChatCompletionsToResponsesStreamState \<Rightarrow> bool" where
  "announcement_waits idx stored force st \<longleftrightarrow>
     go_get False (cb_toolAnnounced st idx) \<or>
     \<not> force \<and> cfc_Name (ctc_Function stored) = [] \<and>
       (cb_CustomTools st \<noteq> [] \<or> cb_ToolSearchDeclared st \<or> cb_NamespaceTools st \<noteq> [])"

definition announceChatToolItem :: "int \<Rightarrow> ChatToolCall \<Rightarrow> bool \<Rightarrow> cb_emitter" where
  "announceChatToolItem idx stored force st =
     (if announcement_waits idx stored force st then ([], st)
      else
        let fname = cfc_Name (ctc_Function stored); arguments = cfc_Arguments (ctc_Function stored) in
        then_emit
          (chatToResponsesEvent ''response.output_item.added''
             (item_event (go_get 0 (cb_ToolOutputIndex st idx)) (announced_item idx stored st)))
          (if is_function_tool st fname \<and> arguments \<noteq> []
           then chatToResponsesEvent ''response.function_call_arguments.delta''
                  (function_args_event st idx stored arguments)
           else no_emit)
          (announced_state idx fname st))"

definition put_call :: "int \<Rightarrow> ChatToolCall \<Rightarrow> ChatCompletionsToResponsesStreamState \<Rightarrow>
    ChatCompletionsToResponsesStreamState" where
  "put_call idx call st = st\<lparr>cb_ToolCalls := AList.update idx call (cb_ToolCalls st)\<rparr>"

text \<open>A call index that was not seen before.\<close>

definition storeNewCall :: "int \<Rightarrow> ChatToolCall \<Rightarrow> ChatCompletionsToResponsesStreamState \<Rightarrow>
    ChatCompletionsToResponsesStreamState" where
  "storeNewCall idx toolCall st =
     (let (i, st) = (if ctc_ID toolCall = [] then stateItemID st else (ctc_ID toolCall, st));
          copyCall = toolCall\<lparr>ctc_ID := i, ctc_Type := ''function'',
            ctc_Function := (ctc_Function toolCall)\<lparr>cfc_Arguments := []\<rparr>\<rparr>;
          st = put_call idx copyCall st;
          (itemID, st) = stateItemID st;
          st = st\<lparr>cb_ToolItemIDs := (cb_ToolItemIDs st)(idx \<mapsto> itemID)\<rparr>;
          (k, st) = allocOutputIndex st
      in st\<lparr>cb_ToolOutputIndex := (cb_ToolOutputIndex st)(idx \<mapsto> k)\<rparr>)"

definition registerChatToolCall :: "int \<Rightarrow> ChatToolCall \<Rightarrow> cb_emitter" where
  "registerChatToolCall idx toolCall =
     then_emit closeChatReasoningItem (\<lambda>st. ([], storeNewCall idx toolCall st))"

text \<open>Identifier and name of a known call may arrive late.\<close>

definition refreshChatToolCall :: "ChatToolCall \<Rightarrow> ChatToolCall \<Rightarrow> ChatToolCall" where
  "refreshChatToolCall toolCall stored =
     (let stored = (if ctc_ID toolCall \<noteq> [] then stored\<lparr>ctc_ID := ctc_ID toolCall\<rparr> else stored);
          name = cfc_Name (ctc_Function toolCall)
      in if name \<noteq> [] then stored\<lparr>ctc_Function := (ctc_Function stored)\<lparr>cfc_Name := name\<rparr>\<rparr> else stored)"

definition lookupChatToolCall :: "int \<Rightarrow> ChatToolCall \<Rightarrow> cb_emitter" where
  "lookupChatToolCall idx toolCall st =
     (case stored_call st idx of
        None \<Rightarrow> registerChatToolCall idx toolCall st
      | Some stored \<Rightarrow> ([], put_call idx (refreshChatToolCall toolCall stored) st))"

definition add_arguments :: "go_string \<Rightarrow> ChatToolCall \<Rightarrow> ChatToolCall" where
  "add_arguments args stored =
     stored\<lparr>ctc_Function := (ctc_Function stored)\<lparr>cfc_Arguments := cfc_Arguments (ctc_Function stored) @ args\<rparr>\<rparr>"

text \<open>
  \<^verbatim>\<open>stored\<close> points into \<^verbatim>\<open>state.ToolCalls\<close>, so each step reads it there again.
\<close>

definition appendChatToolArguments :: "int \<Rightarrow> go_string \<Rightarrow> cb_emitter" where
  "appendChatToolArguments idx args st =
     (if args = [] then ([], st)
      else
        (case stored_call st idx of
           None \<Rightarrow> ([], st)
         | Some stored \<Rightarrow>
             let stored = add_arguments args stored; st = put_call idx stored st in
             if go_get False (cb_toolAnnounced st idx) \<and> \<not> go_get False (cb_toolIsCustom st idx) \<and>
                \<not> go_get False (cb_toolIsToolSearch st idx)
             then chatToResponsesEvent ''response.function_call_arguments.delta''
                    (function_args_event st idx stored args) st
             else ([], st)))"

definition announceStoredCall :: "int \<Rightarrow> bool \<Rightarrow> cb_emitter" where
  "announceStoredCall idx force st =
     (case stored_call st idx of
        None \<Rightarrow> ([], st)
      | Some stored \<Rightarrow> announceChatToolItem idx stored force st)"

definition cb_tool_call :: "ChatToolCall \<Rightarrow> cb_emitter" where
  "cb_tool_call toolCall =
     (let idx = go_get 0 (ctc_Index toolCall) in
      then_emit (lookupChatToolCall idx toolCall)
        (then_emit (announceStoredCall idx False)
          (appendChatToolArguments idx (cfc_Arguments (ctc_Function toolCall)))))"

section \<open>Chunks\<close>

definition cb_reasoning :: "go_string option \<Rightarrow> cb_emitter" where
  "cb_reasoning rc =
     (case rc of
        None \<Rightarrow> no_emit
      | Some t \<Rightarrow>
          if t = [] then no_emit
          else then_emit ensureChatReasoningItem
            (\<lambda>st. let st = st\<lparr>cb_Reasoning := cb_Reasoning st @ t\<rparr> in
               chatToResponsesEvent ''response.reasoning_summary_text.delta''
                 ((reasoning_event st)\<lparr>re_Delta := t\<rparr>) st))"

definition cb_content :: "go_string option \<Rightarrow> cb_emitter" where
  "cb_content ct =
     (case ct of
        None \<Rightarrow> no_emit
      | Some t \<Rightarrow>
          if t = [] then no_emit
          else then_emit closeChatReasoningItem
            (then_emit ensureChatToResponsesMessageItem
              (then_emit ensureChatToResponsesTextPart (write_text t))))"

definition cb_finish :: "go_string option \<Rightarrow> cb_emitter" where
  "cb_finish fr st =
     (case fr of
        None \<Rightarrow> ([], st)
      | Some t \<Rightarrow> ([], if t \<noteq> [] then st\<lparr>cb_FinishReason := t\<rparr> else st))"

definition cb_choice :: "ChatChunkChoice \<Rightarrow> cb_emitter" where
  "cb_choice choice =
     then_emit (cb_reasoning (cd_ReasoningContent (ccc_Delta choice)))
       (then_emit (cb_content (cd_Content (ccc_Delta choice)))
         (then_emit (run_conv cb_tool_call (cd_ToolCalls (ccc_Delta choice)))
           (cb_finish (ccc_FinishReason choice))))"

definition cb_chunk_header :: "ChatCompletionsChunk \<Rightarrow> ChatCompletionsToResponsesStreamState \<Rightarrow>
    ChatCompletionsToResponsesStreamState" where
  "cb_chunk_header chunk st =
     (let st = (if chk_ID chunk \<noteq> [] then st\<lparr>cb_ResponseID := chk_ID chunk\<rparr> else st);
          st = (if cb_Model st = [] \<and> chk_Model chunk \<noteq> [] then st\<lparr>cb_Model := chk_Model chunk\<rparr> else st)
      in if chk_Usage chunk \<noteq> None then st\<lparr>cb_Usage := ChatUsageToResponsesUsage (chk_Usage chunk)\<rparr> else st)"

definition ChatCompletionsChunkToResponsesEvents :: "ChatCompletionsChunk \<Rightarrow> cb_emitter" where
  "ChatCompletionsChunkToResponsesEvents chunk st =
     then_emit ensureChatToResponsesCreated (run_conv cb_choice (chk_Choices chunk)) (cb_chunk_header chunk st)"

section \<open>The end of a stream\<close>

definition closeChatMessageItem :: cb_emitter where
  "closeChatMessageItem st =
     (if cb_MessageItemID st = [] then ([], st)
      else then_emit
        (if cb_TextPartOpen st
         then then_emit
           (chatToResponsesEvent ''response.output_text.done'' ((message_event st)\<lparr>re_Text := cb_Text st\<rparr>))
           (chatToResponsesEvent ''response.content_part.done''
             ((message_event st)\<lparr>re_Part := Some (output_text_of (cb_Text st))\<rparr>))
         else no_emit)
        (chatToResponsesEvent ''response.output_item.done''
          (item_event (cb_MessageIndex st) (message_output (cb_MessageItemID st) (cb_Text st)))) st)"

text \<open>The name and namespace of a call, as recorded when it was announced.\<close>

definition call_name :: "ChatCompletionsToResponsesStreamState \<Rightarrow> int \<Rightarrow> ChatToolCall \<Rightarrow> go_string \<times> go_string" where
  "call_name st i toolCall =
     (case cb_toolNamespace st i of
        Some ns \<Rightarrow> (nt_Name ns, nt_Namespace ns)
      | None \<Rightarrow> (cfc_Name (ctc_Function toolCall), []))"

definition closeAnnouncedCall :: "int \<Rightarrow> go_string \<Rightarrow> ChatToolCall \<Rightarrow> cb_emitter" where
  "closeAnnouncedCall i itemID toolCall st =
     (let arguments = call_arguments toolCall; outputIndex = go_get 0 (cb_ToolOutputIndex st i);
          evt = ResponsesStreamEvent_zero\<lparr>re_OutputIndex := outputIndex, re_ItemID := itemID\<rparr>
      in if go_get False (cb_toolIsCustom st i) then
           let input = extractCustomToolCallInput arguments in
           then_emit
             (if input \<noteq> [] then chatToResponsesEvent ''response.custom_tool_call_input.delta'' (evt\<lparr>re_Delta := input\<rparr>)
              else no_emit)
             (then_emit
               (chatToResponsesEvent ''response.custom_tool_call_input.done''
                  (evt\<lparr>re_CallID := ctc_ID toolCall, re_Name := cfc_Name (ctc_Function toolCall), re_Input := input\<rparr>))
               (chatToResponsesEvent ''response.output_item.done'' (item_event outputIndex
                  (custom_call_output itemID (ctc_ID toolCall) (cfc_Name (ctc_Function toolCall)) input)))) st
         else if go_get False (cb_toolIsToolSearch st i) then
           chatToResponsesEvent ''response.output_item.done''
             (item_event outputIndex (tool_search_output itemID (ctc_ID toolCall) arguments)) st
         else
           let (name, namespace) = call_name st i toolCall in
           then_emit
             (chatToResponsesEvent ''response.function_call_arguments.done''
                (evt\<lparr>re_CallID := ctc_ID toolCall, re_Name := name, re_Arguments := arguments\<rparr>))
             (chatToResponsesEvent ''response.output_item.done'' (item_event outputIndex
                (function_call_output itemID (ctc_ID toolCall) name namespace arguments))) st)"

definition closeChatToolItem :: "int \<Rightarrow> cb_emitter" where
  "closeChatToolItem i st =
     (case stored_call st i of
        None \<Rightarrow> ([], st)
      | Some toolCall \<Rightarrow>
          (case cb_ToolItemIDs st i of
             None \<Rightarrow> ([], st)
           | Some itemID \<Rightarrow>
               then_emit (announceChatToolItem i toolCall True) (closeAnnouncedCall i itemID toolCall) st))"

text \<open>\<^verbatim>\<open>for i := 0; i < len(state.ToolCalls); i++\<close>\<close>

definition call_indices :: "ChatCompletionsToResponsesStreamState \<Rightarrow> int list" where
  "call_indices st = map int [0 ..< length (cb_ToolCalls st)]"

definition closeChatToolItems :: cb_emitter where
  "closeChatToolItems st = run_conv closeChatToolItem (call_indices st) st"

definition nonEmpty :: "go_string \<Rightarrow> go_string \<Rightarrow> go_string" where
  "nonEmpty value fallback = (if value \<noteq> [] then value else fallback)"

definition chatCallOutput :: "ChatCompletionsToResponsesStreamState \<Rightarrow> int \<Rightarrow> rand_source \<Rightarrow>
    ResponsesOutput list \<times> rand_source" where
  "chatCallOutput st i r =
     (case stored_call st i of
        None \<Rightarrow> ([], r)
      | Some toolCall \<Rightarrow>
          let arguments = call_arguments toolCall; (k, r) = generateItemID r in
          if go_get False (cb_toolIsCustom st i) then
            ([custom_call_output k (ctc_ID toolCall) (cfc_Name (ctc_Function toolCall))
                (extractCustomToolCallInput arguments)], r)
          else if go_get False (cb_toolIsToolSearch st i) then
            ([tool_search_output k (ctc_ID toolCall) arguments], r)
          else
            let (name, namespace) = call_name st i toolCall in
            ([function_call_output k (ctc_ID toolCall) name namespace arguments], r))"

definition chatOutput :: "ChatCompletionsToResponsesStreamState \<Rightarrow> rand_source \<Rightarrow>
    ResponsesOutput list \<times> rand_source" where
  "chatOutput st =
     then_emit
       (\<lambda>r. if cb_Reasoning st \<noteq> []
            then (let (k, r) = generateItemID r in ([reasoning_output k (cb_Reasoning st)], r)) else ([], r))
       (then_emit
         (\<lambda>r. if cb_MessageItemID st \<noteq> [] \<or> cb_ToolCalls st = []
              then (let (k, r) = generateItemID r in
                    ([message_output (nonEmpty (cb_MessageItemID st) k) (cb_Text st)], r))
              else ([], r))
         (run_conv (chatCallOutput st) (call_indices st)))"

definition emitChatCompleted :: cb_emitter where
  "emitChatCompleted st =
     (let cut = (cb_FinishReason st = ''length'');
          st = st\<lparr>cb_CompletedSent := True\<rparr>;
          (output, r) = chatOutput st (cb_Rand st);
          st = st\<lparr>cb_Rand := r\<rparr>
      in chatToResponsesEvent ''response.completed''
           (ResponsesStreamEvent_zero\<lparr>re_Response := Some (ResponsesResponse_zero\<lparr>rr_ID := cb_ResponseID st,
              rr_Object := ''response'', rr_Model := cb_Model st,
              rr_Status := (if cut then ''incomplete'' else ''completed''), rr_Output := output,
              rr_Usage := cb_Usage st,
              rr_IncompleteDetails := (if cut then Some \<lparr>rid_Reason = ''max_output_tokens''\<rparr> else None)\<rparr>)\<rparr>) st)"

definition FinalizeChatCompletionsResponsesStream :: cb_emitter where
  "FinalizeChatCompletionsResponsesStream st =
     (if cb_CompletedSent st then ([], st)
      else then_emit ensureChatToResponsesCreated
        (then_emit closeChatReasoningItem
          (then_emit synthesizeChatReasoningFallbackMessage
            (then_emit closeChatMessageItem
              (then_emit closeChatToolItems emitChatCompleted)))) st)"

end
