(* ===== verification/Chat_To_Resp_Stream.thy ===== *)
theory Chat_To_Resp_Stream
  imports Chat_To_Resp Responses_Protocol
begin

text \<open>
  What the stream converter of \<^verbatim>\<open>chatcompletions_responses_bridge.go\<close> promises its clients:
  consecutive sequence numbers, every fragment of content passed on, one terminal event, and the
  streamed text in it.
\<close>

lemmas cb_item_defs = ensureChatToResponsesCreated_def ensureChatReasoningItem_def closeChatReasoningItem_def
  ensureChatToResponsesMessageItem_def ensureChatToResponsesTextPart_def write_text_def
  allocOutputIndex_def stateItemID_def closeChatMessageItem_def

lemmas cb_event_defs = reasoning_event_def message_event_def item_event_def tool_event_def function_args_event_def

lemmas cb_tool_defs = announceChatToolItem_def registerChatToolCall_def storeNewCall_def lookupChatToolCall_def
  appendChatToolArguments_def announceStoredCall_def put_call_def closeAnnouncedCall_def closeChatToolItem_def

section \<open>Chunks and protocols\<close>

lemma cb_header_kept [simp]:
  "cb_SequenceNumber (cb_chunk_header c st) = cb_SequenceNumber st" "cb_CreatedSent (cb_chunk_header c st) = cb_CreatedSent st"
  "cb_CompletedSent (cb_chunk_header c st) = cb_CompletedSent st" "cb_nextOutputIndex (cb_chunk_header c st) = cb_nextOutputIndex st"
  "cb_ReasoningItemID (cb_chunk_header c st) = cb_ReasoningItemID st" "cb_ReasoningIndex (cb_chunk_header c st) = cb_ReasoningIndex st"
  "cb_ReasoningOpen (cb_chunk_header c st) = cb_ReasoningOpen st" "cb_ReasoningDone (cb_chunk_header c st) = cb_ReasoningDone st"
  "cb_MessageItemID (cb_chunk_header c st) = cb_MessageItemID st" "cb_MessageIndex (cb_chunk_header c st) = cb_MessageIndex st"
  "cb_TextPartOpen (cb_chunk_header c st) = cb_TextPartOpen st" "cb_Text (cb_chunk_header c st) = cb_Text st"
  "cb_Reasoning (cb_chunk_header c st) = cb_Reasoning st" "cb_ToolCalls (cb_chunk_header c st) = cb_ToolCalls st"
  "cb_ToolItemIDs (cb_chunk_header c st) = cb_ToolItemIDs st" "cb_ToolOutputIndex (cb_chunk_header c st) = cb_ToolOutputIndex st"
  "cb_toolIsCustom (cb_chunk_header c st) = cb_toolIsCustom st" "cb_toolIsToolSearch (cb_chunk_header c st) = cb_toolIsToolSearch st"
  "cb_toolAnnounced (cb_chunk_header c st) = cb_toolAnnounced st" "cb_toolNamespace (cb_chunk_header c st) = cb_toolNamespace st"
  by (simp_all add: cb_chunk_header_def Let_def)

text \<open>A protocol that every step of a chunk keeps, whatever the chunk holds, is kept by chunks.\<close>

locale bridge_protocol =
  fixes mon :: "('m, ResponsesStreamEvent) monitor"
    and absn :: "ChatCompletionsToResponsesStreamState \<Rightarrow> 'm"
    and good :: "ChatCompletionsToResponsesStreamState \<Rightarrow> bool"
  assumes header: "good (cb_chunk_header c st) = good st" "absn (cb_chunk_header c st) = absn st"
    and created: "conforms mon absn good ensureChatToResponsesCreated"
    and reasoning: "conforms mon absn good (cb_reasoning rc)"
    and content: "conforms mon absn good (cb_content ct)"
    and tool_call: "conforms mon absn good (cb_tool_call call)"
    and finish_reason: "conforms mon absn good (cb_finish fr)"
begin

lemma choice_conforms: "conforms mon absn good (cb_choice ch)"
  unfolding cb_choice_def by (intro conforms_then conforms_run reasoning content tool_call finish_reason)

lemma chunk_conforms: "conforms mon absn good (ChatCompletionsChunkToResponsesEvents c)"
proof -
  have "conforms mon absn good (then_emit ensureChatToResponsesCreated (run_conv cb_choice (chk_Choices c)))"
    by (intro conforms_then conforms_run created choice_conforms)
  then show ?thesis
    by (simp only: conforms_def ChatCompletionsChunkToResponsesEvents_def) (metis header)
qed

end

section \<open>Sequence numbers\<close>

abbreviation cb_numbered :: "cb_emitter \<Rightarrow> bool" where
  "cb_numbered \<equiv> conforms (numbering re_SequenceNumber) cb_SequenceNumber (\<lambda>_. True)"

lemma cb_numbered_event: "cb_numbered (chatToResponsesEvent t e)"
  by (simp add: conforms_def numbering_def chatToResponsesEvent_def Let_def)

lemma cb_numbered_items:
  "cb_numbered ensureChatToResponsesCreated" "cb_numbered ensureChatReasoningItem"
  "cb_numbered closeChatReasoningItem" "cb_numbered ensureChatToResponsesMessageItem"
  "cb_numbered ensureChatToResponsesTextPart" "cb_numbered (write_text t)" "cb_numbered closeChatMessageItem"
  by (simp_all add: conforms_def numbering_def cb_item_defs chatToResponsesEvent_def Let_def split_beta accepts_append)

lemma announced_state_kept [simp]:
  "cb_SequenceNumber (announced_state i n st) = cb_SequenceNumber st" "cb_Text (announced_state i n st) = cb_Text st"
  "cb_Reasoning (announced_state i n st) = cb_Reasoning st" "cb_ToolCalls (announced_state i n st) = cb_ToolCalls st"
  "cb_MessageItemID (announced_state i n st) = cb_MessageItemID st" "cb_MessageIndex (announced_state i n st) = cb_MessageIndex st"
  "cb_CompletedSent (announced_state i n st) = cb_CompletedSent st" "cb_nextOutputIndex (announced_state i n st) = cb_nextOutputIndex st"
  "cb_ReasoningOpen (announced_state i n st) = cb_ReasoningOpen st" "cb_ReasoningDone (announced_state i n st) = cb_ReasoningDone st"
  "cb_ReasoningIndex (announced_state i n st) = cb_ReasoningIndex st" "cb_ReasoningItemID (announced_state i n st) = cb_ReasoningItemID st"
  "cb_ToolItemIDs (announced_state i n st) = cb_ToolItemIDs st" "cb_ToolOutputIndex (announced_state i n st) = cb_ToolOutputIndex st"
  by (simp_all add: announced_state_def)

lemma cb_numbered_announce: "cb_numbered (announceChatToolItem idx stored force)"
  by (simp add: conforms_def numbering_def announceChatToolItem_def chatToResponsesEvent_def Let_def)

lemma cb_numbered_tools:
  "cb_numbered (registerChatToolCall idx call)" "cb_numbered (lookupChatToolCall idx call)"
  "cb_numbered (announceStoredCall idx force)" "cb_numbered (appendChatToolArguments idx args)"
proof -
  show reg: "cb_numbered (registerChatToolCall idx call)" for idx call
    unfolding registerChatToolCall_def
    by (rule conforms_then [OF cb_numbered_items(3)])
       (simp add: conforms_def storeNewCall_def put_call_def stateItemID_def allocOutputIndex_def Let_def split_beta)
  show "cb_numbered (lookupChatToolCall idx call)"
    using reg by (simp add: conforms_def lookupChatToolCall_def put_call_def split: option.splits)
  show "cb_numbered (announceStoredCall idx force)"
    using cb_numbered_announce by (simp add: conforms_def announceStoredCall_def split: option.splits)
  show "cb_numbered (appendChatToolArguments idx args)"
    by (simp add: conforms_def numbering_def appendChatToolArguments_def put_call_def chatToResponsesEvent_def
        Let_def split: option.splits)
qed

lemma cb_numbered_close:
  "cb_numbered (closeAnnouncedCall i k call)" "cb_numbered (closeChatToolItem i)"
proof -
  show close: "cb_numbered (closeAnnouncedCall i k call)" for i k call
    by (simp add: conforms_def numbering_def closeAnnouncedCall_def chatToResponsesEvent_def Let_def split_beta
        accepts_append)
  have "cb_numbered (then_emit (announceChatToolItem i call True) (closeAnnouncedCall i k call))" for k call
    by (intro conforms_then cb_numbered_announce close)
  then show "cb_numbered (closeChatToolItem i)"
    by (simp add: conforms_def closeChatToolItem_def split: option.splits)
qed

interpretation cb_numbers: bridge_protocol "numbering re_SequenceNumber" cb_SequenceNumber "\<lambda>_. True"
proof
  show "cb_numbered ensureChatToResponsesCreated" by (rule cb_numbered_items)
  show "cb_numbered (cb_reasoning rc)" for rc
    using cb_numbered_items(2)
    by (simp add: cb_reasoning_def conforms_def accepts_append numbering_def chatToResponsesEvent_def Let_def
        split: option.splits)
  show "cb_numbered (cb_content ct)" for ct
    by (auto simp: cb_content_def intro!: conforms_then cb_numbered_items split: option.splits)
  show "cb_numbered (cb_finish fr)" for fr
    by (simp add: conforms_def cb_finish_def split: option.splits)
  show "cb_numbered (cb_tool_call call)" for call
    unfolding cb_tool_call_def Let_def by (intro conforms_then cb_numbered_tools)
qed simp_all

lemma cb_numbered_fallback: "cb_numbered synthesizeChatReasoningFallbackMessage"
proof -
  have "cb_numbered (then_emit ensureChatToResponsesMessageItem
      (then_emit ensureChatToResponsesTextPart (write_text t)))" for t
    by (intro conforms_then cb_numbered_items)
  then show ?thesis
    by (simp add: conforms_def synthesizeChatReasoningFallbackMessage_def Let_def)
qed

lemma cb_numbered_finalize: "cb_numbered FinalizeChatCompletionsResponsesStream"
proof -
  have "cb_numbered closeChatToolItems"
    using conforms_run [where step = closeChatToolItem, OF cb_numbered_close(2)]
    by (simp add: conforms_def closeChatToolItems_def)
  moreover have "cb_numbered emitChatCompleted"
    by (simp add: conforms_def numbering_def emitChatCompleted_def chatToResponsesEvent_def Let_def split_beta)
  ultimately have "cb_numbered (then_emit ensureChatToResponsesCreated (then_emit closeChatReasoningItem
      (then_emit synthesizeChatReasoningFallbackMessage (then_emit closeChatMessageItem
        (then_emit closeChatToolItems emitChatCompleted)))))"
    by (intro conforms_then cb_numbered_items cb_numbered_fallback)
  then show ?thesis
    by (simp add: conforms_def FinalizeChatCompletionsResponsesStream_def)
qed

interpretation cb_num: numbered_converter ChatCompletionsChunkToResponsesEvents
    FinalizeChatCompletionsResponsesStream cb_SequenceNumber re_SequenceNumber
  by unfold_locales (rule cb_numbers.chunk_conforms cb_numbered_finalize)+

abbreviation cb_stream where
  "cb_stream cs \<equiv> then_emit (run_conv ChatCompletionsChunkToResponsesEvents cs) FinalizeChatCompletionsResponsesStream"

lemma cb_new [simp]:
  "cb_SequenceNumber (chat_fallback_state m now r ct ts ns) = 0" "cb_CompletedSent (chat_fallback_state m now r ct ts ns) = False"
  "cb_Text (chat_fallback_state m now r ct ts ns) = []" "cb_Reasoning (chat_fallback_state m now r ct ts ns) = []"
  "cb_ToolCalls (chat_fallback_state m now r ct ts ns) = []" "cb_MessageItemID (chat_fallback_state m now r ct ts ns) = []"
  by (simp_all add: chat_fallback_state_def NewChatCompletionsToResponsesStreamState_def Let_def split_beta)

text \<open>
  Whatever the upstream sends, the events of a bridged stream carry the sequence numbers
  0, 1, 2, ... without gap or repetition.
\<close>

theorem cb_sequence_numbers:
  "map re_SequenceNumber (fst (cb_stream cs (chat_fallback_state m now r ct ts ns))) =
   map int [0 ..< length (fst (cb_stream cs (chat_fallback_state m now r ct ts ns)))]"
  using cb_num.stream_numbers [of cs "chat_fallback_state m now r ct ts ns"] by simp

section \<open>Content\<close>

definition resp_content :: "ResponsesStreamEvent \<Rightarrow> client_delta list" where
  "resp_content e = filter is_content (resp_delta e)"

text \<open>Most events are bookkeeping: they carry no content and do not end the stream.\<close>

definition eventful :: "go_string list" where
  "eventful = [''response.output_text.delta'', ''response.reasoning_summary_text.delta'', ''response.completed'',
     ''response.incomplete'']"

definition quiet :: "(ResponsesStreamEvent \<Rightarrow> 'a list) \<Rightarrow> bool" where
  "quiet out \<longleftrightarrow> (\<forall>e. re_Type e \<notin> set eventful \<longrightarrow> out e = [])"

definition terminal_of :: "ResponsesStreamEvent \<Rightarrow> ResponsesStreamEvent list" where
  "terminal_of e = (if resp_terminal e then [e] else [])"

lemma quiet_readings: "quiet resp_content" "quiet terminal_of"
  by (auto simp: quiet_def eventful_def resp_content_def resp_delta_def terminal_of_def resp_terminal_def)

lemma cb_event_silent:
  "quiet out \<Longrightarrow> t \<notin> set eventful \<Longrightarrow> carries out [] (fst (chatToResponsesEvent t e st))"
  by (simp add: chatToResponsesEvent_def quiet_def Let_def)

lemma cb_silent_items:
  assumes "quiet out"
  shows "carries out [] (fst (ensureChatToResponsesCreated st))"
    "carries out [] (fst (ensureChatReasoningItem st))"
    "carries out [] (fst (closeChatReasoningItem st))"
    "carries out [] (fst (ensureChatToResponsesMessageItem st))"
    "carries out [] (fst (ensureChatToResponsesTextPart st))"
    "carries out [] (fst (closeChatMessageItem st))"
  by (simp_all add: cb_item_defs Let_def split_beta silent_append cb_event_silent [OF assms] eventful_def)

lemma cb_carries_text: "carries resp_content (tagged TextDelta t) (fst (write_text t st))"
  by (simp add: write_text_def chatToResponsesEvent_def resp_content_def resp_delta_def Let_def)

lemma cb_silent_announce: "quiet out \<Longrightarrow> carries out [] (fst (announceChatToolItem i call force st))"
  by (simp add: announceChatToolItem_def Let_def split_beta silent_append cb_event_silent eventful_def
      split: option.splits)

lemma cb_silent_call:
  assumes "quiet out"
  shows "carries out [] (fst (cb_tool_call call st))"
proof -
  have "carries out [] (fst (lookupChatToolCall i call st))" for i st
    by (simp add: lookupChatToolCall_def registerChatToolCall_def cb_silent_items [OF assms] Let_def split_beta
        split: option.splits)
  moreover have "carries out [] (fst (announceStoredCall i f st))" for i f st
    by (simp add: announceStoredCall_def cb_silent_announce [OF assms] split: option.splits)
  moreover have "carries out [] (fst (appendChatToolArguments i a st))" for i a st
    by (simp add: appendChatToolArguments_def cb_event_silent [OF assms] eventful_def Let_def split: option.splits)
  ultimately show ?thesis
    unfolding cb_tool_call_def Let_def by (intro silent_then)
qed

lemma cb_silent_close:
  assumes "quiet out"
  shows "carries out [] (fst (closeChatToolItems st))"
proof -
  have "carries out [] (fst (closeAnnouncedCall i k call st))" for i k call st
    by (simp add: closeAnnouncedCall_def Let_def split_beta silent_append cb_event_silent [OF assms] eventful_def)
  then have "carries out [] (fst (closeChatToolItem i st))" for i st
    by (simp add: closeChatToolItem_def silent_append cb_silent_announce [OF assms] split: option.splits)
  then show ?thesis unfolding closeChatToolItems_def by (intro silent_run)
qed

lemma cb_carries_message:
  "carries resp_content (tagged TextDelta t)
     (fst (then_emit ensureChatToResponsesMessageItem (then_emit ensureChatToResponsesTextPart (write_text t)) st))"
  by (intro silent_then cb_silent_items quiet_readings cb_carries_text)

lemma cb_carries_chunk: "carries resp_content (chunk_content c) (fst (ChatCompletionsChunkToResponsesEvents c st))"
proof -
  have reasoning: "carries resp_content (case rc of None \<Rightarrow> [] | Some t \<Rightarrow> tagged ThinkingDelta t) (fst (cb_reasoning rc st))"
    for rc st
    using cb_silent_items(2) [OF quiet_readings(1), of st]
    by (auto simp: cb_reasoning_def carries_def chatToResponsesEvent_def resp_content_def resp_delta_def tagged_def
        Let_def split: option.splits)
  have content: "carries resp_content (case ct of None \<Rightarrow> [] | Some t \<Rightarrow> tagged TextDelta t) (fst (cb_content ct st))"
    for ct st
    by (cases ct) (auto simp: cb_content_def tagged_def [of _ "[]"] simp del: then_emit_sel
        intro!: silent_then [OF cb_silent_items(3)] quiet_readings cb_carries_message)
  have calls: "carries resp_content [] (fst (run_conv cb_tool_call calls st))" for calls st
    by (rule silent_run [OF cb_silent_call [OF quiet_readings(1)]])
  have fin: "carries resp_content [] (fst (cb_finish fr st))" for fr st
    by (simp add: cb_finish_def split: option.splits)
  have choice: "carries resp_content
      ((case cd_ReasoningContent (ccc_Delta ch) of None \<Rightarrow> [] | Some t \<Rightarrow> tagged ThinkingDelta t) @
       (case cd_Content (ccc_Delta ch) of None \<Rightarrow> [] | Some t \<Rightarrow> tagged TextDelta t)) (fst (cb_choice ch st))" for ch st
    unfolding cb_choice_def by (intro then_carries reasoning then_silent content calls fin)
  show ?thesis
    unfolding ChatCompletionsChunkToResponsesEvents_def chunk_content_def
    by (intro silent_then cb_silent_items quiet_readings carries_run choice)
qed

section \<open>What the state remembers of the chunks\<close>

lemma cb_kept [simp]:
  "cb_Text (snd (chatToResponsesEvent t e st)) = cb_Text st" "cb_Reasoning (snd (chatToResponsesEvent t e st)) = cb_Reasoning st"
  "cb_ToolCalls (snd (chatToResponsesEvent t e st)) = cb_ToolCalls st" "cb_MessageItemID (snd (chatToResponsesEvent t e st)) = cb_MessageItemID st"
  "cb_CompletedSent (snd (chatToResponsesEvent t e st)) = cb_CompletedSent st"
  by (simp_all add: chatToResponsesEvent_def Let_def)

lemma cb_kept_text [simp]:
  "cb_Text (snd (ensureChatToResponsesCreated st)) = cb_Text st" "cb_Text (snd (ensureChatReasoningItem st)) = cb_Text st"
  "cb_Text (snd (closeChatReasoningItem st)) = cb_Text st" "cb_Text (snd (ensureChatToResponsesMessageItem st)) = cb_Text st"
  "cb_Text (snd (ensureChatToResponsesTextPart st)) = cb_Text st" "cb_Text (snd (write_text t st)) = cb_Text st @ t"
  "cb_Text (snd (announceChatToolItem i call force st)) = cb_Text st" "cb_Text (snd (closeChatMessageItem st)) = cb_Text st"
  by (simp_all add: cb_item_defs announceChatToolItem_def Let_def split_beta split: option.splits)

lemma cb_kept_reasoning [simp]:
  "cb_Reasoning (snd (ensureChatToResponsesCreated st)) = cb_Reasoning st" "cb_Reasoning (snd (ensureChatReasoningItem st)) = cb_Reasoning st"
  "cb_Reasoning (snd (closeChatReasoningItem st)) = cb_Reasoning st" "cb_Reasoning (snd (ensureChatToResponsesMessageItem st)) = cb_Reasoning st"
  "cb_Reasoning (snd (ensureChatToResponsesTextPart st)) = cb_Reasoning st" "cb_Reasoning (snd (write_text t st)) = cb_Reasoning st"
  "cb_Reasoning (snd (announceChatToolItem i call force st)) = cb_Reasoning st"
  by (simp_all add: cb_item_defs announceChatToolItem_def Let_def split_beta split: option.splits)

lemma cb_kept_calls [simp]:
  "cb_ToolCalls (snd (ensureChatToResponsesCreated st)) = cb_ToolCalls st" "cb_ToolCalls (snd (ensureChatReasoningItem st)) = cb_ToolCalls st"
  "cb_ToolCalls (snd (closeChatReasoningItem st)) = cb_ToolCalls st" "cb_ToolCalls (snd (ensureChatToResponsesMessageItem st)) = cb_ToolCalls st"
  "cb_ToolCalls (snd (ensureChatToResponsesTextPart st)) = cb_ToolCalls st" "cb_ToolCalls (snd (write_text t st)) = cb_ToolCalls st"
  "cb_ToolCalls (snd (announceChatToolItem i call force st)) = cb_ToolCalls st"
  by (simp_all add: cb_item_defs announceChatToolItem_def Let_def split_beta split: option.splits)

lemma cb_kept_message [simp]:
  "cb_MessageItemID (snd (ensureChatToResponsesCreated st)) = cb_MessageItemID st" "cb_MessageItemID (snd (ensureChatReasoningItem st)) = cb_MessageItemID st"
  "cb_MessageItemID (snd (closeChatReasoningItem st)) = cb_MessageItemID st" "cb_MessageItemID (snd (ensureChatToResponsesMessageItem st)) \<noteq> []"
  "cb_MessageItemID (snd (ensureChatToResponsesTextPart st)) = cb_MessageItemID st" "cb_MessageItemID (snd (write_text t st)) = cb_MessageItemID st"
  "cb_MessageItemID (snd (announceChatToolItem i call force st)) = cb_MessageItemID st"
  by (simp_all add: cb_item_defs announceChatToolItem_def Let_def split_beta split: option.splits)

lemma cb_call_kept [simp]:
  "cb_Text (snd (cb_tool_call call st)) = cb_Text st" "cb_Reasoning (snd (cb_tool_call call st)) = cb_Reasoning st"
  "cb_MessageItemID (snd (cb_tool_call call st)) = cb_MessageItemID st"
  by (simp_all add: cb_tool_call_def lookupChatToolCall_def registerChatToolCall_def storeNewCall_def announceStoredCall_def
      appendChatToolArguments_def put_call_def stateItemID_def allocOutputIndex_def Let_def split_beta
      split: option.splits)

lemma update_not_Nil [simp]: "AList.update k v xs \<noteq> []"
  by (cases xs) auto

lemma cb_call_calls [simp]: "cb_ToolCalls (snd (cb_tool_call call st)) \<noteq> []"
  by (simp add: cb_tool_call_def lookupChatToolCall_def registerChatToolCall_def storeNewCall_def announceStoredCall_def
      appendChatToolArguments_def put_call_def stateItemID_def allocOutputIndex_def Let_def split_beta
      split: option.splits)

lemma cb_finish_kept [simp]:
  "cb_Text (snd (cb_finish fr st)) = cb_Text st" "cb_Reasoning (snd (cb_finish fr st)) = cb_Reasoning st"
  "cb_MessageItemID (snd (cb_finish fr st)) = cb_MessageItemID st" "cb_ToolCalls (snd (cb_finish fr st)) = cb_ToolCalls st"
  by (simp_all add: cb_finish_def split: option.splits)

text \<open>Text and reasoning accumulate the fragments of the chunks.\<close>

lemma cb_gathers_calls:
  "gathers cb_Text [] (run_conv cb_tool_call calls)" "gathers cb_Reasoning [] (run_conv cb_tool_call calls)"
  using gathers_run [of cb_Text "\<lambda>_. []" cb_tool_call calls] gathers_run [of cb_Reasoning "\<lambda>_. []" cb_tool_call calls]
  by (simp_all add: gathers_def)

lemma cb_content_state [simp]:
  "cb_Text (snd (cb_content ct st)) = cb_Text st @ go_get [] ct" "cb_Reasoning (snd (cb_content ct st)) = cb_Reasoning st"
  "cb_ToolCalls (snd (cb_content ct st)) = cb_ToolCalls st"
  by (simp_all add: cb_content_def go_get_def split: option.splits)

lemma cb_reasoning_state [simp]:
  "cb_Text (snd (cb_reasoning rc st)) = cb_Text st" "cb_Reasoning (snd (cb_reasoning rc st)) = cb_Reasoning st @ go_get [] rc"
  "cb_ToolCalls (snd (cb_reasoning rc st)) = cb_ToolCalls st" "cb_MessageItemID (snd (cb_reasoning rc st)) = cb_MessageItemID st"
  by (simp_all add: cb_reasoning_def go_get_def Let_def split: option.splits)

lemma cb_choice_state:
  "cb_Text (snd (cb_choice ch st)) = cb_Text st @ go_get [] (cd_Content (ccc_Delta ch))"
  "cb_Reasoning (snd (cb_choice ch st)) = cb_Reasoning st @ go_get [] (cd_ReasoningContent (ccc_Delta ch))"
  using cb_gathers_calls [of "cd_ToolCalls (ccc_Delta ch)"] by (simp_all add: cb_choice_def gathers_def)

lemma cb_chunk_text: "gathers cb_Text (concat (map text_of (chunk_content c))) (ChatCompletionsChunkToResponsesEvents c)"
proof -
  have "gathers cb_Text (concat (map (\<lambda>ch. go_get [] (cd_Content (ccc_Delta ch))) (chk_Choices c)))
      (run_conv cb_choice (chk_Choices c))"
    by (intro gathers_run) (simp add: gathers_def cb_choice_state)
  moreover have "concat (map text_of (chunk_content c)) =
      concat (map (\<lambda>ch. go_get [] (cd_Content (ccc_Delta ch))) (chk_Choices c))"
    unfolding chunk_content_def text_of_concat
    by (intro arg_cong [where f = concat] map_cong) (auto simp: go_get_def tagged_def split: option.splits if_splits)
  ultimately show ?thesis by (simp add: gathers_def ChatCompletionsChunkToResponsesEvents_def)
qed

lemma cb_chunk_reasoning:
  "gathers cb_Reasoning (concat (map thinking_of (chunk_content c))) (ChatCompletionsChunkToResponsesEvents c)"
proof -
  have "gathers cb_Reasoning (concat (map (\<lambda>ch. go_get [] (cd_ReasoningContent (ccc_Delta ch))) (chk_Choices c)))
      (run_conv cb_choice (chk_Choices c))"
    by (intro gathers_run) (simp add: gathers_def cb_choice_state)
  moreover have "concat (map thinking_of (chunk_content c)) =
      concat (map (\<lambda>ch. go_get [] (cd_ReasoningContent (ccc_Delta ch))) (chk_Choices c))"
    unfolding chunk_content_def thinking_of_concat
    by (intro arg_cong [where f = concat] map_cong) (auto simp: go_get_def tagged_def split: option.splits if_splits)
  ultimately show ?thesis by (simp add: gathers_def ChatCompletionsChunkToResponsesEvents_def)
qed

lemma cb_run_state:
  "cb_Text (snd (run_conv ChatCompletionsChunkToResponsesEvents cs st)) =
     cb_Text st @ concat (map text_of (concat (map chunk_content cs)))"
  "cb_Reasoning (snd (run_conv ChatCompletionsChunkToResponsesEvents cs st)) =
     cb_Reasoning st @ concat (map thinking_of (concat (map chunk_content cs)))"
  using gathers_run [of cb_Text "\<lambda>c. concat (map text_of (chunk_content c))" ChatCompletionsChunkToResponsesEvents cs]
    gathers_run [of cb_Reasoning "\<lambda>c. concat (map thinking_of (chunk_content c))" ChatCompletionsChunkToResponsesEvents cs]
    cb_chunk_text cb_chunk_reasoning
  by (simp_all add: gathers_def text_of_concat thinking_of_concat)

text \<open>Calls are remembered.\<close>

lemma cb_calls_run: "cb_ToolCalls (snd (run_conv cb_tool_call calls st)) = [] \<longleftrightarrow> cb_ToolCalls st = [] \<and> calls = []"
  by (induction calls arbitrary: st) simp_all

lemma cb_calls_choices:
  "cb_ToolCalls (snd (run_conv cb_choice chs st)) = [] \<longleftrightarrow>
     cb_ToolCalls st = [] \<and> (\<forall>ch \<in> set chs. cd_ToolCalls (ccc_Delta ch) = [])"
  by (induction chs arbitrary: st) (auto simp: cb_choice_def cb_calls_run)

lemma cb_calls_chunks:
  "cb_ToolCalls (snd (run_conv ChatCompletionsChunkToResponsesEvents cs st)) = [] \<longleftrightarrow>
     cb_ToolCalls st = [] \<and> concat (map chunk_calls cs) = []"
  by (induction cs arbitrary: st)
     (auto simp: ChatCompletionsChunkToResponsesEvents_def cb_calls_choices chunk_calls_def)

text \<open>There is a message item exactly when there is text.\<close>

definition message_iff_text :: "ChatCompletionsToResponsesStreamState \<Rightarrow> bool" where
  "message_iff_text st \<longleftrightarrow> (cb_MessageItemID st = [] \<longleftrightarrow> cb_Text st = [])"

lemma message_iff_text_choice: "message_iff_text st \<Longrightarrow> message_iff_text (snd (cb_choice ch st))"
proof -
  have "cb_MessageItemID (snd (run_conv cb_tool_call calls st)) = cb_MessageItemID st" for calls st
    by (induction calls arbitrary: st) simp_all
  moreover have "cb_MessageItemID (snd (cb_content ct st)) = cb_MessageItemID st" if "go_get [] ct = []" for ct st
    using that by (simp add: cb_content_def go_get_def split: option.splits)
  moreover have "cb_MessageItemID (snd (cb_content ct st)) \<noteq> []" if "go_get [] ct \<noteq> []" for ct st
    using that by (simp add: cb_content_def go_get_def split: option.splits)
  ultimately show "message_iff_text st \<Longrightarrow> message_iff_text (snd (cb_choice ch st))"
    by (cases "go_get [] (cd_Content (ccc_Delta ch)) = []")
       (simp_all add: message_iff_text_def cb_choice_state, simp_all add: cb_choice_def)
qed

lemma message_iff_text_run:
  "message_iff_text st \<Longrightarrow> message_iff_text (snd (run_conv ChatCompletionsChunkToResponsesEvents cs st))"
proof (induction cs arbitrary: st)
  case (Cons c cs)
  have "message_iff_text s \<Longrightarrow> message_iff_text (snd (run_conv cb_choice chs s))" for chs s
    by (induction chs arbitrary: s) (simp_all add: message_iff_text_choice)
  moreover have "message_iff_text (snd (ensureChatToResponsesCreated (cb_chunk_header c st)))"
    using Cons.prems by (simp add: message_iff_text_def)
  ultimately show ?case
    using Cons.IH by (simp add: ChatCompletionsChunkToResponsesEvents_def)
qed simp

section \<open>The end of a stream\<close>

text \<open>Reasoning without text or calls becomes the text of the response.\<close>

definition fallback_text :: "ChatCompletionsToResponsesStreamState \<Rightarrow> go_string" where
  "fallback_text st =
     (if cb_Text st = [] \<and> cb_ToolCalls st = [] \<and> go_trim_space (cb_Reasoning st) \<noteq> [] then cb_Reasoning st else [])"

lemma cb_fallback:
  assumes "message_iff_text st"
  shows "carries resp_content (tagged TextDelta (fallback_text st)) (fst (synthesizeChatReasoningFallbackMessage st))"
    and "cb_Text (snd (synthesizeChatReasoningFallbackMessage st)) = cb_Text st @ fallback_text st"
    and "message_iff_text (snd (synthesizeChatReasoningFallbackMessage st))"
proof -
  have b: "go_trim_space [] = []" by simp
  show "carries resp_content (tagged TextDelta (fallback_text st)) (fst (synthesizeChatReasoningFallbackMessage st))"
    using assms cb_carries_message [of "cb_Reasoning st" st] b
    by (auto simp: synthesizeChatReasoningFallbackMessage_def fallback_text_def message_iff_text_def Let_def tagged_def)
  show "cb_Text (snd (synthesizeChatReasoningFallbackMessage st)) = cb_Text st @ fallback_text st"
    using assms b by (auto simp: synthesizeChatReasoningFallbackMessage_def fallback_text_def message_iff_text_def Let_def)
  show "message_iff_text (snd (synthesizeChatReasoningFallbackMessage st))"
    using assms by (auto simp: synthesizeChatReasoningFallbackMessage_def message_iff_text_def Let_def)
qed

lemma chatOutput_text:
  assumes "cb_MessageItemID st = [] \<Longrightarrow> cb_Text st = []"
  shows "items_text (fst (chatOutput st r)) = cb_Text st"
proof -
  have call: "items_text (fst (chatCallOutput st i r)) = []" for i r
    by (simp add: chatCallOutput_def items_text_def custom_call_output_def tool_search_output_def
        function_call_output_def Let_def split_beta split: option.splits)
  have calls: "items_text (fst (run_conv (chatCallOutput st) is r)) = []" for "is" r
    by (induction "is" arbitrary: r) (simp_all add: call)
  have message: "items_text [message_output k t] = t" "items_text [reasoning_output k t] = []" for k t
    by (simp_all add: items_text_def message_output_def reasoning_output_def parts_text_def output_text_of_def)
  show ?thesis
    using assms by (auto simp: chatOutput_def calls message Let_def split_beta)
qed

lemma cb_close_kept [simp]:
  "cb_Text (snd (closeChatToolItems st)) = cb_Text st" "cb_MessageItemID (snd (closeChatToolItems st)) = cb_MessageItemID st"
proof -
  have "cb_Text (snd (closeAnnouncedCall i k call st)) = cb_Text st"
    "cb_MessageItemID (snd (closeAnnouncedCall i k call st)) = cb_MessageItemID st" for i k call st
    by (simp_all add: closeAnnouncedCall_def Let_def split_beta)
  then have "cb_Text (snd (closeChatToolItem i st)) = cb_Text st"
    "cb_MessageItemID (snd (closeChatToolItem i st)) = cb_MessageItemID st" for i st
    by (simp_all add: closeChatToolItem_def split: option.splits)
  then have "cb_Text (snd (run_conv closeChatToolItem is st)) = cb_Text st"
    "cb_MessageItemID (snd (run_conv closeChatToolItem is st)) = cb_MessageItemID st" for "is" st
    by (induction "is" arbitrary: st) simp_all
  then show "cb_Text (snd (closeChatToolItems st)) = cb_Text st"
    "cb_MessageItemID (snd (closeChatToolItems st)) = cb_MessageItemID st"
    by (simp_all add: closeChatToolItems_def)
qed

text \<open>Everything the finalizer emits before the terminal event.\<close>

definition cb_closing :: cb_emitter where
  "cb_closing = then_emit ensureChatToResponsesCreated (then_emit closeChatReasoningItem
     (then_emit synthesizeChatReasoningFallbackMessage (then_emit closeChatMessageItem closeChatToolItems)))"

lemma finalize_closing:
  "\<not> cb_CompletedSent st \<Longrightarrow> FinalizeChatCompletionsResponsesStream st = then_emit cb_closing emitChatCompleted st"
  by (simp add: FinalizeChatCompletionsResponsesStream_def cb_closing_def then_emit_def Let_def split_beta)

lemma cb_closing_content:
  assumes "message_iff_text st"
  shows "carries resp_content (tagged TextDelta (fallback_text st)) (fst (cb_closing st))"
    and "cb_Text (snd (cb_closing st)) = cb_Text st @ fallback_text st"
    and "message_iff_text (snd (cb_closing st))"
proof -
  let ?s = "snd (closeChatReasoningItem (snd (ensureChatToResponsesCreated st)))"
  have s: "message_iff_text ?s" "fallback_text ?s = fallback_text st"
    using assms by (simp_all add: message_iff_text_def fallback_text_def)
  note fb = cb_fallback [OF s(1), unfolded s(2)]
  show "carries resp_content (tagged TextDelta (fallback_text st)) (fst (cb_closing st))"
    unfolding cb_closing_def
    by (intro silent_then then_silent cb_silent_items cb_silent_close quiet_readings fb(1))
  have "cb_MessageItemID (snd (closeChatMessageItem x)) = cb_MessageItemID x" for x
    by (simp add: closeChatMessageItem_def)
  then show "cb_Text (snd (cb_closing st)) = cb_Text st @ fallback_text st" "message_iff_text (snd (cb_closing st))"
    using fb by (simp_all add: cb_closing_def message_iff_text_def)
qed

lemma cb_text_quiet: "carries terminal_of [] (fst (write_text t st))"
  by (simp add: write_text_def chatToResponsesEvent_def terminal_of_def resp_terminal_def Let_def)

lemma cb_closing_no_terminal: "carries terminal_of [] (fst (cb_closing st))"
proof -
  have "carries terminal_of [] (fst (synthesizeChatReasoningFallbackMessage st))" for st
    by (simp add: synthesizeChatReasoningFallbackMessage_def silent_append cb_silent_items [OF quiet_readings(2)]
        cb_text_quiet Let_def)
  then show ?thesis
    unfolding cb_closing_def by (intro silent_then cb_silent_items cb_silent_close quiet_readings)
qed

lemma cb_chunks_no_terminal: "carries terminal_of [] (fst (run_conv ChatCompletionsChunkToResponsesEvents cs st))"
proof -
  have reasoning: "carries terminal_of [] (fst (cb_reasoning rc st))" for rc st
    using cb_silent_items(2) [OF quiet_readings(2), of st]
    by (simp add: cb_reasoning_def carries_def chatToResponsesEvent_def terminal_of_def resp_terminal_def Let_def
        split: option.splits)
  have content: "carries terminal_of [] (fst (cb_content ct st))" for ct st
    by (simp add: cb_content_def silent_append cb_silent_items [OF quiet_readings(2)] cb_text_quiet split: option.splits)
  have calls: "carries terminal_of [] (fst (run_conv cb_tool_call calls st))" for calls st
    by (rule silent_run [OF cb_silent_call [OF quiet_readings(2)]])
  have fin: "carries terminal_of [] (fst (cb_finish fr st))" for fr st
    by (simp add: cb_finish_def split: option.splits)
  have "carries terminal_of [] (fst (cb_choice ch st))" for ch st
    unfolding cb_choice_def by (intro silent_then reasoning content calls fin)
  then have "carries terminal_of [] (fst (ChatCompletionsChunkToResponsesEvents c st))" for c st
    unfolding ChatCompletionsChunkToResponsesEvents_def by (intro silent_then cb_silent_items quiet_readings silent_run)
  then show ?thesis by (intro silent_run)
qed

lemma cb_completed_kept: "cb_CompletedSent (snd (run_conv ChatCompletionsChunkToResponsesEvents cs st)) = cb_CompletedSent st"
proof -
  have item: "cb_CompletedSent (snd (closeChatReasoningItem st)) = cb_CompletedSent st"
    "cb_CompletedSent (snd (ensureChatReasoningItem st)) = cb_CompletedSent st"
    "cb_CompletedSent (snd (ensureChatToResponsesMessageItem st)) = cb_CompletedSent st"
    "cb_CompletedSent (snd (ensureChatToResponsesTextPart st)) = cb_CompletedSent st"
    "cb_CompletedSent (snd (ensureChatToResponsesCreated st)) = cb_CompletedSent st"
    "cb_CompletedSent (snd (write_text t st)) = cb_CompletedSent st"
    "cb_CompletedSent (snd (announceChatToolItem i call force st)) = cb_CompletedSent st" for t i call force st
    by (simp_all add: cb_item_defs announceChatToolItem_def Let_def split_beta split: option.splits)
  have "cb_CompletedSent (snd (cb_tool_call call st)) = cb_CompletedSent st" for call st
    by (simp add: cb_tool_call_def lookupChatToolCall_def registerChatToolCall_def storeNewCall_def announceStoredCall_def
        appendChatToolArguments_def put_call_def stateItemID_def allocOutputIndex_def item Let_def split_beta
        split: option.splits)
  then have calls: "cb_CompletedSent (snd (run_conv cb_tool_call calls st)) = cb_CompletedSent st" for calls st
    by (induction calls arbitrary: st) simp_all
  have "cb_CompletedSent (snd (cb_choice ch st)) = cb_CompletedSent st" for ch st
    by (simp add: cb_choice_def calls cb_reasoning_def cb_content_def cb_finish_def item Let_def split: option.splits)
  then have choices: "cb_CompletedSent (snd (run_conv cb_choice chs st)) = cb_CompletedSent st" for chs st
    by (induction chs arbitrary: st) simp_all
  show ?thesis
    by (induction cs arbitrary: st) (simp_all add: ChatCompletionsChunkToResponsesEvents_def choices item)
qed

section \<open>Content and final response\<close>

text \<open>The text a stream of chunks falls back to.\<close>

definition reasoning_fallback :: "ChatCompletionsChunk list \<Rightarrow> go_string" where
  "reasoning_fallback cs =
     (let content = concat (map chunk_content cs); reasoning = concat (map thinking_of content) in
      if concat (map text_of content) = [] \<and> concat (map chunk_calls cs) = [] \<and> go_trim_space reasoning \<noteq> []
      then reasoning else [])"

abbreviation cb_ran where
  "cb_ran cs st \<equiv> snd (run_conv ChatCompletionsChunkToResponsesEvents cs st)"

lemma cb_stream_split:
  assumes "\<not> cb_CompletedSent st"
  shows "fst (cb_stream cs st) = fst (run_conv ChatCompletionsChunkToResponsesEvents cs st) @
    fst (cb_closing (cb_ran cs st)) @ fst (emitChatCompleted (snd (cb_closing (cb_ran cs st))))"
  using assms by (simp add: finalize_closing cb_completed_kept)

lemma emitChatCompleted_event:
  "fst (emitChatCompleted st) = [e] \<Longrightarrow> resp_terminal e \<and> resp_content e = [] \<and>
     map_option rr_Output (re_Response e) = Some (fst (chatOutput (st\<lparr>cb_CompletedSent := True\<rparr>) (cb_Rand st)))"
  by (auto simp: emitChatCompleted_def chatToResponsesEvent_def resp_terminal_def resp_content_def resp_delta_def
      Let_def split_beta)

lemma emitChatCompleted_single: "\<exists>e. fst (emitChatCompleted st) = [e]"
  by (simp add: emitChatCompleted_def chatToResponsesEvent_def Let_def split_beta)

lemma cb_start:
  fixes m now r ct ts ns
  defines "s0 \<equiv> chat_fallback_state m now r ct ts ns"
  shows "message_iff_text (cb_ran cs s0)" "fallback_text (cb_ran cs s0) = reasoning_fallback cs"
    "cb_Text (cb_ran cs s0) = concat (map text_of (concat (map chunk_content cs)))"
proof -
  have "message_iff_text s0" by (simp add: s0_def message_iff_text_def)
  then show "message_iff_text (cb_ran cs s0)" by (rule message_iff_text_run)
  show "fallback_text (cb_ran cs s0) = reasoning_fallback cs"
    "cb_Text (cb_ran cs s0) = concat (map text_of (concat (map chunk_content cs)))"
    by (simp_all add: fallback_text_def reasoning_fallback_def cb_run_state cb_calls_chunks s0_def Let_def)
qed

lemma cb_before_end:
  fixes m now r ct ts ns
  defines "s0 \<equiv> chat_fallback_state m now r ct ts ns"
  shows "carries resp_content (concat (map chunk_content cs) @ tagged TextDelta (reasoning_fallback cs))
    (fst (run_conv ChatCompletionsChunkToResponsesEvents cs s0) @ fst (cb_closing (cb_ran cs s0)))"
proof (rule carries_append)
  show "carries resp_content (concat (map chunk_content cs)) (fst (run_conv ChatCompletionsChunkToResponsesEvents cs s0))"
    by (intro carries_run cb_carries_chunk)
  show "carries resp_content (tagged TextDelta (reasoning_fallback cs)) (fst (cb_closing (cb_ran cs s0)))"
    using cb_closing_content(1) [OF cb_start(1)] by (simp add: cb_start(2) s0_def)
qed

text \<open>
  Whatever the upstream sends, a client gets exactly the nonempty reasoning and content
  fragments of the chunks, in order and byte for byte; only when there was neither text nor a tool
  call and the reasoning is not blank, the reasoning follows once more as the text of the answer.
\<close>

theorem cb_content_preserved:
  "concat (map resp_content (fst (cb_stream cs (chat_fallback_state m now r ct ts ns)))) =
     concat (map chunk_content cs) @ tagged TextDelta (reasoning_fallback cs)"
proof -
  let ?s = "chat_fallback_state m now r ct ts ns"
  obtain e where e: "fst (emitChatCompleted (snd (cb_closing (cb_ran cs ?s)))) = [e]"
    using emitChatCompleted_single by blast
  show ?thesis
    using emitChatCompleted_event [OF e] cb_before_end [of cs m now r ct ts ns]
    by (simp add: cb_stream_split e carries_def del: then_emit_sel)
qed

text \<open>
  C8. Whatever the upstream sends, the stream ends with its only terminal event, and the text of the
  response in that event is the text of the deltas before it.
\<close>

theorem cb_final_text:
  "\<exists>es e resp. fst (cb_stream cs (chat_fallback_state m now r ct ts ns)) = es @ [e] \<and>
     list_all (\<lambda>x. \<not> resp_terminal x) es \<and> resp_terminal e \<and> re_Response e = Some resp \<and>
     items_text (rr_Output resp) = concat (map resp_text es)"
proof -
  let ?s = "chat_fallback_state m now r ct ts ns"
  let ?es = "fst (run_conv ChatCompletionsChunkToResponsesEvents cs ?s) @ fst (cb_closing (cb_ran cs ?s))"
  let ?fin = "snd (cb_closing (cb_ran cs ?s))"
  obtain e where e: "fst (emitChatCompleted ?fin) = [e]"
    using emitChatCompleted_single by blast
  note event = emitChatCompleted_event [OF e]
  then obtain resp where resp: "re_Response e = Some resp"
    "rr_Output resp = fst (chatOutput (?fin\<lparr>cb_CompletedSent := True\<rparr>) (cb_Rand ?fin))" by auto
  have "carries terminal_of [] ?es"
    using cb_chunks_no_terminal cb_closing_no_terminal by (rule silent_append)
  then have silent: "list_all (\<lambda>x. \<not> resp_terminal x) ?es"
    by (auto simp: carries_def terminal_of_def list_all_iff split: if_splits)
  have all: "fst (cb_stream cs ?s) = ?es @ [e]"
    by (simp add: cb_stream_split e del: then_emit_sel)
  have "concat (map resp_text xs) = concat (map text_of (concat (map resp_content xs)))" for xs
    by (induction xs) (auto simp: resp_content_def resp_delta_def resp_text_def tagged_def)
  then have "concat (map resp_text ?es) =
      concat (map text_of (concat (map chunk_content cs) @ tagged TextDelta (reasoning_fallback cs)))"
    using cb_before_end [of cs m now r ct ts ns] by (simp only: carries_def)
  then have "concat (map resp_text ?es) = cb_Text ?fin"
    by (simp add: cb_closing_content(2) [OF cb_start(1)] cb_start(2,3))
  moreover have "items_text (rr_Output resp) = cb_Text ?fin"
    unfolding resp(2) using cb_closing_content(3) [OF cb_start(1), of cs m now r ct ts ns]
    by (subst chatOutput_text) (simp_all add: message_iff_text_def)
  ultimately show ?thesis
    using all silent event resp(1) by (intro exI [of _ ?es] exI [of _ e] exI [of _ resp]) simp
qed

end
