(* ===== verification/Chat_To_Resp_Items.thy ===== *)
theory Chat_To_Resp_Items
  imports Chat_To_Resp_Stream
begin

text \<open>
  The items of a bridged stream, as a strict client reads them: an item is added once under a fresh
  output index, deltas go to an item that is open, has their identifier and their kind, an item is
  done once and then holds what its deltas said, and when the response ends nothing is open.
\<close>

section \<open>A strict client\<close>

record client_item =
  it_id :: go_string
  it_type :: go_string
  it_text :: go_string
  it_open :: bool

type_synonym client_items = "int \<rightharpoonup> client_item"

text \<open>The kind of item a delta belongs to.\<close>

definition delta_item :: "go_string \<Rightarrow> go_string option" where
  "delta_item t =
     (if t = ''response.output_text.delta'' then Some ''message''
      else if t = ''response.reasoning_summary_text.delta'' then Some ''reasoning''
      else if t = ''response.function_call_arguments.delta'' then Some ''function_call''
      else if t = ''response.custom_tool_call_input.delta'' then Some ''custom_tool_call''
      else None)"

text \<open>A finished item holds the text of its deltas; a call without arguments an empty object.\<close>

definition delivers :: "ResponsesOutput \<Rightarrow> go_string \<Rightarrow> bool" where
  "delivers item text \<longleftrightarrow>
     (if ro_Type item = ''message'' then parts_text (ro_Content item) = text
      else if ro_Type item = ''reasoning'' then concat (map rsu_Text (ro_Summary item)) = text
      else if ro_Type item = ''function_call''
        then ro_Arguments item = (if go_trim_space text = [] then ''{}'' else text)
      else if ro_Type item = ''custom_tool_call'' then ro_Input item = text
      else True)"

definition add_item :: "ResponsesStreamEvent \<Rightarrow> ResponsesOutput \<Rightarrow> client_items \<Rightarrow> client_items option" where
  "add_item e item m =
     (if m (re_OutputIndex e) = None
      then Some (m(re_OutputIndex e \<mapsto> \<lparr>it_id = ro_ID item, it_type = ro_Type item, it_text = [], it_open = True\<rparr>))
      else None)"

definition finish_item :: "ResponsesStreamEvent \<Rightarrow> ResponsesOutput \<Rightarrow> client_items \<Rightarrow> client_items option" where
  "finish_item e item m =
     (case m (re_OutputIndex e) of
        None \<Rightarrow> None
      | Some it \<Rightarrow>
          if it_open it \<and> ro_ID item = it_id it \<and> ro_Type item = it_type it \<and> delivers item (it_text it)
          then Some (m(re_OutputIndex e \<mapsto> it\<lparr>it_text := [], it_open := False\<rparr>)) else None)"

definition extend_item :: "ResponsesStreamEvent \<Rightarrow> go_string \<Rightarrow> client_items \<Rightarrow> client_items option" where
  "extend_item e kind m =
     (case m (re_OutputIndex e) of
        None \<Rightarrow> None
      | Some it \<Rightarrow>
          if it_open it \<and> it_id it = re_ItemID e \<and> it_type it = kind
          then Some (m(re_OutputIndex e \<mapsto> it\<lparr>it_text := it_text it @ re_Delta e\<rparr>)) else None)"

definition items_client :: "(client_items, ResponsesStreamEvent) monitor" where
  "items_client m e =
     (if re_Type e = ''response.output_item.added'' then Option.bind (re_Item e) (\<lambda>item. add_item e item m)
      else if re_Type e = ''response.output_item.done'' then Option.bind (re_Item e) (\<lambda>item. finish_item e item m)
      else if resp_terminal e then (if \<forall>k it. m k = Some it \<longrightarrow> \<not> it_open it then Some m else None)
      else (case delta_item (re_Type e) of
              Some kind \<Rightarrow> extend_item e kind m
            | None \<Rightarrow> Some m))"

section \<open>An orderly upstream\<close>

text \<open>
  Reasoning comes before content and calls, and a new call has the next index. The state tells
  whether reasoning is over and how many calls there are.
\<close>

type_synonym chat_order = "bool \<times> int"

definition call_order :: "(chat_order, ChatToolCall) monitor" where
  "call_order u call =
     (let n = snd u; idx = go_get 0 (ctc_Index call) in
      if 0 \<le> idx \<and> idx \<le> n then Some (True, max n (idx + 1)) else None)"

definition choice_order :: "(chat_order, ChatChunkChoice) monitor" where
  "choice_order u ch =
     (let (over, n) = u in
      if over \<and> go_get [] (cd_ReasoningContent (ccc_Delta ch)) \<noteq> [] then None
      else accepts call_order (over \<or> go_get [] (cd_Content (ccc_Delta ch)) \<noteq> [], n) (cd_ToolCalls (ccc_Delta ch)))"

definition chunk_order :: "(chat_order, ChatCompletionsChunk) monitor" where
  "chunk_order u c = accepts choice_order u (chk_Choices c)"

section \<open>The items of a state\<close>

datatype owner = ReasoningItem | MessageItem | CallItem int

definition idx_of :: "ChatCompletionsToResponsesStreamState \<Rightarrow> owner \<Rightarrow> int option" where
  "idx_of st a =
     (case a of
        ReasoningItem \<Rightarrow> if cb_ReasoningOpen st \<or> cb_ReasoningDone st then Some (cb_ReasoningIndex st) else None
      | MessageItem \<Rightarrow> if cb_MessageItemID st \<noteq> [] then Some (cb_MessageIndex st) else None
      | CallItem i \<Rightarrow> cb_ToolOutputIndex st i)"

definition is_plain :: "ChatCompletionsToResponsesStreamState \<Rightarrow> int \<Rightarrow> bool" where
  "is_plain st i \<longleftrightarrow> \<not> go_get False (cb_toolIsCustom st i) \<and> \<not> go_get False (cb_toolIsToolSearch st i)"

definition call_type :: "ChatCompletionsToResponsesStreamState \<Rightarrow> int \<Rightarrow> go_string" where
  "call_type st i =
     (if go_get False (cb_toolIsCustom st i) then ''custom_tool_call''
      else if go_get False (cb_toolIsToolSearch st i) then ''tool_search_call'' else ''function_call'')"

definition call_text :: "ChatCompletionsToResponsesStreamState \<Rightarrow> int \<Rightarrow> go_string" where
  "call_text st i =
     (if is_plain st i
      then (case stored_call st i of None \<Rightarrow> [] | Some c \<Rightarrow> cfc_Arguments (ctc_Function c)) else [])"

definition item_record :: "go_string \<Rightarrow> go_string \<Rightarrow> go_string \<Rightarrow> bool \<Rightarrow> client_item" where
  "item_record i t x opened = \<lparr>it_id = i, it_type = t, it_text = (if opened then x else []), it_open = opened\<rparr>"

text \<open>What the client knows of an owner's item, when the items of \<open>K\<close> have been finished.\<close>

definition entry :: "owner set \<Rightarrow> ChatCompletionsToResponsesStreamState \<Rightarrow> owner \<Rightarrow> client_item option" where
  "entry K st a =
     (case a of
        ReasoningItem \<Rightarrow>
          Some (item_record (cb_ReasoningItemID st) ''reasoning'' (cb_Reasoning st) (cb_ReasoningOpen st))
      | MessageItem \<Rightarrow> Some (item_record (cb_MessageItemID st) ''message'' (cb_Text st) (MessageItem \<notin> K))
      | CallItem i \<Rightarrow>
          if go_get False (cb_toolAnnounced st i)
          then Some (item_record (go_get [] (cb_ToolItemIDs st i)) (call_type st i) (call_text st i) (CallItem i \<notin> K))
          else None)"

definition slots_ok :: "owner set \<Rightarrow> ChatCompletionsToResponsesStreamState \<Rightarrow> client_items \<Rightarrow> bool" where
  "slots_ok K st m \<longleftrightarrow>
     (\<forall>a b k. idx_of st a = Some k \<longrightarrow> idx_of st b = Some k \<longrightarrow> a = b) \<and>
     (\<forall>a k. idx_of st a = Some k \<longrightarrow> k < cb_nextOutputIndex st) \<and>
     (\<forall>a k. idx_of st a = Some k \<longrightarrow> m k = entry K st a) \<and>
     (\<forall>k. (\<forall>a. idx_of st a \<noteq> Some k) \<longrightarrow> m k = None)"

definition calls_ok :: "int \<Rightarrow> ChatCompletionsToResponsesStreamState \<Rightarrow> bool" where
  "calls_ok n st \<longleftrightarrow>
     (\<forall>i. stored_call st i \<noteq> None \<longleftrightarrow> 0 \<le> i \<and> i < n) \<and> distinct (map fst (cb_ToolCalls st)) \<and>
     (\<forall>i. cb_ToolOutputIndex st i \<noteq> None \<longleftrightarrow> stored_call st i \<noteq> None) \<and>
     (\<forall>i. cb_ToolItemIDs st i \<noteq> None \<longleftrightarrow> stored_call st i \<noteq> None) \<and>
     (\<forall>i. go_get False (cb_toolAnnounced st i) \<longrightarrow> stored_call st i \<noteq> None)"

text \<open>
  The relation between the orderly upstream so far, the state and the client. While the message item
  is being opened it has no text yet, so that part is separate.
\<close>

definition items_core :: "chat_order \<Rightarrow> ChatCompletionsToResponsesStreamState \<Rightarrow> client_items \<Rightarrow> bool" where
  "items_core u st m \<longleftrightarrow> slots_ok {} st m \<and> calls_ok (snd u) st \<and> 0 \<le> snd u \<and> (0 < snd u \<longrightarrow> fst u) \<and>
     (cb_ReasoningDone st \<longrightarrow> fst u) \<and> (fst u \<longrightarrow> \<not> cb_ReasoningOpen st) \<and>
     (\<not> cb_ReasoningOpen st \<and> \<not> cb_ReasoningDone st \<longrightarrow> cb_Reasoning st = [])"

definition items_inv :: "chat_order \<Rightarrow> ChatCompletionsToResponsesStreamState \<Rightarrow> client_items \<Rightarrow> bool" where
  "items_inv u st m \<longleftrightarrow> items_core u st m \<and> message_iff_text st"

lemma slots_okI:
  assumes "\<And>a b k. idx_of st a = Some k \<Longrightarrow> idx_of st b = Some k \<Longrightarrow> a = b"
    and "\<And>a k. idx_of st a = Some k \<Longrightarrow> k < cb_nextOutputIndex st"
    and "\<And>a k. idx_of st a = Some k \<Longrightarrow> m k = entry K st a"
    and "\<And>k. (\<And>a. idx_of st a \<noteq> Some k) \<Longrightarrow> m k = None"
  shows "slots_ok K st m"
  unfolding slots_ok_def using assms by blast

lemma slots_okD:
  assumes "slots_ok K st m"
  shows "idx_of st a = Some k \<Longrightarrow> idx_of st b = Some k \<Longrightarrow> a = b"
    and "idx_of st a = Some k \<Longrightarrow> k < cb_nextOutputIndex st"
    and "idx_of st a = Some k \<Longrightarrow> m k = entry K st a"
    and "(\<And>a. idx_of st a \<noteq> Some k) \<Longrightarrow> m k = None"
  using assms unfolding slots_ok_def by blast+

lemma slots_fresh:
  assumes "slots_ok K st m"
  shows "m (cb_nextOutputIndex st) = None"
proof (rule slots_okD(4) [OF assms])
  show "idx_of st a \<noteq> Some (cb_nextOutputIndex st)" for a
    using slots_okD(2) [OF assms, of a] by fastforce
qed

lemma slots_update:
  assumes ok: "slots_ok K st m" and idx: "idx_of st' = idx_of st" and "cb_nextOutputIndex st' = cb_nextOutputIndex st"
    and a: "idx_of st a = Some k" and same: "\<And>b. b \<noteq> a \<Longrightarrow> entry K' st' b = entry K st b" and v: "v = entry K' st' a"
  shows "slots_ok K' st' (m(k := v))"
proof (rule slots_okI)
  show "b = c" if "idx_of st' b = Some j" "idx_of st' c = Some j" for b c j
    using that slots_okD(1) [OF ok] idx by simp
  show "j < cb_nextOutputIndex st'" if "idx_of st' b = Some j" for b j
    using that slots_okD(2) [OF ok] idx assms(3) by simp
  show "(m(k := v)) j = entry K' st' b" if "idx_of st' b = Some j" for b j
  proof (cases "b = a")
    case True
    then show ?thesis using that a v idx by simp
  next
    case False
    then have "j \<noteq> k" using that slots_okD(1) [OF ok a, of b] idx by auto
    then show ?thesis using that slots_okD(3) [OF ok, of b j] same [OF False] idx by simp
  qed
  show "(m(k := v)) j = None" if "\<And>b. idx_of st' b \<noteq> Some j" for j
    using that a slots_okD(4) [OF ok, of j] idx by auto
qed

lemma slots_same:
  assumes "slots_ok K st m" and "idx_of st' = idx_of st" and "cb_nextOutputIndex st' = cb_nextOutputIndex st"
    and "\<And>b. idx_of st b \<noteq> None \<Longrightarrow> entry K' st' b = entry K st b"
  shows "slots_ok K' st' m"
  using assms unfolding slots_ok_def by simp

lemma slots_alloc:
  assumes ok: "slots_ok K st m" and idx: "idx_of st' = (idx_of st)(a \<mapsto> cb_nextOutputIndex st)"
    and a: "idx_of st a = None" and nxt: "cb_nextOutputIndex st' = cb_nextOutputIndex st + 1"
    and same: "\<And>b. b \<noteq> a \<Longrightarrow> entry K st' b = entry K st b" and v: "v = entry K st' a"
  shows "slots_ok K st' (m(cb_nextOutputIndex st := v))"
proof (rule slots_okI)
  have old: "j \<noteq> cb_nextOutputIndex st" if "idx_of st b = Some j" for b j
    using slots_okD(2) [OF ok that] by simp
  show "b = c" if "idx_of st' b = Some j" "idx_of st' c = Some j" for b c j
    using that slots_okD(1) [OF ok, of b j c] old [of b j] old [of c j] unfolding idx by (auto split: if_splits)
  show "j < cb_nextOutputIndex st'" if "idx_of st' b = Some j" for b j
    using that slots_okD(2) [OF ok, of b j] unfolding idx nxt by (auto split: if_splits)
  show "(m(cb_nextOutputIndex st := v)) j = entry K st' b" if "idx_of st' b = Some j" for b j
    using that slots_okD(3) [OF ok, of b j] old [of b j] same [of b] v unfolding idx by (auto split: if_splits)
  show "(m(cb_nextOutputIndex st := v)) j = None" if "\<And>b. idx_of st' b \<noteq> Some j" for j
  proof -
    have "j \<noteq> cb_nextOutputIndex st" using that [of a] unfolding idx by auto
    moreover have "m j = None"
    proof (rule slots_okD(4) [OF ok])
      show "idx_of st b \<noteq> Some j" for b using that [of b] a unfolding idx by (cases "b = a") auto
    qed
    ultimately show ?thesis by simp
  qed
qed

section \<open>Single events\<close>

abbreviation reads where
  "reads m es m' \<equiv> accepts items_client m es = Some m'"

text \<open>Fields that no item depends on.\<close>

lemma items_indifferent [simp]:
  "idx_of (st\<lparr>cb_SequenceNumber := q\<rparr>) = idx_of st" "entry K (st\<lparr>cb_SequenceNumber := q\<rparr>) = entry K st"
  "idx_of (st\<lparr>cb_Rand := r\<rparr>) = idx_of st" "entry K (st\<lparr>cb_Rand := r\<rparr>) = entry K st"
  "idx_of (st\<lparr>cb_TextPartOpen := p\<rparr>) = idx_of st" "entry K (st\<lparr>cb_TextPartOpen := p\<rparr>) = entry K st"
  "idx_of (st\<lparr>cb_CreatedSent := p\<rparr>) = idx_of st" "entry K (st\<lparr>cb_CreatedSent := p\<rparr>) = entry K st"
  "idx_of (st\<lparr>cb_FinishReason := x\<rparr>) = idx_of st" "entry K (st\<lparr>cb_FinishReason := x\<rparr>) = entry K st"
  "idx_of (st\<lparr>cb_toolNamespace := ns\<rparr>) = idx_of st" "entry K (st\<lparr>cb_toolNamespace := ns\<rparr>) = entry K st"
  by (auto simp: fun_eq_iff idx_of_def entry_def call_type_def call_text_def is_plain_def stored_call_def
      split: owner.splits)

lemma calls_indifferent [simp]:
  "calls_ok n (st\<lparr>cb_SequenceNumber := q\<rparr>) = calls_ok n st" "calls_ok n (st\<lparr>cb_Rand := r\<rparr>) = calls_ok n st"
  "calls_ok n (st\<lparr>cb_TextPartOpen := p\<rparr>) = calls_ok n st" "calls_ok n (st\<lparr>cb_CreatedSent := p\<rparr>) = calls_ok n st"
  "calls_ok n (st\<lparr>cb_FinishReason := x\<rparr>) = calls_ok n st" "calls_ok n (st\<lparr>cb_toolNamespace := ns\<rparr>) = calls_ok n st"
  "calls_ok n (st\<lparr>cb_Text := x\<rparr>) = calls_ok n st" "calls_ok n (st\<lparr>cb_Reasoning := x\<rparr>) = calls_ok n st"
  "calls_ok n (st\<lparr>cb_ReasoningOpen := p\<rparr>) = calls_ok n st" "calls_ok n (st\<lparr>cb_ReasoningDone := p\<rparr>) = calls_ok n st"
  "calls_ok n (st\<lparr>cb_ReasoningItemID := x\<rparr>) = calls_ok n st" "calls_ok n (st\<lparr>cb_ReasoningIndex := k\<rparr>) = calls_ok n st"
  "calls_ok n (st\<lparr>cb_MessageItemID := x\<rparr>) = calls_ok n st" "calls_ok n (st\<lparr>cb_MessageIndex := k\<rparr>) = calls_ok n st"
  "calls_ok n (st\<lparr>cb_nextOutputIndex := k\<rparr>) = calls_ok n st"
  "calls_ok n (st\<lparr>cb_toolIsCustom := f\<rparr>) = calls_ok n st" "calls_ok n (st\<lparr>cb_toolIsToolSearch := f\<rparr>) = calls_ok n st"
  by (simp_all add: calls_ok_def stored_call_def)

lemma slots_indifferent [simp]:
  "slots_ok K (st\<lparr>cb_SequenceNumber := q\<rparr>) m = slots_ok K st m" "slots_ok K (st\<lparr>cb_Rand := r\<rparr>) m = slots_ok K st m"
  "slots_ok K (st\<lparr>cb_TextPartOpen := p\<rparr>) m = slots_ok K st m" "slots_ok K (st\<lparr>cb_CreatedSent := p\<rparr>) m = slots_ok K st m"
  "slots_ok K (st\<lparr>cb_FinishReason := x\<rparr>) m = slots_ok K st m" "slots_ok K (st\<lparr>cb_toolNamespace := ns\<rparr>) m = slots_ok K st m"
  by (simp_all add: slots_ok_def)

text \<open>Events that do not concern the items.\<close>

definition itemless :: "go_string \<Rightarrow> bool" where
  "itemless t \<longleftrightarrow> t \<notin> set [''response.output_item.added'', ''response.output_item.done'', ''response.completed'',
     ''response.incomplete'', ''response.output_text.delta'', ''response.reasoning_summary_text.delta'',
     ''response.function_call_arguments.delta'', ''response.custom_tool_call_input.delta'']"

lemma items_client_itemless: "itemless (re_Type e) \<Longrightarrow> items_client m e = Some m"
  by (simp add: itemless_def items_client_def resp_terminal_def delta_item_def)

lemma items_client_event:
  "accepts items_client m (fst (chatToResponsesEvent t e st)) =
     items_client m (e\<lparr>re_Type := t, re_SequenceNumber := cb_SequenceNumber st\<rparr>)"
  by (simp add: chatToResponsesEvent_def Let_def split: option.splits)

lemma event_state: "snd (chatToResponsesEvent t e st) = st\<lparr>cb_SequenceNumber := cb_SequenceNumber st + 1\<rparr>"
  by (simp add: chatToResponsesEvent_def Let_def)

lemma event_skip: "itemless t \<Longrightarrow> accepts items_client m (fst (chatToResponsesEvent t e st)) = Some m"
  by (simp add: items_client_event items_client_itemless)

lemma event_added:
  assumes "m k = None"
  shows "accepts items_client m (fst (chatToResponsesEvent ''response.output_item.added'' (item_event k item) st)) =
    Some (m(k \<mapsto> item_record (ro_ID item) (ro_Type item) [] True))"
  using assms by (simp add: items_client_event items_client_def add_item_def item_event_def item_record_def)

lemma event_done:
  assumes "m k = Some (item_record i t x True)" and "ro_ID item = i" and "ro_Type item = t" and "delivers item x"
  shows "accepts items_client m (fst (chatToResponsesEvent ''response.output_item.done'' (item_event k item) st)) =
    Some (m(k \<mapsto> item_record i t [] False))"
  using assms by (simp add: items_client_event items_client_def finish_item_def item_event_def item_record_def)

lemma event_delta:
  assumes "delta_item t = Some kind" and "m (re_OutputIndex e) = Some (item_record (re_ItemID e) kind x True)"
  shows "accepts items_client m (fst (chatToResponsesEvent t e st)) =
    Some (m(re_OutputIndex e \<mapsto> item_record (re_ItemID e) kind (x @ re_Delta e) True))"
  using assms
  by (auto simp: items_client_event items_client_def resp_terminal_def delta_item_def extend_item_def item_record_def
      split: if_splits)

section \<open>Reasoning and message\<close>

abbreviation items_lead where
  "items_lead \<equiv> leads items_client"

lemma items_core_slots: "items_core u st m \<Longrightarrow> slots_ok {} st m"
  by (simp add: items_core_def)

lemma items_core_indifferent [simp]:
  "items_core u (st\<lparr>cb_SequenceNumber := q\<rparr>) m = items_core u st m" "items_core u (st\<lparr>cb_Rand := r\<rparr>) m = items_core u st m"
  "items_core u (st\<lparr>cb_TextPartOpen := p\<rparr>) m = items_core u st m" "items_core u (st\<lparr>cb_CreatedSent := p\<rparr>) m = items_core u st m"
  "items_core u (st\<lparr>cb_FinishReason := x\<rparr>) m = items_core u st m" "items_core u (st\<lparr>cb_toolNamespace := ns\<rparr>) m = items_core u st m"
  by (simp_all add: items_core_def)

lemma message_indifferent [simp]:
  "message_iff_text (st\<lparr>cb_SequenceNumber := q\<rparr>) = message_iff_text st" "message_iff_text (st\<lparr>cb_Rand := r\<rparr>) = message_iff_text st"
  "message_iff_text (st\<lparr>cb_CreatedSent := p\<rparr>) = message_iff_text st"
  "message_iff_text (st\<lparr>cb_FinishReason := x\<rparr>) = message_iff_text st"
  by (simp_all add: message_iff_text_def)

lemma lead_created: "items_lead (items_inv u) ensureChatToResponsesCreated (items_inv u)"
  by (rule leadsI) (auto simp: ensureChatToResponsesCreated_def Let_def event_skip itemless_def event_state items_inv_def)

lemma lead_close_reasoning: "items_lead (items_inv u) closeChatReasoningItem (items_inv (True, snd u))"
proof (rule leadsI)
  fix st m assume inv: "items_inv u st m"
  show "\<exists>m'. accepts items_client m (fst (closeChatReasoningItem st)) = Some m' \<and>
      items_inv (True, snd u) (snd (closeChatReasoningItem st)) m'"
  proof (cases "cb_ReasoningOpen st")
    case False
    then show ?thesis using inv by (auto simp: closeChatReasoningItem_def items_inv_def items_core_def)
  next
    case True
    let ?k = "cb_ReasoningIndex st" and ?st = "st\<lparr>cb_ReasoningOpen := False, cb_ReasoningDone := True\<rparr>"
    let ?m = "m(?k \<mapsto> item_record (cb_ReasoningItemID st) ''reasoning'' [] False)"
    have slots: "slots_ok {} st m" using inv by (simp add: items_inv_def items_core_def)
    have k: "idx_of st ReasoningItem = Some ?k" using True by (simp add: idx_of_def)
    then have at: "m ?k = Some (item_record (cb_ReasoningItemID st) ''reasoning'' (cb_Reasoning st) True)"
      using slots_okD(3) [OF slots k] True by (simp add: entry_def)
    have "slots_ok {} ?st ?m"
      using True
      by (intro slots_update [OF slots _ _ k])
         (auto simp: idx_of_def entry_def item_record_def call_type_def call_text_def is_plain_def stored_call_def
            fun_eq_iff split: owner.splits)
    moreover have "accepts items_client m (fst (closeChatReasoningItem st)) = Some ?m"
      using True at
      by (simp add: closeChatReasoningItem_def Let_def accepts_append event_skip itemless_def reasoning_output_def
          delivers_def summary_of_def event_done [of m, OF at])
    ultimately show ?thesis
      using inv True by (simp add: closeChatReasoningItem_def Let_def event_state items_inv_def items_core_def
          message_iff_text_def)
  qed
qed

lemma lead_open_reasoning:
  "items_lead (items_inv (False, n)) ensureChatReasoningItem (\<lambda>st m. items_inv (False, n) st m \<and> cb_ReasoningOpen st)"
proof (rule leadsI)
  fix st m assume inv: "items_inv (False, n) st m"
  then have slots: "slots_ok {} st m" and nd: "\<not> cb_ReasoningDone st" by (auto simp: items_inv_def items_core_def)
  show "\<exists>m'. accepts items_client m (fst (ensureChatReasoningItem st)) = Some m' \<and>
      items_inv (False, n) (snd (ensureChatReasoningItem st)) m' \<and> cb_ReasoningOpen (snd (ensureChatReasoningItem st))"
  proof (cases "cb_ReasoningOpen st")
    case True
    then show ?thesis using inv by (auto simp: ensureChatReasoningItem_def)
  next
    case False
    let ?k = "cb_nextOutputIndex st"
    let ?i = "fst (generateItemID (cb_Rand st))"
    let ?st = "st\<lparr>cb_ReasoningOpen := True, cb_Rand := snd (generateItemID (cb_Rand st)), cb_ReasoningItemID := ?i,
      cb_nextOutputIndex := ?k + 1, cb_ReasoningIndex := ?k\<rparr>"
    let ?m = "m(?k \<mapsto> item_record ?i ''reasoning'' [] True)"
    have blank: "cb_Reasoning st = []" using inv False nd by (simp add: items_inv_def items_core_def)
    have "slots_ok {} ?st ?m"
      using False nd blank
      by (intro slots_alloc [OF slots, where a = ReasoningItem])
         (auto simp: idx_of_def entry_def item_record_def call_type_def call_text_def is_plain_def stored_call_def
            fun_eq_iff split: owner.splits)
    moreover have "accepts items_client m (fst (ensureChatReasoningItem st)) = Some ?m"
      using False nd slots_fresh [OF slots]
      by (simp add: ensureChatReasoningItem_def stateItemID_def allocOutputIndex_def Let_def split_beta accepts_append
          event_skip itemless_def event_added)
    ultimately show ?thesis
      using inv False nd
      by (simp add: ensureChatReasoningItem_def stateItemID_def allocOutputIndex_def Let_def split_beta event_state
          items_inv_def items_core_def message_iff_text_def blank)
  qed
qed

lemma lead_delta_reasoning:
  "items_lead (\<lambda>st m. items_inv (False, n) st m \<and> cb_ReasoningOpen st)
     (\<lambda>st. let st = st\<lparr>cb_Reasoning := cb_Reasoning st @ t\<rparr> in
        chatToResponsesEvent ''response.reasoning_summary_text.delta'' ((reasoning_event st)\<lparr>re_Delta := t\<rparr>) st)
     (items_inv (False, n))"
proof (rule leadsI, unfold Let_def, elim conjE)
  fix st m assume inv: "items_inv (False, n) st m" and op: "cb_ReasoningOpen st"
  let ?k = "cb_ReasoningIndex st" and ?st = "st\<lparr>cb_Reasoning := cb_Reasoning st @ t\<rparr>"
  let ?m = "m(?k \<mapsto> item_record (cb_ReasoningItemID st) ''reasoning'' (cb_Reasoning st @ t) True)"
  let ?e = "(reasoning_event ?st)\<lparr>re_Delta := t\<rparr>"
  have slots: "slots_ok {} st m" using inv by (simp add: items_inv_def items_core_def)
  have k: "idx_of st ReasoningItem = Some ?k" using op by (simp add: idx_of_def)
  then have at: "m (re_OutputIndex ?e) = Some (item_record (re_ItemID ?e) ''reasoning'' (cb_Reasoning st) True)"
    using slots_okD(3) [OF slots k] op by (simp add: entry_def reasoning_event_def)
  have "slots_ok {} ?st ?m"
    using op
    by (intro slots_update [OF slots _ _ k])
       (auto simp: idx_of_def entry_def item_record_def call_type_def call_text_def is_plain_def stored_call_def
          fun_eq_iff split: owner.splits)
  moreover have "accepts items_client m (fst (chatToResponsesEvent ''response.reasoning_summary_text.delta'' ?e ?st)) = Some ?m"
    using event_delta [of "''response.reasoning_summary_text.delta''" "''reasoning''" m ?e, OF _ at]
    by (simp add: delta_item_def reasoning_event_def)
  ultimately show "\<exists>m'. accepts items_client m (fst (chatToResponsesEvent ''response.reasoning_summary_text.delta'' ?e ?st)) = Some m' \<and>
      items_inv (False, n) (snd (chatToResponsesEvent ''response.reasoning_summary_text.delta'' ?e ?st)) m'"
    using inv op by (simp add: event_state items_inv_def items_core_def message_iff_text_def)
qed

lemma lead_reasoning:
  assumes "go_get [] rc \<noteq> [] \<Longrightarrow> \<not> over"
  shows "items_lead (items_inv (over, n)) (cb_reasoning rc) (items_inv (over, n))"
proof (cases "go_get [] rc = []")
  case True
  then have "cb_reasoning rc = no_emit" by (simp add: cb_reasoning_def go_get_def split: option.splits)
  then show ?thesis by (simp add: leads_no_emit)
next
  case False
  then obtain t where "rc = Some t" "t \<noteq> []" by (auto simp: go_get_def split: option.splits)
  then show ?thesis
    using assms False leads_then [OF lead_open_reasoning lead_delta_reasoning] by (simp add: cb_reasoning_def)
qed

text \<open>The message item.\<close>

definition message_open :: "chat_order \<Rightarrow> ChatCompletionsToResponsesStreamState \<Rightarrow> client_items \<Rightarrow> bool" where
  "message_open u st m \<longleftrightarrow> items_core u st m \<and> cb_MessageItemID st \<noteq> []"

lemma lead_open_message: "items_lead (items_inv u) ensureChatToResponsesMessageItem (message_open u)"
proof (rule leadsI)
  fix st m assume inv: "items_inv u st m"
  then have slots: "slots_ok {} st m" by (auto simp: items_inv_def items_core_def)
  show "\<exists>m'. accepts items_client m (fst (ensureChatToResponsesMessageItem st)) = Some m' \<and>
      message_open u (snd (ensureChatToResponsesMessageItem st)) m'"
  proof (cases "cb_MessageItemID st = []")
    case False
    then show ?thesis using inv by (auto simp: ensureChatToResponsesMessageItem_def items_inv_def message_open_def)
  next
    case True
    let ?k = "cb_nextOutputIndex st"
    let ?i = "fst (generateItemID (cb_Rand st))"
    let ?st = "st\<lparr>cb_Rand := snd (generateItemID (cb_Rand st)), cb_MessageItemID := ?i,
      cb_nextOutputIndex := ?k + 1, cb_MessageIndex := ?k\<rparr>"
    let ?m = "m(?k \<mapsto> item_record ?i ''message'' [] True)"
    have blank: "cb_Text st = []" using inv True by (simp add: items_inv_def message_iff_text_def)
    have "slots_ok {} ?st ?m"
    proof (rule slots_alloc [OF slots])
      show "idx_of ?st = (idx_of st)(MessageItem \<mapsto> ?k)"
        by (rule ext) (simp add: idx_of_def split: owner.split)
      show "idx_of st MessageItem = None" using True by (simp add: idx_of_def)
      show "entry {} ?st b = entry {} st b" if "b \<noteq> MessageItem" for b
        using that by (cases b) (simp_all add: entry_def call_type_def call_text_def is_plain_def stored_call_def)
      show "Some (item_record ?i ''message'' [] True) = entry {} ?st MessageItem"
        by (simp add: entry_def blank item_record_def)
    qed simp
    moreover have "accepts items_client m (fst (ensureChatToResponsesMessageItem st)) = Some ?m"
      using True slots_fresh [OF slots]
      by (simp add: ensureChatToResponsesMessageItem_def stateItemID_def allocOutputIndex_def Let_def split_beta
          event_added message_output_def)
    ultimately show ?thesis
      using inv True
      by (simp add: ensureChatToResponsesMessageItem_def stateItemID_def allocOutputIndex_def Let_def split_beta
          event_state items_inv_def items_core_def message_open_def)
  qed
qed

lemma lead_text_part: "items_lead (message_open u) ensureChatToResponsesTextPart (message_open u)"
  by (rule leadsI)
     (auto simp: ensureChatToResponsesTextPart_def Let_def event_skip itemless_def event_state message_open_def)

lemma lead_write_text:
  assumes "t \<noteq> []"
  shows "items_lead (message_open u) (write_text t) (items_inv u)"
proof (rule leadsI, unfold write_text_def Let_def)
  fix st m assume inv: "message_open u st m"
  let ?k = "cb_MessageIndex st" and ?st = "st\<lparr>cb_Text := cb_Text st @ t\<rparr>"
  let ?m = "m(?k \<mapsto> item_record (cb_MessageItemID st) ''message'' (cb_Text st @ t) True)"
  let ?e = "(message_event ?st)\<lparr>re_Delta := t\<rparr>"
  have slots: "slots_ok {} st m" and k: "idx_of st MessageItem = Some ?k"
    using inv by (simp_all add: message_open_def items_core_def idx_of_def)
  have at: "m (re_OutputIndex ?e) = Some (item_record (re_ItemID ?e) ''message'' (cb_Text st) True)"
    using slots_okD(3) [OF slots k] by (simp add: entry_def message_event_def)
  have "slots_ok {} ?st ?m"
    by (intro slots_update [OF slots _ _ k])
       (auto simp: idx_of_def entry_def item_record_def call_type_def call_text_def is_plain_def stored_call_def
          fun_eq_iff split: owner.splits)
  moreover have "accepts items_client m (fst (chatToResponsesEvent ''response.output_text.delta'' ?e ?st)) = Some ?m"
    using event_delta [of "''response.output_text.delta''" "''message''" m ?e, OF _ at]
    by (simp add: delta_item_def message_event_def)
  ultimately show "\<exists>m'. accepts items_client m (fst (chatToResponsesEvent ''response.output_text.delta'' ?e ?st)) = Some m' \<and>
      items_inv u (snd (chatToResponsesEvent ''response.output_text.delta'' ?e ?st)) m'"
    using inv assms by (simp add: event_state items_inv_def items_core_def message_open_def message_iff_text_def)
qed

lemma lead_message_text:
  "t \<noteq> [] \<Longrightarrow> items_lead (items_inv u)
     (then_emit ensureChatToResponsesMessageItem (then_emit ensureChatToResponsesTextPart (write_text t))) (items_inv u)"
  by (intro leads_then [OF lead_open_message] leads_then [OF lead_text_part] lead_write_text)

lemma lead_content:
  "items_lead (items_inv (over, n)) (cb_content ct) (items_inv (over \<or> go_get [] ct \<noteq> [], n))"
proof (cases "go_get [] ct = []")
  case True
  then have "cb_content ct = no_emit" by (simp add: cb_content_def go_get_def split: option.splits)
  then show ?thesis using True by (simp add: leads_no_emit)
next
  case False
  then obtain t where "ct = Some t" "t \<noteq> []" by (auto simp: go_get_def split: option.splits)
  then show ?thesis
    using leads_then [OF lead_close_reasoning lead_message_text, of t "(over, n)"]
    by (simp add: cb_content_def go_get_def)
qed

section \<open>Calls\<close>

lemma calls_okD:
  assumes "calls_ok n st" and "stored_call st i = Some call"
  obtains k itemID where "cb_ToolOutputIndex st i = Some k" and "cb_ToolItemIDs st i = Some itemID" and "0 \<le> i" and "i < n"
proof -
  have "stored_call st i \<noteq> None" by (simp add: assms(2))
  then have "cb_ToolOutputIndex st i \<noteq> None" "cb_ToolItemIDs st i \<noteq> None" "0 \<le> i \<and> i < n"
    using assms(1) unfolding calls_ok_def by blast+
  then show ?thesis using that by blast
qed

lemma stored_put_call [simp]: "stored_call (put_call i c st) = (stored_call st)(i \<mapsto> c)"
  by (simp add: fun_eq_iff stored_call_def put_call_def update_conv')

lemma put_call_fields [simp]:
  "cb_ToolOutputIndex (put_call i c st) = cb_ToolOutputIndex st" "cb_ToolItemIDs (put_call i c st) = cb_ToolItemIDs st"
  "cb_toolAnnounced (put_call i c st) = cb_toolAnnounced st" "cb_toolIsCustom (put_call i c st) = cb_toolIsCustom st"
  "cb_toolIsToolSearch (put_call i c st) = cb_toolIsToolSearch st" "cb_nextOutputIndex (put_call i c st) = cb_nextOutputIndex st"
  "idx_of (put_call i c st) = idx_of st" "cb_ReasoningDone (put_call i c st) = cb_ReasoningDone st"
  "cb_ReasoningOpen (put_call i c st) = cb_ReasoningOpen st" "cb_Reasoning (put_call i c st) = cb_Reasoning st"
  "message_iff_text (put_call i c st) = message_iff_text st" "is_plain (put_call i c st) = is_plain st"
  "cb_ReasoningItemID (put_call i c st) = cb_ReasoningItemID st" "cb_MessageItemID (put_call i c st) = cb_MessageItemID st"
  "cb_Text (put_call i c st) = cb_Text st" "call_type (put_call i c st) = call_type st"
  "cb_SequenceNumber (put_call i c st) = cb_SequenceNumber st"
  by (simp_all add: put_call_def idx_of_def fun_eq_iff message_iff_text_def is_plain_def call_type_def split: owner.split)

lemma calls_ok_put [simp]:
  assumes "stored_call st i \<noteq> None"
  shows "calls_ok n (put_call i c st) = calls_ok n st"
proof -
  have "distinct (map fst (cb_ToolCalls (put_call i c st))) = distinct (map fst (cb_ToolCalls st))"
    using assms by (simp add: put_call_def update_keys stored_call_def map_of_eq_None_iff)
  moreover have "stored_call (put_call i c st) j \<noteq> None \<longleftrightarrow> stored_call st j \<noteq> None" for j
    using assms by auto
  ultimately show ?thesis unfolding calls_ok_def by simp
qed

text \<open>Replacing a stored call is seen in the text of its own item only.\<close>

lemma entry_put_call:
  assumes "a = CallItem i \<Longrightarrow> is_plain st i \<Longrightarrow> stored_call st i = Some old \<and>
      cfc_Arguments (ctc_Function c) = cfc_Arguments (ctc_Function old)"
  shows "entry K (put_call i c st) a = entry K st a"
  using assms
  by (cases a) (auto simp: entry_def call_text_def)

lemma announced_state_flags [simp]:
  "cb_toolAnnounced (announced_state i n st) = (cb_toolAnnounced st)(i \<mapsto> True)"
  "cb_toolIsCustom (announced_state i n st) = (cb_toolIsCustom st)(i \<mapsto> is_custom_tool st n)"
  "cb_toolIsToolSearch (announced_state i n st) = (cb_toolIsToolSearch st)(i \<mapsto> is_tool_search st n)"
  "stored_call (announced_state i n st) = stored_call st"
  by (simp_all add: announced_state_def fun_eq_iff stored_call_def)

lemma announced_state_items:
  assumes "cb_ToolOutputIndex st i = Some k" and "cb_ToolItemIDs st i = Some itemID" and "stored_call st i = Some call"
    and "CallItem i \<notin> K"
  shows "idx_of (announced_state i n st) = idx_of st"
    and "b \<noteq> CallItem i \<Longrightarrow> entry K (announced_state i n st) b = entry K st b"
    and "entry K (announced_state i n st) (CallItem i) = Some (item_record itemID (tool_item_type st n)
      (if is_function_tool st n then cfc_Arguments (ctc_Function call) else []) True)"
proof -
  show "idx_of (announced_state i n st) = idx_of st"
    by (rule ext) (simp add: idx_of_def split: owner.split)
  show "entry K (announced_state i n st) b = entry K st b" if "b \<noteq> CallItem i"
    using that
    by (cases b) (simp_all add: entry_def call_type_def call_text_def is_plain_def)
  show "entry K (announced_state i n st) (CallItem i) = Some (item_record itemID (tool_item_type st n)
      (if is_function_tool st n then cfc_Arguments (ctc_Function call) else []) True)"
    using assms
    by (auto simp: entry_def call_type_def call_text_def is_plain_def tool_item_type_def is_function_tool_def
        go_get_def is_tool_search_def)
qed

lemma announce_reads:
  assumes slots: "slots_ok K st m" and calls: "calls_ok n st" and call: "stored_call st i = Some call"
    and open_item: "CallItem i \<notin> K"
  shows "\<exists>m'. accepts items_client m (fst (announceChatToolItem i call force st)) = Some m' \<and>
    slots_ok K (snd (announceChatToolItem i call force st)) m' \<and> calls_ok n (snd (announceChatToolItem i call force st))"
proof (cases "announcement_waits i call force st")
  case True
  then show ?thesis using slots calls by (auto simp: announceChatToolItem_def)
next
  case False
  obtain k itemID where k: "cb_ToolOutputIndex st i = Some k" "cb_ToolItemIDs st i = Some itemID"
    using calls_okD [OF calls call] by metis
  let ?name = "cfc_Name (ctc_Function call)" and ?args = "cfc_Arguments (ctc_Function call)"
  let ?plain = "is_function_tool st ?name" and ?st = "announced_state i ?name st"
  let ?m = "\<lambda>x. m(k \<mapsto> item_record itemID (tool_item_type st ?name) x True)"
  note items = announced_state_items [OF k call open_item, where n = ?name]
  have idx: "idx_of st (CallItem i) = Some k" by (simp add: idx_of_def k)
  have fresh: "m k = None"
    using slots_okD(3) [OF slots idx] False by (simp add: entry_def announcement_waits_def)
  have slots': "slots_ok K ?st (?m (if ?plain then ?args else []))"
    by (rule slots_update [OF slots items(1) _ idx items(2)]) (simp_all add: items(3))
  have calls': "calls_ok n ?st"
    using calls call unfolding calls_ok_def by (auto simp: go_get_def)
  have added: "accepts items_client m (fst (chatToResponsesEvent ''response.output_item.added''
      (item_event k (announced_item i call st)) ?st)) = Some (?m [])"
    using event_added [of m, OF fresh] k by (simp add: announced_item_def Let_def go_get_def)
  have delta: "accepts items_client (?m []) (fst (chatToResponsesEvent ''response.function_call_arguments.delta''
      (function_args_event st i call ?args) s)) = Some (?m ?args)" if ?plain for s
    using that k event_delta [of "''response.function_call_arguments.delta''" "''function_call''" "?m []"
        "function_args_event st i call ?args" "[]"]
    by (simp add: delta_item_def function_args_event_def tool_event_def go_get_def tool_item_type_def is_function_tool_def)
  show ?thesis
  proof (cases "?plain \<and> ?args \<noteq> []")
    case True
    then show ?thesis
      using False k slots' calls'
      by (simp add: announceChatToolItem_def Let_def accepts_append added delta event_state go_get_def)
  next
    case no: False
    then have "slots_ok K ?st (?m [])" using slots' by (cases ?plain) simp_all
    then show ?thesis
      using False k calls'
      by (simp add: announceChatToolItem_def Let_def if_not_P [OF no] added event_state go_get_def)
  qed
qed

lemma announce_kept [simp]:
  "cb_ReasoningOpen (snd (announceChatToolItem i call force st)) = cb_ReasoningOpen st"
  "cb_ReasoningDone (snd (announceChatToolItem i call force st)) = cb_ReasoningDone st"
  "stored_call (snd (announceChatToolItem i call force st)) = stored_call st"
  "message_iff_text (snd (announceChatToolItem i call force st)) = message_iff_text st"
  by (simp_all add: announceChatToolItem_def Let_def event_state message_iff_text_def stored_call_def fun_eq_iff)

lemma lead_announce: "items_lead (items_inv u) (announceStoredCall i force) (items_inv u)"
proof (rule leadsI)
  fix st m assume inv: "items_inv u st m"
  then have slots: "slots_ok {} st m" and calls: "calls_ok (snd u) st" by (simp_all add: items_inv_def items_core_def)
  show "\<exists>m'. accepts items_client m (fst (announceStoredCall i force st)) = Some m' \<and>
      items_inv u (snd (announceStoredCall i force st)) m'"
  proof (cases "stored_call st i")
    case None
    then show ?thesis using inv by (simp add: announceStoredCall_def)
  next
    case (Some call)
    then show ?thesis
      using announce_reads [OF slots calls Some, of force] inv
      by (simp add: announceStoredCall_def items_inv_def items_core_def)
  qed
qed

lemma lead_arguments: "items_lead (items_inv u) (appendChatToolArguments i args) (items_inv u)"
proof (rule leadsI)
  fix st m assume inv: "items_inv u st m"
  then have slots: "slots_ok {} st m" and calls: "calls_ok (snd u) st" by (simp_all add: items_inv_def items_core_def)
  show "\<exists>m'. accepts items_client m (fst (appendChatToolArguments i args st)) = Some m' \<and>
      items_inv u (snd (appendChatToolArguments i args st)) m'"
  proof (cases "args = [] \<or> stored_call st i = None")
    case True
    then show ?thesis using inv by (auto simp: appendChatToolArguments_def)
  next
    case False
    then obtain call where call: "stored_call st i = Some call" by auto
    let ?call = "add_arguments args call" and ?st = "put_call i (add_arguments args call) st"
    let ?old = "cfc_Arguments (ctc_Function call)"
    obtain k itemID where k: "cb_ToolOutputIndex st i = Some k" "cb_ToolItemIDs st i = Some itemID"
      using calls_okD [OF calls call] by metis
    have idx: "idx_of st (CallItem i) = Some k" by (simp add: idx_of_def k)
    have kept: "items_inv u ?st m'" if "slots_ok {} ?st m'" for m'
      using inv that calls_ok_put [of st i "snd u" ?call] call by (simp add: items_inv_def items_core_def)
    show ?thesis
    proof (cases "go_get False (cb_toolAnnounced st i) \<and> is_plain st i")
      case True
      let ?e = "function_args_event ?st i ?call args"
      let ?m = "\<lambda>x. m(k \<mapsto> item_record itemID ''function_call'' x True)"
      have e: "re_OutputIndex ?e = k" "re_ItemID ?e = itemID" "re_Delta ?e = args"
        using k by (simp_all add: function_args_event_def tool_event_def go_get_def)
      have at: "m k = Some (item_record itemID ''function_call'' ?old True)"
        using slots_okD(3) [OF slots idx] True k call
        by (simp add: entry_def call_type_def call_text_def is_plain_def go_get_def [of _ "Some _"])
      have "slots_ok {} ?st (?m (?old @ args))"
      proof (rule slots_update [OF slots _ _ idx])
        show "entry {} ?st b = entry {} st b" if "b \<noteq> CallItem i" for b
          using that by (intro entry_put_call) simp
        show "Some (item_record itemID ''function_call'' (?old @ args) True) = entry {} ?st (CallItem i)"
          using True k by (simp add: entry_def call_type_def call_text_def is_plain_def go_get_def [of _ "Some _"] add_arguments_def)
      qed simp_all
      moreover have "accepts items_client m (fst (chatToResponsesEvent ''response.function_call_arguments.delta'' ?e ?st)) =
          Some (?m (?old @ args))"
        using event_delta [of "''response.function_call_arguments.delta''" "''function_call''" m ?e ?old] at
        by (simp add: e delta_item_def)
      ultimately show ?thesis
        using False call True kept
        by (simp add: appendChatToolArguments_def Let_def is_plain_def event_state items_inv_def)
    next
      case no: False
      have "slots_ok {} ?st m"
      proof (rule slots_same [OF slots])
        show "entry {} ?st b = entry {} st b" for b
          using no by (cases b) (auto simp: entry_def call_text_def)
      qed simp_all
      then show ?thesis
        using False call no kept by (auto simp: appendChatToolArguments_def Let_def is_plain_def)
    qed
  qed
qed

text \<open>A new call gets an item of its own, which the client does not see yet.\<close>

definition with_new_call :: "int \<Rightarrow> ChatToolCall \<Rightarrow> rand_source \<Rightarrow> go_string \<Rightarrow> ChatCompletionsToResponsesStreamState \<Rightarrow>
    ChatCompletionsToResponsesStreamState" where
  "with_new_call n c r x st = (put_call n c st)\<lparr>cb_Rand := r, cb_ToolItemIDs := (cb_ToolItemIDs st)(n \<mapsto> x),
     cb_nextOutputIndex := cb_nextOutputIndex st + 1,
     cb_ToolOutputIndex := (cb_ToolOutputIndex st)(n \<mapsto> cb_nextOutputIndex st)\<rparr>"

lemma storeNewCall_new: "\<exists>c r x. storeNewCall n toolCall st = with_new_call n c r x st"
  by (cases "ctc_ID toolCall = []")
     (auto simp: storeNewCall_def with_new_call_def stateItemID_def allocOutputIndex_def put_call_def Let_def split_beta
       intro!: exI)

lemma with_new_call_fields [simp]:
  "stored_call (with_new_call n c r x st) = (stored_call st)(n \<mapsto> c)"
  "cb_ToolOutputIndex (with_new_call n c r x st) = (cb_ToolOutputIndex st)(n \<mapsto> cb_nextOutputIndex st)"
  "cb_ToolItemIDs (with_new_call n c r x st) = (cb_ToolItemIDs st)(n \<mapsto> x)"
  "cb_ToolCalls (with_new_call n c r x st) = AList.update n c (cb_ToolCalls st)"
  "cb_toolAnnounced (with_new_call n c r x st) = cb_toolAnnounced st" "cb_toolIsCustom (with_new_call n c r x st) = cb_toolIsCustom st"
  "cb_toolIsToolSearch (with_new_call n c r x st) = cb_toolIsToolSearch st"
  "cb_nextOutputIndex (with_new_call n c r x st) = cb_nextOutputIndex st + 1"
  "cb_ReasoningOpen (with_new_call n c r x st) = cb_ReasoningOpen st" "cb_ReasoningDone (with_new_call n c r x st) = cb_ReasoningDone st"
  "cb_Reasoning (with_new_call n c r x st) = cb_Reasoning st" "cb_Text (with_new_call n c r x st) = cb_Text st"
  "cb_ReasoningItemID (with_new_call n c r x st) = cb_ReasoningItemID st" "cb_MessageItemID (with_new_call n c r x st) = cb_MessageItemID st"
  "cb_ReasoningIndex (with_new_call n c r x st) = cb_ReasoningIndex st" "cb_MessageIndex (with_new_call n c r x st) = cb_MessageIndex st"
  by (simp_all add: with_new_call_def put_call_def stored_call_def fun_eq_iff update_conv')

lemma calls_ok_new:
  assumes "calls_ok n st" and "0 \<le> n"
  shows "calls_ok (n + 1) (with_new_call n c r x st)"
proof -
  have "distinct (map fst (AList.update n c (cb_ToolCalls st)))"
    using assms(1) by (auto simp: calls_ok_def intro: distinct_update)
  then show ?thesis using assms unfolding calls_ok_def by auto
qed

lemma lead_new_call:
  "items_lead (items_inv (True, n)) (\<lambda>st. ([], storeNewCall n toolCall st)) (items_inv (True, n + 1))"
proof (rule leadsI)
  fix st m assume inv: "items_inv (True, n) st m"
  then have slots: "slots_ok {} st m" and calls: "calls_ok n st" and n: "0 \<le> n"
    by (simp_all add: items_inv_def items_core_def)
  have none: "stored_call st n = None" using calls unfolding calls_ok_def by (metis less_irrefl)
  then have free: "cb_ToolOutputIndex st n = None" "\<not> go_get False (cb_toolAnnounced st n)"
    using calls unfolding calls_ok_def by auto
  obtain c r x where new: "storeNewCall n toolCall st = with_new_call n c r x st" using storeNewCall_new by blast
  have "slots_ok {} (with_new_call n c r x st) (m(cb_nextOutputIndex st := None))"
  proof (rule slots_alloc [OF slots])
    show "idx_of (with_new_call n c r x st) = (idx_of st)(CallItem n \<mapsto> cb_nextOutputIndex st)"
      by (rule ext) (simp add: idx_of_def split: owner.split)
    show "idx_of st (CallItem n) = None" by (simp add: idx_of_def free)
    show "entry {} (with_new_call n c r x st) b = entry {} st b" if "b \<noteq> CallItem n" for b
      using that by (cases b) (simp_all add: entry_def call_type_def call_text_def is_plain_def)
    show "None = entry {} (with_new_call n c r x st) (CallItem n)" using free by (simp add: entry_def)
  qed simp
  moreover have "m(cb_nextOutputIndex st := None) = m" using slots_fresh [OF slots] by (simp add: fun_upd_idem)
  ultimately show "\<exists>m'. accepts items_client m (fst ([], storeNewCall n toolCall st)) = Some m' \<and>
      items_inv (True, n + 1) (snd ([], storeNewCall n toolCall st)) m'"
    using inv calls_ok_new [OF calls n, of c r x] n
    by (simp add: new items_inv_def items_core_def message_iff_text_def)
qed

lemma lead_lookup:
  assumes "0 \<le> i" and "i \<le> n"
  shows "items_lead (items_inv (over, n)) (lookupChatToolCall i toolCall) (items_inv (True, max n (i + 1)))"
proof (rule leadsI)
  fix st m assume inv: "items_inv (over, n) st m"
  then have slots: "slots_ok {} st m" and calls: "calls_ok n st"
    by (simp_all add: items_inv_def items_core_def)
  show "\<exists>m'. accepts items_client m (fst (lookupChatToolCall i toolCall st)) = Some m' \<and>
      items_inv (True, max n (i + 1)) (snd (lookupChatToolCall i toolCall st)) m'"
  proof (cases "stored_call st i")
    case None
    then have "i = n" using calls assms unfolding calls_ok_def by (metis order_le_less)
    then have "items_lead (items_inv (over, n)) (registerChatToolCall i toolCall) (items_inv (True, max n (i + 1)))"
      unfolding registerChatToolCall_def
      using leads_then [OF lead_close_reasoning lead_new_call, of "(over, n)" toolCall] by simp
    then show ?thesis using inv None by (simp add: lookupChatToolCall_def leads_def)
  next
    case (Some old)
    let ?call = "refreshChatToolCall toolCall old"
    have args: "cfc_Arguments (ctc_Function ?call) = cfc_Arguments (ctc_Function old)"
      by (simp add: refreshChatToolCall_def Let_def)
    have "i < n" using calls Some unfolding calls_ok_def by (metis option.distinct(1))
    then have over: "over" "max n (i + 1) = n" using inv assms(1) by (auto simp: items_inv_def items_core_def)
    have "slots_ok {} (put_call i ?call st) m"
      by (rule slots_same [OF slots]) (simp_all add: entry_put_call [where old = old] Some args)
    moreover have "calls_ok n (put_call i ?call st)" using calls Some by simp
    ultimately show ?thesis
      using inv Some over by (simp add: lookupChatToolCall_def items_inv_def items_core_def)
  qed
qed

interpretation cb_call_items: related_converter cb_tool_call call_order items_client items_inv
proof
  fix u u' call assume order: "call_order u call = Some u'"
  let ?i = "go_get 0 (ctc_Index call)"
  obtain over n where u: "u = (over, n)" by fastforce
  have i: "0 \<le> ?i" "?i \<le> n" "u' = (True, max n (?i + 1))"
    using order by (auto simp: call_order_def u Let_def split: if_splits)
  show "items_lead (items_inv u) (cb_tool_call call) (items_inv u')"
    unfolding cb_tool_call_def Let_def u i(3)
    by (intro leads_then [OF lead_lookup [OF i(1,2)]] leads_then [OF lead_announce] lead_arguments)
qed

interpretation cb_choice_items: related_converter cb_choice choice_order items_client items_inv
proof
  fix u u' ch assume order: "choice_order u ch = Some u'"
  obtain over n where u: "u = (over, n)" by fastforce
  have calls: "accepts call_order (over \<or> go_get [] (cd_Content (ccc_Delta ch)) \<noteq> [], n) (cd_ToolCalls (ccc_Delta ch)) = Some u'"
    and reasoning: "go_get [] (cd_ReasoningContent (ccc_Delta ch)) \<noteq> [] \<Longrightarrow> \<not> over"
    using order by (auto simp: choice_order_def u split: if_splits)
  have fin: "items_lead (items_inv u') (cb_finish fr) (items_inv u')" for fr
    by (rule leadsI) (simp add: cb_finish_def items_inv_def split: option.splits)
  show "items_lead (items_inv u) (cb_choice ch) (items_inv u')"
    unfolding cb_choice_def u
    by (intro leads_then [OF lead_reasoning [OF reasoning]] leads_then [OF lead_content]
        leads_then [OF cb_call_items.run_leads [OF calls]] fin)
qed

interpretation cb_chunk_items: related_converter ChatCompletionsChunkToResponsesEvents chunk_order items_client items_inv
proof
  fix u u' c assume order: "chunk_order u c = Some u'"
  have "items_lead (items_inv u) (then_emit ensureChatToResponsesCreated (run_conv cb_choice (chk_Choices c))) (items_inv u')"
    using order unfolding chunk_order_def by (intro leads_then [OF lead_created] cb_choice_items.run_leads)
  moreover have "items_inv u (cb_chunk_header c st) m = items_inv u st m" for st m
  proof -
    have "idx_of (cb_chunk_header c st) = idx_of st" "entry K (cb_chunk_header c st) = entry K st"
      "stored_call (cb_chunk_header c st) = stored_call st" for K
      by (auto simp: fun_eq_iff idx_of_def entry_def call_type_def call_text_def is_plain_def stored_call_def
          split: owner.split)
    then show ?thesis
      by (simp add: items_inv_def items_core_def slots_ok_def calls_ok_def message_iff_text_def)
  qed
  ultimately show "items_lead (items_inv u) (ChatCompletionsChunkToResponsesEvents c) (items_inv u')"
    by (simp add: leads_def ChatCompletionsChunkToResponsesEvents_def)
qed

section \<open>The end of a stream\<close>

definition final_inv :: "int \<Rightarrow> owner set \<Rightarrow> ChatCompletionsToResponsesStreamState \<Rightarrow> client_items \<Rightarrow> bool" where
  "final_inv n K st m \<longleftrightarrow> slots_ok K st m \<and> calls_ok n st \<and> \<not> cb_ReasoningOpen st"

lemma lead_fallback: "items_lead (items_inv u) synthesizeChatReasoningFallbackMessage (items_inv u)"
proof (rule leadsI)
  fix st m assume inv: "items_inv u st m"
  then show "\<exists>m'. accepts items_client m (fst (synthesizeChatReasoningFallbackMessage st)) = Some m' \<and>
      items_inv u (snd (synthesizeChatReasoningFallbackMessage st)) m'"
    using lead_message_text [of "cb_Reasoning st" u]
    by (auto simp: synthesizeChatReasoningFallbackMessage_def leads_def Let_def simp del: then_emit_sel)
qed

lemma lead_close_message: "items_lead (items_inv (True, n)) closeChatMessageItem (final_inv n {MessageItem})"
proof (rule leadsI)
  fix st m assume inv: "items_inv (True, n) st m"
  then have slots: "slots_ok {} st m" and rest: "calls_ok n st" "\<not> cb_ReasoningOpen st"
    by (simp_all add: items_inv_def items_core_def)
  show "\<exists>m'. accepts items_client m (fst (closeChatMessageItem st)) = Some m' \<and>
      final_inv n {MessageItem} (snd (closeChatMessageItem st)) m'"
  proof (cases "cb_MessageItemID st = []")
    case True
    have "slots_ok {MessageItem} st m"
    proof (rule slots_same [OF slots])
      show "entry {MessageItem} st b = entry {} st b" if "idx_of st b \<noteq> None" for b
        using that True by (cases b) (simp_all add: entry_def idx_of_def)
    qed simp_all
    then show ?thesis using True rest by (simp add: closeChatMessageItem_def final_inv_def)
  next
    case False
    let ?k = "cb_MessageIndex st"
    let ?m = "m(?k \<mapsto> item_record (cb_MessageItemID st) ''message'' [] False)"
    have idx: "idx_of st MessageItem = Some ?k" using False by (simp add: idx_of_def)
    have at: "m ?k = Some (item_record (cb_MessageItemID st) ''message'' (cb_Text st) True)"
      using slots_okD(3) [OF slots idx] by (simp add: entry_def)
    have "slots_ok {MessageItem} st ?m"
    proof (rule slots_update [OF slots _ _ idx])
      show "entry {MessageItem} st b = entry {} st b" if "b \<noteq> MessageItem" for b
        using that by (cases b) (simp_all add: entry_def)
    qed (simp_all add: entry_def item_record_def)
    moreover have "accepts items_client m (fst (closeChatMessageItem st)) = Some ?m"
      using False event_done [of m, OF at]
      by (simp add: closeChatMessageItem_def accepts_append event_skip itemless_def message_output_def delivers_def
          parts_text_def output_text_of_def)
    moreover have "\<exists>q. snd (closeChatMessageItem st) = st\<lparr>cb_SequenceNumber := q\<rparr>"
      using False by (auto simp: closeChatMessageItem_def event_state)
    ultimately show ?thesis using rest by (auto simp: final_inv_def)
  qed
qed

text \<open>Closing a call that the client knows.\<close>

lemma close_announced_reads:
  assumes inv: "final_inv n K st m" and call: "stored_call st i = Some call" and announced: "go_get False (cb_toolAnnounced st i)"
    and itemID: "cb_ToolItemIDs st i = Some itemID" and open_item: "CallItem i \<notin> K"
  shows "\<exists>m'. accepts items_client m (fst (closeAnnouncedCall i itemID call st)) = Some m' \<and>
    final_inv n (insert (CallItem i) K) (snd (closeAnnouncedCall i itemID call st)) m'"
proof -
  have slots: "slots_ok K st m" and calls: "calls_ok n st" using inv by (simp_all add: final_inv_def)
  obtain k where k: "cb_ToolOutputIndex st i = Some k" using calls_okD [OF calls call] by metis
  let ?m = "m(k \<mapsto> item_record itemID (call_type st i) [] False)"
  have idx: "idx_of st (CallItem i) = Some k" by (simp add: idx_of_def k)
  have at: "m k = Some (item_record itemID (call_type st i) (call_text st i) True)"
    using slots_okD(3) [OF slots idx] announced open_item itemID by (simp add: entry_def go_get_def [of _ "Some _"])
  have "slots_ok (insert (CallItem i) K) st ?m"
  proof (rule slots_update [OF slots _ _ idx])
    show "entry (insert (CallItem i) K) st b = entry K st b" if "b \<noteq> CallItem i" for b
      using that by (cases b) (simp_all add: entry_def)
    show "Some (item_record itemID (call_type st i) [] False) = entry (insert (CallItem i) K) st (CallItem i)"
      using announced itemID by (simp add: entry_def item_record_def go_get_def [of _ "Some _"])
  qed simp_all
  moreover have "accepts items_client m (fst (closeAnnouncedCall i itemID call st)) = Some ?m"
  proof -
    have k0: "go_get 0 (cb_ToolOutputIndex st i) = k" by (simp add: k go_get_def)
    consider (custom) "go_get False (cb_toolIsCustom st i)"
      | (search) "\<not> go_get False (cb_toolIsCustom st i)" "go_get False (cb_toolIsToolSearch st i)"
      | (plain) "\<not> go_get False (cb_toolIsCustom st i)" "\<not> go_get False (cb_toolIsToolSearch st i)" by blast
    then show ?thesis
    proof cases
      case custom
      let ?in = "extractCustomToolCallInput (call_arguments call)"
      have at': "m k = Some (item_record itemID ''custom_tool_call'' [] True)"
        using at custom by (simp add: call_type_def call_text_def is_plain_def)
      let ?e = "ResponsesStreamEvent_zero\<lparr>re_OutputIndex := k, re_ItemID := itemID, re_Delta := ?in\<rparr>"
      let ?m1 = "m(k \<mapsto> item_record itemID ''custom_tool_call'' ?in True)"
      have "accepts items_client m (fst (chatToResponsesEvent ''response.custom_tool_call_input.delta'' ?e st)) = Some ?m1"
        using event_delta [of "''response.custom_tool_call_input.delta''" "''custom_tool_call''" m ?e "[]"] at'
        by (simp add: delta_item_def)
      moreover have "m = ?m1" if "?in = []" using at' that by (simp add: fun_upd_idem)
      ultimately show ?thesis
        using custom event_done [of ?m1 k itemID "''custom_tool_call''" ?in] event_done [of m, OF at']
        by (simp add: closeAnnouncedCall_def k0 Let_def accepts_append event_skip itemless_def custom_call_output_def
            delivers_def call_type_def)
    next
      case search
      then show ?thesis
        using event_done [of m, OF at]
        by (simp add: closeAnnouncedCall_def k0 Let_def tool_search_output_def delivers_def call_type_def)
    next
      case plain
      then show ?thesis
        using event_done [of m, OF at]
        by (simp add: closeAnnouncedCall_def k0 Let_def accepts_append event_skip itemless_def function_call_output_def
            delivers_def call_type_def call_text_def is_plain_def call call_arguments_def split_beta)
    qed
  qed
  moreover have "\<exists>q. snd (closeAnnouncedCall i itemID call st) = st\<lparr>cb_SequenceNumber := q\<rparr>"
    by (auto simp: closeAnnouncedCall_def event_state Let_def split_beta)
  ultimately show ?thesis using inv by (auto simp: final_inv_def)
qed

text \<open>The calls still to close.\<close>

definition close_order :: "int \<Rightarrow> (owner set, int) monitor" where
  "close_order n K i = (if 0 \<le> i \<and> i < n \<and> CallItem i \<notin> K then Some (insert (CallItem i) K) else None)"

lemma close_order_all:
  assumes "distinct is" and "\<And>i. i \<in> set is \<Longrightarrow> 0 \<le> i \<and> i < n \<and> CallItem i \<notin> K"
  shows "accepts (close_order n) K is = Some (K \<union> CallItem ` set is)"
  using assms
proof (induction "is" arbitrary: K)
  case (Cons i "is")
  have "close_order n K i = Some (insert (CallItem i) K)"
    using Cons.prems(2) [of i] by (simp add: close_order_def)
  moreover have "accepts (close_order n) (insert (CallItem i) K) is = Some (insert (CallItem i) K \<union> CallItem ` set is)"
    using Cons.prems by (intro Cons.IH) auto
  ultimately show ?case by simp
qed simp

interpretation cb_close_items: related_converter closeChatToolItem "close_order n" items_client "final_inv n" for n
proof
  fix K K' i assume order: "close_order n K i = Some K'"
  then have i: "0 \<le> i" "i < n" "CallItem i \<notin> K" "K' = insert (CallItem i) K"
    by (auto simp: close_order_def split: if_splits)
  show "items_lead (final_inv n K) (closeChatToolItem i) (final_inv n K')"
  proof (rule leadsI)
    fix st m assume inv: "final_inv n K st m"
    then have slots: "slots_ok K st m" and calls: "calls_ok n st" by (simp_all add: final_inv_def)
    obtain call where call: "stored_call st i = Some call" using calls i(1,2) unfolding calls_ok_def by blast
    obtain itemID where itemID: "cb_ToolItemIDs st i = Some itemID" using calls_okD [OF calls call] by metis
    let ?st = "snd (announceChatToolItem i call True st)"
    obtain m1 where m1: "accepts items_client m (fst (announceChatToolItem i call True st)) = Some m1"
      "slots_ok K ?st m1" "calls_ok n ?st"
      using announce_reads [OF slots calls call i(3)] by blast
    have kept: "stored_call ?st i = Some call" "cb_ToolItemIDs ?st i = Some itemID" "go_get False (cb_toolAnnounced ?st i)"
      using call itemID
      by (simp_all add: announceChatToolItem_def announcement_waits_def Let_def event_state go_get_def stored_call_def)
    have "final_inv n K ?st m1" using inv m1 by (simp add: final_inv_def)
    then obtain m2 where "accepts items_client m1 (fst (closeAnnouncedCall i itemID call ?st)) = Some m2"
      "final_inv n K' (snd (closeAnnouncedCall i itemID call ?st)) m2"
      using close_announced_reads [OF _ kept(1,3,2) i(3)] i(4) by blast
    then show "\<exists>m'. accepts items_client m (fst (closeChatToolItem i st)) = Some m' \<and>
        final_inv n K' (snd (closeChatToolItem i st)) m'"
      using m1(1) by (simp add: closeChatToolItem_def call itemID accepts_append)
  qed
qed

lemma calls_count:
  assumes "calls_ok n st" and "0 \<le> n"
  shows "int (length (cb_ToolCalls st)) = n"
proof -
  have "i \<in> fst ` set (cb_ToolCalls st) \<longleftrightarrow> 0 \<le> i \<and> i < n" for i
    using assms(1) unfolding calls_ok_def stored_call_def by (metis map_of_eq_None_iff)
  then have "fst ` set (cb_ToolCalls st) = {0 ..< n}" by (simp add: set_eq_iff)
  moreover have "card (fst ` set (cb_ToolCalls st)) = length (cb_ToolCalls st)"
    using assms(1) distinct_card [of "map fst (cb_ToolCalls st)"] by (simp add: calls_ok_def)
  ultimately show ?thesis using assms(2) by simp
qed

definition all_closed :: "client_items \<Rightarrow> bool" where
  "all_closed m \<longleftrightarrow> (\<forall>k it. m k = Some it \<longrightarrow> \<not> it_open it)"

lemma lead_close_calls:
  assumes "0 \<le> n"
  shows "items_lead (final_inv n {MessageItem}) closeChatToolItems (\<lambda>st m. all_closed m)"
proof (rule leadsI)
  fix st m assume inv: "final_inv n {MessageItem} st m"
  let ?K = "{MessageItem} \<union> CallItem ` {0 ..< n}"
  have count: "int (length (cb_ToolCalls st)) = n" using inv assms by (simp add: final_inv_def calls_count)
  have "distinct (call_indices st)" by (simp add: call_indices_def distinct_map)
  moreover have "set (call_indices st) = {0 ..< n}"
    using image_int_atLeastLessThan [of 0 "length (cb_ToolCalls st)"] by (simp add: call_indices_def count)
  ultimately have "accepts (close_order n) {MessageItem} (call_indices st) = Some ?K"
    using close_order_all [of "call_indices st" n "{MessageItem}"] by simp
  then have "items_lead (final_inv n {MessageItem}) (run_conv closeChatToolItem (call_indices st)) (final_inv n ?K)"
    by (rule cb_close_items.run_leads)
  then obtain m' where m': "accepts items_client m (fst (closeChatToolItems st)) = Some m'"
    "final_inv n ?K (snd (closeChatToolItems st)) m'"
    using inv unfolding closeChatToolItems_def leads_def by blast
  let ?st = "snd (closeChatToolItems st)"
  have "\<not> it_open it" if it: "m' k = Some it" for k it
  proof -
    have slots: "slots_ok ?K ?st m'" and calls: "calls_ok n ?st" and op: "\<not> cb_ReasoningOpen ?st"
      using m'(2) by (simp_all add: final_inv_def)
    obtain a where a: "idx_of ?st a = Some k" using slots_okD(4) [OF slots, of k] it by force
    have "entry ?K ?st a = Some it" using slots_okD(3) [OF slots a] it by simp
    moreover have "0 \<le> i \<and> i < n" if "a = CallItem i" for i
    proof -
      have "cb_ToolOutputIndex ?st i \<noteq> None" using a that by (simp add: idx_of_def)
      then show ?thesis using calls unfolding calls_ok_def by blast
    qed
    ultimately show ?thesis using op by (cases a) (auto simp: entry_def item_record_def split: if_splits)
  qed
  then show "\<exists>m'. accepts items_client m (fst (closeChatToolItems st)) = Some m' \<and> all_closed m'"
    using m'(1) by (auto simp: all_closed_def)
qed

lemma lead_completed: "items_lead (\<lambda>st m. all_closed m) emitChatCompleted (\<lambda>st m. True)"
  by (rule leadsI)
     (simp add: emitChatCompleted_def Let_def split_beta items_client_event items_client_def resp_terminal_def all_closed_def)

lemma lead_finalize:
  assumes "0 \<le> n"
  shows "items_lead (items_inv (over, n)) (then_emit cb_closing emitChatCompleted) (\<lambda>st m. True)"
proof -
  have "items_lead (items_inv (over, n)) closeChatReasoningItem (items_inv (True, n))"
    using lead_close_reasoning [of "(over, n)"] by simp
  then show ?thesis
    unfolding cb_closing_def
    by (intro leads_then [OF _ lead_completed] leads_then [OF lead_created]
        leads_then [OF _ leads_then [OF lead_fallback leads_then [OF lead_close_message lead_close_calls [OF assms]]]])
qed

text \<open>
  C7. When the upstream sends reasoning before content and calls and numbers its calls 0, 1, 2, ...,
  a strict client can follow the stream: every item is added once under an output index of its own,
  every delta reaches an item that is open and of its kind, every item is done once with exactly
  what its deltas said, late names, buffered arguments and custom tools included, and nothing is
  open when the response completes.
\<close>

theorem cb_items_followed:
  assumes "accepts chunk_order (False, 0) cs = Some u"
  shows "accepts items_client Map.empty (fst (cb_stream cs (chat_fallback_state m now r ct ts ns))) \<noteq> None"
proof -
  let ?s = "chat_fallback_state m now r ct ts ns"
  have "items_inv (False, 0) ?s Map.empty"
    by (auto simp: items_inv_def items_core_def slots_ok_def calls_ok_def idx_of_def message_iff_text_def stored_call_def
        chat_fallback_state_def NewChatCompletionsToResponsesStreamState_def go_get_def Let_def split_beta
        split: owner.splits)
  moreover have "items_lead (items_inv (False, 0)) (run_conv ChatCompletionsChunkToResponsesEvents cs) (items_inv u)"
    by (rule cb_chunk_items.run_leads [OF assms])
  ultimately obtain m1 where m1: "accepts items_client Map.empty (fst (run_conv ChatCompletionsChunkToResponsesEvents cs ?s)) = Some m1"
    "items_inv u (cb_ran cs ?s) m1" unfolding leads_def by blast
  obtain over n where u: "u = (over, n)" by fastforce
  have "0 \<le> n" using m1(2) by (simp add: u items_inv_def items_core_def)
  then obtain m2 where "accepts items_client m1 (fst (then_emit cb_closing emitChatCompleted (cb_ran cs ?s))) = Some m2"
    using m1(2) lead_finalize [of n over] unfolding u leads_def by blast
  then show ?thesis using m1(1) by (simp add: finalize_closing cb_completed_kept accepts_append)
qed

definition delta_chunk :: "go_string \<Rightarrow> go_string \<Rightarrow> ChatToolCall list \<Rightarrow> ChatCompletionsChunk" where
  "delta_chunk rc ct calls =
     \<lparr>chk_ID = ''c'', chk_Object = [], chk_Created = 0, chk_Model = [],
      chk_Choices = [\<lparr>ccc_Index = 0, ccc_Delta = ChatDelta_zero\<lparr>cd_Content := Some ct, cd_ReasoningContent := Some rc,
        cd_ToolCalls := calls\<rparr>, ccc_FinishReason = None\<rparr>],
      chk_Usage = None, chk_SystemFingerprint = [], chk_ServiceTier = []\<rparr>"

definition call_delta :: "int \<Rightarrow> go_string \<Rightarrow> go_string \<Rightarrow> ChatToolCall" where
  "call_delta i name args = \<lparr>ctc_Index = Some i, ctc_ID = ''call_1'', ctc_Type = ''function'',
     ctc_Function = \<lparr>cfc_Name = name, cfc_Arguments = args\<rparr>\<rparr>"

definition orderly_chunks :: "ChatCompletionsChunk list" where
  "orderly_chunks = [delta_chunk ''why'' [] [], delta_chunk [] ''text'' [], delta_chunk [] [] [call_delta 0 [] ''{'', call_delta 1 ''g'' ''{}''],
     delta_chunk [] [] [call_delta 0 ''f'' ''}'']]"

theorem cb_items_followed_witness:
  "accepts items_client Map.empty (fst (cb_stream orderly_chunks
     (chat_fallback_state ''m'' 0 \<lparr>rs_byte = (\<lambda>_. 0), rs_pos = 0\<rparr> [(''f'', True)] True []))) \<noteq> None"
proof -
  have "accepts chunk_order (False, 0) orderly_chunks = Some (True, 2)"
    by (simp add: orderly_chunks_def chunk_order_def choice_order_def call_order_def delta_chunk_def call_delta_def go_get_def
        ChatDelta_zero_def)
  then show ?thesis by (rule cb_items_followed)
qed

text \<open>
  A stream whose only call has the index 1 leaves that call open: its item is added but never done,
  and the response does not mention it.
\<close>

lemma cb_sparse_call_left_open:
  fixes r
  defines "es \<equiv> fst (cb_stream [delta_chunk [] [] [call_delta 1 ''f'' ''{}'']] (chat_fallback_state ''m'' 0 r [] False []))"
  shows "map re_Type es = [''response.created'', ''response.output_item.added'', ''response.function_call_arguments.delta'',
      ''response.completed'']"
    and "map_option rr_Output (re_Response (last es)) = Some []"
  unfolding es_def
  by (simp_all add: chat_fallback_state_def NewChatCompletionsToResponsesStreamState_def Let_def split_beta
      ChatCompletionsChunkToResponsesEvents_def cb_chunk_header_def delta_chunk_def call_delta_def ChatDelta_zero_def cb_choice_def
      cb_reasoning_def cb_content_def cb_finish_def cb_tool_call_def lookupChatToolCall_def registerChatToolCall_def storeNewCall_def
      closeChatReasoningItem_def stateItemID_def allocOutputIndex_def put_call_def stored_call_def announceStoredCall_def
      announceChatToolItem_def announcement_waits_def announced_state_def is_function_tool_def is_custom_tool_def is_tool_search_def
      tool_namespace_def go_get_def appendChatToolArguments_def add_arguments_def chatToResponsesEvent_def
      ensureChatToResponsesCreated_def FinalizeChatCompletionsResponsesStream_def synthesizeChatReasoningFallbackMessage_def
      closeChatMessageItem_def closeChatToolItems_def call_indices_def closeChatToolItem_def emitChatCompleted_def chatOutput_def
      chatCallOutput_def)

end
