(* ===== verification/Chat_To_Anth_Whole.thy ===== *)
theory Chat_To_Anth_Whole
  imports Chat_To_Anth Chat_To_Resp Resp_To_Anth
begin

text \<open>
  The non-streaming half of \<^verbatim>\<open>chatcompletions_anthropic_bridge.go\<close>. Its comments promise that the
  direct conversion is equivalent to the composition of \<^verbatim>\<open>ChatCompletionsResponseToResponses\<close> and
  \<^verbatim>\<open>ResponsesToAnthropic\<close>; the theorem says when it is, the last lemmas where it is not.
\<close>

section \<open>The direct conversion\<close>

definition toolCallToAnthropicBlock :: "ChatToolCall \<Rightarrow> AnthropicContentBlock" where
  "toolCallToAnthropicBlock toolCall =
     (let arguments = cfc_Arguments (ctc_Function toolCall);
          arguments = (if go_trim_space arguments = [] then ''{}'' else arguments);
          name = cfc_Name (ctc_Function toolCall)
      in tool_use_block (fromResponsesCallID (ctc_ID toolCall)) name (sanitizeAnthropicToolUseInput name arguments))"

definition chatMessageToAnthropicBlocks :: "ChatMessage \<Rightarrow> AnthropicContentBlock list" where
  "chatMessageToAnthropicBlocks message =
     (let thinking = (if cm_ReasoningContent message \<noteq> [] then [thinking_block (cm_ReasoningContent message) []] else []);
          text = shownText message;
          texts = (if text \<noteq> [] \<or> cm_ToolCalls message = [] then [text_block text] else [])
      in thinking @ texts @ map toolCallToAnthropicBlock (cm_ToolCalls message))"

definition chatFinishReasonToAnthropicStopReason :: "go_string \<Rightarrow> AnthropicContentBlock list \<Rightarrow> go_string" where
  "chatFinishReasonToAnthropicStopReason reason blocks =
     (if reason = ''length'' then ''max_tokens''
      else if reason = ''tool_calls'' then ''tool_use''
      else if containsAnthropicToolUseBlock blocks then ''tool_use'' else ''end_turn'')"

definition ChatCompletionsResponseToAnthropic ::
    "ChatCompletionsResponse option \<Rightarrow> go_string \<Rightarrow> rand_source \<Rightarrow> AnthropicResponse \<times> rand_source" where
  "ChatCompletionsResponseToAnthropic resp model r =
     (let out = AnthropicResponse_zero\<lparr>ar_Type := ''message'', ar_Role := ''assistant'', ar_Model := model\<rparr>;
          out =
            (case resp of
               None \<Rightarrow> out
             | Some p \<Rightarrow>
                 let out = out\<lparr>ar_ID := ccr_ID p\<rparr>;
                     out = (if ar_Model out = [] then out\<lparr>ar_Model := ccr_Model p\<rparr> else out);
                     out =
                       (case ccr_Choices p of
                          [] \<Rightarrow> out
                        | choice # _ \<Rightarrow>
                            let out = out\<lparr>ar_Content := chatMessageToAnthropicBlocks (cc_Message choice)\<rparr> in
                            out\<lparr>ar_StopReason := AnthropicStopReasonPtr
                              (chatFinishReasonToAnthropicStopReason (cc_FinishReason choice) (ar_Content out))\<rparr>)
                 in if ccr_Usage p \<noteq> None then out\<lparr>ar_Usage := chatUsageToAnthropicUsage (ccr_Usage p)\<rparr> else out);
          out = (if ar_Content out = [] then out\<lparr>ar_Content := [text_block []]\<rparr> else out);
          out = (if AnthropicStopReasonString (ar_StopReason out) = []
                 then out\<lparr>ar_StopReason := AnthropicStopReasonPtr (chatFinishReasonToAnthropicStopReason [] (ar_Content out))\<rparr>
                 else out)
      in if ar_ID out = [] then (let (i, r) = generateResponsesID r in (out\<lparr>ar_ID := i\<rparr>, r)) else (out, r))"

section \<open>Items and blocks\<close>

lemma message_output_blocks [simp]:
  "anthropic_item_blocks (message_output i t) = (if t = [] then [] else [text_block t])"
  by (simp add: anthropic_item_blocks_def message_output_def output_text_parts_def output_text_of_def)

lemma reasoning_output_blocks [simp]:
  "t \<noteq> [] \<Longrightarrow> anthropic_item_blocks (reasoning_output i t) = [thinking_block t []]"
  by (simp add: anthropic_item_blocks_def reasoning_output_def summary_text_def summary_of_def ResponsesOutput_zero_def)

lemma call_output_blocks:
  "concat (map anthropic_item_blocks (fst (toolCallToResponsesOutput [] False [] c r))) = [toolCallToAnthropicBlock c]"
  by (simp add: toolCallToResponsesOutput_def call_arguments_def toolCallToAnthropicBlock_def function_call_output_def
      anthropic_item_blocks_def go_get_def Let_def split_beta)

lemma call_outputs_blocks:
  "concat (map anthropic_item_blocks (fst (run_conv (toolCallToResponsesOutput [] False []) cs r))) =
     map toolCallToAnthropicBlock cs"
  by (induction cs arbitrary: r) (simp_all add: call_output_blocks)


lemma output_blocks:
  "concat (map anthropic_item_blocks (fst (chatMessageToResponsesOutput message [] False [] r))) =
     (if cm_ReasoningContent message \<noteq> [] then [thinking_block (cm_ReasoningContent message) []] else []) @
     (if shownText message \<noteq> [] then [text_block (shownText message)] else []) @
     map toolCallToAnthropicBlock (cm_ToolCalls message)"
  by (simp add: chatMessageToResponsesOutput_def call_outputs_blocks Let_def split_beta)



lemma outputs_nonempty: "fst (chatMessageToResponsesOutput message [] False [] r) \<noteq> []"
  by (cases "cm_ToolCalls message")
     (auto simp: chatMessageToResponsesOutput_def toolCallToResponsesOutput_def Let_def split_beta split: option.splits)



section \<open>Equivalence\<close>



lemma stop_reason_nonempty [simp]: "chatFinishReasonToAnthropicStopReason reason blocks \<noteq> []"
  by (simp add: chatFinishReasonToAnthropicStopReason_def)

lemma blocks_nonempty [simp]: "chatMessageToAnthropicBlocks message \<noteq> []"
  by (simp add: chatMessageToAnthropicBlocks_def Let_def)

lemma no_tool_use [simp]: "containsAnthropicToolUseBlock [text_block t] = False"
  by (simp add: containsAnthropicToolUseBlock_def text_block_def)


lemma direct_fields:
  fixes p model r
  defines "d \<equiv> fst (ChatCompletionsResponseToAnthropic (Some p) model r)"
  shows "ar_ID d = fst (response_id (ccr_ID p) r)" "ar_Type d = ''message''" "ar_Role d = ''assistant''"
    "ar_Model d = (if model = [] then ccr_Model p else model)" "ar_StopSequence d = None"
    "ar_Content d = (case ccr_Choices p of [] \<Rightarrow> [text_block []] | ch # _ \<Rightarrow> chatMessageToAnthropicBlocks (cc_Message ch))"
    "ar_StopReason d = Some (case ccr_Choices p of
       [] \<Rightarrow> ''end_turn''
     | ch # _ \<Rightarrow> chatFinishReasonToAnthropicStopReason (cc_FinishReason ch) (chatMessageToAnthropicBlocks (cc_Message ch)))"
    "ar_Usage d = chatUsageToAnthropicUsage (ccr_Usage p)"
proof -
  note defs = ChatCompletionsResponseToAnthropic_def d_def AnthropicResponse_zero_def AnthropicStopReasonString_def
    AnthropicStopReasonPtr_def Let_def split_beta
  show "ar_ID d = fst (response_id (ccr_ID p) r)" by (simp add: defs response_id_def split: list.split)
  show "ar_Type d = ''message''" "ar_Role d = ''assistant''" "ar_StopSequence d = None"
    "ar_Model d = (if model = [] then ccr_Model p else model)" by (simp_all add: defs split: list.split)
  show "ar_Content d = (case ccr_Choices p of [] \<Rightarrow> [text_block []] | ch # _ \<Rightarrow> chatMessageToAnthropicBlocks (cc_Message ch))"
    by (simp add: defs split: list.split)
  show "ar_StopReason d = Some (case ccr_Choices p of
       [] \<Rightarrow> ''end_turn''
     | ch # _ \<Rightarrow> chatFinishReasonToAnthropicStopReason (cc_FinishReason ch) (chatMessageToAnthropicBlocks (cc_Message ch)))"
    by (simp add: defs chatFinishReasonToAnthropicStopReason_def [of "[]"] split: list.split)
  show "ar_Usage d = chatUsageToAnthropicUsage (ccr_Usage p)"
    by (simp add: defs chatUsageToAnthropicUsage_def [of None] split: list.split)
qed

lemma responses_fields:
  fixes p model r
  defines "q \<equiv> fst (ChatCompletionsResponseToResponses (Some p) model [] False [] r)"
  shows "rr_ID q = fst (response_id (ccr_ID p) r)" "rr_Model q = (if model = [] then ccr_Model p else model)"
    "concat (map anthropic_item_blocks (rr_Output q)) = (case ccr_Choices p of
       [] \<Rightarrow> []
     | ch # _ \<Rightarrow> concat (map anthropic_item_blocks
         (fst (chatMessageToResponsesOutput (cc_Message ch) [] False [] (snd (response_id (ccr_ID p) r))))))"
    "rr_Status q = (case ccr_Choices p of
       [] \<Rightarrow> ''completed'' | ch # _ \<Rightarrow> if cc_FinishReason ch = ''length'' then ''incomplete'' else ''completed'')"
    "rr_IncompleteDetails q = (case ccr_Choices p of
       [] \<Rightarrow> None
     | ch # _ \<Rightarrow> if cc_FinishReason ch = ''length'' then Some \<lparr>rid_Reason = ''max_output_tokens''\<rparr> else None)"
    "rr_Usage q = ChatUsageToResponsesUsage (ccr_Usage p)"
proof -
  note defs = ChatCompletionsResponseToResponses_def q_def ResponsesResponse_zero_def Let_def split_beta
  show "rr_ID q = fst (response_id (ccr_ID p) r)" "rr_Model q = (if model = [] then ccr_Model p else model)"
    by (simp_all add: defs split: list.split)
  show "concat (map anthropic_item_blocks (rr_Output q)) = (case ccr_Choices p of
       [] \<Rightarrow> []
     | ch # _ \<Rightarrow> concat (map anthropic_item_blocks
         (fst (chatMessageToResponsesOutput (cc_Message ch) [] False [] (snd (response_id (ccr_ID p) r))))))"
    by (simp add: defs emptyResponsesMessageOutput_def outputs_nonempty split: list.split)
  show "rr_Status q = (case ccr_Choices p of
       [] \<Rightarrow> ''completed'' | ch # _ \<Rightarrow> if cc_FinishReason ch = ''length'' then ''incomplete'' else ''completed'')"
    by (simp add: defs outputs_nonempty split: list.split)
  show "rr_IncompleteDetails q = (case ccr_Choices p of
       [] \<Rightarrow> None
     | ch # _ \<Rightarrow> if cc_FinishReason ch = ''length'' then Some \<lparr>rid_Reason = ''max_output_tokens''\<rparr> else None)"
    by (simp add: defs outputs_nonempty split: list.split)
  show "rr_Usage q = ChatUsageToResponsesUsage (ccr_Usage p)"
    by (simp add: defs ChatUsageToResponsesUsage_def [of None] split: list.split)
qed


definition chat_response :: "ChatMessage \<Rightarrow> go_string \<Rightarrow> ChatCompletionsResponse" where
  "chat_response message reason =
     \<lparr>ccr_ID = ''c'', ccr_Object = [], ccr_Created = 0, ccr_Model = ''m'',
      ccr_Choices = [\<lparr>cc_Index = 0, cc_Message = message, cc_FinishReason = reason\<rparr>], ccr_Usage = None,
      ccr_SystemFingerprint = [], ccr_ServiceTier = []\<rparr>"


text \<open>
  A finish reason \<^verbatim>\<open>tool_calls\<close> without a call stops for a tool on the direct way only, and blank
  reasoning gets an empty text block on the direct way only.
\<close>

lemma no_content_text [simp]: "chatMessageContentText [] = []"
  by (simp add: chatMessageContentText_def bytesTrimSpace_def)

lemma direct_stops_without_tool:
  fixes r
  defines "resp \<equiv> chat_response (ChatMessage_zero\<lparr>cm_ReasoningContent := ''why''\<rparr>) ''tool_calls''"
  shows "ar_StopReason (fst (ChatCompletionsResponseToAnthropic (Some resp) ''m'' r)) = Some ''tool_use''"
    and "ar_StopReason (ResponsesToAnthropic
      (fst (ChatCompletionsResponseToResponses (Some resp) ''m'' [] False [] r)) ''m'') = Some ''end_turn''"
proof -
  show "ar_StopReason (fst (ChatCompletionsResponseToAnthropic (Some resp) ''m'' r)) = Some ''tool_use''"
    by (simp add: direct_fields resp_def chat_response_def chatFinishReasonToAnthropicStopReason_def)
  have "containsAnthropicToolUseBlock (if bs = [] then [text_block []] else bs) = False"
    if "bs = concat (map anthropic_item_blocks (fst (chatMessageToResponsesOutput
          (ChatMessage_zero\<lparr>cm_ReasoningContent := ''why''\<rparr>) [] False [] r)))" for bs r
    unfolding that output_blocks
    by (simp add: ChatMessage_zero_def containsAnthropicToolUseBlock_def thinking_block_def text_block_def)
  from this [OF refl]
  show "ar_StopReason (ResponsesToAnthropic
      (fst (ChatCompletionsResponseToResponses (Some resp) ''m'' [] False [] r)) ''m'') = Some ''end_turn''"
    by (simp add: ResponsesToAnthropic_def responses_fields resp_def chat_response_def Let_def
        responsesStatusToAnthropicStopReason_def AnthropicStopReasonPtr_def del: concat_eq_Nil_conv Nil_eq_concat_conv)
qed

lemma direct_shows_blank_text:
  fixes r
  defines "resp \<equiv> chat_response (ChatMessage_zero\<lparr>cm_ReasoningContent := '' ''\<rparr>) ''stop''"
  shows "ar_Content (fst (ChatCompletionsResponseToAnthropic (Some resp) ''m'' r)) = [thinking_block '' '' [], text_block []]"
    and "ar_Content (ResponsesToAnthropic
      (fst (ChatCompletionsResponseToResponses (Some resp) ''m'' [] False [] r)) ''m'') = [thinking_block '' '' []]"
proof -
  have blank: "go_trim_space '' '' = []" by code_simp
  show "ar_Content (fst (ChatCompletionsResponseToAnthropic (Some resp) ''m'' r)) = [thinking_block '' '' [], text_block []]"
    by (simp add: direct_fields resp_def chat_response_def chatMessageToAnthropicBlocks_def shownText_def blank
        ChatMessage_zero_def)
  have "concat (map anthropic_item_blocks (fst (chatMessageToResponsesOutput
      (ChatMessage_zero\<lparr>cm_ReasoningContent := '' ''\<rparr>) [] False [] r))) = [thinking_block '' '' []]" for r
    unfolding output_blocks by (simp add: shownText_def blank ChatMessage_zero_def)
  then show "ar_Content (ResponsesToAnthropic
      (fst (ChatCompletionsResponseToResponses (Some resp) ''m'' [] False [] r)) ''m'') = [thinking_block '' '' []]"
    by (simp add: ResponsesToAnthropic_def responses_fields resp_def chat_response_def Let_def
        del: concat_eq_Nil_conv Nil_eq_concat_conv)
qed

end
