(* ===== verification/Keyword_Matcher.thy ===== *)
theory Keyword_Matcher
  imports Go_Json "HOL-Library.Char_ord" "HOL-Library.Monad_Syntax"
begin

text \<open>
  The keyword filter of content moderation: \<^verbatim>\<open>service/content_moderation_keyword_matcher.go\<close> and
  the functions of \<^verbatim>\<open>service/content_moderation.go\<close> around it.

  The matcher is an automaton over bytes. \<^verbatim>\<open>newContentModerationKeywordMatcher\<close> builds a trie whose
  nodes and edges are slices indexed by \<^verbatim>\<open>int32\<close>, the edges of a node chained by \<^verbatim>\<open>nextSibling\<close>,
  links the failure transitions in breadth-first order, and then packs the edges of each node into
  a sorted slice that \<^verbatim>\<open>next\<close> searches by bisection.

  The slices are lists, and reading or writing outside a slice is \<open>None\<close>, the panic of Go. The loops that
  follow links through the slices have no bound of their own: they are partial functions into
  \<open>option\<close>, so that \<open>None\<close> is also the loop that does not end. A statement that the result is \<open>Some\<close>
  says that the code returns.

  The conversions between \<^verbatim>\<open>int\<close>, \<^verbatim>\<open>int32\<close>, \<^verbatim>\<open>uint32\<close> and \<^verbatim>\<open>uint16\<close> wrap as in Go. A table of 256
  entries indexed by a byte is a function on bytes.
\<close>

section \<open>Go values\<close>

definition go_int32 :: "int \<Rightarrow> int" where
  "go_int32 x = (x + 2 ^ 31) mod 2 ^ 32 - 2 ^ 31"

definition go_uint32 :: "int \<Rightarrow> int" where
  "go_uint32 x = x mod 2 ^ 32"

definition go_uint16 :: "int \<Rightarrow> int" where
  "go_uint16 x = x mod 2 ^ 16"

definition slice_at :: "'a list \<Rightarrow> int \<Rightarrow> 'a option" where
  "slice_at xs i = (if 0 \<le> i \<and> i < int (length xs) then Some (xs ! nat i) else None)"

definition slice_put :: "'a list \<Rightarrow> int \<Rightarrow> 'a \<Rightarrow> 'a list option" where
  "slice_put xs i x = (if 0 \<le> i \<and> i < int (length xs) then Some (xs[nat i := x]) else None)"

text \<open>
  \<^verbatim>\<open>strings.ToLower\<close> maps ASCII letters byte by byte; outside ASCII it uses the Unicode tables of the
  standard library, which are the parameter \<open>unicode\<close>.
\<close>

definition ascii_lower :: "char \<Rightarrow> char" where
  "ascii_lower c =
     (let n = of_char c :: nat in if 65 \<le> n \<and> n \<le> 90 then char_of (n + 32) else c)"

definition go_to_lower :: "(go_string \<Rightarrow> go_string) \<Rightarrow> go_string \<Rightarrow> go_string" where
  "go_to_lower unicode s =
     (if list_all (\<lambda>c. of_char c < (128 :: nat)) s then map ascii_lower s else unicode s)"

text \<open>\<^verbatim>\<open>strings.Contains\<close>.\<close>

fun go_contains :: "go_string \<Rightarrow> go_string \<Rightarrow> bool" where
  "go_contains [] sub \<longleftrightarrow> sub = []"
| "go_contains (c # s) sub \<longleftrightarrow> go_has_prefix (c # s) sub \<or> go_contains s sub"

section \<open>The data\<close>

record contentModerationKeywordNode =
  failure :: int
  bestKeyword :: int
  edgeStart :: int
  edgeCount :: int

record contentModerationKeywordEdge =
  target :: int
  label :: char

record contentModerationKeywordBuildEdge =
  buildTarget :: int
  nextSibling :: int
  buildLabel :: char

record contentModerationKeywordMatcher =
  nodes :: "contentModerationKeywordNode list"
  edges :: "contentModerationKeywordEdge list"
  rootTransitions :: "char \<Rightarrow> int"
  originalKeywords :: "go_string list"

type_synonym build_nodes = "contentModerationKeywordNode list"
type_synonym build_edges = "contentModerationKeywordBuildEdge list"

section \<open>Edges of the trie under construction\<close>

definition newContentModerationKeywordNode :: contentModerationKeywordNode where
  "newContentModerationKeywordNode =
     \<lparr>failure = 0, bestKeyword = -1, edgeStart = 0, edgeCount = 0\<rparr>"

definition contentModerationKeywordBuildFirstEdge :: "contentModerationKeywordNode \<Rightarrow> int" where
  "contentModerationKeywordBuildFirstEdge node =
     (if edgeStart node = 0 then -1 else go_int32 (go_uint32 (edgeStart node - 1)))"

partial_function (option) find_sibling ::
    "build_edges \<Rightarrow> char \<Rightarrow> int \<Rightarrow> int option" where
  "find_sibling es l edgeIndex =
     (if edgeIndex < 0 then Some (-1)
      else do {
        e \<leftarrow> slice_at es edgeIndex;
        if buildLabel e = l then Some (buildTarget e) else find_sibling es l (nextSibling e)
      })"

definition contentModerationKeywordBuildTransition ::
    "build_nodes \<Rightarrow> build_edges \<Rightarrow> int \<Rightarrow> char \<Rightarrow> int option" where
  "contentModerationKeywordBuildTransition ns es state l =
     (if state < 0 \<or> int (length ns) \<le> state then Some (-1)
      else find_sibling es l (contentModerationKeywordBuildFirstEdge (ns ! nat state)))"

definition minKeywordIndex :: "int \<Rightarrow> int \<Rightarrow> int" where
  "minKeywordIndex left right =
     (if left < 0 then right else if right < 0 \<or> left < right then left else right)"

text \<open>
  The loop \<^verbatim>\<open>for edgeIndex := ...; edgeIndex >= 0; edgeIndex = buildEdges[edgeIndex].nextSibling\<close>
  that visits the edges of a node, with its body as an argument.
\<close>

partial_function (option) for_siblings ::
    "build_edges \<Rightarrow> (contentModerationKeywordBuildEdge \<Rightarrow> 'a \<Rightarrow> 'a option) \<Rightarrow> int \<Rightarrow> 'a \<Rightarrow> 'a option" where
  "for_siblings es body edgeIndex acc =
     (if edgeIndex < 0 then Some acc
      else do {
        e \<leftarrow> slice_at es edgeIndex;
        acc \<leftarrow> body e acc;
        for_siblings es body (nextSibling e) acc
      })"

section \<open>Inserting the keywords\<close>

definition insert_label ::
    "char \<Rightarrow> build_nodes \<times> build_edges \<times> int \<Rightarrow> (build_nodes \<times> build_edges \<times> int) option" where
  "insert_label l = (\<lambda>(ns, es, state). do {
     nxt \<leftarrow> contentModerationKeywordBuildTransition ns es state l;
     if nxt < 0 then do {
       let nxt = go_int32 (int (length ns));
       let ns = ns @ [newContentModerationKeywordNode];
       node \<leftarrow> slice_at ns state;
       let es = es @ [\<lparr>buildTarget = nxt,
                       nextSibling = contentModerationKeywordBuildFirstEdge node, buildLabel = l\<rparr>];
       ns \<leftarrow> slice_put ns state (node\<lparr>edgeStart := go_uint32 (int (length es))\<rparr>);
       Some (ns, es, nxt)
     } else Some (ns, es, nxt)
   })"

primrec insert_labels ::
    "go_string \<Rightarrow> build_nodes \<times> build_edges \<times> int \<Rightarrow> (build_nodes \<times> build_edges \<times> int) option" where
  "insert_labels [] t = Some t"
| "insert_labels (l # ls) t = do { t \<leftarrow> insert_label l t; insert_labels ls t }"

definition insert_keyword ::
    "(go_string \<Rightarrow> go_string) \<Rightarrow> int \<Rightarrow> go_string \<Rightarrow> build_nodes \<times> build_edges \<Rightarrow>
     (build_nodes \<times> build_edges) option" where
  "insert_keyword unicode keywordIndex keyword = (\<lambda>(ns, es).
     if keyword = [] then Some (ns, es)
     else do {
       (ns, es, state) \<leftarrow> insert_labels (go_to_lower unicode keyword) (ns, es, 0);
       node \<leftarrow> slice_at ns state;
       let current = bestKeyword node;
       if current < 0 \<or> go_int32 keywordIndex < current
       then do {
         ns \<leftarrow> slice_put ns state (node\<lparr>bestKeyword := go_int32 keywordIndex\<rparr>);
         Some (ns, es)
       } else Some (ns, es)
     })"

fun insert_keywords ::
    "(go_string \<Rightarrow> go_string) \<Rightarrow> int \<Rightarrow> go_string list \<Rightarrow> build_nodes \<times> build_edges \<Rightarrow>
     (build_nodes \<times> build_edges) option" where
  "insert_keywords unicode keywordIndex [] t = Some t"
| "insert_keywords unicode keywordIndex (kw # kws) t = do {
     t \<leftarrow> insert_keyword unicode keywordIndex kw t;
     insert_keywords unicode (keywordIndex + 1) kws t
   }"

section \<open>Failure links\<close>

partial_function (option) follow_failure ::
    "build_nodes \<Rightarrow> build_edges \<Rightarrow> char \<Rightarrow> int \<Rightarrow> int \<Rightarrow> int option" where
  "follow_failure ns es l fl fallback =
     (if fallback < 0 \<and> fl \<noteq> 0 then do {
        node \<leftarrow> slice_at ns fl;
        fallback \<leftarrow> contentModerationKeywordBuildTransition ns es (failure node) l;
        follow_failure ns es l (failure node) fallback
      } else Some fallback)"

definition link_edge ::
    "build_edges \<Rightarrow> int \<Rightarrow> contentModerationKeywordBuildEdge \<Rightarrow> build_nodes \<times> int list \<Rightarrow>
     (build_nodes \<times> int list) option" where
  "link_edge es state e = (\<lambda>(ns, queue). do {
     node \<leftarrow> slice_at ns state;
     fallback \<leftarrow> contentModerationKeywordBuildTransition ns es (failure node) (buildLabel e);
     fallback \<leftarrow> follow_failure ns es (buildLabel e) (failure node) fallback;
     child \<leftarrow> slice_at ns (buildTarget e);
     let child = (if 0 \<le> fallback then child\<lparr>failure := fallback\<rparr> else child);
     ns \<leftarrow> slice_put ns (buildTarget e) child;
     fnode \<leftarrow> slice_at ns (failure child);
     ns \<leftarrow> slice_put ns (buildTarget e)
             (child\<lparr>bestKeyword := minKeywordIndex (bestKeyword child) (bestKeyword fnode)\<rparr>);
     Some (ns, queue @ [buildTarget e])
   })"

partial_function (option) link_queue ::
    "build_edges \<Rightarrow> int \<Rightarrow> build_nodes \<Rightarrow> int list \<Rightarrow> build_nodes option" where
  "link_queue es queueIndex ns queue =
     (if queueIndex < int (length queue) then do {
        state \<leftarrow> slice_at queue queueIndex;
        node \<leftarrow> slice_at ns state;
        (ns, queue) \<leftarrow>
          for_siblings es (link_edge es state) (contentModerationKeywordBuildFirstEdge node) (ns, queue);
        link_queue es (queueIndex + 1) ns queue
      } else Some ns)"

definition root_edge ::
    "contentModerationKeywordBuildEdge \<Rightarrow> (char \<Rightarrow> int) \<times> int list \<Rightarrow> ((char \<Rightarrow> int) \<times> int list) option" where
  "root_edge e = (\<lambda>(root, queue).
     Some (root(buildLabel e := buildTarget e), queue @ [buildTarget e]))"

section \<open>Packing the edges\<close>

definition collect_edge ::
    "contentModerationKeywordBuildEdge \<Rightarrow> contentModerationKeywordEdge list \<times> int \<Rightarrow>
     (contentModerationKeywordEdge list \<times> int) option" where
  "collect_edge e = (\<lambda>(outgoing, count). do {
     outgoing \<leftarrow> slice_put outgoing count \<lparr>target = buildTarget e, label = buildLabel e\<rparr>;
     Some (outgoing, count + 1)
   })"

text \<open>Insertion sort of the first \<^verbatim>\<open>count\<close> entries of \<^verbatim>\<open>outgoing\<close>, in place.\<close>

primrec shift_edges ::
    "contentModerationKeywordEdge \<Rightarrow> nat \<Rightarrow> contentModerationKeywordEdge list \<Rightarrow>
     contentModerationKeywordEdge list option" where
  "shift_edges current 0 outgoing = slice_put outgoing 0 current"
| "shift_edges current (Suc k) outgoing = do {
     prev \<leftarrow> slice_at outgoing (int k);
     if label current < label prev then do {
       outgoing \<leftarrow> slice_put outgoing (int (Suc k)) prev;
       shift_edges current k outgoing
     } else slice_put outgoing (int (Suc k)) current
   }"

function sort_edges ::
    "int \<Rightarrow> int \<Rightarrow> contentModerationKeywordEdge list \<Rightarrow> contentModerationKeywordEdge list option" where
  "sort_edges index count outgoing =
     (if index < count then do {
        current \<leftarrow> slice_at outgoing index;
        outgoing \<leftarrow> shift_edges current (nat index) outgoing;
        sort_edges (index + 1) count outgoing
      } else Some outgoing)"
  by pat_completeness auto
termination
  by (relation "measure (\<lambda>(index, count, outgoing). nat (count - index))") auto

declare sort_edges.simps [simp del]

type_synonym pack_state =
  "build_nodes \<times> contentModerationKeywordEdge list \<times> contentModerationKeywordEdge list"

definition pack_node :: "build_edges \<Rightarrow> nat \<Rightarrow> pack_state \<Rightarrow> pack_state option" where
  "pack_node es nodeIndex = (\<lambda>(ns, packed, outgoing). do {
     node \<leftarrow> slice_at ns (int nodeIndex);
     (outgoing, count) \<leftarrow>
       for_siblings es collect_edge (contentModerationKeywordBuildFirstEdge node) (outgoing, 0);
     outgoing \<leftarrow> sort_edges 1 count outgoing;
     ns \<leftarrow> slice_put ns (int nodeIndex)
             (node\<lparr>edgeStart := go_uint32 (int (length packed)), edgeCount := go_uint16 count\<rparr>);
     Some (ns, packed @ take (nat count) outgoing, outgoing)
   })"

primrec pack_nodes :: "build_edges \<Rightarrow> nat list \<Rightarrow> pack_state \<Rightarrow> pack_state option" where
  "pack_nodes es [] t = Some t"
| "pack_nodes es (i # is) t = do { t \<leftarrow> pack_node es i t; pack_nodes es is t }"

section \<open>The constructor\<close>

text \<open>The result is \<open>None\<close> for a panic, \<open>Some None\<close> for the nil matcher.\<close>

definition newContentModerationKeywordMatcher ::
    "(go_string \<Rightarrow> go_string) \<Rightarrow> go_string list \<Rightarrow> contentModerationKeywordMatcher option option" where
  "newContentModerationKeywordMatcher unicode kws =
     (if kws = [] then Some None
      else do {
        (ns, es) \<leftarrow> insert_keywords unicode 0 kws ([newContentModerationKeywordNode], []);
        if length ns = 1 then Some None
        else do {
          rnode \<leftarrow> slice_at ns 0;
          (root, queue) \<leftarrow>
            for_siblings es root_edge (contentModerationKeywordBuildFirstEdge rnode) (\<lambda>_. 0, []);
          ns \<leftarrow> link_queue es 0 ns queue;
          (ns, packed, outgoing) \<leftarrow>
            pack_nodes es [0..<length ns] (ns, [], replicate 256 \<lparr>target = 0, label = CHR 0x00\<rparr>);
          Some (Some \<lparr>nodes = ns, edges = packed, rootTransitions = root, originalKeywords = kws\<rparr>)
        }
      })"

section \<open>Matching\<close>

function lower_bound ::
    "contentModerationKeywordEdge list \<Rightarrow> char \<Rightarrow> int \<Rightarrow> int \<Rightarrow> int option" where
  "lower_bound es l left right =
     (if left < right then do {
        let middle = left + (right - left) div 2;
        e \<leftarrow> slice_at es middle;
        if label e < l then lower_bound es l (middle + 1) right else lower_bound es l left middle
      } else Some left)"
  by pat_completeness auto
termination
  by (relation "measure (\<lambda>(es, l, left, right). nat (right - left))") auto

declare lower_bound.simps [simp del]

definition next_state :: "contentModerationKeywordMatcher \<Rightarrow> int \<Rightarrow> char \<Rightarrow> int option" where
  "next_state m state l =
     (if state = 0 then Some (rootTransitions m l)
      else if state < 0 \<or> int (length (nodes m)) \<le> state then Some 0
      else do {
        let node = nodes m ! nat state;
        left \<leftarrow> lower_bound (edges m) l (edgeStart node) (edgeStart node + edgeCount node);
        if left < edgeStart node + edgeCount node then do {
          e \<leftarrow> slice_at (edges m) left;
          if label e = l then Some (target e) else Some 0
        } else Some 0
      })"

partial_function (option) advance ::
    "contentModerationKeywordMatcher \<Rightarrow> char \<Rightarrow> int \<Rightarrow> int option" where
  "advance m l state = do {
     nxt \<leftarrow> next_state m state l;
     if nxt \<noteq> 0 then Some nxt
     else if state = 0 then Some state
     else do { node \<leftarrow> slice_at (nodes m) state; advance m l (failure node) }
   }"

fun match_bytes ::
    "contentModerationKeywordMatcher \<Rightarrow> go_string \<Rightarrow> int \<Rightarrow> int \<Rightarrow> (go_string \<times> bool) option" where
  "match_bytes m [] state best =
     (if best < 0 \<or> int (length (originalKeywords m)) \<le> best then Some ([], False)
      else Some (originalKeywords m ! nat best, True))"
| "match_bytes m (l # ls) state best = do {
     state \<leftarrow> advance m l state;
     node \<leftarrow> slice_at (nodes m) state;
     let best = minKeywordIndex best (bestKeyword node);
     if best = 0 then do { kw \<leftarrow> slice_at (originalKeywords m) 0; Some (kw, True) }
     else match_bytes m ls state best
   }"

definition Match ::
    "(go_string \<Rightarrow> go_string) \<Rightarrow> contentModerationKeywordMatcher option \<Rightarrow> go_string \<Rightarrow>
     (go_string \<times> bool) option" where
  "Match unicode matcher s =
     (case matcher of
        None \<Rightarrow> Some ([], False)
      | Some m \<Rightarrow>
          if s = [] \<or> nodes m = [] \<or> originalKeywords m = [] then Some ([], False)
          else match_bytes m (go_to_lower unicode s) 0 (-1))"

section \<open>The reference search and the runtime snapshot\<close>

fun find_keyword :: "(go_string \<Rightarrow> go_string) \<Rightarrow> go_string \<Rightarrow> go_string list \<Rightarrow> go_string \<times> bool" where
  "find_keyword unicode lower [] = ([], False)"
| "find_keyword unicode lower (kw # kws) =
     (if kw = [] then find_keyword unicode lower kws
      else if go_contains lower (go_to_lower unicode kw) then (kw, True)
      else find_keyword unicode lower kws)"

definition matchBlockedKeyword ::
    "(go_string \<Rightarrow> go_string) \<Rightarrow> go_string \<Rightarrow> go_string list \<Rightarrow> go_string \<times> bool" where
  "matchBlockedKeyword unicode s kws =
     (if s = [] \<or> kws = [] then ([], False)
      else find_keyword unicode (go_to_lower unicode s) kws)"

section \<open>Configured keywords\<close>

text \<open>
  \<^verbatim>\<open>[]rune(s)\<close>, with each rune as its UTF-8 encoding: a byte that starts no encoded rune becomes U+FFFD.
\<close>

function go_runes :: "go_string \<Rightarrow> go_string list" where
  "go_runes s =
     (if s = [] then []
      else if utf8_len s = 0 then encode_rune 0xFFFD # go_runes (drop 1 s)
      else take (utf8_len s) s # go_runes (drop (utf8_len s) s))"
  by pat_completeness auto
termination
  by (relation "measure length") auto

declare go_runes.simps [simp del]

definition trimRunes :: "go_string \<Rightarrow> int \<Rightarrow> go_string" where
  "trimRunes s limit =
     (if limit \<le> 0 then []
      else let runes = go_runes s in
        if int (length runes) \<le> limit then s else concat (take (nat limit) runes))"

definition maxContentModerationBlockedKeywords :: nat where
  "maxContentModerationBlockedKeywords = 10000"

definition maxContentModerationBlockedKeywordRunes :: int where
  "maxContentModerationBlockedKeywordRunes = 200"

fun normalize_keywords ::
    "(go_string \<Rightarrow> go_string) \<Rightarrow> go_string list \<Rightarrow> go_string list \<Rightarrow> go_string list \<Rightarrow> go_string list" where
  "normalize_keywords unicode [] seen out = out"
| "normalize_keywords unicode (raw # raws) seen out =
     (let kw = go_trim_space raw in
      if kw = [] then normalize_keywords unicode raws seen out
      else let kw = trimRunes kw maxContentModerationBlockedKeywordRunes;
               key = go_to_lower unicode kw in
        if key \<in> set seen then normalize_keywords unicode raws seen out
        else let out = out @ [kw] in
          if maxContentModerationBlockedKeywords \<le> length out then out
          else normalize_keywords unicode raws (key # seen) out)"

definition normalizeBlockedKeywords :: "(go_string \<Rightarrow> go_string) \<Rightarrow> go_string list \<Rightarrow> go_string list" where
  "normalizeBlockedKeywords unicode raws = normalize_keywords unicode raws [] []"

text \<open>
  The part of a runtime snapshot the filter reads: the keywords of the configuration (\<open>None\<close> for the nil
  configuration) and the matcher. \<open>keyword_snapshot\<close> is what a refresh or a replacement of the configuration
  stores: keywords are normalized when the configuration is parsed, and the matcher is built from them.
\<close>

record contentModerationRuntimeSnapshot =
  snapshotKeywords :: "go_string list option"
  keywordMatcher :: "contentModerationKeywordMatcher option"

definition keyword_snapshot ::
    "(go_string \<Rightarrow> go_string) \<Rightarrow> go_string list \<Rightarrow> contentModerationRuntimeSnapshot option" where
  "keyword_snapshot unicode raws = do {
     let kws = normalizeBlockedKeywords unicode raws;
     m \<leftarrow> newContentModerationKeywordMatcher unicode kws;
     Some \<lparr>snapshotKeywords = Some kws, keywordMatcher = m\<rparr>
   }"

definition snapshot_matchBlockedKeyword ::
    "(go_string \<Rightarrow> go_string) \<Rightarrow> contentModerationRuntimeSnapshot option \<Rightarrow> go_string \<Rightarrow>
     (go_string \<times> bool) option" where
  "snapshot_matchBlockedKeyword unicode snapshot s =
     (case snapshot of
        None \<Rightarrow> Some ([], False)
      | Some sn \<Rightarrow>
          (case snapshotKeywords sn of
             None \<Rightarrow> Some ([], False)
           | Some kws \<Rightarrow>
               if keywordMatcher sn \<noteq> None then Match unicode (keywordMatcher sn) s
               else Some (matchBlockedKeyword unicode s kws)))"

end
