(* ===== verification/Keyword_Words.thy ===== *)
theory Keyword_Words
  imports Keyword_Matcher "HOL-Library.Sublist"
begin

text \<open>
  What the keyword automaton computes, in terms of words: the longest suffix of a text that is in a
  prefix-closed set of words, and the first keyword of a list that satisfies a condition. The lemmas are
  those the failure links and the scan rest on.
\<close>

section \<open>Longest suffixes\<close>

fun longest_suffix :: "('a list \<Rightarrow> bool) \<Rightarrow> 'a list \<Rightarrow> 'a list" where
  "longest_suffix P [] = []"
| "longest_suffix P (x # xs) = (if P (x # xs) then x # xs else longest_suffix P xs)"

definition prefix_closed :: "('a list \<Rightarrow> bool) \<Rightarrow> bool" where
  "prefix_closed P \<longleftrightarrow> P [] \<and> (\<forall>w c. P (w @ [c]) \<longrightarrow> P w)"

lemma prefix_closedD: "prefix_closed P \<Longrightarrow> P []" "prefix_closed P \<Longrightarrow> P (w @ [c]) \<Longrightarrow> P w"
  by (auto simp: prefix_closed_def)

lemma longest_suffix_in: "P [] \<Longrightarrow> P (longest_suffix P w)"
  by (induction w) auto

lemma longest_suffix_suffix: "suffix (longest_suffix P w) w"
  by (induction w) (auto simp: suffix_Cons)

lemma longest_suffix_self: "P w \<Longrightarrow> longest_suffix P w = w"
  by (cases w) auto

lemma longest_suffix_greatest:
  "suffix v w \<Longrightarrow> P v \<Longrightarrow> suffix v (longest_suffix P w)"
  by (induction w) (auto simp: suffix_Cons)

lemma suffix_longest_iff:
  "P v \<Longrightarrow> suffix v (longest_suffix P w) \<longleftrightarrow> suffix v w"
  using longest_suffix_greatest longest_suffix_suffix suffix_order.trans by metis

lemma longest_suffix_skip: "\<not> P (x # xs) \<Longrightarrow> longest_suffix P (x # xs) = longest_suffix P xs"
  by simp

lemma longest_suffix_eqI:
  assumes "suffix u w" and "P u" and "\<And>v. suffix v w \<Longrightarrow> P v \<Longrightarrow> suffix v u"
    and "P []"
  shows "longest_suffix P w = u"
  by (meson assms longest_suffix_greatest longest_suffix_in longest_suffix_suffix
      suffix_order.antisym)

text \<open>Reading one more letter only needs the longest suffix read so far.\<close>

lemma longest_suffix_snoc:
  assumes closed: "prefix_closed P"
  shows "longest_suffix P (w @ [c]) = longest_suffix P (longest_suffix P w @ [c])"
proof (rule longest_suffix_eqI)
  let ?u = "longest_suffix P (longest_suffix P w @ [c])"
  have "suffix (longest_suffix P w @ [c]) (w @ [c])"
    using longest_suffix_suffix [of P w] by (simp add: suffix_def)
  then show "suffix ?u (w @ [c])"
    using longest_suffix_suffix suffix_order.trans by blast
  show "P []" using closed by (rule prefix_closedD)
  then show "P ?u" by (rule longest_suffix_in)
  fix v assume v: "suffix v (w @ [c])" "P v"
  show "suffix v ?u"
  proof (cases v rule: rev_cases)
    case Nil
    then show ?thesis by simp
  next
    case (snoc v' d)
    then have "d = c" and "suffix v' w" using v(1) by simp_all
    moreover have "P v'" using v(2) snoc closed by (auto dest: prefix_closedD)
    ultimately have "suffix (v' @ [c]) (longest_suffix P w @ [c])"
      using longest_suffix_greatest [of v' w P] by simp
    then show ?thesis
      using longest_suffix_greatest v(2) snoc \<open>d = c\<close> by blast
  qed
qed

text \<open>The failure of a word is its longest proper suffix that is a word.\<close>

definition border :: "('a list \<Rightarrow> bool) \<Rightarrow> 'a list \<Rightarrow> 'a list" where
  "border P w = longest_suffix P (tl w)"

lemma border_in: "prefix_closed P \<Longrightarrow> P (border P w)"
  by (simp add: border_def longest_suffix_in prefix_closedD)

lemma length_border: "w \<noteq> [] \<Longrightarrow> length (border P w) < length w"
  using longest_suffix_suffix [of P "tl w", THEN suffix_length_le]
  by (cases w) (auto simp: border_def)

lemma border_single [simp]: "border P [c] = []"
  by (simp add: border_def)

lemma border_snoc:
  assumes "prefix_closed P" and "w \<noteq> []"
  shows "border P (w @ [c]) = longest_suffix P (border P w @ [c])"
  using assms longest_suffix_snoc [of P "tl w" c] by (simp add: border_def)

lemma longest_suffix_fail:
  assumes "prefix_closed P" and "w \<noteq> []" and "\<not> P (w @ [c])"
  shows "longest_suffix P (w @ [c]) = longest_suffix P (border P w @ [c])"
proof -
  obtain x xs where "w = x # xs" using assms(2) by (cases w) auto
  then show ?thesis using assms longest_suffix_snoc [of P xs c] by (simp add: border_def)
qed

lemma suffix_border_iff:
  assumes "P v" and "w \<noteq> []"
  shows "suffix v w \<longleftrightarrow> v = w \<or> suffix v (border P w)"
proof -
  obtain x xs where "w = x # xs" using assms(2) by (cases w) auto
  then show ?thesis using suffix_longest_iff [of P v] assms(1) by (auto simp: suffix_Cons border_def)
qed

lemma sublist_snoc_iff: "sublist v (w @ [c]) \<longleftrightarrow> sublist v w \<or> suffix v (w @ [c])"
  using sublist_append [of v w "[c]"] by (auto simp: sublist_Cons_right sublist_snoc prefix_Cons)

lemma go_contains_sublist: "go_contains s v \<longleftrightarrow> sublist v s"
proof (induction s)
  case Nil
  show ?case by simp
next
  case (Cons c s)
  have "go_has_prefix (c # s) v \<longleftrightarrow> prefix v (c # s)"
    by (metis go_has_prefix_def append_eq_conv_conj prefix_def take_is_prefix)
  with Cons show ?case by (simp add: sublist_Cons_right)
qed

section \<open>The first keyword with a property\<close>

fun first_from :: "int \<Rightarrow> ('a \<Rightarrow> bool) \<Rightarrow> 'a list \<Rightarrow> int" where
  "first_from i P [] = -1"
| "first_from i P (x # xs) = (if P x then i else first_from (i + 1) P xs)"

abbreviation first_index :: "('a \<Rightarrow> bool) \<Rightarrow> 'a list \<Rightarrow> int" where
  "first_index \<equiv> first_from 0"

lemma first_from_ge: "first_from i P xs = -1 \<or> i \<le> first_from i P xs"
proof (induction xs arbitrary: i)
  case (Cons x xs)
  show ?case using Cons.IH [of "i + 1"] by auto
qed simp

lemma first_from_none: "0 \<le> i \<Longrightarrow> first_from i P xs < 0 \<longleftrightarrow> \<not> list_ex P xs"
proof (induction xs arbitrary: i)
  case (Cons x xs)
  show ?case using Cons.IH [of "i + 1"] Cons.prems by simp
qed simp

lemma first_from_lt: "0 \<le> i \<Longrightarrow> first_from i P xs < i + int (length xs)"
proof (induction xs arbitrary: i)
  case (Cons x xs)
  show ?case using Cons.IH [of "i + 1"] Cons.prems by simp
qed simp

lemma first_from_hit:
  "0 \<le> i \<Longrightarrow> \<not> first_from i P xs < 0 \<Longrightarrow>
     xs ! nat (first_from i P xs - i) \<in> set xs \<and> P (xs ! nat (first_from i P xs - i))"
proof (induction xs arbitrary: i)
  case (Cons x xs)
  show ?case
  proof (cases "P x")
    case False
    then have hit: "\<not> first_from (i + 1) P xs < 0" using Cons.prems(2) by simp
    then have "nat (first_from (i + 1) P xs - i) = Suc (nat (first_from (i + 1) P xs - (i + 1)))"
      using first_from_ge [of "i + 1" P xs] by auto
    then show ?thesis using Cons.IH [of "i + 1"] Cons.prems(1) hit False by simp
  qed simp
qed simp

lemmas first_index_hit = first_from_hit [of 0, simplified]

lemma first_from_cong:
  "(\<And>x. x \<in> set xs \<Longrightarrow> P x \<longleftrightarrow> Q x) \<Longrightarrow> first_from i P xs = first_from i Q xs"
  by (induction xs arbitrary: i) auto

lemma first_from_False: "(\<And>x. x \<in> set xs \<Longrightarrow> \<not> P x) \<Longrightarrow> first_from i P xs = -1"
  by (induction xs arbitrary: i) auto

lemma first_from_append:
  "0 \<le> i \<Longrightarrow> first_from i P (xs @ ys) =
     (if first_from i P xs < 0 then first_from (i + int (length xs)) P ys else first_from i P xs)"
proof (induction xs arbitrary: i)
  case (Cons x xs)
  show ?case using Cons.IH [of "i + 1"] Cons.prems by (simp add: algebra_simps)
qed simp

lemma first_index_skip: "\<not> P x \<Longrightarrow> first_index P (xs @ [x]) = first_index P xs"
  using first_from_ge [of 0 P xs] by (auto simp: first_from_append)

text \<open>\<^verbatim>\<open>minKeywordIndex\<close> is the disjunction of conditions.\<close>

lemma minKeywordIndex_first:
  "0 \<le> i \<Longrightarrow> minKeywordIndex (first_from i P xs) (first_from i Q xs) = first_from i (\<lambda>x. P x \<or> Q x) xs"
proof (induction xs arbitrary: i)
  case Nil
  show ?case by (simp add: minKeywordIndex_def)
next
  case (Cons x xs)
  show ?case
    using Cons.IH [of "i + 1"] Cons.prems first_from_ge [of "i + 1" P xs] first_from_ge [of "i + 1" Q xs]
    by (auto simp: minKeywordIndex_def split: if_splits)
qed

section \<open>Go's conversions\<close>

lemma go_int32_id [simp]: "0 \<le> x \<Longrightarrow> x < 2 ^ 31 \<Longrightarrow> go_int32 x = x"
  by (simp add: go_int32_def)

lemma go_uint32_id [simp]: "0 \<le> x \<Longrightarrow> x < 2 ^ 32 \<Longrightarrow> go_uint32 x = x"
  by (simp add: go_uint32_def)

lemma go_uint16_id [simp]: "0 \<le> x \<Longrightarrow> x < 2 ^ 16 \<Longrightarrow> go_uint16 x = x"
  by (simp add: go_uint16_def)

lemma slice_at_nat [simp]: "i < length xs \<Longrightarrow> slice_at xs (int i) = Some (xs ! i)"
  by (simp add: slice_at_def)

lemma slice_put_nat [simp]: "i < length xs \<Longrightarrow> slice_put xs (int i) x = Some (xs[i := x])"
  by (simp add: slice_put_def)

end
