(* ===== verification/Keyword_Trie.thy ===== *)
theory Keyword_Trie
  imports Keyword_Words
begin

text \<open>
  Inserting the keywords: the slices of nodes and edges always represent a trie. The representation
  relation names the word of each node; edge \<open>j\<close> leads to node \<open>j + 1\<close>, and the chain of a node runs
  through the edges to its children.
\<close>

section \<open>Tries in slices\<close>

definition words_ok :: "go_string list \<Rightarrow> bool" where
  "words_ok W \<longleftrightarrow> W \<noteq> [] \<and> W ! 0 = [] \<and> distinct W \<and> prefix_closed (\<lambda>w. w \<in> set W)"

definition node_of :: "go_string list \<Rightarrow> go_string \<Rightarrow> int" where
  "node_of W w = first_index (\<lambda>v. v = w) W"

definition children :: "go_string list \<Rightarrow> go_string \<Rightarrow> nat list" where
  "children W w = rev (filter (\<lambda>j. \<exists>c. W ! Suc j = w @ [c]) [0..<length W - 1])"

fun chain :: "build_edges \<Rightarrow> int \<Rightarrow> nat list \<Rightarrow> bool" where
  "chain es i [] \<longleftrightarrow> i = -1"
| "chain es i (j # js) \<longleftrightarrow> i = int j \<and> j < length es \<and> chain es (nextSibling (es ! j)) js"

definition edges_ok :: "go_string list \<Rightarrow> build_edges \<Rightarrow> bool" where
  "edges_ok W es \<longleftrightarrow> length es = length W - 1 \<and>
     (\<forall>j < length es. buildTarget (es ! j) = int (Suc j) \<and> last (W ! Suc j) = buildLabel (es ! j))"

definition trie_ok :: "go_string list \<Rightarrow> build_nodes \<Rightarrow> build_edges \<Rightarrow> bool" where
  "trie_ok W ns es \<longleftrightarrow> words_ok W \<and> length W < 2 ^ 31 \<and> length ns = length W \<and> edges_ok W es \<and>
     (\<forall>p < length W. chain es (contentModerationKeywordBuildFirstEdge (ns ! p)) (children W (W ! p)))"

lemma trie_okD:
  assumes "trie_ok W ns es"
  shows "words_ok W" "length ns = length W" "edges_ok W es" "length W < 2 ^ 31"
    and "p < length W \<Longrightarrow>
      chain es (contentModerationKeywordBuildFirstEdge (ns ! p)) (children W (W ! p))"
  using assms by (auto simp: trie_ok_def)

lemma trie_ok_relabel:
  assumes "trie_ok W ns es" and "length ns' = length ns"
    and "\<And>p. p < length ns \<Longrightarrow>
      contentModerationKeywordBuildFirstEdge (ns' ! p) = contentModerationKeywordBuildFirstEdge (ns ! p)"
  shows "trie_ok W ns' es"
  using assms by (auto simp: trie_ok_def)

lemma words_okD:
  assumes "words_ok W"
  shows "W \<noteq> []" "W ! 0 = []" "distinct W" "prefix_closed (\<lambda>w. w \<in> set W)" "0 < length W"
  using assms by (auto simp: words_ok_def)

lemma node_of_nth [simp]:
  assumes "distinct W" and "t < length W"
  shows "node_of W (W ! t) = int t"
proof -
  have "first_from i (\<lambda>v. v = W ! t) W = i + int t" for i
    using assms by (induction W arbitrary: t i) (auto simp: nth_Cons split: nat.splits)
  then show ?thesis by (simp add: node_of_def)
qed

lemma node_of_none [simp]: "w \<notin> set W \<Longrightarrow> node_of W w = -1"
  by (auto simp: node_of_def intro: first_from_False)

lemma node_of_in:
  assumes "distinct W" and "w \<in> set W"
  obtains t where "t < length W" and "W ! t = w" and "node_of W w = int t"
  using assms by (metis in_set_conv_nth node_of_nth)

lemma node_of_neg: "words_ok W \<Longrightarrow> node_of W w < 0 \<longleftrightarrow> w \<notin> set W"
  by (cases "w \<in> set W") (auto elim: node_of_in [OF words_okD(3)])

section \<open>Walking the edges of a node\<close>

primrec visit :: "('e \<Rightarrow> 'a \<Rightarrow> 'a option) \<Rightarrow> 'e list \<Rightarrow> 'a \<Rightarrow> 'a option" where
  "visit body [] acc = Some acc"
| "visit body (e # es) acc = do { acc \<leftarrow> body e acc; visit body es acc }"

lemma for_siblings_chain:
  "chain es i js \<Longrightarrow> for_siblings es body i acc = visit body (map ((!) es) js) acc"
proof (induction js arbitrary: i acc)
  case Nil
  then show ?case by (simp add: for_siblings.simps)
next
  case (Cons j js)
  then have "for_siblings es body i acc =
      Option.bind (body (es ! j) acc) (for_siblings es body (nextSibling (es ! j)))"
    by (simp add: for_siblings.simps [of es body "int j"])
  with Cons show ?case by (cases "body (es ! j) acc") simp_all
qed

lemma find_sibling_chain:
  "chain es i js \<Longrightarrow> find_sibling es l i =
     Some (case find (\<lambda>j. buildLabel (es ! j) = l) js of None \<Rightarrow> -1 | Some j \<Rightarrow> buildTarget (es ! j))"
proof (induction js arbitrary: i)
  case Nil
  then show ?case by (simp add: find_sibling.simps)
next
  case (Cons j js)
  then show ?case by (simp add: find_sibling.simps [of es l "int j"])
qed

lemma child_iff:
  assumes "edges_ok W es" and "j \<in> set (children W w)"
  shows "W ! Suc j = w @ [buildLabel (es ! j)] \<and> j < length es \<and> Suc j < length W \<and>
    buildTarget (es ! j) = int (Suc j)"
  using assms by (auto simp: children_def edges_ok_def)

lemma childI:
  assumes "words_ok W" and "W ! t = w @ [c]" and "t < length W"
  obtains j where "t = Suc j" and "j \<in> set (children W w)"
proof (cases t)
  case 0
  with assms show ?thesis by (auto dest: words_okD)
next
  case (Suc j)
  with assms show ?thesis by (intro that [of j]) (auto simp: children_def)
qed

lemma transition_node_of:
  assumes t: "trie_ok W ns es" and p: "p < length W"
  shows "contentModerationKeywordBuildTransition ns es (int p) l = Some (node_of W (W ! p @ [l]))"
proof -
  let ?js = "children W (W ! p)"
  note W = words_okD [OF trie_okD(1) [OF t]] and ch = child_iff [OF trie_okD(3) [OF t]]
  have "(case find (\<lambda>j. buildLabel (es ! j) = l) ?js of None \<Rightarrow> -1 | Some j \<Rightarrow> buildTarget (es ! j)) =
      node_of W (W ! p @ [l])"
  proof (cases "find (\<lambda>j. buildLabel (es ! j) = l) ?js")
    case None
    then have no: "j \<in> set ?js \<Longrightarrow> buildLabel (es ! j) \<noteq> l" for j by (auto simp: find_None_iff)
    have "W ! p @ [l] \<notin> set W"
    proof
      assume "W ! p @ [l] \<in> set W"
      then obtain t where tt: "t < length W" "W ! t = W ! p @ [l]" by (auto simp: in_set_conv_nth)
      from childI [OF trie_okD(1) [OF t] tt(2,1)] obtain j where j: "t = Suc j" "j \<in> set ?js" .
      then show False using ch [OF j(2)] no tt(2) by simp
    qed
    then show ?thesis using None by simp
  next
    case (Some j)
    then have "j \<in> set ?js" "buildLabel (es ! j) = l" by (auto simp: find_Some_iff)
    then show ?thesis using Some ch [of j] W(3) node_of_nth [of W "Suc j"] by simp
  qed
  then show ?thesis
    using find_sibling_chain [OF trie_okD(5) [OF t p]] p trie_okD(2) [OF t]
    by (simp add: contentModerationKeywordBuildTransition_def)
qed

section \<open>Inserting a label\<close>

text \<open>Inserting adds nodes without failure link and keyword, and leaves those of the others alone.\<close>

definition grown :: "build_nodes \<Rightarrow> build_nodes \<Rightarrow> bool" where
  "grown ns ns' \<longleftrightarrow> length ns \<le> length ns' \<and>
     (\<forall>t < length ns. failure (ns' ! t) = failure (ns ! t) \<and> bestKeyword (ns' ! t) = bestKeyword (ns ! t)) \<and>
     (\<forall>t. length ns \<le> t \<and> t < length ns' \<longrightarrow> failure (ns' ! t) = 0 \<and> bestKeyword (ns' ! t) = -1)"

lemma grown_refl [simp]: "grown ns ns"
  by (simp add: grown_def)

lemma grown_trans: "grown a b \<Longrightarrow> grown b c \<Longrightarrow> grown a c"
  unfolding grown_def by (metis le_trans less_le_trans not_less)

lemma chain_append: "chain es i js \<Longrightarrow> chain (es @ xs) i js"
  by (induction js arbitrary: i) (auto simp: nth_append)

lemma first_edge_update [simp]:
  "contentModerationKeywordBuildFirstEdge (n\<lparr>failure := f\<rparr>) = contentModerationKeywordBuildFirstEdge n"
  "contentModerationKeywordBuildFirstEdge (n\<lparr>bestKeyword := b\<rparr>) = contentModerationKeywordBuildFirstEdge n"
  "0 < k \<Longrightarrow> k < 2 ^ 31 \<Longrightarrow>
     contentModerationKeywordBuildFirstEdge (n\<lparr>edgeStart := k\<rparr>) = k - 1"
  by (simp_all add: contentModerationKeywordBuildFirstEdge_def)

lemma first_edge_new [simp]:
  "contentModerationKeywordBuildFirstEdge newContentModerationKeywordNode = -1"
  by (simp add: contentModerationKeywordBuildFirstEdge_def newContentModerationKeywordNode_def)

lemma children_snoc:
  assumes "W \<noteq> []"
  shows "children (W @ [v]) w =
    (if \<exists>c. v = w @ [c] then (length W - 1) # children W w else children W w)"
proof -
  let ?P = "\<lambda>V j. \<exists>c. V ! Suc j = w @ [c]"
  obtain n where n: "length W = Suc n" using assms by (cases W) auto
  have "filter (?P (W @ [v])) [0..<Suc n] = filter (?P W) [0..<n] @ filter (\<lambda>j. \<exists>c. v = w @ [c]) [n]"
    using n by (auto simp: nth_append intro!: filter_cong)
  then show ?thesis using n by (simp add: children_def)
qed

lemma words_ok_snoc:
  assumes "words_ok W" and "p < length W" and "W ! p @ [c] \<notin> set W"
  shows "words_ok (W @ [W ! p @ [c]])"
  using assms by (auto simp: words_ok_def prefix_closed_def nth_append)

lemma trie_ok_grow:
  assumes t: "trie_ok W ns es" and p: "p < length W" and new: "W ! p @ [c] \<notin> set W"
    and room: "length W + 1 < 2 ^ 31"
  defines "e \<equiv> \<lparr>buildTarget = int (length W),
       nextSibling = contentModerationKeywordBuildFirstEdge (ns ! p), buildLabel = c\<rparr>"
  shows "trie_ok (W @ [W ! p @ [c]])
    ((ns @ [newContentModerationKeywordNode])[p := (ns ! p)\<lparr>edgeStart := int (length W)\<rparr>]) (es @ [e])"
    (is "trie_ok ?W ?ns ?es")
proof -
  note W = words_okD [OF trie_okD(1) [OF t]]
  have len: "length ns = length W" "length es = length W - 1" "0 < length W"
    using trie_okD [OF t] W(5) by (auto simp: edges_ok_def)
  have "edges_ok ?W ?es"
    using trie_okD(3) [OF t] len by (auto simp: edges_ok_def e_def nth_append less_Suc_eq)
  moreover have "chain ?es (contentModerationKeywordBuildFirstEdge (?ns ! q)) (children ?W (?W ! q))"
    if q: "q < length ?W" for q
  proof (cases "q = length W")
    case True
    have "children W (W ! p @ [c]) = []"
    proof -
      have "W ! p @ [c] @ [d] \<notin> set W" for d
        using new prefix_closedD(2) [OF W(4), of "W ! p @ [c]" d] by auto
      then show ?thesis by (auto simp: children_def filter_empty_conv in_set_conv_nth)
    qed
    then show ?thesis using True len p W(1) by (auto simp: nth_append children_snoc)
  next
    case False
    then have q': "q < length W" using q by simp
    note old = chain_append [OF trie_okD(5) [OF t q']]
    show ?thesis
    proof (cases "q = p")
      case True
      then show ?thesis using old len p room W(1) [THEN children_snoc]
        by (simp add: nth_append e_def)
    next
      case False
      then have "\<nexists>d. W ! p @ [c] = W ! q @ [d]" using W(3) p q' by (auto simp: nth_eq_iff_index_eq)
      then show ?thesis using old False len q' W(1) by (simp add: nth_append children_snoc)
    qed
  qed
  ultimately show ?thesis
    using words_ok_snoc [OF trie_okD(1) [OF t] p new] room len by (simp add: trie_ok_def)
qed

lemma insert_label_ok:
  assumes t: "trie_ok W ns es" and p: "p < length W" and room: "length W + 1 < 2 ^ 31"
  obtains W' ns' es' q where
    "insert_label l (ns, es, int p) = Some (ns', es', int q)" "trie_ok W' ns' es'" "grown ns ns'"
    "q < length W'" "W' ! q = W ! p @ [l]" "prefix W W'" "length W' \<le> length W + 1"
proof (cases "W ! p @ [l] \<in> set W")
  case True
  then obtain q where "q < length W" "W ! q = W ! p @ [l]" "node_of W (W ! p @ [l]) = int q"
    using node_of_in words_okD(3) trie_okD(1) [OF t] by metis
  then show ?thesis
    using t p by (intro that [of ns es q W]) (simp_all add: insert_label_def transition_node_of)
next
  case False
  have len: "length ns = length W" "length es + 1 = length W"
    using trie_okD [OF t] words_okD(5) [OF trie_okD(1) [OF t]] by (auto simp: edges_ok_def)
  let ?e = "\<lparr>buildTarget = int (length W),
       nextSibling = contentModerationKeywordBuildFirstEdge (ns ! p), buildLabel = l\<rparr>"
  let ?ns = "(ns @ [newContentModerationKeywordNode])[p := (ns ! p)\<lparr>edgeStart := int (length W)\<rparr>]"
  have sums: "1 + int (length es) = int (length W)" using len(2) by simp
  have step: "insert_label l (ns, es, int p) = Some (?ns, es @ [?e], int (length W))"
    using False len(1) p room
    by (simp add: insert_label_def transition_node_of [OF t p] nth_append sums add.commute Let_def)
  have "grown ns ?ns"
    using p len(1) by (auto simp: grown_def nth_append nth_list_update newContentModerationKeywordNode_def)
  then show ?thesis
    using that [OF step trie_ok_grow [OF t p False room]] by simp
qed

lemma insert_labels_ok:
  assumes "trie_ok W ns es" and "p < length W" and "length W + length ls < 2 ^ 31"
  obtains W' ns' es' q where
    "insert_labels ls (ns, es, int p) = Some (ns', es', int q)" "trie_ok W' ns' es'" "grown ns ns'"
    "q < length W'" "W' ! q = W ! p @ ls" "prefix W W'" "length W' \<le> length W + length ls"
  using assms
proof (induction ls arbitrary: W ns es p thesis)
  case Nil
  then show ?case by fastforce
next
  case (Cons l ls)
  have room: "length W + 1 < 2 ^ 31" using Cons.prems(4) by simp
  from insert_label_ok [OF Cons.prems(2,3) room]
  obtain W1 ns1 es1 q1 where 1: "insert_label l (ns, es, int p) = Some (ns1, es1, int q1)"
    "trie_ok W1 ns1 es1" "grown ns ns1" "q1 < length W1" "W1 ! q1 = W ! p @ [l]" "prefix W W1"
    "length W1 \<le> length W + 1" .
  have "length W1 + length ls < 2 ^ 31" using 1(7) Cons.prems(4) by simp
  from Cons.IH [OF _ 1(2,4) this]
  obtain W2 ns2 es2 q2 where 2: "insert_labels ls (ns1, es1, int q1) = Some (ns2, es2, int q2)"
    "trie_ok W2 ns2 es2" "grown ns1 ns2" "q2 < length W2" "W2 ! q2 = W1 ! q1 @ ls" "prefix W1 W2"
    "length W2 \<le> length W1 + length ls" by blast
  show ?case
    by (rule Cons.prems(1) [of ns2 es2 q2 W2])
      (use 1 2 in \<open>auto intro: grown_trans prefix_order.trans\<close>)
qed

section \<open>Inserting the keywords\<close>

text \<open>
  After inserting \<open>ks\<close>, the node of a word carries the first keyword that is this word in lower case, and
  every keyword has its node.
\<close>

definition keywords_ok :: "(go_string \<Rightarrow> go_string) \<Rightarrow> go_string list \<Rightarrow> go_string list \<Rightarrow> build_nodes \<Rightarrow> bool" where
  "keywords_ok lower ks W ns \<longleftrightarrow>
     (\<forall>k \<in> set ks. k \<noteq> [] \<longrightarrow> lower k \<in> set W) \<and>
     (\<forall>t < length W. failure (ns ! t) = 0 \<and>
        bestKeyword (ns ! t) = first_index (\<lambda>k. k \<noteq> [] \<and> lower k = W ! t) ks)"

lemma keywords_ok_grow:
  assumes "keywords_ok lower ks W ns" and "grown ns ns'" and "prefix W W'"
    and "words_ok W'" and "length ns = length W" and "length ns' = length W'"
  shows "keywords_ok lower ks W' ns'"
proof -
  obtain V where V: "W' = W @ V" using assms(3) by (auto simp: prefix_def)
  have in_W: "\<forall>k \<in> set ks. k \<noteq> [] \<longrightarrow> lower k \<in> set W"
    using assms(1) by (simp add: keywords_ok_def)
  have "failure (ns' ! t) = 0 \<and>
      bestKeyword (ns' ! t) = first_index (\<lambda>k. k \<noteq> [] \<and> lower k = W' ! t) ks"
    if t: "t < length W'" for t
  proof (cases "t < length W")
    case True
    then show ?thesis using assms(1,2,5) V by (auto simp: grown_def keywords_ok_def nth_append)
  next
    case False
    have "W' ! t \<notin> set W"
      using False t V assms(4) by (auto simp: words_ok_def nth_append)
    then have "first_index (\<lambda>k. k \<noteq> [] \<and> lower k = W' ! t) ks = -1"
      using in_W by (intro first_from_False) auto
    then show ?thesis using False t assms(2,5,6) by (auto simp: grown_def)
  qed
  then show ?thesis using in_W V by (auto simp: keywords_ok_def)
qed

lemma keywords_ok_snoc:
  assumes ok: "keywords_ok lower ks W ns" and q: "q < length W" "W ! q = lower k" and "k \<noteq> []"
    and W: "words_ok W" and len: "length ns = length W"
  shows "keywords_ok lower (ks @ [k]) W
    (if bestKeyword (ns ! q) < 0 then ns[q := (ns ! q)\<lparr>bestKeyword := int (length ks)\<rparr>] else ns)"
    (is "keywords_ok _ _ _ ?ns")
proof -
  let ?b = "\<lambda>ks t. first_index (\<lambda>k. k \<noteq> [] \<and> lower k = W ! t) ks"
  have other: "?b (ks @ [k]) t = ?b ks t" if "t < length W" "t \<noteq> q" for t
  proof (rule first_index_skip)
    show "\<not> (k \<noteq> [] \<and> lower k = W ! t)"
      using that q words_okD(3) [OF W] by (metis nth_eq_iff_index_eq)
  qed
  have this_one: "?b (ks @ [k]) q = (if ?b ks q < 0 then int (length ks) else ?b ks q)"
    using q(2) \<open>k \<noteq> []\<close> by (simp add: first_from_append)
  have old: "failure (ns ! t) = 0 \<and> bestKeyword (ns ! t) = ?b ks t" if "t < length W" for t
    using ok that by (simp add: keywords_ok_def)
  have "failure (?ns ! t) = 0 \<and> bestKeyword (?ns ! t) = ?b (ks @ [k]) t" if "t < length W" for t
  proof (cases "t = q")
    case True
    then show ?thesis using old [OF q(1)] this_one q(1) len by simp
  next
    case False
    then show ?thesis using old [OF that] other [OF that False] by simp
  qed
  moreover have "lower k \<in> set W" using q by (metis nth_mem)
  ultimately show ?thesis using ok by (auto simp: keywords_ok_def)
qed

lemma insert_keyword_ok:
  assumes t: "trie_ok W ns es" and ok: "keywords_ok (go_to_lower unicode) ks W ns"
    and room: "length W + length (go_to_lower unicode k) < 2 ^ 31" and few: "length ks < 2 ^ 31"
  obtains W' ns' es' where
    "insert_keyword unicode (int (length ks)) k (ns, es) = Some (ns', es')" "trie_ok W' ns' es'"
    "keywords_ok (go_to_lower unicode) (ks @ [k]) W' ns'"
    "length W' \<le> length W + length (go_to_lower unicode k)"
proof (cases "k = []")
  case True
  have "keywords_ok (go_to_lower unicode) (ks @ [k]) W ns"
    using ok True by (simp add: keywords_ok_def first_index_skip)
  then show ?thesis using True t that [of ns es W] by (simp add: insert_keyword_def)
next
  case False
  note W = words_okD [OF trie_okD(1) [OF t]]
  from insert_labels_ok [OF t W(5) room]
  obtain W' ns' es' q where ins: "insert_labels (go_to_lower unicode k) (ns, es, int 0) = Some (ns', es', int q)"
    "trie_ok W' ns' es'" "grown ns ns'" "q < length W'" "W' ! q = W ! 0 @ go_to_lower unicode k"
    "prefix W W'" "length W' \<le> length W + length (go_to_lower unicode k)" .
  let ?ns = "if bestKeyword (ns' ! q) < 0 then ns'[q := (ns' ! q)\<lparr>bestKeyword := int (length ks)\<rparr>] else ns'"
  have ok': "keywords_ok (go_to_lower unicode) ks W' ns'"
    using keywords_ok_grow [OF ok ins(3,6) trie_okD(1) [OF ins(2)]] trie_okD(2) [OF t] trie_okD(2) [OF ins(2)]
    by simp
  have "bestKeyword (ns' ! q) < int (length ks)"
    using ok' ins(4) first_from_lt [of 0 _ ks] by (auto simp: keywords_ok_def)
  then have step: "insert_keyword unicode (int (length ks)) k (ns, es) = Some (?ns, es')"
    using ins few trie_okD(2) [OF ins(2)] False by (simp add: insert_keyword_def)
  have "trie_ok W' ?ns es'"
  proof (rule trie_ok_relabel [OF ins(2)])
    show "contentModerationKeywordBuildFirstEdge (?ns ! p) = contentModerationKeywordBuildFirstEdge (ns' ! p)"
      if "p < length ns'" for p
      using that by (cases "p = q") simp_all
  qed simp
  moreover have "keywords_ok (go_to_lower unicode) (ks @ [k]) W' ?ns"
    using keywords_ok_snoc [OF ok' ins(4) _ False trie_okD(1,2) [OF ins(2)]] ins(5) W(2) by simp
  ultimately show ?thesis using that [OF step] ins(7) by blast
qed

definition total_size :: "(go_string \<Rightarrow> go_string) \<Rightarrow> go_string list \<Rightarrow> nat" where
  "total_size unicode ks = sum_list (map (\<lambda>k. length (go_to_lower unicode k)) ks)"

lemma insert_keywords_ok:
  assumes "trie_ok W ns es" and "keywords_ok (go_to_lower unicode) ks W ns"
    and "length W + total_size unicode ks' < 2 ^ 31" and "length ks + length ks' \<le> 2 ^ 31"
  obtains W' ns' es' where
    "insert_keywords unicode (int (length ks)) ks' (ns, es) = Some (ns', es')" "trie_ok W' ns' es'"
    "keywords_ok (go_to_lower unicode) (ks @ ks') W' ns'"
  using assms
proof (induction ks' arbitrary: W ns es ks thesis)
  case Nil
  then show ?case by simp
next
  case (Cons k ks')
  have "length W + length (go_to_lower unicode k) < 2 ^ 31" "length ks < 2 ^ 31"
    using Cons.prems by (simp_all add: total_size_def)
  from insert_keyword_ok [OF Cons.prems(2,3) this]
  obtain W1 ns1 es1 where 1: "insert_keyword unicode (int (length ks)) k (ns, es) = Some (ns1, es1)"
    "trie_ok W1 ns1 es1" "keywords_ok (go_to_lower unicode) (ks @ [k]) W1 ns1"
    "length W1 \<le> length W + length (go_to_lower unicode k)" .
  have "length W1 + total_size unicode ks' < 2 ^ 31" "length (ks @ [k]) + length ks' \<le> 2 ^ 31"
    using Cons.prems 1(4) by (simp_all add: total_size_def)
  from Cons.IH [OF _ 1(2,3) this]
  obtain W2 ns2 es2 where "insert_keywords unicode (int (length (ks @ [k]))) ks' (ns1, es1) = Some (ns2, es2)"
    "trie_ok W2 ns2 es2" "keywords_ok (go_to_lower unicode) ((ks @ [k]) @ ks') W2 ns2" by blast
  then show ?case using Cons.prems(1) [of ns2 es2 W2] 1(1) by (simp add: add.commute)
qed

lemma trie_ok_root: "trie_ok [[]] [newContentModerationKeywordNode] []"
  by (simp add: trie_ok_def words_ok_def prefix_closed_def edges_ok_def children_def)

lemma keywords_ok_root: "keywords_ok lower [] [[]] [newContentModerationKeywordNode]"
  by (simp add: keywords_ok_def newContentModerationKeywordNode_def)

end
