(* ===== verification/Keyword_Links.thy ===== *)
theory Keyword_Links
  imports Keyword_Trie
begin

text \<open>
  Linking the trie in breadth-first order. A node is linked when its failure is the node of its longest
  proper suffix and its keyword is the first that is a suffix of its word. The queue holds nodes in the
  order of their depth, so that whenever an edge is linked, all nodes up to the depth of its source are.
\<close>

section \<open>Linked nodes\<close>

definition linked :: "(go_string \<Rightarrow> go_string) \<Rightarrow> go_string list \<Rightarrow> go_string list \<Rightarrow> build_nodes \<Rightarrow> nat \<Rightarrow> bool" where
  "linked lower ks W ns t \<longleftrightarrow>
     failure (ns ! t) = node_of W (border (\<lambda>w. w \<in> set W) (W ! t)) \<and>
     bestKeyword (ns ! t) = first_index (\<lambda>k. k \<noteq> [] \<and> suffix (lower k) (W ! t)) ks"

definition unlinked :: "(go_string \<Rightarrow> go_string) \<Rightarrow> go_string list \<Rightarrow> go_string list \<Rightarrow> build_nodes \<Rightarrow> nat \<Rightarrow> bool" where
  "unlinked lower ks W ns t \<longleftrightarrow> failure (ns ! t) = 0 \<and>
     bestKeyword (ns ! t) = first_index (\<lambda>k. k \<noteq> [] \<and> lower k = W ! t) ks"

definition linked_upto ::
    "(go_string \<Rightarrow> go_string) \<Rightarrow> go_string list \<Rightarrow> go_string list \<Rightarrow> build_nodes \<Rightarrow> nat \<Rightarrow> bool" where
  "linked_upto lower ks W ns d \<longleftrightarrow>
     (\<forall>t < length W. length (W ! t) \<le> d \<longrightarrow> linked lower ks W ns t)"

text \<open>The keywords whose lower case is in the trie and not empty.\<close>

definition covers :: "(go_string \<Rightarrow> go_string) \<Rightarrow> go_string list \<Rightarrow> go_string list \<Rightarrow> bool" where
  "covers lower ks W \<longleftrightarrow> (\<forall>k \<in> set ks. k \<noteq> [] \<longrightarrow> lower k \<noteq> [] \<and> lower k \<in> set W)"

lemma border_node:
  assumes "words_ok W" and "W ! t \<noteq> []"
  obtains f where "f < length W" and "W ! f = border (\<lambda>w. w \<in> set W) (W ! t)"
    and "length (W ! f) < length (W ! t)"
  using assms border_in [OF words_okD(4) [OF assms(1)], of "W ! t"] length_border [OF assms(2)]
  by (metis in_set_conv_nth)

lemma root_word: "words_ok W \<Longrightarrow> t < length W \<Longrightarrow> W ! t = [] \<longleftrightarrow> t = 0"
  by (metis words_okD(2,3,5) nth_eq_iff_index_eq)

lemma follow_failure_ok:
  assumes t: "trie_ok W ns es" and "f < length W" and "linked_upto lower ks W ns (length (W ! f))"
  shows "follow_failure ns es l (int f) (node_of W (W ! f @ [l])) =
    (let u = longest_suffix (\<lambda>w. w \<in> set W) (W ! f @ [l]) in Some (if u = [] then -1 else node_of W u))"
  using assms(2,3)
proof (induction "length (W ! f)" arbitrary: f rule: less_induct)
  case less
  note W = trie_okD(1) [OF t]
  let ?P = "\<lambda>w. w \<in> set W"
  show ?case
  proof (cases "W ! f @ [l] \<in> set W")
    case True
    then have "\<not> node_of W (W ! f @ [l]) < 0" using node_of_neg [OF W] by simp
    then show ?thesis
      using longest_suffix_self [of ?P, OF True] by (simp add: follow_failure.simps Let_def)
  next
    case False
    show ?thesis
    proof (cases "f = 0")
      case True
      then show ?thesis using False words_okD(2) [OF W] by (simp add: follow_failure.simps Let_def)
    next
      case f: False
      then have ne: "W ! f \<noteq> []" using root_word [OF W less.prems(1)] by simp
      obtain g where g: "g < length W" "W ! g = border ?P (W ! f)" "length (W ! g) < length (W ! f)"
        using border_node [OF W ne] .
      have "failure (ns ! f) = int g"
        using less.prems g(1) node_of_nth [OF words_okD(3) [OF W] g(1)]
        by (simp add: linked_upto_def linked_def g(2))
      then have "follow_failure ns es l (int f) (node_of W (W ! f @ [l])) =
          follow_failure ns es l (int g) (node_of W (W ! g @ [l]))"
        using False f less.prems(1) trie_okD(2) [OF t]
        by (simp add: follow_failure.simps [of ns es l "int f"] transition_node_of [OF t g(1)])
      also have "linked_upto lower ks W ns (length (W ! g))"
        using less.prems(2) g(3) by (auto simp: linked_upto_def)
      note less.hyps [OF g(3,1) this]
      finally show ?thesis
        using longest_suffix_fail [OF words_okD(4) [OF W] ne False] g(2) by simp
    qed
  qed
qed

section \<open>Linking the edges of a node\<close>

lemma best_of_border:
  assumes "covers lower ks W" and "w \<noteq> []"
  shows "minKeywordIndex (first_index (\<lambda>k. k \<noteq> [] \<and> lower k = w) ks)
      (first_index (\<lambda>k. k \<noteq> [] \<and> suffix (lower k) (border (\<lambda>w. w \<in> set W) w)) ks) =
    first_index (\<lambda>k. k \<noteq> [] \<and> suffix (lower k) w) ks"
proof -
  have "k \<noteq> [] \<Longrightarrow> k \<in> set ks \<Longrightarrow>
      suffix (lower k) w \<longleftrightarrow> lower k = w \<or> suffix (lower k) (border (\<lambda>w. w \<in> set W) w)" for k
    using assms suffix_border_iff [of "\<lambda>w. w \<in> set W" "lower k" w] by (auto simp: covers_def)
  then show ?thesis
    unfolding minKeywordIndex_first [OF order_refl] by (intro first_from_cong) auto
qed

lemma link_edge_ok:
  assumes t: "trie_ok W ns es" and c: "covers lower ks W"
    and s: "s < length W" "s \<noteq> 0" and low: "linked_upto lower ks W ns (length (W ! s))"
    and j: "j \<in> set (children W (W ! s))" and new: "unlinked lower ks W ns (Suc j)"
  obtains n where "link_edge es (int s) (es ! j) (ns, queue) = Some (ns[Suc j := n], queue @ [int (Suc j)])"
    "contentModerationKeywordBuildFirstEdge n = contentModerationKeywordBuildFirstEdge (ns ! Suc j)"
    "linked lower ks W (ns[Suc j := n]) (Suc j)"
proof -
  let ?P = "\<lambda>w. w \<in> set W" and ?l = "buildLabel (es ! j)"
  note W = trie_okD(1) [OF t] and len = trie_okD(2) [OF t]
  have e: "W ! Suc j = W ! s @ [?l]" "Suc j < length W" "buildTarget (es ! j) = int (Suc j)"
    using child_iff [OF trie_okD(3) [OF t] j] by auto
  have ne: "W ! s \<noteq> []" using root_word [OF W s(1)] s(2) by simp
  obtain g where g: "g < length W" "W ! g = border ?P (W ! s)" "length (W ! g) < length (W ! s)"
    using border_node [OF W ne] .
  obtain f where f: "f < length W" "W ! f = border ?P (W ! Suc j)" "length (W ! f) < length (W ! Suc j)"
    using border_node [OF W, of "Suc j"] e(1) by auto
  have node_f: "node_of W (W ! f) = int f" using words_okD(3) [OF W] f(1) by simp
  have fail_s: "failure (ns ! s) = int g"
    using low s(1) node_of_nth [OF words_okD(3) [OF W] g(1)] by (simp add: linked_upto_def linked_def g(2))
  have bf: "longest_suffix ?P (W ! g @ [?l]) = W ! f"
    using border_snoc [OF words_okD(4) [OF W] ne, of ?l] f(2) g(2) e(1) by simp
  have "linked_upto lower ks W ns (length (W ! g))" using low g(3) by (auto simp: linked_upto_def)
  from follow_failure_ok [OF t g(1) this, of ?l]
  have ff: "follow_failure ns es ?l (int g) (node_of W (W ! g @ [?l])) = Some (if f = 0 then -1 else int f)"
    using root_word [OF W f(1)] node_f by (simp add: bf Let_def)
  define child where "child = (ns ! Suc j)\<lparr>failure := int f\<rparr>"
  have child: "(if 0 \<le> (if f = 0 then -1 else int f)
      then (ns ! Suc j)\<lparr>failure := if f = 0 then -1 else int f\<rparr> else ns ! Suc j) = child"
    using new by (auto simp: child_def unlinked_def)
  have "f \<noteq> Suc j" using f(3) by auto
  let ?n = "child\<lparr>bestKeyword := minKeywordIndex (bestKeyword child) (bestKeyword (ns ! f))\<rparr>"
  have failc: "failure child = int f" by (simp add: child_def)
  have step: "link_edge es (int s) (es ! j) (ns, queue) = Some (ns[Suc j := ?n], queue @ [int (Suc j)])"
    unfolding link_edge_def
    using s(1) e len fail_s f(1) \<open>f \<noteq> Suc j\<close>
    by (simp add: transition_node_of [OF t g(1)] ff child failc slice_at_nat slice_put_nat Let_def
        del: of_nat_Suc)
  have "linked lower ks W ns f" using low f(1,3) e(1) by (simp add: linked_upto_def)
  then have "bestKeyword ?n = first_index (\<lambda>k. k \<noteq> [] \<and> suffix (lower k) (W ! Suc j)) ks"
    using best_of_border [OF c, of "W ! Suc j"] e(1) new f(2) by (simp add: linked_def unlinked_def child_def)
  then have "linked lower ks W (ns[Suc j := ?n]) (Suc j)"
    using e(2) len node_f f(2) failc by (simp add: linked_def)
  moreover have "contentModerationKeywordBuildFirstEdge ?n = contentModerationKeywordBuildFirstEdge (ns ! Suc j)"
    by (simp add: child_def)
  ultimately show ?thesis using that [OF step] by blast
qed

text \<open>Nodes other than those of \<open>S\<close> are untouched, and all edges stay.\<close>

definition relabels :: "nat set \<Rightarrow> build_nodes \<Rightarrow> build_nodes \<Rightarrow> bool" where
  "relabels S ns ns' \<longleftrightarrow> length ns' = length ns \<and> (\<forall>t. t \<notin> S \<longrightarrow> ns' ! t = ns ! t) \<and>
     (\<forall>t < length ns.
        contentModerationKeywordBuildFirstEdge (ns' ! t) = contentModerationKeywordBuildFirstEdge (ns ! t))"

lemma relabels_trie: "relabels S ns ns' \<Longrightarrow> trie_ok W ns es \<Longrightarrow> trie_ok W ns' es"
  unfolding relabels_def by (blast intro: trie_ok_relabel)

lemma relabels_update:
  assumes "contentModerationKeywordBuildFirstEdge n = contentModerationKeywordBuildFirstEdge (ns ! t)"
  shows "relabels {t} ns (ns[t := n])"
proof -
  have "contentModerationKeywordBuildFirstEdge (ns[t := n] ! s) = contentModerationKeywordBuildFirstEdge (ns ! s)"
    if "s < length ns" for s
    using assms that by (cases "s = t") simp_all
  then show ?thesis by (simp add: relabels_def)
qed

lemma relabels_then: "relabels S ns ns1 \<Longrightarrow> relabels T ns1 ns2 \<Longrightarrow> relabels (S \<union> T) ns ns2"
  by (auto simp: relabels_def)

lemma relabels_untouched:
  assumes "relabels S ns ns'" and "t \<notin> S"
  shows "linked lower ks W ns' t \<longleftrightarrow> linked lower ks W ns t"
    and "unlinked lower ks W ns' t \<longleftrightarrow> unlinked lower ks W ns t"
  using assms by (auto simp: relabels_def linked_def unlinked_def)

lemma visit_links:
  assumes "trie_ok W ns es" and "covers lower ks W"
    and "s < length W" "s \<noteq> 0" and "linked_upto lower ks W ns (length (W ! s))"
    and "distinct js" and "set js \<subseteq> set (children W (W ! s))"
    and "\<And>j. j \<in> set js \<Longrightarrow> unlinked lower ks W ns (Suc j)"
  obtains ns' where
    "visit (link_edge es (int s)) (map ((!) es) js) (ns, queue) =
       Some (ns', queue @ map (\<lambda>j. int (Suc j)) js)"
    "relabels (Suc ` set js) ns ns'" "\<And>j. j \<in> set js \<Longrightarrow> linked lower ks W ns' (Suc j)"
  using assms
proof (induction js arbitrary: ns queue thesis)
  case Nil
  show ?case by (rule Nil.prems(1) [of ns]) (simp_all add: relabels_def)
next
  case (Cons j js)
  have j: "j \<in> set (children W (W ! s))" and new: "unlinked lower ks W ns (Suc j)"
    using Cons.prems(8,9) by auto
  from link_edge_ok [OF Cons.prems(2-6) j new, of queue] obtain n where
    n: "link_edge es (int s) (es ! j) (ns, queue) = Some (ns[Suc j := n], queue @ [int (Suc j)])"
      "contentModerationKeywordBuildFirstEdge n = contentModerationKeywordBuildFirstEdge (ns ! Suc j)"
      "linked lower ks W (ns[Suc j := n]) (Suc j)" .
  note rel = relabels_update [OF n(2)]
  note same = relabels_untouched [OF rel]
  have deep: "length (W ! s) < length (W ! Suc j)"
    using child_iff [OF trie_okD(3) [OF Cons.prems(2)] j] by simp
  have low: "linked_upto lower ks W (ns[Suc j := n]) (length (W ! s))"
    using Cons.prems(6) deep same(1) unfolding linked_upto_def by (metis leD singletonD)
  have fresh: "unlinked lower ks W (ns[Suc j := n]) (Suc i)" if "i \<in> set js" for i
  proof -
    have "i \<noteq> j" using that Cons.prems(7) by auto
    then show ?thesis using that Cons.prems(9) [of i] same(2) [of "Suc i"] by simp
  qed
  from Cons.IH [of "ns[Suc j := n]" "queue @ [int (Suc j)]",
      OF _ relabels_trie [OF rel Cons.prems(2)] Cons.prems(3-5) low _ _ fresh] Cons.prems(7,8)
  obtain ns' where ns': "visit (link_edge es (int s)) (map ((!) es) js) (ns[Suc j := n], queue @ [int (Suc j)]) =
       Some (ns', (queue @ [int (Suc j)]) @ map (\<lambda>j. int (Suc j)) js)"
    "relabels (Suc ` set js) (ns[Suc j := n]) ns'" "\<And>j. j \<in> set js \<Longrightarrow> linked lower ks W ns' (Suc j)"
    by auto
  have "linked lower ks W ns' (Suc j)"
    using n(3) relabels_untouched(1) [OF ns'(2), of "Suc j"] Cons.prems(7) by auto
  then show ?case
    using n(1) ns' relabels_then [OF rel ns'(2)] by (intro Cons.prems(1) [of ns']) auto
qed

section \<open>Breadth-first order\<close>

definition queue_ok ::
    "(go_string \<Rightarrow> go_string) \<Rightarrow> go_string list \<Rightarrow> go_string list \<Rightarrow> build_nodes \<Rightarrow> nat list \<Rightarrow> nat \<Rightarrow> bool" where
  "queue_ok lower ks W ns Q i \<longleftrightarrow> distinct Q \<and> i \<le> length Q \<and>
     (\<forall>t. t \<in> set Q \<longleftrightarrow> t < length W \<and> (\<exists>p \<in> insert 0 (set (take i Q)). \<exists>c. W ! t = W ! p @ [c])) \<and>
     sorted (map (\<lambda>t. length (W ! t)) Q) \<and>
     (i < length Q \<longrightarrow> (\<forall>t \<in> set Q. length (W ! t) \<le> length (W ! (Q ! i)) + 1)) \<and>
     (\<forall>t < length W. if t \<in> insert 0 (set Q) then linked lower ks W ns t else unlinked lower ks W ns t)"

lemma queue_okD:
  assumes "queue_ok lower ks W ns Q i"
  shows "distinct Q" "i \<le> length Q" "sorted (map (\<lambda>t. length (W ! t)) Q)"
    and "\<And>t. t \<in> set Q \<Longrightarrow> t < length W"
    and "\<And>t. t \<in> set Q \<Longrightarrow> \<exists>p \<in> insert 0 (set (take i Q)). \<exists>c. W ! t = W ! p @ [c]"
    and "\<And>t p c. t < length W \<Longrightarrow> p \<in> insert 0 (set (take i Q)) \<Longrightarrow> W ! t = W ! p @ [c] \<Longrightarrow> t \<in> set Q"
    and "\<And>t. i < length Q \<Longrightarrow> t \<in> set Q \<Longrightarrow> length (W ! t) \<le> length (W ! (Q ! i)) + 1"
    and "\<And>t. t < length W \<Longrightarrow> t \<in> insert 0 (set Q) \<Longrightarrow> linked lower ks W ns t"
    and "\<And>t. t < length W \<Longrightarrow> t \<notin> insert 0 (set Q) \<Longrightarrow> unlinked lower ks W ns t"
  using assms unfolding queue_ok_def by (blast, blast, blast, blast, blast, blast, blast, metis, metis)

lemma parent_node:
  assumes "words_ok W" and "t < length W" and "t \<noteq> 0"
  obtains p c where "p < length W" and "W ! t = W ! p @ [c]"
proof -
  obtain w c where wc: "W ! t = w @ [c]" using assms root_word by (metis rev_exhaust)
  then have "w \<in> set W" using assms words_okD(4) prefix_closedD(2) by (metis nth_mem)
  then show ?thesis using that wc by (metis in_set_conv_nth)
qed

text \<open>No node that is at most as deep as the head of the queue is missing.\<close>

lemma queue_reaches:
  assumes q: "queue_ok lower ks W ns Q i" and W: "words_ok W"
    and "t < length W" and "i < length Q \<Longrightarrow> length (W ! t) \<le> length (W ! (Q ! i))"
  shows "t \<in> insert 0 (set Q)"
  using assms(3,4)
proof (induction "length (W ! t)" arbitrary: t rule: less_induct)
  case less
  show ?case
  proof (cases "t = 0")
    case False
    from parent_node [OF W less.prems(1) False] obtain p c where p: "p < length W" "W ! t = W ! p @ [c]" .
    have "length (W ! p) \<le> length (W ! (Q ! i))" if "i < length Q"
      using less.prems(2) [OF that] p(2) by simp
    then have "p \<in> insert 0 (set Q)" using less.hyps [of p] p by simp
    moreover have "p \<notin> set (drop i Q)"
    proof
      assume "p \<in> set (drop i Q)"
      then obtain k where "k < length (drop i Q)" "p = drop i Q ! k" by (metis in_set_conv_nth)
      then have k: "i + k < length Q" "p = Q ! (i + k)" by simp_all
      then have "length (W ! (Q ! i)) \<le> length (W ! p)"
        using sorted_nth_mono [OF queue_okD(3) [OF q], of i "i + k"] by simp
      then show False using less.prems(2) k(1) p(2) by simp
    qed
    ultimately have "p \<in> insert 0 (set (take i Q))"
      by (metis Un_iff append_take_drop_id insert_iff set_append)
    then show ?thesis using queue_okD(6) [OF q less.prems(1) _ p(2)] by simp
  qed simp
qed

lemma queue_linked:
  assumes "queue_ok lower ks W ns Q i" and "words_ok W" and "i < length Q"
  shows "linked_upto lower ks W ns (length (W ! (Q ! i)))"
  using queue_reaches [OF assms(1,2)] queue_okD(8) [OF assms(1)] by (auto simp: linked_upto_def)

lemma distinct_children: "distinct (children W w)"
  by (simp add: children_def)

lemma child_set:
  assumes "words_ok W"
  shows "t \<in> Suc ` set (children W w) \<longleftrightarrow> t < length W \<and> (\<exists>c. W ! t = w @ [c])"
proof
  assume "t \<in> Suc ` set (children W w)"
  then show "t < length W \<and> (\<exists>c. W ! t = w @ [c])" by (auto simp: children_def)
next
  assume "t < length W \<and> (\<exists>c. W ! t = w @ [c])"
  then obtain c where "t < length W" "W ! t = w @ [c]" by blast
  from childI [OF assms this(2,1)] show "t \<in> Suc ` set (children W w)" by blast
qed

lemma queue_fresh_child:
  assumes q: "queue_ok lower ks W ns Q i" and W: "words_ok W" and i: "i < length Q"
    and t: "t < length W" "W ! t = W ! (Q ! i) @ [c]"
  shows "t \<notin> insert 0 (set Q)"
proof
  assume "t \<in> insert 0 (set Q)"
  moreover have "t \<noteq> 0" using t root_word [OF W t(1)] by auto
  ultimately obtain p d where p: "p \<in> insert 0 (set (take i Q))" "W ! t = W ! p @ [d]"
    using queue_okD(5) [OF q] by blast
  have Qi: "Q ! i \<in> set Q" using i by simp
  have "p < length W"
    using p(1) queue_okD(4) [OF q] words_okD(5) [OF W] by (auto dest: in_set_takeD)
  moreover have "W ! p = W ! (Q ! i)" using p(2) t(2) by simp
  ultimately have pQ: "p = Q ! i"
    using queue_okD(4) [OF q Qi] words_okD(3) [OF W] by (simp add: nth_eq_iff_index_eq)
  moreover have "Q ! i \<noteq> 0"
    using queue_okD(5) [OF q Qi] root_word [OF W queue_okD(4) [OF q Qi]] by auto
  moreover have "Q ! i \<notin> set (take i Q)"
    using queue_okD(1) [OF q] i by (auto simp: in_set_conv_nth nth_eq_iff_index_eq)
  ultimately show False using p(1) by simp
qed

lemma queue_step:
  assumes q: "queue_ok lower ks W ns Q i" and W: "words_ok W" and i: "i < length Q"
    and rel: "relabels (Suc ` set (children W (W ! (Q ! i)))) ns ns'"
    and new: "\<And>j. j \<in> set (children W (W ! (Q ! i))) \<Longrightarrow> linked lower ks W ns' (Suc j)"
  shows "queue_ok lower ks W ns' (Q @ map Suc (children W (W ! (Q ! i)))) (Suc i)"
    (is "queue_ok _ _ _ _ ?Q _")
proof -
  let ?js = "children W (W ! (Q ! i))" and ?d = "length (W ! (Q ! i))"
  note D = queue_okD [OF q] and kids = child_set [OF W, of _ "W ! (Q ! i)"]
  have fresh: "t \<notin> insert 0 (set Q)" if "t \<in> Suc ` set ?js" for t
    using that kids queue_fresh_child [OF q W i] by blast
  have deep: "length (W ! t) = ?d + 1" if "t \<in> Suc ` set ?js" for t
    using that kids [of t] by auto
  have tk: "take (Suc i) ?Q = take i Q @ [Q ! i]" using i by (simp add: take_Suc_conv_app_nth)
  have "distinct ?Q"
    using D(1) fresh distinct_children [of W] by (auto simp: distinct_map)
  moreover have "t \<in> set ?Q \<longleftrightarrow>
      t < length W \<and> (\<exists>p \<in> insert 0 (set (take (Suc i) ?Q)). \<exists>c. W ! t = W ! p @ [c])" for t
    using kids [of t] D(4-6) [of t] unfolding tk by auto
  moreover have "sorted (map (\<lambda>t. length (W ! t)) ?Q)"
  proof -
    have "map (\<lambda>t. length (W ! t)) (map Suc ?js) = replicate (length ?js) (?d + 1)"
      by (rule nth_equalityI) (auto simp: deep)
    then show ?thesis using D(3) D(7) [OF i] by (simp add: sorted_append)
  qed
  moreover have "length (W ! t) \<le> length (W ! (?Q ! Suc i)) + 1" if "Suc i < length ?Q" "t \<in> set ?Q" for t
  proof -
    have "?d \<le> length (W ! (?Q ! Suc i))"
      using sorted_nth_mono [OF \<open>sorted (map (\<lambda>t. length (W ! t)) ?Q)\<close>, of i "Suc i"] that(1) i
      unfolding nth_map [OF that(1)] by (simp add: nth_append del: map_append)
    moreover have "length (W ! t) \<le> ?d + 1" using that(2) D(7) [OF i] deep by auto
    ultimately show ?thesis by simp
  qed
  moreover have "if t \<in> insert 0 (set ?Q) then linked lower ks W ns' t else unlinked lower ks W ns' t"
    if "t < length W" for t
    using that new D(8,9) [OF that] fresh relabels_untouched [OF rel, of t]
    by (cases "t \<in> Suc ` set ?js") auto
  ultimately show ?thesis using i by (simp add: queue_ok_def)
qed

lemma link_queue_ok:
  assumes "trie_ok W ns es" and "covers lower ks W" and "queue_ok lower ks W ns Q i"
  obtains ns' where "link_queue es (int i) ns (map int Q) = Some ns'" "trie_ok W ns' es"
    "\<And>t. t < length W \<Longrightarrow> linked lower ks W ns' t"
  using assms
proof (induction "length W - i" arbitrary: ns Q i thesis rule: less_induct)
  case less
  note t = less.prems(2) and q = less.prems(4)
  note W = trie_okD(1) [OF t]
  show ?case
  proof (cases "i < length Q")
    case False
    then have "linked lower ks W ns s" if "s < length W" for s
      using that queue_okD(8) [OF q that] queue_reaches [OF q W that] by simp
    then show ?thesis using False t less.prems(1) by (simp add: link_queue.simps)
  next
    case True
    let ?s = "Q ! i"
    have s: "?s < length W" "?s \<noteq> 0"
      using True queue_okD(4) [OF q] queue_okD(5) [OF q] root_word [OF W] nth_mem [OF True]
      by (blast, metis append_is_Nil_conv list.distinct(1))
    have fresh: "unlinked lower ks W ns (Suc j)" if "j \<in> set (children W (W ! ?s))" for j
      using that child_iff [OF trie_okD(3) [OF t] that] queue_fresh_child [OF q W True]
        queue_okD(9) [OF q, of "Suc j"] by blast
    from visit_links [OF t less.prems(3) s queue_linked [OF q W True] distinct_children order_refl fresh,
        of "map int Q"]
    obtain ns' where ns': "visit (link_edge es (int ?s)) (map ((!) es) (children W (W ! ?s))) (ns, map int Q) =
        Some (ns', map int Q @ map (\<lambda>j. int (Suc j)) (children W (W ! ?s)))"
      "relabels (Suc ` set (children W (W ! ?s))) ns ns'"
      "\<And>j. j \<in> set (children W (W ! ?s)) \<Longrightarrow> linked lower ks W ns' (Suc j)" by blast
    let ?Q = "Q @ map Suc (children W (W ! ?s))"
    have step: "link_queue es (int i) ns (map int Q) = link_queue es (int (Suc i)) ns' (map int ?Q)"
      using True s(1) trie_okD(2) [OF t] ns'(1)
      by (simp add: link_queue.simps [of es "int i"] for_siblings_chain [OF trie_okD(5) [OF t s(1)]]
          add.commute comp_def)
    have q': "queue_ok lower ks W ns' ?Q (Suc i)" by (rule queue_step [OF q W True ns'(2,3)])


    have "length Q \<le> length W" using card_mono [of "{..<length W}" "set Q"] queue_okD(1,4) [OF q]
      by (auto simp: distinct_card)
    then have "length W - Suc i < length W - i" using True by simp
    from less.hyps [OF this _ relabels_trie [OF ns'(2) t] less.prems(3) q']
    show ?thesis using less.prems(1) unfolding step by blast
  qed
qed

end
