(* ===== verification/Keyword_Packing.thy ===== *)
theory Keyword_Packing
  imports Keyword_Links "HOL-Library.Multiset"
begin

text \<open>
  Packing the edges. The edges of each node are collected into the array \<^verbatim>\<open>outgoing\<close>, sorted there by
  insertion, and appended to one slice; bisection in the slice finds the edge with a label exactly when
  the trie has it.
\<close>

section \<open>Insertion sort in place\<close>

abbreviation by_label :: "contentModerationKeywordEdge list \<Rightarrow> bool" where
  "by_label es \<equiv> sorted (map label es)"

lemma slice_put_append: "slice_put (xs @ x # ys) (int (length xs)) y = Some (xs @ y # ys)"
  by (simp add: slice_put_def)

lemma slice_put_append2:
  "slice_put (xs @ p # x # ys) (int (Suc (length xs))) y = Some (xs @ p # y # ys)"
  using slice_put_append [of "xs @ [p]" x ys y] by simp

lemma slice_at_append: "slice_at (xs @ x # ys) (int (length xs)) = Some x"
  by (simp add: slice_at_def)

lemma shift_edges_ok:
  "by_label xs \<Longrightarrow> \<exists>rs. shift_edges current (length xs) (xs @ x # ys) = Some (rs @ ys) \<and>
     mset rs = add_mset current (mset xs) \<and> by_label rs"
proof (induction xs arbitrary: x ys rule: rev_induct)
  case Nil
  have "slice_put (x # ys) 0 current = Some (current # ys)" by (simp add: slice_put_def)
  then show ?case by (intro exI [of _ "[current]"]) simp
next
  case (snoc p xs)
  have srt: "by_label xs" "\<forall>y \<in> set xs. label y \<le> label p" using snoc.prems by (auto simp: sorted_append)
  show ?case
  proof (cases "label current < label p")
    case True
    obtain rs where rs: "shift_edges current (length xs) (xs @ p # p # ys) = Some (rs @ p # ys)"
      "mset rs = add_mset current (mset xs)" "by_label rs"
      using snoc.IH [OF srt(1), of p "p # ys"] by blast
    have "set rs = insert current (set xs)" using rs(2) by (metis set_mset_add_mset_insert set_mset_mset)
    then have "by_label (rs @ [p])" using rs(3) srt(2) True by (auto simp: sorted_append)
    moreover have "mset (rs @ [p]) = add_mset current (mset (xs @ [p]))" using rs(2) by simp
    moreover have "shift_edges current (length (xs @ [p])) ((xs @ [p]) @ x # ys) = Some ((rs @ [p]) @ ys)"
      using True rs(1) slice_at_append [of xs p "x # ys"] slice_put_append2 [of xs p x ys p]
      by simp
    ultimately show ?thesis by blast
  next
    case False
    then have "by_label ((xs @ [p]) @ [current])" using snoc.prems srt(2) by (fastforce simp: sorted_append)
    moreover have "shift_edges current (length (xs @ [p])) ((xs @ [p]) @ x # ys) =
        Some (((xs @ [p]) @ [current]) @ ys)"
      using False slice_at_append [of xs p "x # ys"] slice_put_append2 [of xs p x ys current]
      by simp
    ultimately show ?thesis by (intro exI [of _ "(xs @ [p]) @ [current]"]) simp
  qed
qed

lemma sort_edges_ok:
  "by_label xs \<Longrightarrow> \<exists>rs. sort_edges (int (length xs)) (int (length xs + length ys)) (xs @ ys @ zs) = Some (rs @ zs) \<and>
     mset rs = mset (xs @ ys) \<and> by_label rs"
proof (induction ys arbitrary: xs)
  case Nil
  then show ?case by (intro exI [of _ xs]) (simp add: sort_edges.simps)
next
  case (Cons y ys)
  obtain rs where rs: "shift_edges y (length xs) (xs @ y # ys @ zs) = Some (rs @ ys @ zs)"
    "mset rs = add_mset y (mset xs)" "by_label rs"
    using shift_edges_ok [OF Cons.prems, of y y "ys @ zs"] by blast
  have len: "length rs = Suc (length xs)" using rs(2) by (metis size_add_mset size_mset)
  obtain rs' where rs': "sort_edges (int (length rs)) (int (length rs + length ys)) (rs @ ys @ zs) = Some (rs' @ zs)"
    "mset rs' = mset (rs @ ys)" "by_label rs'"
    using Cons.IH [OF rs(3)] by blast
  have "sort_edges (int (length xs)) (int (length xs + length (y # ys))) (xs @ (y # ys) @ zs) = Some (rs' @ zs)"
    using rs'(1) rs(1) len slice_at_append [of xs y "ys @ zs"]
    by (simp add: sort_edges.simps [of "int (length xs)"] add.commute)
  then show ?case using rs' rs(2) by auto
qed

section \<open>Collecting the edges of a node\<close>

abbreviation packed_edge :: "contentModerationKeywordBuildEdge \<Rightarrow> contentModerationKeywordEdge" where
  "packed_edge e \<equiv> \<lparr>target = buildTarget e, label = buildLabel e\<rparr>"

lemma visit_collect:
  "length bs \<le> length out \<Longrightarrow>
   visit collect_edge bs (as @ out, int (length as)) =
     Some (as @ map packed_edge bs @ drop (length bs) out, int (length as + length bs))"
proof (induction bs arbitrary: as out)
  case (Cons b bs)
  then obtain o1 out' where out: "out = o1 # out'" by (cases out) auto
  have "collect_edge b (as @ out, int (length as)) =
      Some ((as @ [packed_edge b]) @ out', int (length (as @ [packed_edge b])))"
    by (simp add: collect_edge_def out slice_put_append)
  then show ?case using Cons.IH [of out' "as @ [packed_edge b]"] Cons.prems out by simp
qed simp

lemma children_labels:
  assumes t: "trie_ok W ns es"
  shows "distinct (map (\<lambda>j. buildLabel (es ! j)) (children W w))"
  unfolding distinct_map
proof (intro conjI inj_onI)
  fix i j assume "i \<in> set (children W w)" "j \<in> set (children W w)"
    and same: "buildLabel (es ! i) = buildLabel (es ! j)"
  then have "W ! Suc i = W ! Suc j" "Suc i < length W" "Suc j < length W"
    using child_iff [OF trie_okD(3) [OF t]] by auto
  then show "i = j" using words_okD(3) [OF trie_okD(1) [OF t]] by (simp add: nth_eq_iff_index_eq)
qed (rule distinct_children)

lemma length_children: "trie_ok W ns es \<Longrightarrow> length (children W w) \<le> 256"
  using distinct_card [OF children_labels, of W ns es w]
    card_mono [OF finite, of "set (map (\<lambda>j. buildLabel (es ! j)) (children W w))" UNIV]
  by (simp add: card_UNIV_char)

section \<open>Packing all nodes\<close>

text \<open>Node \<open>n\<close> for the word \<open>w\<close> has its children in its part of the packed slice, sorted by label.\<close>

definition packed_ok ::
    "go_string list \<Rightarrow> contentModerationKeywordEdge list \<Rightarrow> go_string \<Rightarrow> contentModerationKeywordNode \<Rightarrow> bool" where
  "packed_ok W packed w n \<longleftrightarrow> (\<exists>as bs cs. packed = as @ bs @ cs \<and>
     edgeStart n = int (length as) \<and> edgeCount n = int (length bs) \<and> by_label bs \<and>
     (\<forall>e. e \<in> set bs \<longleftrightarrow> w @ [label e] \<in> set W \<and> target e = node_of W (w @ [label e])))"

lemma packed_ok_append: "packed_ok W packed w n \<Longrightarrow> packed_ok W (packed @ rest) w n"
  unfolding packed_ok_def by (metis append.assoc)

lemma packed_children:
  assumes t: "trie_ok W ns es"
  shows "e \<in> packed_edge ` (!) es ` set (children W w) \<longleftrightarrow>
    w @ [label e] \<in> set W \<and> target e = node_of W (w @ [label e])"
proof
  assume "e \<in> packed_edge ` (!) es ` set (children W w)"
  then obtain j where j: "j \<in> set (children W w)" "e = packed_edge (es ! j)" by auto
  then show "w @ [label e] \<in> set W \<and> target e = node_of W (w @ [label e])"
    using child_iff [OF trie_okD(3) [OF t] j(1)] node_of_nth [OF words_okD(3) [OF trie_okD(1) [OF t]], of "Suc j"]
    by (metis nth_mem contentModerationKeywordEdge.select_convs)
next
  assume e: "w @ [label e] \<in> set W \<and> target e = node_of W (w @ [label e])"
  then obtain t' where t': "t' < length W" "W ! t' = w @ [label e]" by (auto simp: in_set_conv_nth)
  obtain j where j: "t' = Suc j" "j \<in> set (children W w)" using childI [OF trie_okD(1) [OF t] t'(2,1)] .
  have "e = packed_edge (es ! j)"
    using child_iff [OF trie_okD(3) [OF t] j(2)] e t' j(1)
      node_of_nth [OF words_okD(3) [OF trie_okD(1) [OF t]] t'(1)] by (cases e) auto
  then show "e \<in> packed_edge ` (!) es ` set (children W w)" using j(2) by blast
qed

definition child_count :: "go_string list \<Rightarrow> nat \<Rightarrow> nat" where
  "child_count W p = length (concat (map (\<lambda>q. children W (W ! q)) [0..<p]))"

lemma child_count_Suc: "child_count W (Suc p) = child_count W p + length (children W (W ! p))"
  by (simp add: child_count_def)

lemma child_count_le:
  assumes W: "words_ok W" and "p \<le> length W"
  shows "child_count W p < length W"
proof -
  let ?js = "concat (map (\<lambda>q. children W (W ! q)) [0..<p])"
  have "distinct ?js"
    using assms(2)
  proof (induction p)
    case (Suc p)
    have "set (children W (W ! q)) \<inter> set (children W (W ! p)) = {}" if "q < p" for q
      using that Suc.prems words_okD(3) [OF W] by (auto simp: children_def nth_eq_iff_index_eq)
    then have "set (concat (map (\<lambda>q. children W (W ! q)) [0..<p])) \<inter> set (children W (W ! p)) = {}" by fastforce
    then show ?case using Suc distinct_children by simp
  qed simp
  moreover have "set ?js \<subseteq> {..<length W - 1}" by (auto simp: children_def)
  ultimately have "length ?js \<le> length W - 1"
    by (metis card_lessThan card_mono distinct_card finite_lessThan)
  then show ?thesis using words_okD(5) [OF W] unfolding child_count_def by linarith
qed

lemma pack_node_ok:
  assumes t: "trie_ok W ns es" and p: "p < length W" and at_p: "ns' ! p = ns ! p" "length ns' = length W"
    and packed: "length packed = child_count W p" and out: "length outgoing = 256"
  obtains rs out' where
    "pack_node es p (ns', packed, outgoing) =
       Some (ns'[p := (ns ! p)\<lparr>edgeStart := int (length packed), edgeCount := int (length rs)\<rparr>],
         packed @ rs, out')"
    "packed_ok W (packed @ rs) (W ! p)
       ((ns ! p)\<lparr>edgeStart := int (length packed), edgeCount := int (length rs)\<rparr>)"
    "length out' = 256" "length rs = length (children W (W ! p))"
proof -
  let ?js = "children W (W ! p)"
  let ?bs = "map packed_edge (map ((!) es) ?js)"
  have few: "length ?js \<le> 256" by (rule length_children [OF t])
  have walk: "for_siblings es collect_edge (contentModerationKeywordBuildFirstEdge (ns ! p)) (outgoing, 0) =
      Some (?bs @ drop (length ?js) outgoing, int (length ?js))"
    using visit_collect [of "map ((!) es) ?js" outgoing "[]"] few out
    by (simp add: for_siblings_chain [OF trie_okD(5) [OF t p]])
  obtain rs where rs: "sort_edges 1 (int (length ?js)) (?bs @ drop (length ?js) outgoing) =
      Some (rs @ drop (length ?js) outgoing)" "mset rs = mset ?bs" "by_label rs"
  proof (cases ?bs)
    case Nil
    then show ?thesis using that [of "[]"] by (simp add: sort_edges.simps)
  next
    case (Cons b bs)
    then have len: "length ?js = Suc (length bs)" by (metis length_Cons length_map)
    show ?thesis
      using sort_edges_ok [of "[b]" bs "drop (length ?js) outgoing"] that len unfolding Cons by auto
  qed
  have len: "length rs = length ?js" using rs(2) by (metis length_map size_mset)
  have "int (length packed) < 2 ^ 31"
    using child_count_le [OF trie_okD(1) [OF t], of p] p packed trie_okD(4) [OF t] by simp
  then have step: "pack_node es p (ns', packed, outgoing) =
      Some (ns'[p := (ns ! p)\<lparr>edgeStart := int (length packed), edgeCount := int (length rs)\<rparr>],
        packed @ rs, rs @ drop (length ?js) outgoing)"
    using p at_p walk rs(1) len few by (simp add: pack_node_def)
  have "set rs = packed_edge ` (!) es ` set ?js" using rs(2) by (metis list.set_map set_mset_mset)
  then have "e \<in> set rs \<longleftrightarrow> W ! p @ [label e] \<in> set W \<and> target e = node_of W (W ! p @ [label e])" for e
    using packed_children [OF t, of e "W ! p"] by simp
  then have "packed_ok W (packed @ rs) (W ! p)
       ((ns ! p)\<lparr>edgeStart := int (length packed), edgeCount := int (length rs)\<rparr>)"
    using rs(3) unfolding packed_ok_def by (intro exI [of _ packed] exI [of _ rs] exI [of _ "[]"]) simp
  then show ?thesis using that [OF step] len few out by simp
qed

text \<open>What the node keeps of its links.\<close>

definition packs :: "go_string list \<Rightarrow> build_nodes \<Rightarrow> nat \<Rightarrow> build_nodes \<Rightarrow> contentModerationKeywordEdge list \<Rightarrow> bool" where
  "packs W ns p ns' packed \<longleftrightarrow> length ns' = length W \<and> length packed = child_count W p \<and>
     (\<forall>q. p \<le> q \<longrightarrow> ns' ! q = ns ! q) \<and>
     (\<forall>q < p. failure (ns' ! q) = failure (ns ! q) \<and> bestKeyword (ns' ! q) = bestKeyword (ns ! q) \<and>
        packed_ok W packed (W ! q) (ns' ! q))"

lemma pack_nodes_ok:
  assumes t: "trie_ok W ns es" and "packs W ns p ns' packed" and "length outgoing = 256" and "p \<le> length W"
  obtains ns'' packed' out' where
    "pack_nodes es [p..<length W] (ns', packed, outgoing) = Some (ns'', packed', out')"
    "packs W ns (length W) ns'' packed'"
  using assms(2-4)
proof (induction "length W - p" arbitrary: p ns' packed outgoing thesis)
  case 0
  then show ?case by simp
next
  case (Suc n)
  then have p: "p < length W" by simp
  note inv = Suc.prems(2) [unfolded packs_def]
  obtain rs out' where step: "pack_node es p (ns', packed, outgoing) =
       Some (ns'[p := (ns ! p)\<lparr>edgeStart := int (length packed), edgeCount := int (length rs)\<rparr>],
         packed @ rs, out')" (is "_ = Some (?ns, _)")
    "packed_ok W (packed @ rs) (W ! p)
       ((ns ! p)\<lparr>edgeStart := int (length packed), edgeCount := int (length rs)\<rparr>)"
    "length out' = 256" "length rs = length (children W (W ! p))"
    using pack_node_ok [OF t p _ _ _ Suc.prems(3), of ns' packed] inv by blast
  have "failure (?ns ! q) = failure (ns ! q) \<and> bestKeyword (?ns ! q) = bestKeyword (ns ! q) \<and>
      packed_ok W (packed @ rs) (W ! q) (?ns ! q)" if "q < Suc p" for q
  proof (cases "q = p")
    case True
    then show ?thesis using p inv step(2) by simp
  next
    case False
    then show ?thesis using that inv packed_ok_append [of W packed "W ! q" "ns' ! q" rs] by simp
  qed
  then have "packs W ns (Suc p) ?ns (packed @ rs)"
    using inv step(4) unfolding packs_def by (simp add: child_count_Suc)
  moreover have "n = length W - Suc p" "Suc p \<le> length W" using Suc.hyps(2) by simp_all
  ultimately obtain ns'' packed' out'' where
    "pack_nodes es [Suc p..<length W] (?ns, packed @ rs, out') = Some (ns'', packed', out'')"
    "packs W ns (length W) ns'' packed'" using Suc.hyps(1) step(3) by blast
  then show ?case using Suc.prems(1) step(1) p by (simp add: upt_conv_Cons)
qed

end
