(* ===== verification/Keyword_Scan.thy ===== *)
theory Keyword_Scan
  imports Keyword_Packing
begin

text \<open>
  The finished matcher and its scan: transitions of the packed automaton are those of the trie, the state
  after a text is its longest suffix in the trie, and the scan returns what the plain search over the list
  of keywords returns.
\<close>

section \<open>Bisection\<close>

lemma lower_bound_ok:
  assumes "0 \<le> left" "left \<le> right" "right \<le> int (length es)"
    and "\<And>i j. L \<le> i \<Longrightarrow> i \<le> j \<Longrightarrow> j < R \<Longrightarrow> label (es ! i) \<le> label (es ! j)"
    and "\<And>i. L \<le> i \<Longrightarrow> int i < left \<Longrightarrow> label (es ! i) < l"
    and "\<And>i. right \<le> int i \<Longrightarrow> i < R \<Longrightarrow> l \<le> label (es ! i)"
    and "int L \<le> left" "right \<le> int R"
  shows "\<exists>r. lower_bound es l left right = Some (int r) \<and> left \<le> int r \<and> int r \<le> right \<and>
    (\<forall>i. L \<le> i \<and> i < r \<longrightarrow> label (es ! i) < l) \<and> (\<forall>i. r \<le> i \<and> i < R \<longrightarrow> l \<le> label (es ! i))"
  using assms
proof (induction es l left right rule: lower_bound.induct)
  case (1 es l left right)
  show ?case
  proof (cases "left < right")
    case False
    then have done_at: "lower_bound es l left right = Some (int (nat left))" "right = left"
      using "1.prems"(1,2) by (simp_all add: lower_bound.simps)
    have "label (es ! i) < l" if "L \<le> i" "i < nat left" for i
      using that by (intro "1.prems"(5)) simp_all
    moreover have "l \<le> label (es ! i)" if "nat left \<le> i" "i < R" for i
      using that done_at(2) by (intro "1.prems"(6)) simp_all
    ultimately show ?thesis using done_at "1.prems"(1) by (intro exI [of _ "nat left"]) simp
  next
    case True
    define m where "m = nat (left + (right - left) div 2)"
    have m: "left + (right - left) div 2 = int m" "left \<le> int m" "int m < right"
      using True "1.prems"(1) by (auto simp: m_def)
    have at_m: "slice_at es (int m) = Some (es ! m)" using m "1.prems"(3) by simp
    show ?thesis
    proof (cases "label (es ! m) < l")
      case less: True
      have "label (es ! i) < l" if "L \<le> i" "int i < int m + 1" for i
      proof -
        have "i \<le> m" "m < R" using that m(3) "1.prems"(8) by simp_all
        then show ?thesis using "1.prems"(4) [of i m] that(1) less by simp
      qed
      then obtain r where "lower_bound es l (int m + 1) right = Some (int r) \<and> int m + 1 \<le> int r \<and> int r \<le> right \<and>
          (\<forall>i. L \<le> i \<and> i < r \<longrightarrow> label (es ! i) < l) \<and> (\<forall>i. r \<le> i \<and> i < R \<longrightarrow> l \<le> label (es ! i))"
        using "1.IH"(1) [OF True refl _ less] "1.prems" m at_m by auto
      then show ?thesis
        using True m at_m less by (intro exI [of _ r]) (simp add: lower_bound.simps [of es l left])
    next
      case ge: False
      have "l \<le> label (es ! i)" if "int m \<le> int i" "i < R" for i
      proof -
        have "L \<le> m" "m \<le> i" using that m(2) "1.prems"(7) by simp_all
        then show ?thesis using "1.prems"(4) [of m i] that(2) ge by simp
      qed
      then obtain r where "lower_bound es l left (int m) = Some (int r) \<and> left \<le> int r \<and> int r \<le> int m \<and>
          (\<forall>i. L \<le> i \<and> i < r \<longrightarrow> label (es ! i) < l) \<and> (\<forall>i. r \<le> i \<and> i < R \<longrightarrow> l \<le> label (es ! i))"
        using "1.IH"(2) [OF True refl _ ge] "1.prems" m at_m by auto
      then show ?thesis
        using True m at_m ge by (intro exI [of _ r]) (simp add: lower_bound.simps [of es l left])
    qed
  qed
qed

section \<open>The automaton\<close>

definition matcher_ok ::
    "(go_string \<Rightarrow> go_string) \<Rightarrow> go_string list \<Rightarrow> go_string list \<Rightarrow> contentModerationKeywordMatcher \<Rightarrow> bool" where
  "matcher_ok lower ks W m \<longleftrightarrow> words_ok W \<and> covers lower ks W \<and> originalKeywords m = ks \<and>
     length (nodes m) = length W \<and> (\<forall>l. rootTransitions m l = max 0 (node_of W [l])) \<and>
     (\<forall>t < length W. linked lower ks W (nodes m) t \<and> packed_ok W (edges m) (W ! t) (nodes m ! t))"

lemma matcher_okD:
  assumes "matcher_ok lower ks W m"
  shows "words_ok W" "covers lower ks W" "originalKeywords m = ks" "length (nodes m) = length W"
    and "rootTransitions m l = max 0 (node_of W [l])"
    and "t < length W \<Longrightarrow> linked lower ks W (nodes m) t"
    and "t < length W \<Longrightarrow> packed_ok W (edges m) (W ! t) (nodes m ! t)"
  using assms by (auto simp: matcher_ok_def)

lemma packed_lookup:
  assumes "packed_ok W packed w n"
  shows "\<exists>r. lower_bound packed l (edgeStart n) (edgeStart n + edgeCount n) = Some (int r) \<and>
    (if int r < edgeStart n + edgeCount n \<and> label (packed ! r) = l
     then w @ [l] \<in> set W \<and> target (packed ! r) = node_of W (w @ [l]) \<and> r < length packed
     else w @ [l] \<notin> set W \<and> (int r < edgeStart n + edgeCount n \<longrightarrow> r < length packed))"
proof -
  obtain as bs cs where p: "packed = as @ bs @ cs" "edgeStart n = int (length as)"
    "edgeCount n = int (length bs)" "by_label bs"
    and mem: "\<And>e. e \<in> set bs \<longleftrightarrow> w @ [label e] \<in> set W \<and> target e = node_of W (w @ [label e])"
    using assms unfolding packed_ok_def by blast
  let ?L = "length as" and ?R = "length as + length bs"
  have nth: "packed ! i = bs ! (i - ?L)" if "?L \<le> i" "i < ?R" for i
    using that by (simp add: p(1) nth_append)
  have srt: "label (packed ! i) \<le> label (packed ! j)" if "?L \<le> i" "i \<le> j" "j < ?R" for i j
    using that sorted_nth_mono [OF p(4), of "i - ?L" "j - ?L"] nth [of i] nth [of j] by simp
  obtain r where r: "lower_bound packed l (int ?L) (int ?R) = Some (int r)" "?L \<le> r" "r \<le> ?R"
    "\<And>i. ?L \<le> i \<Longrightarrow> i < r \<Longrightarrow> label (packed ! i) < l" "\<And>i. r \<le> i \<Longrightarrow> i < ?R \<Longrightarrow> l \<le> label (packed ! i)"
    using lower_bound_ok [of "int ?L" "int ?R" packed ?L ?R l] srt p(1) by auto
  have found: "w @ [l] \<in> set W \<and> target (packed ! r) = node_of W (w @ [l])"
    if "r < ?R" "label (packed ! r) = l"
    using that r(2) mem [of "packed ! r"] nth [OF r(2)] by simp
  have "r < ?R \<and> label (packed ! r) = l" if in_W: "w @ [l] \<in> set W"
  proof -
    have "\<lparr>target = node_of W (w @ [l]), label = l\<rparr> \<in> set bs" using in_W by (simp add: mem)
    then obtain k where k: "k < length bs" "label (bs ! k) = l"
      by (metis in_set_conv_nth contentModerationKeywordEdge.select_convs(2))
    then have pk: "label (packed ! (?L + k)) = l" using nth [of "?L + k"] by simp
    then have "r \<le> ?L + k" using r(4) [of "?L + k"] by (metis le_add1 less_irrefl not_le)
    then show ?thesis using r(5) [of r] srt [of r "?L + k"] r(2) k(1) pk by auto
  qed
  moreover have "?R \<le> length packed" by (simp add: p(1))
  moreover have span: "edgeStart n + edgeCount n = int ?R" by (simp add: p(2,3))
  ultimately show ?thesis
    using r(1) found unfolding span p(2) by (intro exI [of _ r]) (auto simp del: of_nat_add)
qed

lemma next_state_ok:
  assumes m: "matcher_ok lower ks W m" and t: "t < length W"
  shows "next_state m (int t) l = Some (max 0 (node_of W (W ! t @ [l])))"
proof (cases "t = 0")
  case True
  then show ?thesis
    using matcher_okD(5) [OF m] words_okD(2) [OF matcher_okD(1) [OF m]] by (simp add: next_state_def)
next
  case False
  note W = matcher_okD(1) [OF m]
  have pos: "max 0 (node_of W (W ! t @ [l])) = (if W ! t @ [l] \<in> set W then node_of W (W ! t @ [l]) else 0)"
    using node_of_neg [OF W, of "W ! t @ [l]"] by auto
  from packed_lookup [OF matcher_okD(7) [OF m t], of l] obtain r where
    r: "lower_bound (edges m) l (edgeStart (nodes m ! t)) (edgeStart (nodes m ! t) + edgeCount (nodes m ! t)) = Some (int r)"
    and cases: "if int r < edgeStart (nodes m ! t) + edgeCount (nodes m ! t) \<and> label (edges m ! r) = l
     then W ! t @ [l] \<in> set W \<and> target (edges m ! r) = node_of W (W ! t @ [l]) \<and> r < length (edges m)
     else W ! t @ [l] \<notin> set W \<and> (int r < edgeStart (nodes m ! t) + edgeCount (nodes m ! t) \<longrightarrow> r < length (edges m))"
    by blast
  show ?thesis
    using False t matcher_okD(4) [OF m] r cases unfolding pos
    by (auto simp: next_state_def Let_def split: if_splits)
qed

text \<open>Following failures ends at the longest suffix that can be extended.\<close>

lemma advance_ok:
  assumes m: "matcher_ok lower ks W m" and "t < length W"
  shows "advance m l (int t) = Some (node_of W (longest_suffix (\<lambda>w. w \<in> set W) (W ! t @ [l])))"
  using assms(2)
proof (induction "length (W ! t)" arbitrary: t rule: less_induct)
  case less
  let ?P = "\<lambda>w. w \<in> set W"
  note W = matcher_okD(1) [OF m] and nxt = next_state_ok [OF m less.prems, of l]
  show ?case
  proof (cases "W ! t @ [l] \<in> set W")
    case True
    then obtain s where s: "s < length W" "W ! s = W ! t @ [l]" "node_of W (W ! t @ [l]) = int s"
      using node_of_in [OF words_okD(3) [OF W]] by metis
    then have "s \<noteq> 0" using words_okD(2) [OF W] by (metis append_is_Nil_conv list.distinct(1))
    then show ?thesis
      using nxt s(3) longest_suffix_self [of ?P, OF True] by (simp add: advance.simps [of m l "int t"])
  next
    case False
    show ?thesis
    proof (cases "t = 0")
      case True
      have "node_of W [] = 0" using node_of_nth [OF words_okD(3,5) [OF W]] words_okD(2) [OF W] by simp
      then show ?thesis
        using nxt False True words_okD(2) [OF W] by (simp add: advance.simps [of m l])
    next
      case t: False
      then have ne: "W ! t \<noteq> []" using root_word [OF W less.prems] by simp
      obtain g where g: "g < length W" "W ! g = border ?P (W ! t)" "length (W ! g) < length (W ! t)"
        using border_node [OF W ne] .
      have "failure (nodes m ! t) = int g"
        using matcher_okD(6) [OF m less.prems] node_of_nth [OF words_okD(3) [OF W] g(1)]
        by (simp add: linked_def g(2))
      then have "advance m l (int t) = advance m l (int g)"
        using nxt False t less.prems matcher_okD(4) [OF m] by (simp add: advance.simps [of m l "int t"])
      then show ?thesis
        using less.hyps [OF g(3,1)] longest_suffix_fail [OF words_okD(4) [OF W] ne False] g(2) by simp
    qed
  qed
qed

section \<open>The scan\<close>

lemma scan_step:
  assumes m: "matcher_ok lower ks W m"
  obtains t where "t < length W" "W ! t = longest_suffix (\<lambda>w. w \<in> set W) (seen @ [l])"
    "advance m l (node_of W (longest_suffix (\<lambda>w. w \<in> set W) seen)) = Some (int t)"
    "bestKeyword (nodes m ! t) = first_index (\<lambda>k. k \<noteq> [] \<and> suffix (lower k) (seen @ [l])) ks"
proof -
  let ?P = "\<lambda>w. w \<in> set W"
  note W = matcher_okD(1) [OF m]
  note closed = words_okD(4) [OF W]
  have in_W: "longest_suffix ?P v \<in> set W" for v
    using longest_suffix_in [of ?P v] prefix_closedD(1) [OF closed] by simp
  obtain s where s: "s < length W" "W ! s = longest_suffix ?P seen"
    "node_of W (longest_suffix ?P seen) = int s"
    using node_of_in [OF words_okD(3) [OF W] in_W] .
  obtain t where t: "t < length W" "W ! t = longest_suffix ?P (seen @ [l])"
    "node_of W (longest_suffix ?P (seen @ [l])) = int t"
    using node_of_in [OF words_okD(3) [OF W] in_W] .
  have "advance m l (int s) = Some (int t)"
    using advance_ok [OF m s(1), of l] longest_suffix_snoc [OF closed, of seen l] s(2) t(3) by simp
  moreover have "suffix (lower k) (W ! t) \<longleftrightarrow> suffix (lower k) (seen @ [l])" if "k \<in> set ks" "k \<noteq> []" for k
    using suffix_longest_iff [of ?P "lower k"] matcher_okD(2) [OF m] that unfolding t(2) by (auto simp: covers_def)
  then have "first_index (\<lambda>k. k \<noteq> [] \<and> suffix (lower k) (W ! t)) ks =
      first_index (\<lambda>k. k \<noteq> [] \<and> suffix (lower k) (seen @ [l])) ks"
    by (intro first_from_cong) blast
  then have "bestKeyword (nodes m ! t) = first_index (\<lambda>k. k \<noteq> [] \<and> suffix (lower k) (seen @ [l])) ks"
    using matcher_okD(6) [OF m t(1)] by (simp only: linked_def)
  ultimately show ?thesis using that t s(3) by simp
qed

abbreviation (input) occurs :: "(go_string \<Rightarrow> go_string) \<Rightarrow> go_string \<Rightarrow> go_string \<Rightarrow> bool" where
  "occurs lower s k \<equiv> k \<noteq> [] \<and> sublist (lower k) s"

definition keyword_result :: "go_string list \<Rightarrow> int \<Rightarrow> go_string \<times> bool" where
  "keyword_result ks b = (if b < 0 then ([], False) else (ks ! nat b, True))"

lemma first_index_zero_mono:
  assumes "first_index P ks = 0" and "\<And>k. P k \<Longrightarrow> Q k"
  shows "first_index Q ks = 0"
  using assms first_from_ge [of 1 P "tl ks"] by (cases ks) (auto split: if_splits)

lemma match_bytes_ok:
  assumes m: "matcher_ok lower ks W m"
  shows "match_bytes m ls (node_of W (longest_suffix (\<lambda>w. w \<in> set W) seen)) (first_index (occurs lower seen) ks) =
    Some (keyword_result ks (first_index (occurs lower (seen @ ls)) ks))"
proof (induction ls arbitrary: seen)
  case Nil
  have "first_index (occurs lower seen) ks < int (length ks)"
    using first_from_lt [of 0 "occurs lower seen" ks] by simp
  then show ?case using matcher_okD(3) [OF m] by (auto simp: keyword_result_def)
next
  case (Cons l ls)
  obtain t where t: "t < length W" "W ! t = longest_suffix (\<lambda>w. w \<in> set W) (seen @ [l])"
    "advance m l (node_of W (longest_suffix (\<lambda>w. w \<in> set W) seen)) = Some (int t)"
    "bestKeyword (nodes m ! t) = first_index (\<lambda>k. k \<noteq> [] \<and> suffix (lower k) (seen @ [l])) ks"
    using scan_step [OF m] .
  have node_t: "node_of W (W ! t) = int t" using t(1) words_okD(3) [OF matcher_okD(1) [OF m]] by simp
  have best: "minKeywordIndex (first_index (occurs lower seen) ks) (bestKeyword (nodes m ! t)) =
      first_index (occurs lower (seen @ [l])) ks"
    unfolding t(4) minKeywordIndex_first [OF order_refl]
    by (rule first_from_cong) (auto simp: sublist_snoc_iff)
  show ?case
  proof (cases "first_index (occurs lower (seen @ [l])) ks = 0")
    case True
    then have "first_index (occurs lower (seen @ l # ls)) ks = 0"
      using sublist_order.order.trans [OF _ sublist_append_rightI [of "seen @ [l]" ls]]
      by (elim first_index_zero_mono) auto
    moreover have "ks \<noteq> []" using True by (cases ks) auto
    ultimately show ?thesis
      using True t(1,3) best matcher_okD(3,4) [OF m] by (simp add: keyword_result_def slice_at_def)
  next
    case False
    then show ?thesis
      using t(1,3) best matcher_okD(4) [OF m] Cons.IH [of "seen @ [l]"] node_t t(2) by simp
  qed
qed

end
