(* ===== verification/Keyword_Filter.thy ===== *)
theory Keyword_Filter
  imports Keyword_Scan
begin

text \<open>
  The constructor as a whole, the equivalence of the automaton with the plain search, and the keyword
  filter of a runtime snapshot.
\<close>

section \<open>The constructor\<close>

lemma visit_root:
  "distinct (map buildLabel bs) \<Longrightarrow> \<exists>root'. visit root_edge bs (root, queue) =
       Some (root', queue @ map buildTarget bs) \<and>
     (\<forall>b \<in> set bs. root' (buildLabel b) = buildTarget b) \<and> (\<forall>l. l \<notin> buildLabel ` set bs \<longrightarrow> root' l = root l)"
proof (induction bs arbitrary: root queue)
  case (Cons b bs)
  let ?r = "root(buildLabel b := buildTarget b)"
  have new: "buildLabel b \<notin> buildLabel ` set bs" and "distinct (map buildLabel bs)"
    using Cons.prems by auto
  from Cons.IH [OF this(2), of ?r "queue @ [buildTarget b]"] obtain root' where
    r: "visit root_edge bs (?r, queue @ [buildTarget b]) = Some (root', (queue @ [buildTarget b]) @ map buildTarget bs)"
     "\<And>e. e \<in> set bs \<Longrightarrow> root' (buildLabel e) = buildTarget e"
     "\<And>l. l \<notin> buildLabel ` set bs \<Longrightarrow> root' l = ?r l" by blast
  have "visit root_edge (b # bs) (root, queue) = Some (root', queue @ map buildTarget (b # bs))"
    using r(1) by (simp add: root_edge_def)
  moreover have "root' (buildLabel e) = buildTarget e" if "e \<in> set (b # bs)" for e
    using that r(2) r(3) [OF new] by (cases "e = b") simp_all
  moreover have "root' l = root l" if "l \<notin> buildLabel ` set (b # bs)" for l
    using that r(3) [of l] by simp
  ultimately show ?case by blast
qed simp

lemma root_edges_ok:
  assumes t: "trie_ok W ns es"
  obtains root where
    "for_siblings es root_edge (contentModerationKeywordBuildFirstEdge (ns ! 0)) (\<lambda>_. 0, []) =
       Some (root, map int (map Suc (children W [])))"
    "\<And>l. root l = max 0 (node_of W [l])"
proof -
  note W = words_okD [OF trie_okD(1) [OF t]]
  let ?bs = "map ((!) es) (children W [])"
  note kid = child_iff [OF trie_okD(3) [OF t], of _ "[]"]
  have "distinct (map buildLabel ?bs)" using children_labels [OF t, of "[]"] by (simp add: comp_def)
  from visit_root [OF this, of "\<lambda>_. 0" "[]"] obtain root where
    walk: "visit root_edge ?bs (\<lambda>_. 0, []) = Some (root, map buildTarget ?bs)"
    and hit: "\<forall>b \<in> set ?bs. root (buildLabel b) = buildTarget b"
    and miss: "\<forall>l. l \<notin> buildLabel ` set ?bs \<longrightarrow> root l = 0" by auto
  have targets: "map buildTarget ?bs = map int (map Suc (children W []))" using kid by simp
  have "root l = max 0 (node_of W [l])" for l
  proof (cases "[l] \<in> set W")
    case True
    then obtain s where s: "s < length W" "W ! s = [] @ [l]" "node_of W [l] = int s"
      using node_of_in [OF W(3)] by (metis append_Nil)
    obtain j where j: "s = Suc j" "j \<in> set (children W [])" using childI [OF trie_okD(1) [OF t] s(2,1)] .
    then have "root l = int s" using kid [OF j(2)] hit s(2) by auto
    then show ?thesis using s(3) by simp
  next
    case False
    have "l \<notin> buildLabel ` set ?bs"
      using False kid by (auto simp: in_set_conv_nth) (metis append_Nil nth_mem)
    then show ?thesis using False miss by simp
  qed
  moreover have "for_siblings es root_edge (contentModerationKeywordBuildFirstEdge (ns ! 0)) (\<lambda>_. 0, []) =
       Some (root, map int (map Suc (children W [])))"
    using for_siblings_chain [OF trie_okD(5) [OF t W(5)], of root_edge "(\<lambda>_. 0, [])"] walk W(2)
    unfolding targets by metis
  ultimately show ?thesis using that by blast
qed

lemma queue_start:
  assumes t: "trie_ok W ns es" and ok: "keywords_ok lower ks W ns" and c: "covers lower ks W"
  shows "queue_ok lower ks W ns (map Suc (children W [])) 0"
proof -
  note W = trie_okD(1) [OF t]
  have kids: "s \<in> set (map Suc (children W [])) \<longleftrightarrow> s < length W \<and> (\<exists>c. W ! s = [c])" for s
    using child_set [OF W, of s "[]"] by simp
  have root: "node_of W [] = 0" using node_of_nth [OF words_okD(3,5) [OF W]] words_okD(2) [OF W] by simp
  have "linked lower ks W ns s" if s: "s < length W" and short: "length (W ! s) \<le> 1" for s
  proof -
    have "border (\<lambda>w. w \<in> set W) (W ! s) = []"
      using short by (cases "W ! s") (simp_all add: border_def)
    moreover have "first_index (\<lambda>k. k \<noteq> [] \<and> lower k = W ! s) ks =
        first_index (\<lambda>k. k \<noteq> [] \<and> suffix (lower k) (W ! s)) ks"
    proof (rule first_from_cong)
      fix k assume "k \<in> set ks"
      then have "k \<noteq> [] \<Longrightarrow> lower k \<noteq> []" using c by (simp add: covers_def)
      moreover have "v \<noteq> [] \<Longrightarrow> suffix v (W ! s) \<longleftrightarrow> v = W ! s" for v
        using short by (cases "W ! s") (simp_all add: suffix_Cons)
      ultimately show "k \<noteq> [] \<and> lower k = W ! s \<longleftrightarrow> k \<noteq> [] \<and> suffix (lower k) (W ! s)" by blast
    qed
    ultimately show ?thesis using ok s root by (simp add: linked_def keywords_ok_def)
  qed
  then have "if s \<in> insert 0 (set (map Suc (children W []))) then linked lower ks W ns s
      else unlinked lower ks W ns s" if "s < length W" for s
    using that kids [of s] ok words_okD(2) [OF W] by (auto simp: keywords_ok_def unlinked_def)
  moreover have "length (W ! s) = 1" if "s \<in> set (map Suc (children W []))" for s
    using that kids [of s] by auto
  moreover from this have "map (\<lambda>t. length (W ! t)) (map Suc (children W [])) = replicate (length (children W [])) 1"
    by (intro nth_equalityI) simp_all
  then have "sorted (map (\<lambda>t. length (W ! t)) (map Suc (children W [])))" by simp
  ultimately show ?thesis
    using kids words_okD(2) [OF W] distinct_children [of W "[]"] unfolding queue_ok_def
    by (simp add: distinct_map)
qed

text \<open>What the parameter for non-ASCII text must promise: lower case does not make text disappear.\<close>

definition keeps_text :: "(go_string \<Rightarrow> go_string) \<Rightarrow> bool" where
  "keeps_text unicode \<longleftrightarrow> (\<forall>s. s \<noteq> [] \<longrightarrow> unicode s \<noteq> [])"

lemma go_to_lower_nonempty: "keeps_text unicode \<Longrightarrow> s \<noteq> [] \<Longrightarrow> go_to_lower unicode s \<noteq> []"
  by (simp add: go_to_lower_def keeps_text_def)

text \<open>The nodes of the trie and the keywords can be numbered with \<^verbatim>\<open>int32\<close>.\<close>

definition fits_int32 :: "(go_string \<Rightarrow> go_string) \<Rightarrow> go_string list \<Rightarrow> bool" where
  "fits_int32 unicode ks \<longleftrightarrow> total_size unicode ks + 1 < 2 ^ 31 \<and> length ks \<le> 2 ^ 31"

lemma new_matcher_ok:
  assumes lower: "keeps_text unicode" and fits: "fits_int32 unicode ks" and "ks \<noteq> []"
  shows "(newContentModerationKeywordMatcher unicode ks = Some None \<and> (\<forall>k \<in> set ks. k = [])) \<or>
    (\<exists>W m. newContentModerationKeywordMatcher unicode ks = Some (Some m) \<and> matcher_ok (go_to_lower unicode) ks W m)"
proof -
  obtain W ns es where ins: "insert_keywords unicode 0 ks ([newContentModerationKeywordNode], []) = Some (ns, es)"
    and t: "trie_ok W ns es" and ok: "keywords_ok (go_to_lower unicode) ks W ns"
    by (rule insert_keywords_ok [OF trie_ok_root keywords_ok_root, of unicode ks])
      (use fits in \<open>simp_all add: fits_int32_def\<close>)
  note len = trie_okD(2) [OF t] and W = words_okD [OF trie_okD(1) [OF t]]
  have c: "covers (go_to_lower unicode) ks W"
    using ok go_to_lower_nonempty [OF lower] by (auto simp: covers_def keywords_ok_def)
  show ?thesis
  proof (cases "length ns = 1")
    case True
    then have "W = [[]]" using len W(2) by (cases W) auto
    then have "\<forall>k \<in> set ks. k = []" using c by (auto simp: covers_def)
    then show ?thesis using ins True \<open>ks \<noteq> []\<close> by (simp add: newContentModerationKeywordMatcher_def)
  next
    case False
    obtain root where root: "for_siblings es root_edge (contentModerationKeywordBuildFirstEdge (ns ! 0)) (\<lambda>_. 0, []) =
       Some (root, map int (map Suc (children W [])))" "\<And>l. root l = max 0 (node_of W [l])"
      using root_edges_ok [OF t] by blast
    obtain ns' where ns': "link_queue es 0 ns (map int (map Suc (children W []))) = Some ns'" "trie_ok W ns' es"
      "\<And>t. t < length W \<Longrightarrow> linked (go_to_lower unicode) ks W ns' t"
      using link_queue_ok [OF t c queue_start [OF t ok c]] by auto
    have "packs W ns' 0 ns' []" using trie_okD(2) [OF ns'(2)] by (simp add: packs_def child_count_def)
    then obtain ns'' packed out where pk:
      "pack_nodes es [0..<length W] (ns', [], replicate 256 \<lparr>target = 0, label = CHR 0x00\<rparr>) = Some (ns'', packed, out)"
      "packs W ns' (length W) ns'' packed"
      using pack_nodes_ok [OF ns'(2)] by (metis le0 length_replicate)
    let ?m = "\<lparr>nodes = ns'', edges = packed, rootTransitions = root, originalKeywords = ks\<rparr>"
    have "newContentModerationKeywordMatcher unicode ks = Some (Some ?m)"
      using ins False len W(5) root(1) ns'(1) pk(1) trie_okD(2) [OF ns'(2)] \<open>ks \<noteq> []\<close>
        slice_at_nat [of 0 ns]
      by (simp add: newContentModerationKeywordMatcher_def del: slice_at_nat)
    moreover have "matcher_ok (go_to_lower unicode) ks W ?m"
      using pk(2) ns'(3) root(2) trie_okD(1) [OF t] c by (auto simp: matcher_ok_def packs_def linked_def)
    ultimately show ?thesis by blast
  qed
qed

section \<open>The plain search\<close>

lemma find_keyword_first:
  "find_keyword unicode lower ks = keyword_result ks (first_index (occurs (go_to_lower unicode) lower) ks)"
proof -
  have "find_keyword unicode lower ks' =
      keyword_result (ds @ ks') (first_from (int (length ds)) (occurs (go_to_lower unicode) lower) ks')" for ds ks'
  proof (induction ks' arbitrary: ds)
    case Nil
    show ?case by (simp add: keyword_result_def)
  next
    case (Cons k ks')
    then show ?case
      using Cons.IH [of "ds @ [k]"]
      by (auto simp: keyword_result_def go_contains_sublist nth_append add.commute)
  qed
  from this [of ks "[]"] show ?thesis by simp
qed

lemma matcher_search:
  assumes "keeps_text unicode" and "fits_int32 unicode ks"
  shows "Option.bind (newContentModerationKeywordMatcher unicode ks) (\<lambda>m. Match unicode m s) =
    Some (matchBlockedKeyword unicode s ks)"
proof (cases "ks = []")
  case True
  then show ?thesis
    by (simp add: newContentModerationKeywordMatcher_def Match_def matchBlockedKeyword_def)
next
  case False
  from new_matcher_ok [OF assms False] show ?thesis
  proof (elim disjE exE conjE)
    assume nil: "newContentModerationKeywordMatcher unicode ks = Some None" "\<forall>k \<in> set ks. k = []"
    have "find_keyword unicode lower ks = ([], False)" for lower
      using nil(2) by (induction ks) auto
    then show ?thesis using nil(1) by (simp add: Match_def matchBlockedKeyword_def)
  next
    fix W m
    assume m: "newContentModerationKeywordMatcher unicode ks = Some (Some m)"
      "matcher_ok (go_to_lower unicode) ks W m"
    note W = words_okD [OF matcher_okD(1) [OF m(2)]]
    have start: "node_of W [] = 0" using node_of_nth [OF W(3,5)] W(2) by simp
    have none: "first_index (occurs (go_to_lower unicode) []) ks = -1"
      using go_to_lower_nonempty [OF assms(1)] by (intro first_from_False) auto
    have "match_bytes m ls 0 (-1) = Some (find_keyword unicode ls ks)" for ls
      using match_bytes_ok [OF m(2), of ls "[]"] start none by (simp add: find_keyword_first)
    then show ?thesis
      using m(1) matcher_okD(3,4) [OF m(2)] False W(1) by (auto simp: Match_def matchBlockedKeyword_def)
  qed
qed

text \<open>
  C26. The keyword automaton is equivalent to the plain search. For every list of keywords that can be
  numbered with \<^verbatim>\<open>int32\<close> and every text, \<^verbatim>\<open>newContentModerationKeywordMatcher(keywords).Match(text)\<close> returns,
  without panic and without looping, exactly what \<^verbatim>\<open>matchBlockedKeyword(text, keywords)\<close> returns: the first
  configured keyword that occurs in the text up to case, or no hit.
\<close>

theorem keyword_matcher_is_search:
  assumes "keeps_text unicode" and "fits_int32 unicode ks"
  shows "Option.bind (newContentModerationKeywordMatcher unicode ks) (\<lambda>m. Match unicode m s) =
    Some (matchBlockedKeyword unicode s ks)"
  by (rule matcher_search [OF assms])

theorem keyword_matcher_is_search_witness:
  "keeps_text id \<and> fits_int32 id [''later'', ''bc'', ''ABC''] \<and>
   Option.bind (newContentModerationKeywordMatcher id [''later'', ''bc'', ''ABC'']) (\<lambda>m. Match id m ''xAbCy'') =
     Some (''bc'', True)"
proof -
  have ok: "keeps_text id" "fits_int32 id [''later'', ''bc'', ''ABC'']"
    by (simp_all add: keeps_text_def fits_int32_def total_size_def go_to_lower_def)
  have "matchBlockedKeyword id ''xAbCy'' [''later'', ''bc'', ''ABC''] = (''bc'', True)"
    by code_simp
  then show ?thesis using keyword_matcher_is_search [OF ok, of "''xAbCy''"] ok by simp
qed

section \<open>Normalized keywords\<close>

lemma utf8_len_le: "utf8_len s \<le> 4" "utf8_len s \<le> length s"
  by (auto simp: utf8_len_def split: list.splits)

lemma go_runes_bounds: "length s \<le> 4 * length (go_runes s) \<and> (\<forall>r \<in> set (go_runes s). length r \<le> 4 \<and> r \<noteq> [])"
proof (induction s rule: go_runes.induct)
  case (1 s)
  show ?case
  proof (cases "s = []")
    case True
    then show ?thesis by (simp add: go_runes.simps)
  next
    case False
    show ?thesis
    proof (cases "utf8_len s = 0")
      case True
      then have "go_runes s = encode_rune 0xFFFD # go_runes (drop 1 s)"
        using False by (simp add: go_runes.simps [of s])
      moreover have "length (encode_rune 0xFFFD) = 3" by (simp add: encode_rune_def)
      ultimately show ?thesis using "1.IH"(1) [OF False True] by auto
    next
      case len: False
      then have "go_runes s = take (utf8_len s) s # go_runes (drop (utf8_len s) s)"
        using False by (simp add: go_runes.simps [of s])
      then show ?thesis using "1.IH"(2) [OF False len] utf8_len_le [of s] False len by auto
    qed
  qed
qed

lemma length_concat_le: "(\<And>r. r \<in> set rs \<Longrightarrow> length r \<le> n) \<Longrightarrow> length (concat rs) \<le> n * length rs"
  by (induction rs) (fastforce simp: algebra_simps)+

lemma trimRunes_bounds:
  assumes "0 < limit"
  shows "length (trimRunes s limit) \<le> 4 * nat limit" and "s \<noteq> [] \<Longrightarrow> trimRunes s limit \<noteq> []"
proof -
  note b = go_runes_bounds [of s]
  show "length (trimRunes s limit) \<le> 4 * nat limit"
  proof (cases "int (length (go_runes s)) \<le> limit")
    case True
    then have "length s \<le> 4 * nat limit" using b by linarith
    then show ?thesis using assms True by (simp add: trimRunes_def Let_def)
  next
    case False
    have "length (concat (take (nat limit) (go_runes s))) \<le> 4 * length (take (nat limit) (go_runes s))"
      using b by (intro length_concat_le) (auto dest: in_set_takeD)
    then show ?thesis using assms False by (simp add: trimRunes_def Let_def)
  qed
  show "trimRunes s limit \<noteq> []" if "s \<noteq> []"
  proof (cases "int (length (go_runes s)) \<le> limit")
    case True
    then show ?thesis using assms that by (simp add: trimRunes_def Let_def)
  next
    case False
    then obtain r rs where "go_runes s = r # rs" using assms by (cases "go_runes s") auto
    then show ?thesis using assms False b by (cases "nat limit") (auto simp: trimRunes_def Let_def)
  qed
qed

definition normal_keywords :: "(go_string \<Rightarrow> go_string) \<Rightarrow> go_string list \<Rightarrow> bool" where
  "normal_keywords unicode ks \<longleftrightarrow> distinct (map (go_to_lower unicode) ks) \<and>
     length ks \<le> maxContentModerationBlockedKeywords \<and>
     (\<forall>k \<in> set ks. k \<noteq> [] \<and> length k \<le> 800)"

lemma normal_keywords_snoc:
  assumes "normal_keywords unicode out" and "length out < maxContentModerationBlockedKeywords"
    and "go_to_lower unicode (trimRunes kw maxContentModerationBlockedKeywordRunes) \<notin> go_to_lower unicode ` set out"
    and "kw \<noteq> []"
  shows "normal_keywords unicode (out @ [trimRunes kw maxContentModerationBlockedKeywordRunes])"
  using assms trimRunes_bounds [of maxContentModerationBlockedKeywordRunes kw]
  by (auto simp: normal_keywords_def maxContentModerationBlockedKeywordRunes_def)

lemma normalize_keywords_ok:
  assumes "normal_keywords unicode out" and "set seen = go_to_lower unicode ` set out"
    and "length out < maxContentModerationBlockedKeywords"
  shows "normal_keywords unicode (normalize_keywords unicode raws seen out)"
  using assms
proof (induction raws arbitrary: seen out)
  case (Cons raw raws)
  let ?kw = "trimRunes (go_trim_space raw) maxContentModerationBlockedKeywordRunes"
  show ?case
  proof (cases "go_trim_space raw = [] \<or> go_to_lower unicode ?kw \<in> set seen")
    case True
    then have "normalize_keywords unicode (raw # raws) seen out = normalize_keywords unicode raws seen out"
      by (auto simp: Let_def)
    then show ?thesis using Cons by simp
  next
    case False
    then have "normal_keywords unicode (out @ [?kw])"
      using Cons.prems normal_keywords_snoc by simp
    then show ?thesis using False Cons.prems Cons.IH [of "out @ [?kw]" "go_to_lower unicode ?kw # seen"]
      by (simp add: Let_def)
  qed
qed simp

lemma normalize_keywords_extends: "\<exists>more_kws. normalize_keywords unicode raws seen out = out @ more_kws"
proof (induction raws arbitrary: seen out)
  case (Cons raw raws)
  show ?case using Cons.IH by (simp add: Let_def) (metis append.assoc)
qed simp

lemma normalize_keywords_covers:
  assumes "raw \<in> set raws" and "go_trim_space raw \<noteq> []"
    and "set seen = go_to_lower unicode ` set out"
    and "length out + length raws \<le> maxContentModerationBlockedKeywords"
  shows "go_to_lower unicode (trimRunes (go_trim_space raw) maxContentModerationBlockedKeywordRunes)
    \<in> go_to_lower unicode ` set (normalize_keywords unicode raws seen out)"
  using assms
proof (induction raws arbitrary: seen out)
  case (Cons r raws)
  let ?kw = "\<lambda>r. trimRunes (go_trim_space r) maxContentModerationBlockedKeywordRunes"
  have keeps: "go_to_lower unicode ` set out' \<subseteq> go_to_lower unicode ` set (normalize_keywords unicode raws seen' out')"
    for seen' out' using normalize_keywords_extends [of unicode raws seen' out'] by auto
  show ?case
  proof (cases "go_trim_space r = [] \<or> go_to_lower unicode (?kw r) \<in> set seen")
    case True
    then have same: "normalize_keywords unicode (r # raws) seen out = normalize_keywords unicode raws seen out"
      by (auto simp: Let_def)
    show ?thesis
    proof (cases "raw \<in> set raws")
      case True
      then show ?thesis using Cons.IH [of seen out] Cons.prems unfolding same by simp
    next
      case False
      then have "raw = r" using Cons.prems(1) by simp
      then show ?thesis using True keeps [of out seen] Cons.prems(2,3) unfolding same by auto
    qed
  next
    case False
    let ?out = "out @ [?kw r]" and ?seen = "go_to_lower unicode (?kw r) # seen"
    have step: "normalize_keywords unicode (r # raws) seen out =
        (if maxContentModerationBlockedKeywords \<le> length ?out then ?out
         else normalize_keywords unicode raws ?seen ?out)"
      using False by (simp add: Let_def)
    show ?thesis
    proof (cases "maxContentModerationBlockedKeywords \<le> length ?out")
      case True
      then have "raws = []" using Cons.prems(4) by (cases raws) auto
      then show ?thesis using Cons.prems(1) True unfolding step by simp
    next
      case room: False
      show ?thesis
      proof (cases "raw \<in> set raws")
        case True
        then show ?thesis using Cons.IH [of ?seen ?out] Cons.prems room unfolding step by simp
      next
        case False
        then have "raw = r" using Cons.prems(1) by simp
        then show ?thesis using keeps [of ?out ?seen] room unfolding step by auto
      qed
    qed
  qed
qed simp

lemma normalizeBlockedKeywords_ok: "normal_keywords unicode (normalizeBlockedKeywords unicode raws)"
  unfolding normalizeBlockedKeywords_def
  by (rule normalize_keywords_ok) (simp_all add: normal_keywords_def maxContentModerationBlockedKeywords_def)

text \<open>
  Lower case outside ASCII replaces runes one by one: an encoded rune has at most four bytes, and one byte
  that is no rune becomes the three bytes of U+FFFD.
\<close>

definition replaces_runes :: "(go_string \<Rightarrow> go_string) \<Rightarrow> bool" where
  "replaces_runes unicode \<longleftrightarrow> keeps_text unicode \<and> (\<forall>s. length (unicode s) \<le> 4 * length s)"

lemma length_go_to_lower: "replaces_runes unicode \<Longrightarrow> length (go_to_lower unicode s) \<le> 4 * length s"
  by (simp add: go_to_lower_def replaces_runes_def)

lemma normal_keywords_fit:
  assumes "replaces_runes unicode" and "normal_keywords unicode ks"
  shows "fits_int32 unicode ks"
proof -
  have "sum_list (map (\<lambda>k. length (go_to_lower unicode k)) ks) \<le> 3200 * length ks"
    if "\<forall>k \<in> set ks. length k \<le> 800" for ks
    using that
  proof (induction ks)
    case (Cons k ks)
    then show ?case using length_go_to_lower [OF assms(1), of k] by auto
  qed simp
  then show ?thesis
    using assms(2) unfolding normal_keywords_def fits_int32_def total_size_def
    by (fastforce simp: maxContentModerationBlockedKeywords_def)
qed

section \<open>The contract of a keyword search\<close>

text \<open>
  What the moderation of a request relies on: given a text, the search returns the first keyword, in the
  order of the configuration, that occurs in it.
\<close>

locale blocked_keyword_search =
  fixes search :: "(go_string \<Rightarrow> go_string) \<Rightarrow> go_string list \<Rightarrow> go_string \<Rightarrow> (go_string \<times> bool) option"
    and configured :: "(go_string \<Rightarrow> go_string) \<Rightarrow> go_string list \<Rightarrow> go_string list"
    and admissible :: "(go_string \<Rightarrow> go_string) \<Rightarrow> go_string list \<Rightarrow> bool"
  assumes finds_first: "admissible unicode ks \<Longrightarrow> s \<noteq> [] \<Longrightarrow>
      search unicode ks s = Some (keyword_result (configured unicode ks)
        (first_index (occurs (go_to_lower unicode) (go_to_lower unicode s)) (configured unicode ks)))"
begin

lemma returns: "admissible unicode ks \<Longrightarrow> s \<noteq> [] \<Longrightarrow> \<exists>r. search unicode ks s = Some r"
  using finds_first by blast

lemma catches:
  assumes "admissible unicode ks" and "k \<in> set (configured unicode ks)" and "k \<noteq> []" and "s \<noteq> []"
    and "sublist (go_to_lower unicode k) (go_to_lower unicode s)"
  shows "\<exists>k'. search unicode ks s = Some (k', True)"
proof -
  have "list_ex (occurs (go_to_lower unicode) (go_to_lower unicode s)) (configured unicode ks)"
    using assms by (auto simp: list_ex_iff)
  then have "\<not> first_index (occurs (go_to_lower unicode) (go_to_lower unicode s)) (configured unicode ks) < 0"
    using first_from_none [of 0 _ "configured unicode ks"] by simp
  then show ?thesis using finds_first [OF assms(1,4)] by (simp add: keyword_result_def)
qed

lemma reports_configured:
  assumes "admissible unicode ks" and "s \<noteq> []" and "search unicode ks s = Some (k, True)"
  shows "k \<in> set (configured unicode ks) \<and> k \<noteq> [] \<and> sublist (go_to_lower unicode k) (go_to_lower unicode s)"
proof -
  let ?P = "occurs (go_to_lower unicode) (go_to_lower unicode s)"
  let ?b = "first_index ?P (configured unicode ks)"
  have b: "\<not> ?b < 0" "k = configured unicode ks ! nat ?b"
    using finds_first [OF assms(1,2)] assms(3) by (auto simp: keyword_result_def split: if_splits)
  then show ?thesis using first_index_hit [of ?P "configured unicode ks"] by auto
qed

end

lemma matchBlockedKeyword_first:
  "s \<noteq> [] \<Longrightarrow> matchBlockedKeyword unicode s ks =
     keyword_result ks (first_index (occurs (go_to_lower unicode) (go_to_lower unicode s)) ks)"
  by (cases ks) (simp_all add: matchBlockedKeyword_def find_keyword_first keyword_result_def)

lemma snapshot_search:
  assumes "replaces_runes unicode"
  shows "Option.bind (keyword_snapshot unicode raws) (\<lambda>sn. snapshot_matchBlockedKeyword unicode (Some sn) s) =
    Some (matchBlockedKeyword unicode s (normalizeBlockedKeywords unicode raws))"
proof -
  have keeps: "keeps_text unicode" using assms by (simp add: replaces_runes_def)
  have "Option.bind (newContentModerationKeywordMatcher unicode (normalizeBlockedKeywords unicode raws))
      (\<lambda>m. Match unicode m s) = Some (matchBlockedKeyword unicode s (normalizeBlockedKeywords unicode raws))"
    by (rule matcher_search [OF keeps normal_keywords_fit [OF assms normalizeBlockedKeywords_ok]])
  then show ?thesis
    by (cases "newContentModerationKeywordMatcher unicode (normalizeBlockedKeywords unicode raws)")
      (auto simp: keyword_snapshot_def snapshot_matchBlockedKeyword_def)
qed

interpretation plain: blocked_keyword_search
  "\<lambda>unicode ks s. Some (matchBlockedKeyword unicode s ks)" "\<lambda>unicode ks. ks" "\<lambda>unicode ks. True"
  by unfold_locales (simp add: matchBlockedKeyword_first)

interpretation automaton: blocked_keyword_search
  "\<lambda>unicode ks s. Option.bind (newContentModerationKeywordMatcher unicode ks) (\<lambda>m. Match unicode m s)"
  "\<lambda>unicode ks. ks" "\<lambda>unicode ks. keeps_text unicode \<and> fits_int32 unicode ks"
  by unfold_locales (simp add: matcher_search matchBlockedKeyword_first)

interpretation snapshot: blocked_keyword_search
  "\<lambda>unicode raws s.
     Option.bind (keyword_snapshot unicode raws) (\<lambda>sn. snapshot_matchBlockedKeyword unicode (Some sn) s)"
  normalizeBlockedKeywords "\<lambda>unicode raws. replaces_runes unicode"
  by unfold_locales (simp add: snapshot_search matchBlockedKeyword_first)

section \<open>The filter of a snapshot\<close>

text \<open>
  C27. The filter always answers. Whatever keywords are configured, building the snapshot and matching any
  text against it ends without panic, and the answer is that of the plain search over the normalized
  keywords: normalization bounds the automaton so that its \<^verbatim>\<open>int32\<close> indices never wrap.
\<close>

theorem keyword_filter_returns:
  assumes "replaces_runes unicode"
  shows "Option.bind (keyword_snapshot unicode raws) (\<lambda>sn. snapshot_matchBlockedKeyword unicode (Some sn) s) =
    Some (matchBlockedKeyword unicode s (normalizeBlockedKeywords unicode raws))"
  by (rule snapshot_search [OF assms])

lemma replaces_runes_id: "replaces_runes id"
  by (simp add: replaces_runes_def keeps_text_def)

theorem keyword_filter_returns_witness:
  "replaces_runes id \<and>
   Option.bind (keyword_snapshot id ['' '', '' Bad '', ''BAD'', ''ok''])
     (\<lambda>sn. snapshot_matchBlockedKeyword id (Some sn) ''not so baD'') = Some (''Bad'', True)"
proof -
  have "matchBlockedKeyword id ''not so baD'' (normalizeBlockedKeywords id ['' '', '' Bad '', ''BAD'', ''ok'']) =
      (''Bad'', True)" by code_simp
  then show ?thesis
    using keyword_filter_returns [OF replaces_runes_id, of "['' '', '' Bad '', ''BAD'', ''ok'']" "''not so baD''"]
      replaces_runes_id by simp
qed

text \<open>
  C29. A configured keyword does not slip through. If a keyword of the configuration, trimmed and cut to 200 runes,
  occurs in a text up to case, the filter reports a hit, and the keyword it reports is a configured one that
  occurs in the text. The bound on the number of keywords is that of the configuration: later ones are
  dropped by the normalization.
\<close>

theorem configured_keyword_is_caught:
  assumes "replaces_runes unicode" and "s \<noteq> []"
    and "raw \<in> set raws" and "length raws \<le> maxContentModerationBlockedKeywords"
    and "go_trim_space raw \<noteq> []"
    and "go_contains (go_to_lower unicode s)
      (go_to_lower unicode (trimRunes (go_trim_space raw) maxContentModerationBlockedKeywordRunes))"
  shows "\<exists>k. Option.bind (keyword_snapshot unicode raws)
      (\<lambda>sn. snapshot_matchBlockedKeyword unicode (Some sn) s) = Some (k, True) \<and>
    k \<in> set (normalizeBlockedKeywords unicode raws) \<and>
    go_contains (go_to_lower unicode s) (go_to_lower unicode k)"
proof -
  obtain k where k: "k \<in> set (normalizeBlockedKeywords unicode raws)"
    "go_to_lower unicode k =
       go_to_lower unicode (trimRunes (go_trim_space raw) maxContentModerationBlockedKeywordRunes)"
    using normalize_keywords_covers [OF assms(3,5), of "[]" unicode "[]"] assms(4)
    by (auto simp: normalizeBlockedKeywords_def)
  moreover have "k \<noteq> []"
    using k(1) normalizeBlockedKeywords_ok [of unicode raws] by (auto simp: normal_keywords_def)
  ultimately obtain k' where "Option.bind (keyword_snapshot unicode raws)
      (\<lambda>sn. snapshot_matchBlockedKeyword unicode (Some sn) s) = Some (k', True)"
    using snapshot.catches [OF assms(1) k(1) _ assms(2)] assms(6) by (auto simp: go_contains_sublist)
  then show ?thesis
    using snapshot.reports_configured [OF assms(1,2)] by (auto simp: go_contains_sublist)
qed

theorem configured_keyword_is_caught_witness:
  "\<exists>k. Option.bind (keyword_snapshot id ['' Bad ''])
      (\<lambda>sn. snapshot_matchBlockedKeyword id (Some sn) ''so baD'') = Some (k, True) \<and>
    k \<in> set (normalizeBlockedKeywords id ['' Bad '']) \<and> go_contains (go_to_lower id ''so baD'') (go_to_lower id k)"
proof -
  have "go_trim_space '' Bad '' \<noteq> []" "go_contains (go_to_lower id ''so baD'')
      (go_to_lower id (trimRunes (go_trim_space '' Bad '') maxContentModerationBlockedKeywordRunes))"
    by code_simp+
  then show ?thesis
    using configured_keyword_is_caught [OF replaces_runes_id, of "''so baD''" "'' Bad ''" "['' Bad '']"]
    by (simp add: maxContentModerationBlockedKeywords_def)
qed

end
