(* ===== verification/Failover.thy ===== *)
theory Failover
  imports Gateway_Prelude
begin

text \<open>
  Failover between upstream accounts: \<^verbatim>\<open>handler/failover_loop.go\<close> and the loops of
  \<^verbatim>\<open>handler/gateway_handler_chat_completions.go\<close> and \<^verbatim>\<open>handler/gateway_handler_responses.go\<close> that drive it.

  One iteration of a loop is a function of the failover state and of what the world answers during the
  iteration: whether the client is gone, which account the scheduler selects, whether a slot is free, and
  how the upstream request ends. A loop runs over an arbitrary sequence of such answers.
\<close>

section \<open>Loops over the answers of the world\<close>

text \<open>An iteration continues with a new state (\<open>Inl\<close>) or returns (\<open>Inr\<close>).\<close>

fun run_loop :: "('e \<Rightarrow> 's \<Rightarrow> 's + 'r) \<Rightarrow> (nat \<Rightarrow> 'e) \<Rightarrow> nat \<Rightarrow> 's \<Rightarrow> 's + 'r" where
  "run_loop it world 0 s = Inl s"
| "run_loop it world (Suc n) s =
     (case it (world 0) s of
        Inl s' \<Rightarrow> run_loop it (\<lambda>i. world (Suc i)) n s'
      | Inr r \<Rightarrow> Inr r)"

locale bounded_loop =
  fixes it :: "'p \<Rightarrow> 'e \<Rightarrow> 's \<Rightarrow> 's + 'r"
    and fair :: "'p \<Rightarrow> 'e \<Rightarrow> bool"
    and budget :: "'p \<Rightarrow> 's \<Rightarrow> nat"
  assumes spends: "fair p e \<Longrightarrow> it p e s = Inl s' \<Longrightarrow> budget p s' < budget p s"
begin

lemma returns:
  assumes "\<And>i. fair p (world i)" and "budget p s < n"
  shows "\<exists>r. run_loop (it p) world n s = Inr r"
  using assms
proof (induction n arbitrary: world s)
  case (Suc n)
  show ?case
  proof (cases "it p (world 0) s")
    case (Inl s')
    then have "budget p s' < n" using spends [OF Suc.prems(1)] Suc.prems(2) by fastforce
    with Suc.IH [of "\<lambda>i. world (Suc i)" s'] Suc.prems(1) Inl show ?thesis by simp
  qed simp
qed simp

end

section \<open>The failover state\<close>

datatype NextAccountAction = NextAccountLegacyRetry | NextAccountRetry | NextAccountStop

record UpstreamFailoverError =
  fe_StatusCode :: int
  fe_ForceCacheBilling :: bool
  fe_RetryableOnSameAccount :: bool
  fe_NextAccountAction :: NextAccountAction

definition ShouldRetryNextAccount :: "UpstreamFailoverError option \<Rightarrow> bool" where
  "ShouldRetryNextAccount e =
     (case e of None \<Rightarrow> False | Some e \<Rightarrow> fe_NextAccountAction e \<noteq> NextAccountStop)"

datatype FailoverAction = FailoverContinue | FailoverExhausted | FailoverCanceled

text \<open>A missing key of \<^verbatim>\<open>SameAccountRetryCount\<close> reads as 0, so the map is a function.\<close>

record FailoverState =
  fs_SwitchCount :: int
  fs_MaxSwitches :: int
  fs_FailedAccountIDs :: "int set"
  fs_SameAccountRetryCount :: "int \<Rightarrow> int"
  fs_LastFailoverErr :: "UpstreamFailoverError option"
  fs_ForceCacheBilling :: bool
  fs_hasBoundSession :: bool

definition NewFailoverState :: "int \<Rightarrow> bool \<Rightarrow> FailoverState" where
  "NewFailoverState maxSwitches hasBoundSession =
     \<lparr>fs_SwitchCount = 0, fs_MaxSwitches = maxSwitches, fs_FailedAccountIDs = {},
      fs_SameAccountRetryCount = (\<lambda>_. 0), fs_LastFailoverErr = None, fs_ForceCacheBilling = False,
      fs_hasBoundSession = hasBoundSession\<rparr>"

definition needForceCacheBilling :: "bool \<Rightarrow> UpstreamFailoverError option \<Rightarrow> bool \<Rightarrow> bool" where
  "needForceCacheBilling hasBoundSession failoverErr sameAccountRetry \<longleftrightarrow>
     (hasBoundSession \<and> \<not> sameAccountRetry) \<or>
     (case failoverErr of None \<Rightarrow> False | Some e \<Rightarrow> fe_ForceCacheBilling e)"

text \<open>
  Durations are nanoseconds. \<open>waits d\<close> says whether a wait of \<open>d\<close> ends before the client is gone.
\<close>

definition sleepWithContext :: "(int \<Rightarrow> bool) \<Rightarrow> int \<Rightarrow> bool" where
  "sleepWithContext waits d \<longleftrightarrow> d \<le> 0 \<or> waits d"

definition sameAccountRetryDelay :: int where
  "sameAccountRetryDelay = 500 * 1000000"

definition singleAccountBackoffDelay :: int where
  "singleAccountBackoffDelay = 2 * 1000000000"

definition PlatformAntigravity :: go_string where
  "PlatformAntigravity = ''antigravity''"

definition PlatformGemini :: go_string where
  "PlatformGemini = ''gemini''"

text \<open>The last component of the result lists the accounts given to \<^verbatim>\<open>TempUnscheduleRetryableError\<close>.\<close>

definition HandleFailoverError ::
    "bool \<Rightarrow> (int \<Rightarrow> bool) \<Rightarrow> int \<Rightarrow> go_string \<Rightarrow> int \<Rightarrow> UpstreamFailoverError option \<Rightarrow> FailoverState \<Rightarrow>
     FailoverAction \<times> FailoverState \<times> int list" where
  "HandleFailoverError ctxErr waits accountID platform retryLimit failoverErr s =
     (if ctxErr then (FailoverCanceled, s, [])
      else
        let s = s\<lparr>fs_LastFailoverErr := failoverErr\<rparr> in
        case failoverErr of
          None \<Rightarrow> (FailoverExhausted, s, [])
        | Some err \<Rightarrow>
            if \<not> ShouldRetryNextAccount failoverErr then (FailoverExhausted, s, [])
            else
              let sameAccountRetry =
                    fe_RetryableOnSameAccount err \<and> fs_SameAccountRetryCount s accountID < retryLimit;
                  s = (if needForceCacheBilling (fs_hasBoundSession s) failoverErr sameAccountRetry
                       then s\<lparr>fs_ForceCacheBilling := True\<rparr> else s)
              in
              if fe_RetryableOnSameAccount err \<and> fs_SameAccountRetryCount s accountID < retryLimit
              then
                let s = s\<lparr>fs_SameAccountRetryCount :=
                      (fs_SameAccountRetryCount s)(accountID := fs_SameAccountRetryCount s accountID + 1)\<rparr>
                in (if sleepWithContext waits sameAccountRetryDelay then FailoverContinue else FailoverCanceled, s, [])
              else
                let unscheduled = (if fe_RetryableOnSameAccount err then [accountID] else []);
                    s = s\<lparr>fs_FailedAccountIDs := insert accountID (fs_FailedAccountIDs s)\<rparr>
                in
                if fs_MaxSwitches s \<le> fs_SwitchCount s then (FailoverExhausted, s, unscheduled)
                else
                  let s = s\<lparr>fs_SwitchCount := fs_SwitchCount s + 1\<rparr> in
                  if platform = PlatformAntigravity \<and>
                     \<not> sleepWithContext waits ((fs_SwitchCount s - 1) * 1000000000)
                  then (FailoverCanceled, s, unscheduled)
                  else (FailoverContinue, s, unscheduled))"

definition HandleSelectionExhausted ::
    "bool \<Rightarrow> (int \<Rightarrow> bool) \<Rightarrow> FailoverState \<Rightarrow> FailoverAction \<times> FailoverState" where
  "HandleSelectionExhausted ctxErr waits s =
     (if ctxErr then (FailoverCanceled, s)
      else
        case fs_LastFailoverErr s of
          Some err \<Rightarrow>
            if fe_StatusCode err = 503 \<and> fs_SwitchCount s \<le> fs_MaxSwitches s
            then
              if \<not> sleepWithContext waits singleAccountBackoffDelay then (FailoverCanceled, s)
              else (FailoverContinue, s\<lparr>fs_FailedAccountIDs := {}\<rparr>)
            else (FailoverExhausted, s)
        | None \<Rightarrow> (FailoverExhausted, s))"

section \<open>The loops of the handlers\<close>

record selected_account =
  sel_ID :: int
  sel_Platform :: go_string
  sel_RetryLimit :: int

datatype forward_result = Forwarded | ForwardFailover UpstreamFailoverError | ForwardError

record loop_answer =
  la_gone :: bool
  la_selection :: "selected_account option"
  la_slot :: bool
  la_configured :: bool
  la_forward :: forward_result
  la_goneAfter :: bool
  la_committed :: bool
  la_goneInHandler :: bool
  la_waits :: "int \<Rightarrow> bool"

datatype loop_result =
    ReturnCanceled
  | ReturnNoAccounts
  | ReturnExhausted "UpstreamFailoverError option"
  | ReturnNoSlot
  | ReturnNotConfigured
  | ReturnCommitted
  | ReturnForwardError
  | ReturnServed int

text \<open>Both loops handle a failed selection and a failed attempt in the same way.\<close>

definition selection_failed :: "loop_answer \<Rightarrow> FailoverState \<Rightarrow> FailoverState + loop_result" where
  "selection_failed a s =
     (if fs_FailedAccountIDs s = {} then Inr ReturnNoAccounts
      else let (action, s) = HandleSelectionExhausted (la_goneInHandler a) (la_waits a) s in
        case action of
          FailoverContinue \<Rightarrow> Inl s
        | FailoverCanceled \<Rightarrow> Inr ReturnCanceled
        | FailoverExhausted \<Rightarrow> Inr (ReturnExhausted (fs_LastFailoverErr s)))"

definition attempt_failed ::
    "loop_answer \<Rightarrow> selected_account \<Rightarrow> UpstreamFailoverError \<Rightarrow> FailoverState \<Rightarrow> FailoverState + loop_result" where
  "attempt_failed a account err s =
     (if la_committed a then Inr ReturnCommitted
      else let (action, s, _) =
             HandleFailoverError (la_goneInHandler a) (la_waits a) (sel_ID account) (sel_Platform account)
               (sel_RetryLimit account) (Some err) s in
        case action of
          FailoverContinue \<Rightarrow> Inl s
        | FailoverExhausted \<Rightarrow> Inr (ReturnExhausted (fs_LastFailoverErr s))
        | FailoverCanceled \<Rightarrow> Inr ReturnCanceled)"

definition chat_iteration ::
    "go_string \<Rightarrow> loop_answer \<Rightarrow> FailoverState \<Rightarrow> FailoverState + loop_result" where
  "chat_iteration groupPlatform a s =
     (if la_gone a then Inr ReturnCanceled
      else case la_selection a of
        None \<Rightarrow> selection_failed a s
      | Some account \<Rightarrow>
          if \<not> la_slot a then Inr ReturnNoSlot
          else if groupPlatform = PlatformGemini \<and> sel_Platform account \<noteq> PlatformGemini
          then Inl (s\<lparr>fs_FailedAccountIDs := insert (sel_ID account) (fs_FailedAccountIDs s)\<rparr>)
          else if \<not> la_configured a then Inr ReturnNotConfigured
          else if la_goneAfter a then Inr ReturnCanceled
          else case la_forward a of
            Forwarded \<Rightarrow> Inr (ReturnServed (sel_ID account))
          | ForwardFailover err \<Rightarrow> attempt_failed a account err s
          | ForwardError \<Rightarrow> Inr ReturnForwardError)"

definition responses_iteration :: "loop_answer \<Rightarrow> FailoverState \<Rightarrow> FailoverState + loop_result" where
  "responses_iteration a s =
     (if la_gone a then Inr ReturnCanceled
      else case la_selection a of
        None \<Rightarrow> selection_failed a s
      | Some account \<Rightarrow>
          if \<not> la_slot a then Inr ReturnNoSlot
          else if \<not> la_configured a then Inr ReturnNotConfigured
          else case la_forward a of
            Forwarded \<Rightarrow> Inr (ReturnServed (sel_ID account))
          | ForwardFailover err \<Rightarrow>
              if la_goneAfter a then Inr ReturnCanceled else attempt_failed a account err s
          | ForwardError \<Rightarrow> if la_goneAfter a then Inr ReturnCanceled else Inr ReturnForwardError)"

section \<open>The budget of a loop\<close>

text \<open>
  What is left to spend: retries on the accounts, then switches; clearing the list of failed accounts
  costs one more step each time.
\<close>

definition failover_credit :: "int set \<Rightarrow> int \<Rightarrow> FailoverState \<Rightarrow> nat" where
  "failover_credit accounts retries s =
     (\<Sum>a \<in> accounts. nat (retries - fs_SameAccountRetryCount s a)) + nat (fs_MaxSwitches s - fs_SwitchCount s)"

definition failover_budget :: "int set \<times> int \<Rightarrow> FailoverState \<Rightarrow> nat" where
  "failover_budget p s =
     2 * failover_credit (fst p) (snd p) s + (if fs_FailedAccountIDs s = {} then 0 else 1)"

text \<open>The scheduler selects among the accounts \<open>fst p\<close>, whose retry limits are at most \<open>snd p\<close>.\<close>

definition fair_answer :: "int set \<times> int \<Rightarrow> loop_answer \<Rightarrow> bool" where
  "fair_answer p a \<longleftrightarrow> finite (fst p) \<and>
     (case la_selection a of
        None \<Rightarrow> True | Some account \<Rightarrow> sel_ID account \<in> fst p \<and> sel_RetryLimit account \<le> snd p)"

lemma failover_continues:
  assumes "HandleFailoverError gone waits a platform limit e s = (FailoverContinue, s', us)"
  shows "fs_MaxSwitches s' = fs_MaxSwitches s \<and>
    (fs_SameAccountRetryCount s a < limit \<and> fs_SwitchCount s' = fs_SwitchCount s \<and>
       fs_SameAccountRetryCount s' =
         (fs_SameAccountRetryCount s)(a := fs_SameAccountRetryCount s a + 1) \<and>
       fs_FailedAccountIDs s' = fs_FailedAccountIDs s \<or>
     fs_SwitchCount s < fs_MaxSwitches s \<and> fs_SwitchCount s' = fs_SwitchCount s + 1 \<and>
       fs_SameAccountRetryCount s' = fs_SameAccountRetryCount s \<and>
       fs_FailedAccountIDs s' = insert a (fs_FailedAccountIDs s))"
  using assms by (auto simp: HandleFailoverError_def Let_def split: if_splits option.splits)

lemma credit_retry:
  assumes "finite A" and "a \<in> A" and "c a < (R :: int)"
  shows "(\<Sum>b \<in> A. nat (R - (c(a := c a + 1)) b)) < (\<Sum>b \<in> A. nat (R - c b))"
  using assms by (intro sum_strict_mono_ex1) auto

lemma failover_error_spends:
  assumes "HandleFailoverError gone waits a platform limit e s = (FailoverContinue, s', us)"
    and "finite A" and "a \<in> A" and "limit \<le> R"
  shows "failover_budget (A, R) s' < failover_budget (A, R) s"
proof -
  have "failover_credit A R s' < failover_credit A R s \<and> (fs_FailedAccountIDs s' = {} \<longrightarrow> fs_FailedAccountIDs s = {})"
    using failover_continues [OF assms(1)] credit_retry [OF assms(2,3), of "fs_SameAccountRetryCount s" R] assms(4)
    unfolding failover_credit_def by (elim conjE disjE) simp_all
  then show ?thesis by (auto simp: failover_budget_def)
qed

lemma selection_failed_spends:
  assumes "selection_failed a s = Inl s'"
  shows "failover_budget p s' < failover_budget p s"
  using assms
  by (auto simp: selection_failed_def HandleSelectionExhausted_def failover_budget_def failover_credit_def
      split: if_splits option.splits)

lemma attempt_failed_spends:
  assumes "attempt_failed a account err s = Inl s'"
    and "finite (fst p)" and "sel_ID account \<in> fst p" and "sel_RetryLimit account \<le> snd p"
  shows "failover_budget p s' < failover_budget p s"
proof -
  obtain us where "HandleFailoverError (la_goneInHandler a) (la_waits a) (sel_ID account) (sel_Platform account)
      (sel_RetryLimit account) (Some err) s = (FailoverContinue, s', us)"
    using assms(1) by (auto simp: attempt_failed_def split: if_splits prod.splits FailoverAction.splits)
  then show ?thesis using failover_error_spends [of _ _ _ _ _ _ s s' us "fst p" "snd p"] assms(2-4) by simp
qed

text \<open>In a group of the Gemini platform the chat handler passes over accounts of other platforms.\<close>

definition fair_chat_answer :: "go_string \<times> int set \<times> int \<Rightarrow> loop_answer \<Rightarrow> bool" where
  "fair_chat_answer p a \<longleftrightarrow> fair_answer (snd p) a \<and>
     (fst p = PlatformGemini \<longrightarrow>
        (case la_selection a of None \<Rightarrow> True | Some account \<Rightarrow> sel_Platform account = PlatformGemini))"

interpretation chat_loop: bounded_loop "\<lambda>p. chat_iteration (fst p)" fair_chat_answer "\<lambda>p. failover_budget (snd p)"
proof
  fix p :: "go_string \<times> int set \<times> int" and a s s'
  assume "fair_chat_answer p a" "chat_iteration (fst p) a s = Inl s'"
  then show "failover_budget (snd p) s' < failover_budget (snd p) s"
    by (auto simp: chat_iteration_def fair_chat_answer_def fair_answer_def
        split: if_splits option.splits forward_result.splits
        intro: selection_failed_spends attempt_failed_spends)
qed

interpretation responses_loop: bounded_loop "\<lambda>p. responses_iteration" fair_answer failover_budget
proof
  fix p :: "int set \<times> int" and a s s'
  assume "fair_answer p a" "responses_iteration a s = Inl s'"
  then show "failover_budget p s' < failover_budget p s"
    by (auto simp: responses_iteration_def fair_answer_def
        split: if_splits option.splits forward_result.splits
        intro: selection_failed_spends attempt_failed_spends)
qed

lemma new_failover_budget:
  "failover_budget (A, R) (NewFailoverState maxSwitches bound) = 2 * (card A * nat R + nat maxSwitches)"
  by (simp add: failover_budget_def failover_credit_def NewFailoverState_def)

section \<open>Both loops end\<close>

text \<open>
  C28. The failover loops return. However the upstream accounts answer, if the scheduler selects among
  finitely many accounts \<open>A\<close> with retry limits at most \<open>R\<close>, the loop of the Responses handler returns within
  \<open>2 * (|A| * R + MaxSwitches) + 1\<close> iterations, and so does the loop of the Chat Completions handler when a Gemini group
  is only given Gemini accounts.
\<close>

theorem failover_loops_return:
  assumes "finite A" and "2 * (card A * nat R + nat maxSwitches) < n"
    and "\<And>i. fair_answer (A, R) (world i)"
    and "\<And>i account. groupPlatform = PlatformGemini \<Longrightarrow> la_selection (world i) = Some account \<Longrightarrow>
      sel_Platform account = PlatformGemini"
  shows "(\<exists>r. run_loop responses_iteration world n (NewFailoverState maxSwitches bound) = Inr r) \<and>
    (\<exists>r. run_loop (chat_iteration groupPlatform) world n (NewFailoverState maxSwitches bound) = Inr r)"
proof
  show "\<exists>r. run_loop responses_iteration world n (NewFailoverState maxSwitches bound) = Inr r"
    using responses_loop.returns [of "(A, R)" world] assms(2,3) by (simp add: new_failover_budget)
  have "fair_chat_answer (groupPlatform, A, R) (world i)" for i
    using assms(3,4) by (auto simp: fair_chat_answer_def split: option.splits)
  then show "\<exists>r. run_loop (chat_iteration groupPlatform) world n (NewFailoverState maxSwitches bound) = Inr r"
    using chat_loop.returns [of "(groupPlatform, A, R)" world] assms(2) by (simp add: new_failover_budget)
qed

definition sample_answer :: "selected_account option \<Rightarrow> forward_result \<Rightarrow> loop_answer" where
  "sample_answer selection fwd =
     \<lparr>la_gone = False, la_selection = selection, la_slot = True, la_configured = True, la_forward = fwd,
      la_goneAfter = False, la_committed = False, la_goneInHandler = False, la_waits = (\<lambda>_. True)\<rparr>"

definition sample_unavailable :: UpstreamFailoverError where
  "sample_unavailable =
     \<lparr>fe_StatusCode = 503, fe_ForceCacheBilling = False, fe_RetryableOnSameAccount = True,
      fe_NextAccountAction = NextAccountLegacyRetry\<rparr>"

theorem failover_loops_return_witness:
  "(\<exists>r. run_loop responses_iteration
      (\<lambda>_. sample_answer (Some \<lparr>sel_ID = 7, sel_Platform = ''gemini'', sel_RetryLimit = 3\<rparr>) (ForwardFailover sample_unavailable))
      20 (NewFailoverState 3 True) = Inr r) \<and>
   (\<exists>r. run_loop (chat_iteration ''gemini'')
      (\<lambda>_. sample_answer (Some \<lparr>sel_ID = 7, sel_Platform = ''gemini'', sel_RetryLimit = 3\<rparr>) (ForwardFailover sample_unavailable))
      20 (NewFailoverState 3 True) = Inr r)"
  by (rule failover_loops_return [of "{7}" 3 3])
    (simp_all add: fair_answer_def sample_answer_def PlatformGemini_def)

text \<open>
  The condition on Gemini groups is needed. The scheduler gives a Gemini group accounts of the Antigravity platform,
  too, when they take part in mixed scheduling; the chat handler puts them on the list of failed accounts
  and selects again. After one upstream error 503, an exhausted selection clears that list without counting, so
  with only such an account left the loop goes on until the client leaves.
\<close>

definition mixed_group :: "nat \<Rightarrow> loop_answer" where
  "mixed_group i =
     (if i = 0 then sample_answer (Some \<lparr>sel_ID = 1, sel_Platform = ''gemini'', sel_RetryLimit = 0\<rparr>)
        (ForwardFailover sample_unavailable)
      else if odd i then sample_answer None Forwarded
      else sample_answer (Some \<lparr>sel_ID = 2, sel_Platform = ''antigravity'', sel_RetryLimit = 0\<rparr>) Forwarded)"

lemma mixed_group_keeps_looping:
  assumes "odd k" and "fs_FailedAccountIDs s \<noteq> {}" and "fs_SwitchCount s \<le> fs_MaxSwitches s"
    and "fs_LastFailoverErr s = Some sample_unavailable"
  shows "\<exists>s'. run_loop (chat_iteration PlatformGemini) (\<lambda>i. mixed_group (k + i)) n s = Inl s'"
  using assms
proof (induction n arbitrary: s k rule: less_induct)
  case (less n)
  let ?s1 = "s\<lparr>fs_FailedAccountIDs := {}\<rparr>" and ?s2 = "s\<lparr>fs_FailedAccountIDs := {2}\<rparr>"
  have one: "chat_iteration PlatformGemini (mixed_group k) s = Inl ?s1"
    using less.prems by (auto simp: chat_iteration_def mixed_group_def sample_answer_def selection_failed_def
        HandleSelectionExhausted_def sample_unavailable_def sleepWithContext_def)
  have two: "chat_iteration PlatformGemini (mixed_group (Suc k)) ?s1 = Inl ?s2"
    using less.prems(1) by (simp add: chat_iteration_def mixed_group_def sample_answer_def PlatformGemini_def)
  show ?case
  proof (cases n)
    case (Suc m)
    show ?thesis
    proof (cases m)
      case 0
      then show ?thesis using Suc one by simp
    next
      case (Suc j)
      have "\<exists>s'. run_loop (chat_iteration PlatformGemini) (\<lambda>i. mixed_group (k + 2 + i)) j ?s2 = Inl s'"
        by (rule less.IH) (use \<open>n = Suc m\<close> Suc less.prems in auto)
      then show ?thesis using one two \<open>n = Suc m\<close> Suc by (simp add: numeral_2_eq_2)
    qed
  qed simp
qed

lemma failover_never_ends_in_mixed_group:
  "\<exists>s. run_loop (chat_iteration PlatformGemini) mixed_group n (NewFailoverState 3 False) = Inl s"
proof (cases n)
  case (Suc m)
  let ?s = "(NewFailoverState 3 False)\<lparr>fs_LastFailoverErr := Some sample_unavailable,
      fs_FailedAccountIDs := {1}, fs_SwitchCount := 1\<rparr>"
  have "chat_iteration PlatformGemini (mixed_group 0) (NewFailoverState 3 False) = Inl ?s"
    by (simp add: chat_iteration_def mixed_group_def sample_answer_def attempt_failed_def HandleFailoverError_def
        ShouldRetryNextAccount_def needForceCacheBilling_def NewFailoverState_def sample_unavailable_def
        PlatformGemini_def PlatformAntigravity_def Let_def)
  moreover have "\<exists>s. run_loop (chat_iteration PlatformGemini) (\<lambda>i. mixed_group (1 + i)) m ?s = Inl s"
    by (rule mixed_group_keeps_looping) (simp_all add: NewFailoverState_def)
  ultimately show ?thesis using Suc by simp
qed simp

end
