(* ===== verification/Batch_Billing.thy ===== *)
theory Batch_Billing
  imports Complex_Main Go_Sha256
begin

text \<open>
  The part of \<^verbatim>\<open>repository/usage_billing_repo.go\<close> that holds, captures and releases money for batch
  image jobs, with the command type of \<^verbatim>\<open>service/usage_billing.go\<close>: the users' balances, the table of
  claimed request ids with its archive, and one database transaction per operation.

  Amounts are exact rational numbers: the parameters of a statement are the decimal values Go
  prints, and a product of two float64 is taken without its rounding error. What is written to a
  column is rounded to the scale of the column, as PostgreSQL does for \<^verbatim>\<open>DECIMAL(20,8)\<close>
  (\<^verbatim>\<open>users.balance\<close>, \<^verbatim>\<open>users.frozen_balance\<close>) and \<^verbatim>\<open>DECIMAL(20,10)\<close> (the amounts of a job).
  \<open>bl_moves\<close> is a history variable: the list of the balance updates that were committed.
\<close>

section \<open>Numbers as the database and \<^verbatim>\<open>fmt\<close> write them\<close>

text \<open>Rounding to a number of decimals, halves away from zero.\<close>

definition to_scale :: "nat \<Rightarrow> rat \<Rightarrow> rat" where
  "to_scale d x =
     (if 0 \<le> x then of_int \<lfloor>x * 10 ^ d + 1 / 2\<rfloor> / 10 ^ d else - (of_int \<lfloor>- x * 10 ^ d + 1 / 2\<rfloor> / 10 ^ d))"

definition has_scale :: "nat \<Rightarrow> rat \<Rightarrow> bool" where
  "has_scale d x \<longleftrightarrow> x * 10 ^ d \<in> \<int>"

definition digit_char :: "nat \<Rightarrow> char" where
  "digit_char n = char_of (48 + n)"

fun decimal_digits :: "nat \<Rightarrow> string" where
  "decimal_digits n = (if n < 10 then [digit_char n] else decimal_digits (n div 10) @ [digit_char (n mod 10)])"

declare decimal_digits.simps [simp del]

text \<open>\<^verbatim>\<open>%d\<close> and \<^verbatim>\<open>%0.10f\<close>; the latter rounds the exact value, halves to even.\<close>

definition fmt_d :: "int \<Rightarrow> string" where
  "fmt_d n = (if n < 0 then ''-'' else '''') @ decimal_digits (nat \<bar>n\<bar>)"

definition round_half_even :: "rat \<Rightarrow> int" where
  "round_half_even x =
     (let n = \<lfloor>x\<rfloor>; r = x - of_int n in
      if r < 1 / 2 \<or> r = 1 / 2 \<and> even n then n else n + 1)"

definition fmt_f10 :: "rat \<Rightarrow> string" where
  "fmt_f10 x =
     (let n = nat (round_half_even (\<bar>x\<bar> * 10 ^ 10)); fraction = decimal_digits (n mod 10 ^ 10) in
      (if x < 0 then ''-'' else '''') @ decimal_digits (n div 10 ^ 10) @ ''.'' @
      replicate (10 - length fraction) (CHR ''0'') @ fraction)"

section \<open>Commands\<close>

record BatchImageBalanceHoldCommand =
  hc_RequestID :: go_string
  hc_APIKeyID :: int
  hc_RequestFingerprint :: go_string
  hc_RequestPayloadHash :: go_string
  hc_UserID :: int
  hc_BatchID :: go_string
  hc_HoldAmount :: rat
  hc_ActualAmount :: rat

definition batchImageHoldRequestPrefix :: go_string where
  "batchImageHoldRequestPrefix = ''batch_image_hold:''"

definition batchImageCaptureRequestPrefix :: go_string where
  "batchImageCaptureRequestPrefix = ''batch_image_capture:''"

definition batchImageReleaseRequestPrefix :: go_string where
  "batchImageReleaseRequestPrefix = ''batch_image_release:''"

definition BatchImageHoldRequestID :: "go_string \<Rightarrow> go_string" where
  "BatchImageHoldRequestID batchID = batchImageHoldRequestPrefix @ go_trim_space batchID"

definition BatchImageCaptureRequestID :: "go_string \<Rightarrow> go_string" where
  "BatchImageCaptureRequestID batchID = batchImageCaptureRequestPrefix @ go_trim_space batchID"

definition BatchImageReleaseRequestID :: "go_string \<Rightarrow> go_string" where
  "BatchImageReleaseRequestID batchID = batchImageReleaseRequestPrefix @ go_trim_space batchID"

definition buildBatchImageBalanceHoldFingerprint :: "BatchImageBalanceHoldCommand \<Rightarrow> go_string" where
  "buildBatchImageBalanceHoldFingerprint c =
     (let raw = fmt_d (hc_UserID c) @ ''|'' @ fmt_d (hc_APIKeyID c) @ ''|'' @ go_trim_space (hc_BatchID c) @
            ''|'' @ fmt_f10 (hc_HoldAmount c) @ ''|'' @ fmt_f10 (hc_ActualAmount c);
          payloadHash = go_trim_space (hc_RequestPayloadHash c);
          raw = (if payloadHash \<noteq> [] then raw @ ''|'' @ payloadHash else raw) in
      sha256_hex raw)"

definition Normalize :: "BatchImageBalanceHoldCommand \<Rightarrow> BatchImageBalanceHoldCommand" where
  "Normalize c =
     (let c = c\<lparr>hc_RequestID := go_trim_space (hc_RequestID c), hc_BatchID := go_trim_space (hc_BatchID c)\<rparr> in
      if go_trim_space (hc_RequestFingerprint c) = []
      then c\<lparr>hc_RequestFingerprint := buildBatchImageBalanceHoldFingerprint c\<rparr> else c)"

section \<open>The tables\<close>

record user_row =
  us_balance :: rat
  us_frozen :: rat
  us_deleted :: bool

datatype balance_move =
    Reserved go_string int rat
  | Captured go_string int rat rat
  | Released go_string int rat

record billing_db =
  bl_users :: "int \<Rightarrow> user_row option"
  bl_dedup :: "go_string \<times> int \<Rightarrow> go_string option"
  bl_archive :: "go_string \<times> int \<Rightarrow> go_string option"
  bl_moves :: "balance_move list"

datatype billing_error =
    ErrUsageBillingRequestIDRequired
  | ErrUsageBillingRequestConflict
  | ErrUserNotFound
  | ErrInsufficientBalance
  | ErrCostExceedsHold
  | ErrFrozenBalanceInsufficient
  | ErrDatabase

section \<open>Transactions\<close>

text \<open>
  \<^verbatim>\<open>claimUsageBillingRequest\<close> runs inside a transaction. It inserts the request id; the second
  component is the table with that row, which is dropped when the transaction is rolled back.
\<close>

definition claimUsageBillingRequest :: "go_string \<Rightarrow> int \<Rightarrow> go_string \<Rightarrow> 'a billing_db_scheme \<Rightarrow>
    (billing_error + bool) \<times> 'a billing_db_scheme" where
  "claimUsageBillingRequest requestID apiKeyID requestFingerprint db =
     (case bl_dedup db (requestID, apiKeyID) of
        Some existingFingerprint \<Rightarrow>
          (if go_trim_space existingFingerprint \<noteq> go_trim_space requestFingerprint
           then Inl ErrUsageBillingRequestConflict else Inr False, db)
      | None \<Rightarrow>
          let db' = db\<lparr>bl_dedup := (bl_dedup db)((requestID, apiKeyID) \<mapsto> requestFingerprint)\<rparr> in
          (case bl_archive db (requestID, apiKeyID) of
             Some archivedFingerprint \<Rightarrow>
               (if go_trim_space archivedFingerprint \<noteq> go_trim_space requestFingerprint
                then Inl ErrUsageBillingRequestConflict else Inr False, db')
           | None \<Rightarrow> (Inr True, db')))"

text \<open>\<^verbatim>\<open>UPDATE users SET ... WHERE id = uid AND deleted_at IS NULL AND cond\<close>; \<open>None\<close> is no row.\<close>

definition update_user :: "int \<Rightarrow> (user_row \<Rightarrow> bool) \<Rightarrow> (user_row \<Rightarrow> user_row) \<Rightarrow> 'a billing_db_scheme \<Rightarrow>
    'a billing_db_scheme option" where
  "update_user uid cond f db =
     (case bl_users db uid of
        Some u \<Rightarrow> if \<not> us_deleted u \<and> cond u then Some (db\<lparr>bl_users := (bl_users db)(uid \<mapsto> f u)\<rparr>) else None
      | None \<Rightarrow> None)"

definition userExistsForBilling :: "'a billing_db_scheme \<Rightarrow> int \<Rightarrow> bool" where
  "userExistsForBilling db uid = (case bl_users db uid of Some u \<Rightarrow> \<not> us_deleted u | None \<Rightarrow> False)"

definition log_move :: "balance_move \<Rightarrow> 'a billing_db_scheme \<Rightarrow> 'a billing_db_scheme" where
  "log_move m db = db\<lparr>bl_moves := bl_moves db @ [m]\<rparr>"

text \<open>The missing row of an update: the user does not exist, or the condition failed.\<close>

definition updated :: "BatchImageBalanceHoldCommand \<Rightarrow> billing_error \<Rightarrow> balance_move \<Rightarrow>
    'a billing_db_scheme \<Rightarrow> 'a billing_db_scheme option \<Rightarrow> billing_error + 'a billing_db_scheme" where
  "updated cmd refused m db r =
     (case r of
        Some db' \<Rightarrow> Inr (log_move m db')
      | None \<Rightarrow> if \<not> userExistsForBilling db (hc_UserID cmd) then Inl ErrUserNotFound else Inl refused)"

definition reserveUsageBillingBatchImageBalance ::
    "BatchImageBalanceHoldCommand \<Rightarrow> 'a billing_db_scheme \<Rightarrow> billing_error + 'a billing_db_scheme" where
  "reserveUsageBillingBatchImageBalance cmd db =
     (let hold = hc_HoldAmount cmd in
      if hold \<le> 0 then Inr db
      else updated cmd ErrInsufficientBalance (Reserved (hc_BatchID cmd) (hc_UserID cmd) hold) db
        (update_user (hc_UserID cmd) (\<lambda>u. hold \<le> us_balance u)
           (\<lambda>u. u\<lparr>us_balance := to_scale 8 (us_balance u - hold), us_frozen := to_scale 8 (us_frozen u + hold)\<rparr>) db))"

definition captureUsageBillingBatchImageBalance ::
    "BatchImageBalanceHoldCommand \<Rightarrow> 'a billing_db_scheme \<Rightarrow> billing_error + 'a billing_db_scheme" where
  "captureUsageBillingBatchImageBalance cmd db =
     (let hold = hc_HoldAmount cmd; actual = hc_ActualAmount cmd in
      if hold \<le> 0 \<and> actual \<le> 0 then Inr db
      else if actual - hold > 1 / 10 ^ 8 then Inl ErrCostExceedsHold
      else updated cmd ErrFrozenBalanceInsufficient (Captured (hc_BatchID cmd) (hc_UserID cmd) hold actual) db
        (update_user (hc_UserID cmd) (\<lambda>u. hold \<le> us_frozen u)
           (\<lambda>u. u\<lparr>us_balance := to_scale 8 (us_balance u + (if hold > actual then hold - actual else 0)
                                                - (if actual > hold then actual - hold else 0)),
                  us_frozen := to_scale 8 (us_frozen u - hold)\<rparr>) db))"

definition batchImageHoldClaimExists :: "'a billing_db_scheme \<Rightarrow> go_string \<Rightarrow> int \<Rightarrow> bool" where
  "batchImageHoldClaimExists db holdRequestID apiKeyID \<longleftrightarrow>
     bl_dedup db (holdRequestID, apiKeyID) \<noteq> None \<or> bl_archive db (holdRequestID, apiKeyID) \<noteq> None"

definition releaseUsageBillingBatchImageBalance ::
    "BatchImageBalanceHoldCommand \<Rightarrow> 'a billing_db_scheme \<Rightarrow> billing_error + 'a billing_db_scheme" where
  "releaseUsageBillingBatchImageBalance cmd db =
     (let hold = hc_HoldAmount cmd in
      if hold \<le> 0 then Inr db
      else if \<not> batchImageHoldClaimExists db (BatchImageHoldRequestID (hc_BatchID cmd)) (hc_APIKeyID cmd) then Inr db
      else updated cmd ErrFrozenBalanceInsufficient (Released (hc_BatchID cmd) (hc_UserID cmd) hold) db
        (update_user (hc_UserID cmd) (\<lambda>u. hold \<le> us_frozen u)
           (\<lambda>u. u\<lparr>us_balance := to_scale 8 (us_balance u + hold), us_frozen := to_scale 8 (us_frozen u - hold)\<rparr>) db))"

text \<open>The \<^verbatim>\<open>Applied\<close> flag is the result; the callers ignore the two balances the Go result carries.\<close>

definition applyBatchImageBalanceHold ::
    "(BatchImageBalanceHoldCommand \<Rightarrow> 'a billing_db_scheme \<Rightarrow> billing_error + 'a billing_db_scheme) \<Rightarrow>
     BatchImageBalanceHoldCommand \<Rightarrow> 'a billing_db_scheme \<Rightarrow> (billing_error + bool) \<times> 'a billing_db_scheme" where
  "applyBatchImageBalanceHold effect cmd db =
     (let cmd = Normalize cmd in
      if hc_RequestID cmd = [] then (Inl ErrUsageBillingRequestIDRequired, db)
      else case claimUsageBillingRequest (hc_RequestID cmd) (hc_APIKeyID cmd) (hc_RequestFingerprint cmd) db of
        (Inl e, _) \<Rightarrow> (Inl e, db)
      | (Inr False, _) \<Rightarrow> (Inr False, db)
      | (Inr True, db') \<Rightarrow> (case effect cmd db' of Inl e \<Rightarrow> (Inl e, db) | Inr db'' \<Rightarrow> (Inr True, db'')))"

definition ReserveBatchImageBalance ::
    "BatchImageBalanceHoldCommand \<Rightarrow> 'a billing_db_scheme \<Rightarrow> (billing_error + bool) \<times> 'a billing_db_scheme" where
  "ReserveBatchImageBalance = applyBatchImageBalanceHold reserveUsageBillingBatchImageBalance"

definition CaptureBatchImageBalance ::
    "BatchImageBalanceHoldCommand \<Rightarrow> 'a billing_db_scheme \<Rightarrow> (billing_error + bool) \<times> 'a billing_db_scheme" where
  "CaptureBatchImageBalance = applyBatchImageBalanceHold captureUsageBillingBatchImageBalance"

definition ReleaseBatchImageBalance ::
    "BatchImageBalanceHoldCommand \<Rightarrow> 'a billing_db_scheme \<Rightarrow> (billing_error + bool) \<times> 'a billing_db_scheme" where
  "ReleaseBatchImageBalance = applyBatchImageBalanceHold releaseUsageBillingBatchImageBalance"

end
