(* ===== verification/Batch_Jobs.thy ===== *)
theory Batch_Jobs
  imports Batch_Billing
begin

text \<open>
  Batch image jobs: the data of \<^verbatim>\<open>service/batch_image.go\<close>, its status machine, and the statements of
  \<^verbatim>\<open>repository/batch_image_repo.go\<close> on the tables of jobs, items and events. Each operation is one
  atomic step on the database; what a lost connection does to it is added in the next theory. An
  update that is followed by the insert of its audit event outside a transaction is one step too
  (events are written and never read), except in \<^verbatim>\<open>FailStaleUnsubmittedBatchImageJob\<close>, whose caller
  distinguishes the loss of the event. Rows
  are in the order of their ids. A status is one of the ten constants the code writes. Not kept: the
  columns no modelled code reads (task name, GCS addresses, multipliers, currency) and the payloads
  of events.
\<close>

section \<open>Jobs\<close>

datatype BatchImageJobStatus =
    Created | Uploading | Submitted | Running | Indexing | Settling | Completed | Failed | Cancelled | OutputDeleted

datatype BatchImageItemStatus = ItemPending | ItemSuccess | ItemFailed | ItemCancelled

record BatchImageJob =
  bj_BatchID :: go_string
  bj_UserID :: int
  bj_APIKeyID :: "int option"
  bj_AccountID :: "int option"
  bj_Provider :: go_string
  bj_Model :: go_string
  bj_Status :: BatchImageJobStatus
  bj_ProviderJobName :: "go_string option"
  bj_ProviderInputRef :: "go_string option"
  bj_ProviderOutputRef :: "go_string option"
  bj_ItemCount :: int
  bj_SuccessCount :: int
  bj_FailCount :: int
  bj_EstimatedCost :: rat
  bj_HoldAmount :: "rat option"
  bj_ActualCost :: "rat option"
  bj_BillableUnitPrice :: rat
  bj_PricingSnapshotVersion :: int
  bj_IdempotencyKey :: "go_string option"
  bj_RequestHash :: "go_string option"
  bj_ManifestHash :: "go_string option"
  bj_RetryCount :: int
  bj_Version :: int
  bj_OutputExpiresAt :: "int option"
  bj_InputDeletedAt :: "int option"
  bj_OutputDeletedAt :: "int option"
  bj_DownloadedAt :: "int option"
  bj_UserDeletedAt :: "int option"
  bj_LastErrorCode :: "go_string option"
  bj_LastErrorMessage :: "go_string option"
  bj_CreatedAt :: int
  bj_UpdatedAt :: int
  bj_SubmittedAt :: "int option"
  bj_StartedAt :: "int option"
  bj_FinishedAt :: "int option"
  bj_SettledAt :: "int option"

record BatchImageItem =
  bi_CustomID :: go_string
  bi_Status :: BatchImageItemStatus
  bi_PromptPreview :: "go_string option"
  bi_SourceLineNumber :: "int option"
  bi_ImageCount :: int
  bi_ErrorCode :: "go_string option"
  bi_ErrorMessage :: "go_string option"

record CreateBatchImageJobParams =
  cp_BatchID :: go_string
  cp_UserID :: int
  cp_APIKeyID :: "int option"
  cp_AccountID :: "int option"
  cp_Provider :: go_string
  cp_Model :: go_string
  cp_ItemCount :: int
  cp_EstimatedCost :: rat
  cp_HoldAmount :: "rat option"
  cp_BillableUnitPrice :: rat
  cp_PricingSnapshotVersion :: int
  cp_IdempotencyKey :: "go_string option"
  cp_RequestHash :: "go_string option"

datatype batch_error =
    ErrBatchImageJobNotFound | ErrBatchImageJobExists | ErrBatchImageItemExists
  | ErrBatchImageInvalidTransition | ErrBatchImageInvalidProvider
  | ErrBatchImageMissingProviderJobName | ErrBatchImageMissingAccountID | ErrBatchImageUnsupportedProvider
  | ErrBatchImageIndexOutputMissing | ErrBatchImageIndexParseFailed | ErrBatchImageIndexNoResultLines
  | ErrBatchImageDuplicateCustomID | ErrBatchImageIndexStateConflict
  | ErrBatchImageSettlementInvalidStatus | ErrBatchImageSettlementManifestConflict
  | ErrBatchImageSettlementPricingMissing | ErrBatchImageSettlementBillingFailed | ErrBatchImageAlreadySettled
  | ErrBatchImageSettlementMissingAPIKeyID | ErrBatchImageSettlementMissingAccountID
  | ErrBatchImageSettlementInvalidCounts | ErrBatchImageSettlementCostExceedsHold
  | ErrBatchImageBillingHoldFailed | ErrBatchImageInsufficientBalance
  | ErrBatchImageGroupDisabled | ErrBatchImageIdempotencyConflict | ErrBatchImageQueueFailed | ErrBatchImageProviderSubmitFailed
  | ErrBatchImageCancelFailed | ErrBatchImageRecordDeleteNotReady | ErrBatchImageOutputDeleteNotReady
  | ErrBatchImageCleanupFailed | ErrBatchImageProviderCleanupFailed | ErrBatchImageCleanupUnsafePath
  | ErrBatchImageProviderUnsupportedAccount | ErrBatchImageProviderMissingAPIKey
  | ErrBatchImageProviderMissingServiceAccount | ErrBatchImageVertexGCSBucketMissing | ErrBatchImageAlreadyQueued
  | ErrOther

definition IsSupportedBatchImageProvider :: "go_string \<Rightarrow> bool" where
  "IsSupportedBatchImageProvider provider \<longleftrightarrow> provider \<in> {''gemini_api'', ''vertex''}"

definition IsTerminalBatchImageJobStatus :: "BatchImageJobStatus \<Rightarrow> bool" where
  "IsTerminalBatchImageJobStatus status \<longleftrightarrow> status \<in> {Completed, Failed, Cancelled, OutputDeleted}"

fun allowed_transitions :: "BatchImageJobStatus \<Rightarrow> BatchImageJobStatus list" where
  "allowed_transitions Created = [Uploading, Submitted, Cancelled]"
| "allowed_transitions Uploading = [Submitted, Cancelled]"
| "allowed_transitions Submitted = [Running, Indexing, Failed, Cancelled]"
| "allowed_transitions Running = [Running, Indexing, Failed, Cancelled]"
| "allowed_transitions Indexing = [Settling, Failed]"
| "allowed_transitions Settling = [Completed]"
| "allowed_transitions _ = []"

definition CanTransitionBatchImageJob :: "BatchImageJobStatus \<Rightarrow> BatchImageJobStatus \<Rightarrow> bool" where
  "CanTransitionBatchImageJob from to \<longleftrightarrow>
     (if IsTerminalBatchImageJobStatus from
      then to = OutputDeleted \<and> from \<noteq> OutputDeleted \<and> (from = Completed \<or> from = Failed \<or> from = Cancelled)
      else if to = Failed then True
      else to \<in> set (allowed_transitions from))"

section \<open>The database\<close>

record batch_db = billing_db +
  db_jobs :: "BatchImageJob list"
  db_items :: "go_string \<Rightarrow> BatchImageItem list"
  db_events :: "(go_string \<times> go_string) list"

definition job_of :: "batch_db \<Rightarrow> go_string \<Rightarrow> BatchImageJob option" where
  "job_of db batchID = find (\<lambda>j. bj_BatchID j = batchID) (db_jobs db)"

definition append_event :: "go_string \<Rightarrow> go_string \<Rightarrow> batch_db \<Rightarrow> batch_db" where
  "append_event batchID eventType db = db\<lparr>db_events := db_events db @ [(batchID, eventType)]\<rparr>"

text \<open>\<^verbatim>\<open>UPDATE batch_image_jobs SET ... WHERE batch_id = batchID AND cond\<close>, and the rows affected.\<close>

definition update_jobs :: "go_string \<Rightarrow> (BatchImageJob \<Rightarrow> bool) \<Rightarrow> (BatchImageJob \<Rightarrow> BatchImageJob) \<Rightarrow> batch_db \<Rightarrow>
    nat \<times> batch_db" where
  "update_jobs batchID cond f db =
     (let hit = (\<lambda>j. bj_BatchID j = batchID \<and> cond j) in
      (length (filter hit (db_jobs db)), db\<lparr>db_jobs := map (\<lambda>j. if hit j then f j else j) (db_jobs db)\<rparr>))"

text \<open>\<^verbatim>\<open>CASE WHEN t IS NULL THEN now ELSE t END\<close>\<close>

definition first_time :: "bool \<Rightarrow> int \<Rightarrow> int option \<Rightarrow> int option" where
  "first_time cond now t = (if cond \<and> t = None then Some now else t)"

text \<open>The caller gives the id, and the status and currency that are the defaults.\<close>

definition CreateBatchImageJob :: "CreateBatchImageJobParams \<Rightarrow> int \<Rightarrow> batch_db \<Rightarrow>
    (batch_error + BatchImageJob) \<times> batch_db" where
  "CreateBatchImageJob params now db =
     (if \<not> IsSupportedBatchImageProvider (cp_Provider params) then (Inl ErrBatchImageInvalidProvider, db)
      else if job_of db (cp_BatchID params) \<noteq> None then (Inl ErrBatchImageJobExists, db)
      else let job =
        \<lparr>bj_BatchID = cp_BatchID params, bj_UserID = cp_UserID params, bj_APIKeyID = cp_APIKeyID params,
         bj_AccountID = cp_AccountID params, bj_Provider = cp_Provider params, bj_Model = cp_Model params,
         bj_Status = Created, bj_ProviderJobName = None, bj_ProviderInputRef = None, bj_ProviderOutputRef = None,
         bj_ItemCount = cp_ItemCount params, bj_SuccessCount = 0, bj_FailCount = 0,
         bj_EstimatedCost = to_scale 10 (cp_EstimatedCost params),
         bj_HoldAmount = map_option (to_scale 10) (cp_HoldAmount params), bj_ActualCost = None,
         bj_BillableUnitPrice = to_scale 10 (cp_BillableUnitPrice params),
         bj_PricingSnapshotVersion = cp_PricingSnapshotVersion params,
         bj_IdempotencyKey = cp_IdempotencyKey params, bj_RequestHash = cp_RequestHash params,
         bj_ManifestHash = None, bj_RetryCount = 0, bj_Version = 0, bj_OutputExpiresAt = None,
         bj_InputDeletedAt = None, bj_OutputDeletedAt = None, bj_DownloadedAt = None, bj_UserDeletedAt = None,
         bj_LastErrorCode = None, bj_LastErrorMessage = None, bj_CreatedAt = now, bj_UpdatedAt = now,
         bj_SubmittedAt = None, bj_StartedAt = None, bj_FinishedAt = None, bj_SettledAt = None\<rparr>
      in (Inr job, db\<lparr>db_jobs := db_jobs db @ [job]\<rparr>))"

definition found :: "BatchImageJob option \<Rightarrow> batch_error + BatchImageJob" where
  "found r = (case r of Some job \<Rightarrow> Inr job | None \<Rightarrow> Inl ErrBatchImageJobNotFound)"

definition GetBatchImageJobByBatchID :: "go_string \<Rightarrow> batch_db \<Rightarrow> batch_error + BatchImageJob" where
  "GetBatchImageJobByBatchID batchID db = found (job_of db batchID)"

definition GetBatchImageJobByIdempotencyKey :: "int \<Rightarrow> int \<Rightarrow> go_string \<Rightarrow> batch_db \<Rightarrow> batch_error + BatchImageJob" where
  "GetBatchImageJobByIdempotencyKey userID apiKeyID key db =
     found (find (\<lambda>j. bj_UserID j = userID \<and> bj_APIKeyID j = Some apiKeyID \<and> bj_IdempotencyKey j = Some key)
       (rev (db_jobs db)))"

definition GetBatchImageJobByBatchIDForOwner :: "int \<Rightarrow> int \<Rightarrow> go_string \<Rightarrow> batch_db \<Rightarrow> batch_error + BatchImageJob" where
  "GetBatchImageJobByBatchIDForOwner userID apiKeyID batchID db =
     found (case job_of db batchID of
       Some j \<Rightarrow> if bj_UserID j = userID \<and> bj_APIKeyID j = Some apiKeyID \<and> bj_UserDeletedAt j = None then Some j else None
     | None \<Rightarrow> None)"

text \<open>Every caller names an event type.\<close>

definition TransitionBatchImageJobStatus :: "go_string \<Rightarrow> BatchImageJobStatus \<Rightarrow> go_string \<Rightarrow> go_string option \<Rightarrow>
    go_string option \<Rightarrow> int \<Rightarrow> batch_db \<Rightarrow> batch_error option \<times> batch_db" where
  "TransitionBatchImageJobStatus batchID toStatus eventType errorCode errorMessage now db =
     (case job_of db batchID of
        None \<Rightarrow> (Some ErrBatchImageJobNotFound, db)
      | Some job \<Rightarrow>
          if \<not> CanTransitionBatchImageJob (bj_Status job) toStatus then (Some ErrBatchImageInvalidTransition, db)
          else (None, append_event batchID eventType (snd (update_jobs batchID (\<lambda>_. True)
            (\<lambda>j. j\<lparr>bj_Status := toStatus, bj_Version := bj_Version j + 1, bj_UpdatedAt := now,
                   bj_LastErrorCode := (if toStatus = Failed then errorCode else bj_LastErrorCode j),
                   bj_LastErrorMessage := (if toStatus = Failed then errorMessage else bj_LastErrorMessage j),
                   bj_SubmittedAt := first_time (toStatus = Submitted) now (bj_SubmittedAt j),
                   bj_StartedAt := first_time (toStatus = Running) now (bj_StartedAt j),
                   bj_FinishedAt := first_time (toStatus \<in> {Completed, Failed, Cancelled}) now (bj_FinishedAt j),
                   bj_SettledAt := first_time (toStatus = Completed) now (bj_SettledAt j),
                   bj_OutputDeletedAt := first_time (toStatus = OutputDeleted) now (bj_OutputDeletedAt j)\<rparr>) db))))"

definition TouchBatchImageJobSubmitting :: "go_string \<Rightarrow> int \<Rightarrow> batch_db \<Rightarrow> batch_db" where
  "TouchBatchImageJobSubmitting batchID now db =
     snd (update_jobs batchID (\<lambda>j. bj_Status j \<in> {Created, Uploading}) (\<lambda>j. j\<lparr>bj_UpdatedAt := now\<rparr>) db)"

text \<open>
  \<^verbatim>\<open>FailStaleUnsubmittedBatchImageJob\<close>: the update and the insert of its event are two statements
  without a transaction. \<open>eventLost\<close> is the case that the second fails after the first was done.
\<close>

definition FailStaleUnsubmittedBatchImageJob :: "go_string \<Rightarrow> int \<Rightarrow> go_string \<Rightarrow> go_string \<Rightarrow> bool \<Rightarrow> int \<Rightarrow> batch_db \<Rightarrow>
    (bool \<times> batch_error option) \<times> batch_db" where
  "FailStaleUnsubmittedBatchImageJob batchID cutoff code message eventLost now db =
     (let (affected, db') = update_jobs batchID
        (\<lambda>j. bj_Status j \<in> {Created, Uploading} \<and> bj_ProviderJobName j = None \<and> bj_UpdatedAt j \<le> cutoff)
        (\<lambda>j. j\<lparr>bj_Status := Failed, bj_LastErrorCode := Some code, bj_LastErrorMessage := Some message,
               bj_FinishedAt := first_time True now (bj_FinishedAt j), bj_UpdatedAt := now,
               bj_Version := bj_Version j + 1\<rparr>) db in
      if affected = 0 then ((False, None), db')
      else if eventLost then ((True, Some ErrOther), db')
      else ((True, None), append_event batchID ''billing_hold_recovery_failed_unsubmitted'' db'))"

definition UpdateBatchImageJobProviderOutputRef :: "go_string \<Rightarrow> go_string \<Rightarrow> int \<Rightarrow> batch_db \<Rightarrow>
    batch_error option \<times> batch_db" where
  "UpdateBatchImageJobProviderOutputRef batchID ref now db =
     (let (affected, db') = update_jobs batchID (\<lambda>_. True)
        (\<lambda>j. j\<lparr>bj_ProviderOutputRef := Some ref, bj_UpdatedAt := now\<rparr>) db in
      (if affected = 0 then Some ErrBatchImageJobNotFound else None, db'))"

definition null_if_empty :: "go_string \<Rightarrow> go_string option" where
  "null_if_empty s = (if s = [] then None else Some s)"

definition UpdateBatchImageJobProviderSubmit :: "go_string \<Rightarrow> go_string \<Rightarrow> go_string \<Rightarrow> go_string \<Rightarrow> int \<Rightarrow> batch_db \<Rightarrow>
    batch_error option \<times> batch_db" where
  "UpdateBatchImageJobProviderSubmit batchID jobName inputRef outputRef now db =
     (case job_of db batchID of
        None \<Rightarrow> (Some ErrBatchImageJobNotFound, db)
      | Some job \<Rightarrow>
          if \<not> CanTransitionBatchImageJob (bj_Status job) Submitted then (Some ErrBatchImageInvalidTransition, db)
          else (None, append_event batchID ''provider_submitted'' (snd (update_jobs batchID (\<lambda>_. True)
            (\<lambda>j. j\<lparr>bj_Status := Submitted, bj_ProviderJobName := Some jobName,
                   bj_ProviderInputRef := null_if_empty inputRef, bj_ProviderOutputRef := null_if_empty outputRef,
                   bj_SubmittedAt := first_time True now (bj_SubmittedAt j), bj_UpdatedAt := now,
                   bj_Version := bj_Version j + 1\<rparr>) db))))"

definition RecordBatchImageJobSubmitFailure :: "go_string \<Rightarrow> go_string \<Rightarrow> go_string \<Rightarrow> bool \<Rightarrow> int \<Rightarrow> batch_db \<Rightarrow> batch_db" where
  "RecordBatchImageJobSubmitFailure batchID code message markFailed now db =
     append_event batchID (if markFailed then ''submit_failed'' else ''queue_failed'')
       (snd (update_jobs batchID (\<lambda>_. True)
          (\<lambda>j. let status = (if markFailed then Failed else bj_Status j) in
             j\<lparr>bj_Status := status, bj_LastErrorCode := Some code, bj_LastErrorMessage := Some message,
               bj_FinishedAt := first_time (status = Failed) now (bj_FinishedAt j), bj_UpdatedAt := now,
               bj_Version := bj_Version j + 1\<rparr>) db))"

definition MarkBatchImageJobSettled :: "go_string \<Rightarrow> rat \<Rightarrow> go_string \<Rightarrow> int \<Rightarrow> int \<Rightarrow> batch_db \<Rightarrow>
    batch_error option \<times> batch_db" where
  "MarkBatchImageJobSettled batchID actualCost manifestHash outputExpiresAt now db =
     (let (affected, db') = update_jobs batchID
        (\<lambda>j. bj_Status j = Settling \<and> bj_ManifestHash j \<in> {None, Some [], Some manifestHash})
        (\<lambda>j. j\<lparr>bj_Status := Completed, bj_ActualCost := Some (to_scale 10 actualCost),
               bj_ManifestHash := Some manifestHash, bj_SettledAt := first_time True now (bj_SettledAt j),
               bj_FinishedAt := first_time True now (bj_FinishedAt j),
               bj_OutputExpiresAt := first_time True outputExpiresAt (bj_OutputExpiresAt j),
               bj_UpdatedAt := now, bj_Version := bj_Version j + 1\<rparr>) db in
      if affected = 0 then
        (case job_of db batchID of
           None \<Rightarrow> Some ErrBatchImageJobNotFound
         | Some job \<Rightarrow>
             if bj_Status job \<noteq> Settling then
               (if bj_Status job = Completed then Some ErrBatchImageAlreadySettled
                else Some ErrBatchImageSettlementInvalidStatus)
             else Some ErrBatchImageSettlementManifestConflict, db')
      else (None, append_event batchID ''settlement_completed'' db'))"

definition SetBatchImageJobSettlementFailed :: "go_string \<Rightarrow> go_string \<Rightarrow> go_string \<Rightarrow> int \<Rightarrow> batch_db \<Rightarrow>
    (batch_error + int) \<times> batch_db" where
  "SetBatchImageJobSettlementFailed batchID code message now db =
     (case job_of db batchID of
        None \<Rightarrow> (Inl ErrBatchImageJobNotFound, db)
      | Some job \<Rightarrow>
          (Inr (bj_RetryCount job + 1), append_event batchID ''settlement_failed'' (snd (update_jobs batchID (\<lambda>_. True)
             (\<lambda>j. j\<lparr>bj_LastErrorCode := Some code, bj_LastErrorMessage := Some message,
                    bj_RetryCount := bj_RetryCount j + 1, bj_UpdatedAt := now\<rparr>) db))))"

section \<open>Items\<close>

fun insert_items :: "BatchImageItem list \<Rightarrow> BatchImageItem list \<Rightarrow> BatchImageItem list option" where
  "insert_items [] rows = Some rows"
| "insert_items (item # items) rows =
     (if bi_CustomID item \<in> set (map bi_CustomID rows) then None else insert_items items (rows @ [item]))"

definition BulkCreateBatchImageItems :: "go_string \<Rightarrow> BatchImageItem list \<Rightarrow> batch_db \<Rightarrow> batch_error option \<times> batch_db" where
  "BulkCreateBatchImageItems batchID items db =
     (case insert_items items (db_items db batchID) of
        None \<Rightarrow> (Some ErrBatchImageItemExists, db)
      | Some rows \<Rightarrow> (None, db\<lparr>db_items := (db_items db)(batchID := rows)\<rparr>))"

definition prompt_preview :: "BatchImageItem list \<Rightarrow> go_string \<Rightarrow> go_string option" where
  "prompt_preview rows customID =
     (case find (\<lambda>i. bi_CustomID i = customID \<and> bi_PromptPreview i \<noteq> None \<and> bi_PromptPreview i \<noteq> Some []) (rev rows) of
        Some i \<Rightarrow> bi_PromptPreview i | None \<Rightarrow> None)"

definition ReplaceBatchImageItemsForJob :: "go_string \<Rightarrow> BatchImageItem list \<Rightarrow> int \<Rightarrow> int \<Rightarrow> int \<Rightarrow> batch_db \<Rightarrow>
    batch_error option \<times> batch_db" where
  "ReplaceBatchImageItemsForJob batchID items successCount failCount now db =
     (case job_of db batchID of
        None \<Rightarrow> (Some ErrBatchImageJobNotFound, db)
      | Some job \<Rightarrow>
          if bj_Status job \<noteq> Indexing then (Some ErrBatchImageIndexStateConflict, db)
          else case insert_items
              (map (\<lambda>i. if bi_PromptPreview i = None
                         then i\<lparr>bi_PromptPreview := prompt_preview (db_items db batchID) (bi_CustomID i)\<rparr> else i) items) [] of
            None \<Rightarrow> (Some ErrBatchImageItemExists, db)
          | Some rows \<Rightarrow>
              (None, snd (update_jobs batchID (\<lambda>_. True)
                 (\<lambda>j. j\<lparr>bj_SuccessCount := successCount, bj_FailCount := failCount, bj_UpdatedAt := now\<rparr>)
                 (db\<lparr>db_items := (db_items db)(batchID := rows)\<rparr>))))"

text \<open>\<^verbatim>\<open>ListBatchImageItems\<close> without a status filter; the limit falls back to 100 above 500.\<close>

definition ListBatchImageItems :: "go_string \<Rightarrow> nat \<Rightarrow> nat \<Rightarrow> batch_db \<Rightarrow> BatchImageItem list" where
  "ListBatchImageItems batchID limit offset db =
     take (if limit = 0 \<or> limit > 500 then 100 else limit) (drop offset (db_items db batchID))"

section \<open>Recovery, cleanup and deletion\<close>

fun insert_by_update :: "BatchImageJob \<Rightarrow> BatchImageJob list \<Rightarrow> BatchImageJob list" where
  "insert_by_update j [] = [j]"
| "insert_by_update j (k # ks) = (if bj_UpdatedAt j < bj_UpdatedAt k then j # k # ks else k # insert_by_update j ks)"

definition ListStaleUnsubmittedBatchImageJobs :: "int \<Rightarrow> nat \<Rightarrow> batch_db \<Rightarrow> BatchImageJob list" where
  "ListStaleUnsubmittedBatchImageJobs cutoff limit db =
     take (if limit = 0 \<or> limit > 1000 then 100 else limit)
       (foldl (\<lambda>js j. insert_by_update j js) []
         (filter (\<lambda>j. bj_Status j \<in> {Created, Uploading} \<and> bj_ProviderJobName j = None \<and>
            (case bj_HoldAmount j of Some h \<Rightarrow> h | None \<Rightarrow> bj_EstimatedCost j) > 0 \<and> bj_UpdatedAt j \<le> cutoff)
            (db_jobs db)))"

definition affected_or :: "batch_error \<Rightarrow> go_string \<Rightarrow> go_string \<Rightarrow> nat \<times> batch_db \<Rightarrow> batch_error option \<times> batch_db" where
  "affected_or e batchID eventType r =
     (if fst r = 0 then (Some e, snd r) else (None, append_event batchID eventType (snd r)))"

definition MarkBatchImageInputDeleted :: "go_string \<Rightarrow> int \<Rightarrow> batch_db \<Rightarrow> batch_error option \<times> batch_db" where
  "MarkBatchImageInputDeleted batchID deletedAt db =
     affected_or ErrBatchImageJobNotFound batchID ''input_cleanup_completed'' (update_jobs batchID (\<lambda>_. True)
       (\<lambda>j. j\<lparr>bj_InputDeletedAt := first_time True deletedAt (bj_InputDeletedAt j), bj_UpdatedAt := deletedAt,
              bj_Version := bj_Version j + 1\<rparr>) db)"

definition MarkBatchImageOutputDeleted :: "go_string \<Rightarrow> int \<Rightarrow> batch_db \<Rightarrow> batch_error option \<times> batch_db" where
  "MarkBatchImageOutputDeleted batchID deletedAt db =
     affected_or ErrBatchImageJobNotFound batchID ''output_cleanup_completed'' (update_jobs batchID (\<lambda>_. True)
       (\<lambda>j. j\<lparr>bj_Status := (if bj_Status j = Completed then OutputDeleted else bj_Status j),
              bj_OutputDeletedAt := first_time True deletedAt (bj_OutputDeletedAt j),
              bj_FinishedAt := first_time (bj_Status j = Completed) deletedAt (bj_FinishedAt j),
              bj_UpdatedAt := deletedAt, bj_Version := bj_Version j + 1\<rparr>) db)"

definition MarkBatchImageDownloaded :: "go_string \<Rightarrow> int \<Rightarrow> batch_db \<Rightarrow> batch_error option \<times> batch_db" where
  "MarkBatchImageDownloaded batchID downloadedAt db =
     affected_or ErrBatchImageJobNotFound batchID ''download_completed'' (update_jobs batchID (\<lambda>_. True)
       (\<lambda>j. j\<lparr>bj_DownloadedAt := first_time True downloadedAt (bj_DownloadedAt j), bj_UpdatedAt := downloadedAt\<rparr>) db)"

definition MarkBatchImageJobUserDeleted :: "int \<Rightarrow> int \<Rightarrow> go_string \<Rightarrow> int \<Rightarrow> batch_db \<Rightarrow>
    batch_error option \<times> batch_db" where
  "MarkBatchImageJobUserDeleted userID apiKeyID batchID deletedAt db =
     affected_or ErrBatchImageRecordDeleteNotReady batchID ''user_record_deleted'' (update_jobs batchID
       (\<lambda>j. bj_UserID j = userID \<and> bj_APIKeyID j = Some apiKeyID \<and> bj_UserDeletedAt j = None \<and>
            IsTerminalBatchImageJobStatus (bj_Status j))
       (\<lambda>j. j\<lparr>bj_UserDeletedAt := first_time True deletedAt (bj_UserDeletedAt j), bj_UpdatedAt := deletedAt\<rparr>) db)"

definition RecordBatchImageCleanupFailure :: "go_string \<Rightarrow> go_string \<Rightarrow> go_string \<Rightarrow> int \<Rightarrow> batch_db \<Rightarrow> batch_db" where
  "RecordBatchImageCleanupFailure batchID code message now db =
     append_event batchID ''output_cleanup_failed'' (snd (update_jobs batchID (\<lambda>_. True)
       (\<lambda>j. j\<lparr>bj_LastErrorCode := Some code, bj_LastErrorMessage := Some message,
              bj_RetryCount := bj_RetryCount j + 1, bj_UpdatedAt := now\<rparr>) db))"

section \<open>What an operation leaves alone\<close>

lemma job_of_update_jobs:
  assumes "\<And>j. bj_BatchID (f j) = bj_BatchID j"
  shows "job_of (snd (update_jobs b cond f db)) b' =
    (if b' = b then map_option (\<lambda>j. if cond j then f j else j) (job_of db b) else job_of db b')"
proof -
  have "find (\<lambda>j. bj_BatchID j = b') (map (\<lambda>j. if bj_BatchID j = b \<and> cond j then f j else j) js) =
    (if b' = b then map_option (\<lambda>j. if cond j then f j else j) (find (\<lambda>j. bj_BatchID j = b) js)
     else find (\<lambda>j. bj_BatchID j = b') js)" for js
    by (induction js) (auto simp: assms)
  then show ?thesis by (simp add: job_of_def update_jobs_def)
qed

lemma update_jobs_ids:
  "(\<And>j. bj_BatchID (f j) = bj_BatchID j) \<Longrightarrow>
    map bj_BatchID (db_jobs (snd (update_jobs b cond f db))) = map bj_BatchID (db_jobs db)"
  by (simp add: update_jobs_def Let_def)

lemma update_jobs_frame [simp]:
  "bl_users (snd (update_jobs b cond f db)) = bl_users db" "bl_dedup (snd (update_jobs b cond f db)) = bl_dedup db"
  "bl_archive (snd (update_jobs b cond f db)) = bl_archive db" "bl_moves (snd (update_jobs b cond f db)) = bl_moves db"
  "db_items (snd (update_jobs b cond f db)) = db_items db" "db_events (snd (update_jobs b cond f db)) = db_events db"
  by (simp_all add: update_jobs_def Let_def)

lemma append_event_frame [simp]:
  "bl_users (append_event b e db) = bl_users db" "bl_dedup (append_event b e db) = bl_dedup db"
  "bl_archive (append_event b e db) = bl_archive db" "bl_moves (append_event b e db) = bl_moves db"
  "db_items (append_event b e db) = db_items db" "db_jobs (append_event b e db) = db_jobs db"
  "job_of (append_event b e db) b' = job_of db b'"
  by (simp_all add: append_event_def job_of_def)

end
