(* ===== verification/Batch_Programs.thy ===== *)
theory Batch_Programs
  imports Batch_Jobs
begin

text \<open>
  The services that drive batch image jobs: \<^verbatim>\<open>batch_image_billing_hold.go\<close>, \<^verbatim>\<open>batch_image_settlement.go\<close>,
  \<^verbatim>\<open>batch_image_processor.go\<close>, \<^verbatim>\<open>batch_image_billing_recovery.go\<close>, \<^verbatim>\<open>batch_image_cleanup.go\<close> and the
  state-changing operations of \<^verbatim>\<open>batch_image_public.go\<close>. They call the repositories one statement or
  transaction at a time, while other requests and workers do the same, so a service is a program
  that can be stopped between two calls: \<open>Act\<close> is the next call and what follows it. A function of
  the source that makes calls takes the rest of its caller as a last argument \<open>k\<close>, which it gives its
  result.

  A call may fail before it reaches the database, after it took effect, or between the two
  statements of \<^verbatim>\<open>FailStaleUnsubmittedBatchImageJob\<close>; the input of a step says so, and carries the clock and
  the answers of what is not modelled here: upstream providers, the Redis queue, account selection.
  The services are configured (no repository is nil). Invalidating the auth cache, usage logs and log
  lines change nothing of this state and are left out.
\<close>

section \<open>Programs\<close>

datatype fault = Fine | FailBefore | FailAfter | EventLost

type_synonym go_error = "go_string \<times> go_string"

record BatchProviderStatus =
  ps_InternalState :: go_string
  ps_ProviderOutputRef :: go_string
  ps_ErrorCode :: go_string
  ps_ErrorMessage :: go_string
  ps_SuggestedRequeueAfter :: int

record BatchProviderJob =
  pj_ProviderJobName :: go_string
  pj_ProviderInputRef :: go_string
  pj_ProviderOutputRef :: go_string

record ParsedBatchImageResult =
  pb_CustomID :: go_string
  pb_Status :: go_string
  pb_ImageCount :: int
  pb_ErrorCode :: go_string
  pb_ErrorMessage :: go_string

record group_pricing =
  gp_AllowBatchImageGeneration :: bool
  gp_RateMultiplier :: rat
  gp_ImageRateIndependent :: bool
  gp_ImageRateMultiplier :: rat
  gp_BatchImageDiscountMultiplier :: rat
  gp_BatchImageHoldMultiplier :: rat
  gp_ImagePrice :: "rat option"

text \<open>
  What a step may be told: the clock, the fault of a database call, the account of a job
  (\<open>None\<close> when the provider does not support it), the provider's answers, the queue's answer, the
  chosen provider and account with the data the price depends on.
\<close>

record batch_input =
  in_now :: int
  in_fault :: fault
  in_account :: "batch_error + bool"
  in_status :: "go_error + BatchProviderStatus option"
  in_result :: "go_error + go_string list \<times> batch_error option"
  in_submit :: "go_error + BatchProviderJob option"
  in_cancel :: "go_error option"
  in_cleanup :: "go_error option"
  in_enqueue :: "batch_error option"
  in_selection :: "batch_error + go_string \<times> int"
  in_group :: "batch_error + group_pricing option \<times> rat option"
  in_account_multiplier :: rat

datatype call = PlainCall | CaptureCall | QueueFailedCall go_string

datatype 'a prog = Ret 'a | Act call "batch_input \<Rightarrow> batch_db \<Rightarrow> 'a prog \<times> batch_db"

definition repo :: "call \<Rightarrow> 'r \<Rightarrow> (batch_input \<Rightarrow> batch_db \<Rightarrow> 'r \<times> batch_db) \<Rightarrow> ('r \<Rightarrow> 'a prog) \<Rightarrow> 'a prog" where
  "repo c lost f k =
     Act c (\<lambda>i db. case in_fault i of
        FailBefore \<Rightarrow> (k lost, db)
      | FailAfter \<Rightarrow> (k lost, snd (f i db))
      | _ \<Rightarrow> (k (fst (f i db)), snd (f i db)))"

definition ask :: "(batch_input \<Rightarrow> 'r) \<Rightarrow> ('r \<Rightarrow> 'a prog) \<Rightarrow> 'a prog" where
  "ask g k = Act PlainCall (\<lambda>i db. (k (g i), db))"

definition get_job :: "go_string \<Rightarrow> (batch_error + BatchImageJob \<Rightarrow> 'a prog) \<Rightarrow> 'a prog" where
  "get_job batchID = repo PlainCall (Inl ErrOther) (\<lambda>i db. (GetBatchImageJobByBatchID batchID db, db))"

definition get_owned_job :: "int \<Rightarrow> int \<Rightarrow> go_string \<Rightarrow> (batch_error + BatchImageJob \<Rightarrow> 'a prog) \<Rightarrow> 'a prog" where
  "get_owned_job userID apiKeyID batchID =
     repo PlainCall (Inl ErrOther) (\<lambda>i db. (GetBatchImageJobByBatchIDForOwner userID apiKeyID batchID db, db))"

definition transition :: "go_string \<Rightarrow> BatchImageJobStatus \<Rightarrow> go_string \<Rightarrow> go_string option \<Rightarrow> go_string option \<Rightarrow>
    (batch_error option \<Rightarrow> 'a prog) \<Rightarrow> 'a prog" where
  "transition batchID toStatus eventType code msg =
     repo PlainCall (Some ErrOther) (\<lambda>i. TransitionBatchImageJobStatus batchID toStatus eventType code msg (in_now i))"

definition append_event_call :: "go_string \<Rightarrow> go_string \<Rightarrow> (batch_error option \<Rightarrow> 'a prog) \<Rightarrow> 'a prog" where
  "append_event_call batchID eventType = repo PlainCall (Some ErrOther) (\<lambda>i db. (None, append_event batchID eventType db))"

definition record_submit_failure :: "go_string \<Rightarrow> go_string \<Rightarrow> go_string \<Rightarrow> bool \<Rightarrow> 'a prog \<Rightarrow> 'a prog" where
  "record_submit_failure batchID code msg markFailed k =
     repo (if markFailed then PlainCall else QueueFailedCall batchID) ()
       (\<lambda>i db. ((), RecordBatchImageJobSubmitFailure batchID code msg markFailed (in_now i) db)) (\<lambda>_. k)"

text \<open>The configuration, and code of the repository these programs call but that is not modelled.\<close>

record batch_env =
  be_known_provider :: "go_string \<Rightarrow> bool"
  be_unit_price :: "BatchImageJob option \<Rightarrow> go_string \<Rightarrow> batch_error + rat"
  be_parse_line :: "go_string \<Rightarrow> int \<Rightarrow> batch_error + ParsedBatchImageResult"
  be_text :: "batch_error \<Rightarrow> go_string"
  be_default_requeue :: int
  be_output_retention :: int

section \<open>Small helpers\<close>

definition batchImageDerefString :: "go_string option \<Rightarrow> go_string" where
  "batchImageDerefString v = (case v of None \<Rightarrow> [] | Some s \<Rightarrow> go_trim_space s)"

definition batchImageOptionalStringPtr :: "go_string \<Rightarrow> go_string option" where
  "batchImageOptionalStringPtr v = (let v = go_trim_space v in if v = [] then None else Some v)"

definition truncateBatchImageMessage :: "go_string \<Rightarrow> int \<Rightarrow> go_string" where
  "truncateBatchImageMessage message limit =
     (let message = go_trim_space message in
      if limit \<le> 0 \<or> int (length message) \<le> limit then message else take (nat limit) message)"

definition batchImageMaxErrorMessageLength :: int where
  "batchImageMaxErrorMessageLength = 1000"

definition isBatchImageProcessorDoneStatus :: "BatchImageJobStatus \<Rightarrow> bool" where
  "isBatchImageProcessorDoneStatus status \<longleftrightarrow> status = Settling \<or> IsTerminalBatchImageJobStatus status"

fun go_contains_at :: "go_string \<Rightarrow> go_string \<Rightarrow> bool" where
  "go_contains_at [] p \<longleftrightarrow> p = []"
| "go_contains_at (c # cs) p \<longleftrightarrow> go_has_prefix (c # cs) p \<or> go_contains_at cs p"

definition sanitizeBatchImagePublicMessage :: "go_string \<Rightarrow> go_string" where
  "sanitizeBatchImagePublicMessage message =
     (let message = go_trim_space message;
          message = (if \<exists>marker \<in> {''gs://'', ''files/'', ''projects/''}. go_contains_at message marker
                     then ''upstream provider operation failed'' else message) in
      if length message > 500 then take 500 message else message)"

section \<open>Holding, capturing and releasing\<close>

definition hold_of :: "BatchImageJob \<Rightarrow> rat" where
  "hold_of job = (case bj_HoldAmount job of Some h \<Rightarrow> h | None \<Rightarrow> bj_EstimatedCost job)"

definition buildBatchImageHoldCommand :: "BatchImageJob \<Rightarrow> go_string \<Rightarrow> rat \<Rightarrow> go_string \<Rightarrow>
    batch_error + BatchImageBalanceHoldCommand" where
  "buildBatchImageHoldCommand job requestID actualAmount payloadHash =
     (case bj_APIKeyID job of
        None \<Rightarrow> Inl ErrBatchImageSettlementMissingAPIKeyID
      | Some apiKeyID \<Rightarrow>
          if apiKeyID \<le> 0 then Inl ErrBatchImageSettlementMissingAPIKeyID
          else Inr \<lparr>hc_RequestID = requestID, hc_APIKeyID = apiKeyID, hc_RequestFingerprint = [],
            hc_RequestPayloadHash = go_trim_space payloadHash, hc_UserID = bj_UserID job,
            hc_BatchID = bj_BatchID job,
            hc_HoldAmount = (if hold_of job < 0 then 0 else hold_of job),
            hc_ActualAmount = (if actualAmount < 0 then 0 else actualAmount)\<rparr>)"

definition reserveBatchImageBalanceHold :: "BatchImageJob \<Rightarrow> go_string \<Rightarrow> (batch_error option \<Rightarrow> 'a prog) \<Rightarrow> 'a prog" where
  "reserveBatchImageBalanceHold job payloadHash k =
     (case buildBatchImageHoldCommand job (BatchImageHoldRequestID (bj_BatchID job)) 0 payloadHash of
        Inl e \<Rightarrow> k (Some e)
      | Inr cmd \<Rightarrow>
          if hc_HoldAmount cmd \<le> 0 then k None
          else repo PlainCall (Inl ErrDatabase) (\<lambda>i. ReserveBatchImageBalance cmd)
            (\<lambda>r. case r of
               Inl e \<Rightarrow> k (Some (if e = ErrInsufficientBalance then ErrBatchImageInsufficientBalance
                                  else ErrBatchImageBillingHoldFailed))
             | Inr _ \<Rightarrow> k None))"

definition captureBatchImageBalanceHold :: "BatchImageJob \<Rightarrow> rat \<Rightarrow> go_string \<Rightarrow> (batch_error option \<Rightarrow> 'a prog) \<Rightarrow> 'a prog" where
  "captureBatchImageBalanceHold job actualAmount payloadHash k =
     (case buildBatchImageHoldCommand job (BatchImageCaptureRequestID (bj_BatchID job)) actualAmount payloadHash of
        Inl e \<Rightarrow> k (Some e)
      | Inr cmd \<Rightarrow>
          repo CaptureCall (Inl ErrDatabase) (\<lambda>i. CaptureBatchImageBalance cmd)
            (\<lambda>r. case r of Inl e \<Rightarrow> k (Some ErrBatchImageSettlementBillingFailed) | Inr _ \<Rightarrow> k None))"

definition releaseBatchImageBalanceHold :: "BatchImageJob \<Rightarrow> go_string \<Rightarrow> (batch_error option \<Rightarrow> 'a prog) \<Rightarrow> 'a prog" where
  "releaseBatchImageBalanceHold job payloadHash k =
     (case buildBatchImageHoldCommand job (BatchImageReleaseRequestID (bj_BatchID job)) 0 payloadHash of
        Inl e \<Rightarrow> k (Some e)
      | Inr cmd \<Rightarrow>
          if hc_HoldAmount cmd \<le> 0 then k None
          else repo PlainCall (Inl ErrDatabase) (\<lambda>i. ReleaseBatchImageBalance cmd)
            (\<lambda>r. case r of
               Inl e \<Rightarrow> if e = ErrUsageBillingRequestConflict then k None else k (Some ErrBatchImageBillingHoldFailed)
             | Inr _ \<Rightarrow> k None))"

section \<open>Settlement\<close>

record BatchImageSettlementResult =
  sr_SuccessCount :: int
  sr_FailCount :: int
  sr_ActualCost :: rat
  sr_ManifestHash :: go_string
  sr_AlreadySettled :: bool

definition batchImageSettlementMaxRetries :: int where
  "batchImageSettlementMaxRetries = 5"

definition batchImageCostEpsilon :: rat where
  "batchImageCostEpsilon = 1 / 10 ^ 8"

definition BuildBatchImageSettlementManifestHash :: "BatchImageJob \<Rightarrow> go_string" where
  "BuildBatchImageSettlementManifestHash job =
     (let nul = [CHR 0x00] in
      sha256_hex (go_trim_space (bj_BatchID job) @ nul @ go_trim_space (bj_Provider job) @ nul @
        go_trim_space (bj_Model job) @ nul @ batchImageDerefString (bj_ProviderJobName job) @ nul @
        batchImageDerefString (bj_ProviderOutputRef job) @ nul @ fmt_d (bj_SuccessCount job) @ nul @
        fmt_d (bj_FailCount job) @ nul @ fmt_d (bj_ItemCount job)))"

definition isBatchImageSettlementRetryExhausted :: "BatchImageJob \<Rightarrow> bool" where
  "isBatchImageSettlementRetryExhausted job \<longleftrightarrow>
     bj_Status job = Settling \<and> bj_RetryCount job \<ge> batchImageSettlementMaxRetries \<and>
     go_has_prefix (batchImageDerefString (bj_LastErrorCode job)) ''SETTLEMENT_''"

definition set_settlement_failed :: "go_string \<Rightarrow> go_string \<Rightarrow> go_string \<Rightarrow> (batch_error + int \<Rightarrow> 'a prog) \<Rightarrow> 'a prog" where
  "set_settlement_failed batchID code msg =
     repo PlainCall (Inl ErrOther) (\<lambda>i. SetBatchImageJobSettlementFailed batchID code
       (truncateBatchImageMessage msg batchImageMaxErrorMessageLength) (in_now i))"

definition failExhaustedSettlement :: "batch_env \<Rightarrow> BatchImageJob \<Rightarrow> go_string \<Rightarrow> (batch_error \<Rightarrow> 'a prog) \<Rightarrow> 'a prog" where
  "failExhaustedSettlement env job message k =
     releaseBatchImageBalanceHold job (batchImageDerefString (bj_RequestHash job)) (\<lambda>err. case err of
        Some e \<Rightarrow> set_settlement_failed (bj_BatchID job) ''SETTLEMENT_RELEASE_FAILED'' (be_text env e)
                    (\<lambda>_. k ErrBatchImageSettlementBillingFailed)
      | None \<Rightarrow>
          (let msg = go_trim_space message;
               msg = (if msg = [] then ''settlement billing retry limit reached'' else msg) in
           transition (bj_BatchID job) Failed ''settlement_retry_exhausted''
             (Some ''SETTLEMENT_BILLING_RETRY_EXHAUSTED'') (Some msg) (\<lambda>err. case err of
                Some e \<Rightarrow> k e
              | None \<Rightarrow> k ErrBatchImageSettlementBillingFailed)))"

definition recordSettlementFailure :: "batch_env \<Rightarrow> BatchImageJob \<Rightarrow> go_string \<Rightarrow> go_string \<Rightarrow>
    (batch_error option \<Rightarrow> 'a prog) \<Rightarrow> 'a prog" where
  "recordSettlementFailure env job code message k =
     set_settlement_failed (bj_BatchID job) code message (\<lambda>r. case r of
        Inl _ \<Rightarrow> k None
      | Inr retryCount \<Rightarrow>
          (let job = job\<lparr>bj_RetryCount := retryCount, bj_LastErrorCode := Some code\<rparr> in
           if retryCount \<ge> batchImageSettlementMaxRetries
           then failExhaustedSettlement env job message (\<lambda>e. k (Some e)) else k None))"

text \<open>A settlement step that failed: record it, and answer with its own error or the exhausted one.\<close>

definition settlement_failed :: "batch_env \<Rightarrow> BatchImageJob \<Rightarrow> go_string \<Rightarrow> go_string \<Rightarrow> batch_error \<Rightarrow>
    (batch_error + 'r \<Rightarrow> 'a prog) \<Rightarrow> 'a prog" where
  "settlement_failed env job code message e k =
     recordSettlementFailure env job code message (\<lambda>failErr. case failErr of
        Some f \<Rightarrow> k (Inl f) | None \<Rightarrow> k (Inl e))"

definition settlementUnitPrice :: "batch_env \<Rightarrow> BatchImageJob \<Rightarrow> batch_error + rat" where
  "settlementUnitPrice env job =
     (if bj_PricingSnapshotVersion job \<ge> 1 then
        (if bj_BillableUnitPrice job < 0 then Inl ErrBatchImageSettlementPricingMissing else Inr (bj_BillableUnitPrice job))
      else be_unit_price env (Some job) (bj_Model job))"

definition checked_unit_price :: "batch_env \<Rightarrow> BatchImageJob \<Rightarrow> batch_error + rat" where
  "checked_unit_price env job =
     (case settlementUnitPrice env job of
        Inr p \<Rightarrow> if p < 0 then Inl ErrBatchImageSettlementPricingMissing else Inr p
      | Inl e \<Rightarrow> Inl e)"

definition counts_invalid :: "BatchImageJob \<Rightarrow> bool" where
  "counts_invalid job \<longleftrightarrow>
     bj_SuccessCount job < 0 \<or> bj_FailCount job < 0 \<or> bj_ItemCount job < 0 \<or>
     wrap64 (bj_SuccessCount job + bj_FailCount job) > bj_ItemCount job"

definition settlement_result :: "BatchImageJob \<Rightarrow> rat \<Rightarrow> bool \<Rightarrow> BatchImageSettlementResult" where
  "settlement_result job cost already =
     \<lparr>sr_SuccessCount = bj_SuccessCount job, sr_FailCount = bj_FailCount job, sr_ActualCost = cost,
      sr_ManifestHash = BuildBatchImageSettlementManifestHash job, sr_AlreadySettled = already\<rparr>"

text \<open>The rest of \<^verbatim>\<open>Settle\<close> once the cost is known to be covered: capture and mark the job settled.\<close>

definition settle_cost :: "batch_env \<Rightarrow> BatchImageJob \<Rightarrow> rat \<Rightarrow> (batch_error + BatchImageSettlementResult \<Rightarrow> 'a prog) \<Rightarrow> 'a prog" where
  "settle_cost env job actualCost k =
     (let manifestHash = BuildBatchImageSettlementManifestHash job in
      captureBatchImageBalanceHold job actualCost manifestHash (\<lambda>err. case err of
         Some e \<Rightarrow> settlement_failed env job ''SETTLEMENT_BILLING_FAILED''
                      (truncateBatchImageMessage (be_text env e) batchImageMaxErrorMessageLength) e k
       | None \<Rightarrow>
           repo PlainCall (Some ErrOther)
             (\<lambda>i. MarkBatchImageJobSettled (bj_BatchID job) actualCost manifestHash
                (in_now i + be_output_retention env) (in_now i))
             (\<lambda>err. case err of
                Some e \<Rightarrow> k (Inl e)
              | None \<Rightarrow> k (Inr (settlement_result job actualCost False)))))"

definition Settle :: "batch_env \<Rightarrow> go_string \<Rightarrow> (batch_error + BatchImageSettlementResult \<Rightarrow> 'a prog) \<Rightarrow> 'a prog" where
  "Settle env batchID k =
     get_job batchID (\<lambda>r. case r of
        Inl e \<Rightarrow> k (Inl e)
      | Inr job \<Rightarrow>
          (let manifestHash = BuildBatchImageSettlementManifestHash job in
           if bj_Status job = Completed
           then k (Inr (settlement_result job (case bj_ActualCost job of Some c \<Rightarrow> c | None \<Rightarrow> 0) True))
           else if bj_Status job \<noteq> Settling then k (Inl ErrBatchImageSettlementInvalidStatus)
           else if (case bj_APIKeyID job of None \<Rightarrow> True | Some a \<Rightarrow> a \<le> 0)
           then k (Inl ErrBatchImageSettlementMissingAPIKeyID)
           else if (case bj_AccountID job of None \<Rightarrow> True | Some a \<Rightarrow> a \<le> 0)
           then k (Inl ErrBatchImageSettlementMissingAccountID)
           else if isBatchImageSettlementRetryExhausted job
           then failExhaustedSettlement env job
                  (''settlement retry limit reached: '' @ batchImageDerefString (bj_LastErrorCode job)) (\<lambda>e. k (Inl e))
           else if counts_invalid job
           then settlement_failed env job ''SETTLEMENT_INVALID_COUNTS''
                  (''success='' @ fmt_d (bj_SuccessCount job) @ '' fail='' @ fmt_d (bj_FailCount job) @
                   '' item_count='' @ fmt_d (bj_ItemCount job)) ErrBatchImageSettlementInvalidCounts k
           else if batchImageDerefString (bj_ManifestHash job) \<noteq> [] \<and>
                   batchImageDerefString (bj_ManifestHash job) \<noteq> manifestHash
           then settlement_failed env job ''SETTLEMENT_MANIFEST_CONFLICT'' ''manifest hash conflict''
                  ErrBatchImageSettlementManifestConflict k
           else case checked_unit_price env job of
             Inl e \<Rightarrow> settlement_failed env job ''SETTLEMENT_PRICING_MISSING'' (be_text env e) e k
           | Inr unitPrice \<Rightarrow>
               (let actualCost = of_int (bj_SuccessCount job) * unitPrice in
                if actualCost - hold_of job > batchImageCostEpsilon
                then settlement_failed env job ''SETTLEMENT_COST_EXCEEDS_HOLD''
                       (''actual cost '' @ fmt_f10 actualCost @ '' exceeds held amount '' @ fmt_f10 (hold_of job))
                       ErrBatchImageSettlementCostExceedsHold k
                else settle_cost env job actualCost k)))"

end
