(* ===== verification/Batch_Services.thy ===== *)
theory Batch_Services
  imports Batch_Programs
begin

text \<open>
  The worker's processors, the result indexer, the recovery of stale jobs, the cleanup, and the
  operations of the public API that change state. The retry delay of the pipeline and the limit on
  prompts are left at their defaults (one minute, 8000). \<^verbatim>\<open>Submit\<close> is modelled from the request that
  passed the checks at its head (feature switch, \<^verbatim>\<open>validateSubmitRequest\<close>, the group's permission), which
  touch neither jobs nor balances; of the parent of a batch only the ownership is checked, since its
  id is stored in a column nothing here reads. \<^verbatim>\<open>CleanupTargetAll\<close> is a target no caller of the cleanup
  service uses.
\<close>

section \<open>Indexing the provider's output\<close>

record BatchImageIndexResult =
  ix_SuccessCount :: int
  ix_FailCount :: int
  ix_TotalCount :: int

text \<open>
  \<^verbatim>\<open>listExpectedCustomIDs\<close> reads the items of the job in pages of 500. The pages are read as one step:
  the items of a job that is being indexed are only written by the worker that indexes it.
\<close>

function list_pages :: "go_string \<Rightarrow> nat \<Rightarrow> batch_db \<Rightarrow> go_string list" where
  "list_pages batchID offset db =
     (let page = ListBatchImageItems batchID 500 offset db in
      map bi_CustomID page @ (if length page < 500 then [] else list_pages batchID (offset + length page) db))"
  by pat_completeness auto
termination
  by (relation "measure (\<lambda>(b, offset, db). length (db_items db b) - offset)")
     (auto simp: ListBatchImageItems_def min_def split: if_splits)

declare list_pages.simps [simp del]

definition listExpectedCustomIDs :: "go_string \<Rightarrow> batch_db \<Rightarrow> go_string list" where
  "listExpectedCustomIDs batchID db = remdups (list_pages batchID 0 db)"

record index_state =
  xs_seen :: "go_string list"
  xs_items :: "BatchImageItem list"
  xs_result :: BatchImageIndexResult
  xs_unknown :: int

definition index_start :: index_state where
  "index_start = \<lparr>xs_seen = [], xs_items = [],
     xs_result = \<lparr>ix_SuccessCount = 0, ix_FailCount = 0, ix_TotalCount = 0\<rparr>, xs_unknown = 0\<rparr>"

definition parsed_item :: "ParsedBatchImageResult \<Rightarrow> int \<Rightarrow> BatchImageItem" where
  "parsed_item parsed lineNumber =
     (if pb_Status parsed = ''succeeded''
      then \<lparr>bi_CustomID = pb_CustomID parsed, bi_Status = ItemSuccess, bi_PromptPreview = None,
            bi_SourceLineNumber = Some lineNumber, bi_ImageCount = pb_ImageCount parsed,
            bi_ErrorCode = None, bi_ErrorMessage = None\<rparr>
      else \<lparr>bi_CustomID = pb_CustomID parsed, bi_Status = ItemFailed, bi_PromptPreview = None,
            bi_SourceLineNumber = Some lineNumber, bi_ImageCount = pb_ImageCount parsed,
            bi_ErrorCode = batchImageOptionalStringPtr (pb_ErrorCode parsed),
            bi_ErrorMessage = batchImageOptionalStringPtr (pb_ErrorMessage parsed)\<rparr>)"

definition count_item :: "BatchImageItem \<Rightarrow> index_state \<Rightarrow> index_state" where
  "count_item item st =
     st\<lparr>xs_items := xs_items st @ [item],
        xs_result := \<lparr>ix_SuccessCount = ix_SuccessCount (xs_result st) + (if bi_Status item = ItemSuccess then 1 else 0),
                      ix_FailCount = ix_FailCount (xs_result st) + (if bi_Status item = ItemSuccess then 0 else 1),
                      ix_TotalCount = ix_TotalCount (xs_result st) + 1\<rparr>\<rparr>"

fun index_lines :: "batch_env \<Rightarrow> go_string list \<Rightarrow> int \<Rightarrow> go_string list \<Rightarrow> index_state \<Rightarrow> batch_error + index_state" where
  "index_lines env expected lineNumber [] st = Inr st"
| "index_lines env expected lineNumber (raw # lines) st =
     (let lineNumber = lineNumber + 1; line = go_trim_space raw in
      if line = [] then index_lines env expected lineNumber lines st
      else case be_parse_line env line lineNumber of
        Inl e \<Rightarrow> Inl e
      | Inr parsed \<Rightarrow>
          if expected \<noteq> [] \<and> pb_CustomID parsed \<notin> set expected
          then index_lines env expected lineNumber lines (st\<lparr>xs_unknown := xs_unknown st + 1\<rparr>)
          else if pb_CustomID parsed \<in> set (xs_seen st) then Inl ErrBatchImageDuplicateCustomID
          else index_lines env expected lineNumber lines
            (count_item (parsed_item parsed lineNumber) (st\<lparr>xs_seen := xs_seen st @ [pb_CustomID parsed]\<rparr>)))"

fun string_less :: "go_string \<Rightarrow> go_string \<Rightarrow> bool" where
  "string_less _ [] \<longleftrightarrow> False"
| "string_less [] (_ # _) \<longleftrightarrow> True"
| "string_less (c # cs) (d # ds) \<longleftrightarrow>
     (of_char c :: nat) < of_char d \<or> c = d \<and> string_less cs ds"

fun insert_string :: "go_string \<Rightarrow> go_string list \<Rightarrow> go_string list" where
  "insert_string s [] = [s]"
| "insert_string s (t # ts) = (if string_less t s then t # insert_string s ts else s # t # ts)"

definition sort_strings :: "go_string list \<Rightarrow> go_string list" where
  "sort_strings ss = foldr insert_string ss []"

definition missing_item :: "go_string \<Rightarrow> BatchImageItem" where
  "missing_item customID =
     \<lparr>bi_CustomID = customID, bi_Status = ItemFailed, bi_PromptPreview = None, bi_SourceLineNumber = None,
      bi_ImageCount = 0, bi_ErrorCode = Some ''PROVIDER_RESULT_MISSING'',
      bi_ErrorMessage = Some ''provider output did not include a result for this item''\<rparr>"

definition missing_ids :: "go_string list \<Rightarrow> index_state \<Rightarrow> go_string list" where
  "missing_ids expected st = sort_strings (filter (\<lambda>c. c \<notin> set (xs_seen st)) expected)"

definition add_missing :: "go_string list \<Rightarrow> index_state \<Rightarrow> index_state" where
  "add_missing expected st = foldl (\<lambda>st c. count_item (missing_item c) st) st (missing_ids expected st)"

definition Index :: "batch_env \<Rightarrow> BatchImageJob \<Rightarrow> (batch_error + BatchImageIndexResult \<Rightarrow> 'a prog) \<Rightarrow> 'a prog" where
  "Index env job k =
     repo PlainCall (Inl ErrOther) (\<lambda>i db. (Inr (listExpectedCustomIDs (bj_BatchID job) db), db)) (\<lambda>r. case r of
        Inl e \<Rightarrow> k (Inl e)
      | Inr expected \<Rightarrow>
          ask in_result (\<lambda>r. case r of
             Inl _ \<Rightarrow> k (Inl ErrBatchImageIndexOutputMissing)
           | Inr (lines, scanErr) \<Rightarrow>
               (case index_lines env expected 0 lines index_start of
                  Inl e \<Rightarrow> k (Inl e)
                | Inr st \<Rightarrow>
                    (case scanErr of
                       Some e \<Rightarrow> k (Inl e)
                     | None \<Rightarrow>
                         (let missingCount = length (missing_ids expected st); st = add_missing expected st; result = xs_result st;
                              replace = repo PlainCall (Some ErrOther)
                                (\<lambda>i. ReplaceBatchImageItemsForJob (bj_BatchID job) (xs_items st)
                                   (ix_SuccessCount result) (ix_FailCount result) (in_now i))
                                (\<lambda>err. case err of Some e \<Rightarrow> k (Inl e) | None \<Rightarrow> k (Inr result)) in
                          if ix_TotalCount result = 0 then k (Inl ErrBatchImageIndexNoResultLines)
                          else if xs_unknown st > 0 \<or> missingCount > 0
                          then append_event_call (bj_BatchID job) ''index_reconciled'' (\<lambda>_. replace)
                          else replace)))))"

section \<open>The processors\<close>

record BatchImageProcessResult =
  pr_RequeueAfter :: int
  pr_Terminal :: bool

definition requeue :: "int \<Rightarrow> batch_error + BatchImageProcessResult" where
  "requeue delay = Inr \<lparr>pr_RequeueAfter = delay, pr_Terminal = False\<rparr>"

definition terminal :: "batch_error + BatchImageProcessResult" where
  "terminal = Inr \<lparr>pr_RequeueAfter = 0, pr_Terminal = True\<rparr>"

definition millisecond :: int where "millisecond = 1000000"
definition minute :: int where "minute = 60 * 1000 * millisecond"

definition requeueDelay :: "batch_env \<Rightarrow> int \<Rightarrow> int" where
  "requeueDelay env suggested =
     (if suggested > 0 then suggested else if be_default_requeue env > 0 then be_default_requeue env
      else 30 * 1000 * millisecond)"

definition releaseTerminalHold :: "BatchImageJob \<Rightarrow> (batch_error option \<Rightarrow> 'a prog) \<Rightarrow> 'a prog" where
  "releaseTerminalHold job k =
     (if bj_Status job \<noteq> Failed \<and> bj_Status job \<noteq> Cancelled then k None
      else releaseBatchImageBalanceHold job (batchImageDerefString (bj_RequestHash job)) k)"

text \<open>Transition to a terminal status, then release the hold; an error of either is the answer.\<close>

definition end_job :: "BatchImageJob \<Rightarrow> BatchImageJobStatus \<Rightarrow> go_string \<Rightarrow> go_string option \<Rightarrow> go_string option \<Rightarrow>
    (batch_error + BatchImageProcessResult \<Rightarrow> 'a prog) \<Rightarrow> 'a prog" where
  "end_job job status eventType code msg k =
     transition (bj_BatchID job) status eventType code msg (\<lambda>err. case err of
        Some e \<Rightarrow> k (Inl e)
      | None \<Rightarrow> releaseTerminalHold (job\<lparr>bj_Status := status\<rparr>) (\<lambda>err. case err of
          Some e \<Rightarrow> k (Inl e) | None \<Rightarrow> k terminal))"

definition indexAndSettle :: "batch_env \<Rightarrow> BatchImageJob \<Rightarrow> (batch_error + BatchImageProcessResult \<Rightarrow> 'a prog) \<Rightarrow> 'a prog" where
  "indexAndSettle env job k =
     Index env job (\<lambda>r. case r of
        Inl e \<Rightarrow>
          if e = ErrBatchImageIndexOutputMissing then k (Inl e)
          else if e = ErrBatchImageIndexStateConflict then k (requeue millisecond)
          else (let code = (if e = ErrBatchImageDuplicateCustomID then ''DUPLICATE_CUSTOM_ID_IN_OUTPUT''
                            else ''INDEX_PARSE_FAILED'') in
                end_job job Failed ''indexing_failed'' (Some code)
                  (batchImageOptionalStringPtr (truncateBatchImageMessage (be_text env e) batchImageMaxErrorMessageLength)) k)
      | Inr result \<Rightarrow>
          transition (bj_BatchID job) Settling ''indexing_completed'' None None (\<lambda>err. case err of
             Some e \<Rightarrow> k (Inl e) | None \<Rightarrow> k (requeue millisecond)))"

definition persistProviderOutputRef :: "BatchImageJob \<Rightarrow> go_string \<Rightarrow> (batch_error + BatchImageJob \<Rightarrow> 'a prog) \<Rightarrow> 'a prog" where
  "persistProviderOutputRef job ref k =
     (let ref = go_trim_space ref in
      if ref = [] \<or> batchImageDerefString (bj_ProviderOutputRef job) = ref then k (Inr job)
      else repo PlainCall (Some ErrOther) (\<lambda>i. UpdateBatchImageJobProviderOutputRef (bj_BatchID job) ref (in_now i))
        (\<lambda>err. case err of Some e \<Rightarrow> k (Inl e) | None \<Rightarrow> k (Inr (job\<lparr>bj_ProviderOutputRef := Some ref\<rparr>))))"

definition provider_failure_code :: "BatchProviderStatus \<Rightarrow> go_string" where
  "provider_failure_code status =
     (let code = go_trim_space (ps_ErrorCode status);
          code = (if code = [] \<and> ps_InternalState status = ''expired'' then ''PROVIDER_BATCH_EXPIRED'' else code) in
      if code = [] then ''PROVIDER_BATCH_FAILED'' else code)"

definition follow_status :: "batch_env \<Rightarrow> BatchImageJob \<Rightarrow> BatchProviderStatus \<Rightarrow>
    (batch_error + BatchImageProcessResult \<Rightarrow> 'a prog) \<Rightarrow> 'a prog" where
  "follow_status env job status k =
     (let state = ps_InternalState status; later = requeue (requeueDelay env (ps_SuggestedRequeueAfter status)) in
      if state = ''queued'' then k later
      else if state = ''running'' then
        (if bj_Status job \<noteq> Running
         then transition (bj_BatchID job) Running ''provider_status_checked'' None None
           (\<lambda>err. case err of Some e \<Rightarrow> k (Inl e) | None \<Rightarrow> k later)
         else k later)
      else if state = ''succeeded'' then
        (if bj_Status job \<noteq> Indexing
         then transition (bj_BatchID job) Indexing ''indexing_started'' None None
           (\<lambda>err. case err of Some e \<Rightarrow> k (Inl e) | None \<Rightarrow> indexAndSettle env (job\<lparr>bj_Status := Indexing\<rparr>) k)
         else indexAndSettle env job k)
      else if state = ''failed'' \<or> state = ''expired'' then
        end_job job Failed ''job_failed'' (Some (provider_failure_code status))
          (batchImageOptionalStringPtr (truncateBatchImageMessage (ps_ErrorMessage status) batchImageMaxErrorMessageLength)) k
      else if state = ''cancelled'' then end_job job Cancelled ''job_failed'' None None k
      else k later)"

definition ProviderProcess :: "batch_env \<Rightarrow> go_string \<Rightarrow> (batch_error + BatchImageProcessResult \<Rightarrow> 'a prog) \<Rightarrow> 'a prog" where
  "ProviderProcess env batchID k =
     get_job batchID (\<lambda>r. case r of
        Inl e \<Rightarrow> k (Inl e)
      | Inr job \<Rightarrow>
          if isBatchImageProcessorDoneStatus (bj_Status job)
          then releaseTerminalHold job (\<lambda>err. case err of Some e \<Rightarrow> k (Inl e) | None \<Rightarrow> k terminal)
          else if \<not> be_known_provider env (bj_Provider job) then k (Inl ErrBatchImageUnsupportedProvider)
          else if (case bj_AccountID job of None \<Rightarrow> True | Some a \<Rightarrow> a \<le> 0) then k (Inl ErrBatchImageMissingAccountID)
          else ask in_account (\<lambda>r. case r of
             Inl e \<Rightarrow> k (Inl e)
           | Inr supported \<Rightarrow>
               if \<not> supported then k (Inl ErrBatchImageProviderUnsupportedAccount)
               else if batchImageDerefString (bj_ProviderJobName job) = [] then k (Inl ErrBatchImageMissingProviderJobName)
               else if bj_Status job = Indexing then indexAndSettle env job k
               else ask in_status (\<lambda>r. case r of
                  Inl _ \<Rightarrow> k (requeue minute)
                | Inr None \<Rightarrow> k (requeue (requeueDelay env 0))
                | Inr (Some status) \<Rightarrow>
                    persistProviderOutputRef job (ps_ProviderOutputRef status) (\<lambda>r. case r of
                       Inl e \<Rightarrow> k (Inl e)
                     | Inr job \<Rightarrow> follow_status env job status k))))"

definition PipelineProcess :: "batch_env \<Rightarrow> go_string \<Rightarrow> (batch_error + BatchImageProcessResult \<Rightarrow> 'a prog) \<Rightarrow> 'a prog" where
  "PipelineProcess env batchID k =
     get_job batchID (\<lambda>r. case r of
        Inl e \<Rightarrow> k (Inl e)
      | Inr job \<Rightarrow>
          if bj_Status job = Settling then
            Settle env batchID (\<lambda>r. case r of
               Inl e \<Rightarrow>
                 if e = ErrBatchImageSettlementBillingFailed
                 then get_job batchID (\<lambda>r. case r of
                    Inr updatedJob \<Rightarrow> if IsTerminalBatchImageJobStatus (bj_Status updatedJob) then k terminal else k (requeue minute)
                  | Inl _ \<Rightarrow> k (requeue minute))
                 else k (Inl e)
             | Inr _ \<Rightarrow> k terminal)
          else ProviderProcess env batchID k)"

section \<open>Recovery of jobs that never reached a provider\<close>

fun release_stale :: "int \<Rightarrow> BatchImageJob list \<Rightarrow> nat \<Rightarrow> batch_error option \<Rightarrow>
    (nat \<times> batch_error option \<Rightarrow> 'a prog) \<Rightarrow> 'a prog" where
  "release_stale cutoff [] released lastErr k = k (released, lastErr)"
| "release_stale cutoff (job # jobs) released lastErr k =
     Act PlainCall (\<lambda>i db.
       let r = FailStaleUnsubmittedBatchImageJob (bj_BatchID job) cutoff ''SUBMIT_STALE_BEFORE_PROVIDER''
             ''batch image submission did not reach provider before recovery cutoff'' (in_fault i = EventLost) (in_now i) db;
           go_on = (\<lambda>answer. case answer of
              (False, Some e) \<Rightarrow> release_stale cutoff jobs released (Some e) k
            | (False, None) \<Rightarrow> release_stale cutoff jobs released lastErr k
            | (True, _) \<Rightarrow>
                releaseBatchImageBalanceHold (job\<lparr>bj_Status := Failed\<rparr>) (batchImageDerefString (bj_RequestHash job))
                  (\<lambda>err. case err of
                     Some e \<Rightarrow> ask in_enqueue (\<lambda>_. release_stale cutoff jobs released (Some e) k)
                   | None \<Rightarrow> release_stale cutoff jobs (released + 1) lastErr k)) in
       case in_fault i of
         FailBefore \<Rightarrow> (go_on (False, Some ErrOther), db)
       | FailAfter \<Rightarrow> (go_on (False, Some ErrOther), snd r)
       | _ \<Rightarrow> (go_on (fst r), snd r))"

definition ReleaseStaleUnsubmittedOnce :: "int \<Rightarrow> nat \<Rightarrow> (nat \<times> batch_error option \<Rightarrow> 'a prog) \<Rightarrow> 'a prog" where
  "ReleaseStaleUnsubmittedOnce staleAfter limit k =
     (let staleAfter = (if staleAfter \<le> 0 then 10 * minute else staleAfter);
          limit = (if limit = 0 then 100 else limit) in
      ask in_now (\<lambda>now. let cutoff = now - staleAfter in
        repo PlainCall (Inl ErrOther) (\<lambda>i db. (Inr (ListStaleUnsubmittedBatchImageJobs cutoff limit db), db)) (\<lambda>r. case r of
           Inl e \<Rightarrow> k (0, Some e)
         | Inr jobs \<Rightarrow> release_stale cutoff jobs 0 None k)))"

section \<open>Submitting\<close>

record BatchImageOwner =
  ow_UserID :: int
  ow_APIKeyID :: int

text \<open>A request that passed \<^verbatim>\<open>validateSubmitRequest\<close>, with its hash.\<close>

record BatchImageSubmitRequest =
  rq_Model :: go_string
  rq_ParentBatchID :: go_string
  rq_Items :: "(go_string \<times> go_string) list"
  rq_Hash :: go_string

record BatchImagePricingSnapshot =
  sn_BillableUnitPrice :: rat
  sn_HoldUnitPrice :: rat
  sn_EstimatedCost :: rat
  sn_HoldAmount :: rat

definition clip :: "rat \<Rightarrow> rat" where
  "clip x = (if x < 0 then 0 else x)"

text \<open>
  \<^verbatim>\<open>resolvePricingSnapshot\<close> on what the group and rate lookups returned: the group with the user's own
  rate, or no group.
\<close>

definition group_multiplier :: "group_pricing \<Rightarrow> rat option \<Rightarrow> rat" where
  "group_multiplier g userRate =
     clip (if gp_ImageRateIndependent g then gp_ImageRateMultiplier g
           else case userRate of Some r \<Rightarrow> r | None \<Rightarrow> clip (gp_RateMultiplier g))"

definition resolvePricingSnapshot :: "batch_env \<Rightarrow> go_string \<Rightarrow> nat \<Rightarrow> batch_error + group_pricing option \<times> rat option \<Rightarrow>
    rat \<Rightarrow> batch_error + BatchImagePricingSnapshot" where
  "resolvePricingSnapshot env model itemCount lookup accountMultiplier =
     (case lookup of
        Inl e \<Rightarrow> Inl e
      | Inr (grp, userRate) \<Rightarrow>
          if (case grp of Some g \<Rightarrow> \<not> gp_AllowBatchImageGeneration g | None \<Rightarrow> False) then Inl ErrBatchImageGroupDisabled
          else
            (let groupMultiplier = (case grp of Some g \<Rightarrow> group_multiplier g userRate | None \<Rightarrow> 1);
                 discountMultiplier = (case grp of Some g \<Rightarrow> clip (gp_BatchImageDiscountMultiplier g) | None \<Rightarrow> 1 / 2);
                 holdMultiplier = (case grp of
                    Some g \<Rightarrow> if gp_BatchImageHoldMultiplier g \<ge> 0 then gp_BatchImageHoldMultiplier g else 6 / 10
                  | None \<Rightarrow> 6 / 10);
                 configured = (case grp of Some g \<Rightarrow> gp_ImagePrice g | None \<Rightarrow> None);
                 unit = (case configured of
                    Some u \<Rightarrow> if u \<ge> 0 then Inr u else be_unit_price env None model
                  | None \<Rightarrow> be_unit_price env None model) in
             case unit of
               Inl _ \<Rightarrow> Inl ErrBatchImageSettlementPricingMissing
             | Inr u \<Rightarrow>
                 if u < 0 then Inl ErrBatchImageSettlementPricingMissing
                 else
                   (let holdMultiplier = (if holdMultiplier < discountMultiplier then discountMultiplier else holdMultiplier);
                        standard = u * groupMultiplier * clip accountMultiplier;
                        billable = standard * discountMultiplier; hold = standard * holdMultiplier in
                    Inr \<lparr>sn_BillableUnitPrice = billable, sn_HoldUnitPrice = hold,
                         sn_EstimatedCost = billable * of_nat itemCount, sn_HoldAmount = hold * of_nat itemCount\<rparr>)))"

definition hidePreUpstreamSubmitFailure :: "BatchImageOwner \<Rightarrow> BatchImageJob \<Rightarrow> 'a prog \<Rightarrow> 'a prog" where
  "hidePreUpstreamSubmitFailure owner job k =
     (if bj_ProviderJobName job \<noteq> None then k
      else repo PlainCall (Some ErrOther)
        (\<lambda>i. MarkBatchImageJobUserDeleted (ow_UserID owner) (ow_APIKeyID owner) (bj_BatchID job) (in_now i)) (\<lambda>_. k))"

definition submit_failed :: "BatchImageOwner \<Rightarrow> BatchImageJob \<Rightarrow> go_string \<Rightarrow> go_string \<Rightarrow> 'a prog \<Rightarrow> 'a prog" where
  "submit_failed owner job code msg k =
     record_submit_failure (bj_BatchID job) code (sanitizeBatchImagePublicMessage msg) True
       (hidePreUpstreamSubmitFailure owner job k)"

definition enqueueBillingRetry :: "go_string \<Rightarrow> 'a prog \<Rightarrow> 'a prog" where
  "enqueueBillingRetry batchID k =
     ask in_enqueue (\<lambda>err. case err of
        None \<Rightarrow> k
      | Some e \<Rightarrow> if e = ErrBatchImageAlreadyQueued then k
                   else append_event_call batchID ''billing_retry_enqueue_failed'' (\<lambda>_. k))"

definition releaseFailedSubmitHold :: "batch_env \<Rightarrow> BatchImageJob \<Rightarrow> go_string \<Rightarrow> (batch_error option \<Rightarrow> 'a prog) \<Rightarrow> 'a prog" where
  "releaseFailedSubmitHold env job requestHash k =
     releaseBatchImageBalanceHold job requestHash (\<lambda>err. case err of
        Some e \<Rightarrow> record_submit_failure (bj_BatchID job) ''BILLING_RELEASE_FAILED''
                    (sanitizeBatchImagePublicMessage (be_text env e)) True
                    (enqueueBillingRetry (bj_BatchID job) (k (Some ErrBatchImageBillingHoldFailed)))
      | None \<Rightarrow> k None)"

text \<open>A submission that failed before the provider took the job: release, mark, answer.\<close>

definition abandon :: "batch_env \<Rightarrow> BatchImageOwner \<Rightarrow> BatchImageJob \<Rightarrow> go_string \<Rightarrow> go_string \<Rightarrow> go_string \<Rightarrow> batch_error \<Rightarrow>
    (batch_error + BatchImageJob \<Rightarrow> 'a prog) \<Rightarrow> 'a prog" where
  "abandon env owner job requestHash code msg e k =
     releaseFailedSubmitHold env job requestHash (\<lambda>err. case err of
        Some f \<Rightarrow> k (Inl f)
      | None \<Rightarrow> submit_failed owner job code msg (k (Inl e)))"

definition batchImageProviderSubmitPublicError :: "go_string \<Rightarrow> batch_error" where
  "batchImageProviderSubmitPublicError reason =
     (let reason = go_trim_space reason in
      if reason = ''VERTEX_MANAGED_GCS_BUCKET_MISSING'' then ErrBatchImageVertexGCSBucketMissing
      else if reason = ''BATCH_IMAGE_PROVIDER_MISSING_API_KEY'' then ErrBatchImageProviderMissingAPIKey
      else if reason = ''BATCH_IMAGE_PROVIDER_MISSING_SERVICE_ACCOUNT'' then ErrBatchImageProviderMissingServiceAccount
      else if reason = ''BATCH_IMAGE_PROVIDER_UNSUPPORTED_ACCOUNT'' then ErrBatchImageProviderUnsupportedAccount
      else ErrBatchImageProviderSubmitFailed)"

text \<open>\<^verbatim>\<open>batchImageProviderSubmitRecordCode\<close>: the reason of the public error, with one exception.\<close>

definition batchImageProviderSubmitRecordCode :: "batch_error \<Rightarrow> go_string" where
  "batchImageProviderSubmitRecordCode e =
     (if e = ErrBatchImageVertexGCSBucketMissing then ''BATCH_IMAGE_VERTEX_GCS_BUCKET_MISSING''
      else if e = ErrBatchImageProviderMissingAPIKey then ''BATCH_IMAGE_PROVIDER_MISSING_API_KEY''
      else if e = ErrBatchImageProviderMissingServiceAccount then ''BATCH_IMAGE_PROVIDER_MISSING_SERVICE_ACCOUNT''
      else if e = ErrBatchImageProviderUnsupportedAccount then ''BATCH_IMAGE_PROVIDER_UNSUPPORTED_ACCOUNT''
      else ''PROVIDER_SUBMIT_FAILED'')"

text \<open>The queue takes the job, or already has it; any other answer is recorded as a queue failure.\<close>

definition enqueue_job :: "batch_env \<Rightarrow> go_string \<Rightarrow> (batch_error + unit \<Rightarrow> 'a prog) \<Rightarrow> 'a prog" where
  "enqueue_job env batchID k =
     ask in_enqueue (\<lambda>err. case err of
        None \<Rightarrow> k (Inr ())
      | Some e \<Rightarrow> if e = ErrBatchImageAlreadyQueued then k (Inr ())
                   else record_submit_failure batchID ''QUEUE_FAILED''
                     (sanitizeBatchImagePublicMessage (be_text env e)) False (k (Inl ErrBatchImageQueueFailed)))"

text \<open>From the provider's answer on.\<close>

definition after_submit :: "batch_env \<Rightarrow> BatchImageOwner \<Rightarrow> BatchImageJob \<Rightarrow> go_string \<Rightarrow> go_error + BatchProviderJob option \<Rightarrow>
    (batch_error + BatchImageJob \<Rightarrow> 'a prog) \<Rightarrow> 'a prog" where
  "after_submit env owner job requestHash answer k =
     (case answer of
        Inl (reason, msg) \<Rightarrow>
          (let publicErr = batchImageProviderSubmitPublicError reason in
           abandon env owner job requestHash (batchImageProviderSubmitRecordCode publicErr) msg publicErr k)
      | Inr None \<Rightarrow> abandon env owner job requestHash ''PROVIDER_SUBMIT_FAILED'' ''provider job name missing''
                      ErrBatchImageProviderSubmitFailed k
      | Inr (Some pj) \<Rightarrow>
          if go_trim_space (pj_ProviderJobName pj) = []
          then abandon env owner job requestHash ''PROVIDER_SUBMIT_FAILED'' ''provider job name missing''
                 ErrBatchImageProviderSubmitFailed k
          else repo PlainCall (Some ErrOther)
            (\<lambda>i. UpdateBatchImageJobProviderSubmit (bj_BatchID job) (pj_ProviderJobName pj) (pj_ProviderInputRef pj)
               (pj_ProviderOutputRef pj) (in_now i))
            (\<lambda>err. case err of
               Some e \<Rightarrow> ask in_cancel (\<lambda>_. ask in_cleanup (\<lambda>_.
                 append_event_call (bj_BatchID job) ''provider_job_aborted_after_submit'' (\<lambda>_. k (Inl e))))
             | None \<Rightarrow> enqueue_job env (bj_BatchID job) (\<lambda>r. case r of
                 Inl e \<Rightarrow> k (Inl e)
               | Inr _ \<Rightarrow> get_job (bj_BatchID job) k)))"

definition pending_items :: "BatchImageSubmitRequest \<Rightarrow> BatchImageItem list" where
  "pending_items req =
     map (\<lambda>(customID, prompt). \<lparr>bi_CustomID = customID, bi_Status = ItemPending,
        bi_PromptPreview = Some (truncateBatchImageMessage prompt 8000), bi_SourceLineNumber = None, bi_ImageCount = 0,
        bi_ErrorCode = None, bi_ErrorMessage = None\<rparr>) (rq_Items req)"

text \<open>From the stored job on: hold the money, store the items, upload.\<close>

definition run_submission :: "batch_env \<Rightarrow> BatchImageOwner \<Rightarrow> BatchImageSubmitRequest \<Rightarrow> BatchImageJob \<Rightarrow>
    (batch_error + BatchImageJob \<Rightarrow> 'a prog) \<Rightarrow> 'a prog" where
  "run_submission env owner req job k =
     reserveBatchImageBalanceHold job (rq_Hash req) (\<lambda>err. case err of
        Some e \<Rightarrow>
          submit_failed owner job
            (if e = ErrBatchImageInsufficientBalance then ''INSUFFICIENT_BALANCE'' else ''BILLING_HOLD_FAILED'')
            (be_text env e) (k (Inl e))
      | None \<Rightarrow>
          repo PlainCall (Some ErrOther) (\<lambda>i. BulkCreateBatchImageItems (bj_BatchID job) (pending_items req)) (\<lambda>err. case err of
             Some e \<Rightarrow> abandon env owner job (rq_Hash req) ''ITEM_CREATE_FAILED'' (be_text env e) ErrBatchImageQueueFailed k
           | None \<Rightarrow>
               transition (bj_BatchID job) Uploading ''upload_started'' None None (\<lambda>err. case err of
                  Some e \<Rightarrow>
                    if e = ErrBatchImageInvalidTransition
                    then releaseFailedSubmitHold env job (rq_Hash req) (\<lambda>err. case err of
                       Some f \<Rightarrow> k (Inl f) | None \<Rightarrow> k (Inl e))
                    else abandon env owner job (rq_Hash req) ''UPLOAD_TRANSITION_FAILED'' (be_text env e) e k
                | None \<Rightarrow> ask in_submit (\<lambda>answer.
                    after_submit env owner (job\<lparr>bj_Status := Uploading\<rparr>) (rq_Hash req) answer k))))"

definition new_params :: "BatchImageOwner \<Rightarrow> BatchImageSubmitRequest \<Rightarrow> go_string \<Rightarrow> go_string \<Rightarrow> go_string \<Rightarrow> int \<Rightarrow>
    BatchImagePricingSnapshot \<Rightarrow> CreateBatchImageJobParams" where
  "new_params owner req key batchID provider accountID snapshot =
     \<lparr>cp_BatchID = batchID, cp_UserID = ow_UserID owner, cp_APIKeyID = Some (ow_APIKeyID owner),
      cp_AccountID = Some accountID, cp_Provider = provider, cp_Model = rq_Model req,
      cp_ItemCount = int (length (rq_Items req)), cp_EstimatedCost = sn_EstimatedCost snapshot,
      cp_HoldAmount = Some (sn_HoldAmount snapshot), cp_BillableUnitPrice = sn_BillableUnitPrice snapshot,
      cp_PricingSnapshotVersion = 1, cp_IdempotencyKey = batchImageOptionalStringPtr key,
      cp_RequestHash = Some (rq_Hash req)\<rparr>"

definition create_submission :: "batch_env \<Rightarrow> BatchImageOwner \<Rightarrow> BatchImageSubmitRequest \<Rightarrow> go_string \<Rightarrow> go_string \<Rightarrow>
    (batch_error + BatchImageJob \<Rightarrow> 'a prog) \<Rightarrow> 'a prog" where
  "create_submission env owner req key batchID k =
     ask in_selection (\<lambda>r. case r of
        Inl e \<Rightarrow> k (Inl e)
      | Inr (provider, accountID) \<Rightarrow>
          ask (\<lambda>i. (in_group i, in_account_multiplier i)) (\<lambda>(lookup, multiplier).
            case resolvePricingSnapshot env (rq_Model req) (length (rq_Items req)) lookup multiplier of
              Inl e \<Rightarrow> k (Inl e)
            | Inr snapshot \<Rightarrow>
                (let create = repo PlainCall (Inl ErrOther)
                      (\<lambda>i. CreateBatchImageJob (new_params owner req key batchID provider accountID snapshot) (in_now i))
                      (\<lambda>r. case r of Inl e \<Rightarrow> k (Inl e) | Inr job \<Rightarrow> run_submission env owner req job k) in
                 case batchImageOptionalStringPtr (rq_ParentBatchID req) of
                   None \<Rightarrow> create
                 | Some parent \<Rightarrow> get_owned_job (ow_UserID owner) (ow_APIKeyID owner) parent
                     (\<lambda>r. case r of Inl e \<Rightarrow> k (Inl e) | Inr _ \<Rightarrow> create))))"

definition Submit :: "batch_env \<Rightarrow> BatchImageOwner \<Rightarrow> BatchImageSubmitRequest \<Rightarrow> go_string \<Rightarrow> go_string \<Rightarrow>
    (batch_error + BatchImageJob \<Rightarrow> 'a prog) \<Rightarrow> 'a prog" where
  "Submit env owner req idempotencyKey batchID k =
     (let key = go_trim_space idempotencyKey in
      if key = [] then create_submission env owner req key batchID k
      else repo PlainCall (Inl ErrOther)
        (\<lambda>i db. (GetBatchImageJobByIdempotencyKey (ow_UserID owner) (ow_APIKeyID owner) key db, db)) (\<lambda>r. case r of
           Inr existing \<Rightarrow>
             if batchImageDerefString (bj_RequestHash existing) \<noteq> rq_Hash req then k (Inl ErrBatchImageIdempotencyConflict)
             else if bj_Status existing = Submitted
             then enqueue_job env (bj_BatchID existing) (\<lambda>r. case r of Inl e \<Rightarrow> k (Inl e) | Inr _ \<Rightarrow> k (Inr existing))
             else k (Inr existing)
         | Inl e \<Rightarrow> if e \<noteq> ErrBatchImageJobNotFound then k (Inl e) else create_submission env owner req key batchID k))"

text \<open>The heartbeat of a slow submission.\<close>

definition submit_heartbeat :: "go_string \<Rightarrow> 'a prog \<Rightarrow> 'a prog" where
  "submit_heartbeat batchID k =
     repo PlainCall () (\<lambda>i db. ((), TouchBatchImageJobSubmitting batchID (in_now i) db)) (\<lambda>_. k)"

section \<open>Cancelling, deleting, cleaning up\<close>

definition cancel_release :: "BatchImageJob \<Rightarrow> (batch_error option \<Rightarrow> 'a prog) \<Rightarrow> 'a prog" where
  "cancel_release job k =
     releaseBatchImageBalanceHold job (batchImageDerefString (bj_RequestHash job)) (\<lambda>err. case err of
        Some e \<Rightarrow> enqueueBillingRetry (bj_BatchID job) (k (Some ErrBatchImageCancelFailed))
      | None \<Rightarrow> k None)"

definition Cancel :: "batch_env \<Rightarrow> BatchImageOwner \<Rightarrow> go_string \<Rightarrow> (batch_error + BatchImageJob \<Rightarrow> 'a prog) \<Rightarrow> 'a prog" where
  "Cancel env owner batchID k =
     get_owned_job (ow_UserID owner) (ow_APIKeyID owner) batchID (\<lambda>r. case r of
        Inl e \<Rightarrow> k (Inl e)
      | Inr job \<Rightarrow>
          if isBatchImageProcessorDoneStatus (bj_Status job) then
            (if bj_Status job = Failed \<or> bj_Status job = Cancelled
             then cancel_release job (\<lambda>err. case err of Some e \<Rightarrow> k (Inl e) | None \<Rightarrow> k (Inr job))
             else k (Inr job))
          else if bj_ProviderJobName job \<noteq> None \<and> batchImageDerefString (bj_ProviderJobName job) \<noteq> [] then
            (if \<not> be_known_provider env (bj_Provider job) then k (Inl ErrBatchImageUnsupportedProvider)
             else if bj_AccountID job = None then k (Inl ErrBatchImageCancelFailed)
             else ask in_account (\<lambda>r. case r of
                Inl _ \<Rightarrow> k (Inl ErrBatchImageCancelFailed)
              | Inr _ \<Rightarrow> ask in_cancel (\<lambda>err. case err of
                  Some _ \<Rightarrow> k (Inl ErrBatchImageCancelFailed)
                | None \<Rightarrow> append_event_call (bj_BatchID job) ''job_cancel_requested'' (\<lambda>_.
                    ask in_enqueue (\<lambda>err.
                      if err \<noteq> None \<and> err \<noteq> Some ErrBatchImageAlreadyQueued then k (Inl ErrBatchImageCancelFailed)
                      else get_owned_job (ow_UserID owner) (ow_APIKeyID owner) batchID k)))))
          else transition (bj_BatchID job) Cancelled ''job_cancelled'' None None (\<lambda>err. case err of
             Some e \<Rightarrow> k (Inl e)
           | None \<Rightarrow> cancel_release job (\<lambda>err. case err of
               Some e \<Rightarrow> k (Inl e)
             | None \<Rightarrow> get_owned_job (ow_UserID owner) (ow_APIKeyID owner) batchID k)))"

definition DeleteRecord :: "BatchImageOwner \<Rightarrow> go_string \<Rightarrow> (batch_error option \<Rightarrow> 'a prog) \<Rightarrow> 'a prog" where
  "DeleteRecord owner batchID k =
     get_owned_job (ow_UserID owner) (ow_APIKeyID owner) batchID (\<lambda>r. case r of
        Inl e \<Rightarrow> k (Some e)
      | Inr job \<Rightarrow>
          if \<not> isBatchImageProcessorDoneStatus (bj_Status job) then k (Some ErrBatchImageRecordDeleteNotReady)
          else repo PlainCall (Some ErrOther)
            (\<lambda>i. MarkBatchImageJobUserDeleted (ow_UserID owner) (ow_APIKeyID owner) (bj_BatchID job) (in_now i)) k)"

definition MarkDownloaded :: "BatchImageOwner \<Rightarrow> go_string \<Rightarrow> (batch_error option \<Rightarrow> 'a prog) \<Rightarrow> 'a prog" where
  "MarkDownloaded owner batchID k =
     get_owned_job (ow_UserID owner) (ow_APIKeyID owner) batchID (\<lambda>r. case r of
        Inl e \<Rightarrow> k (Some e)
      | Inr job \<Rightarrow> repo PlainCall (Some ErrOther) (\<lambda>i. MarkBatchImageDownloaded (bj_BatchID job) (in_now i)) k)"

datatype CleanupTarget = CleanupTargetInput | CleanupTargetOutput

definition cleanupErrorIsNotFound :: "(go_string \<Rightarrow> go_string) \<Rightarrow> go_error \<Rightarrow> bool" where
  "cleanupErrorIsNotFound to_upper err \<longleftrightarrow>
     go_contains_at (to_upper (fst err)) ''NOT_FOUND'' \<or> go_contains_at (to_upper (snd err)) ''NOT FOUND'' \<or>
     go_contains_at (to_upper (snd err)) ''404''"

definition cleanupFailureCode :: "go_error \<Rightarrow> go_string" where
  "cleanupFailureCode err =
     (let reason = go_trim_space (fst err) in
      if reason = ''VERTEX_UNSAFE_CLEANUP_PATH'' then ''BATCH_IMAGE_CLEANUP_UNSAFE_PATH''
      else if reason \<noteq> [] then reason else ''BATCH_IMAGE_PROVIDER_CLEANUP_FAILED'')"

definition cleanup_refused :: "BatchImageJob \<Rightarrow> CleanupTarget \<Rightarrow> (batch_error option) option" where
  "cleanup_refused job target =
     (case target of
        CleanupTargetInput \<Rightarrow>
          if bj_InputDeletedAt job \<noteq> None then Some None
          else if \<not> IsTerminalBatchImageJobStatus (bj_Status job) then Some (Some ErrBatchImageCleanupFailed) else None
      | CleanupTargetOutput \<Rightarrow>
          if bj_OutputDeletedAt job \<noteq> None \<or> bj_Status job = OutputDeleted then Some None
          else if bj_Status job \<notin> {Completed, Failed, Cancelled} then Some (Some ErrBatchImageOutputDeleteNotReady) else None)"

text \<open>\<^verbatim>\<open>callProviderCleanup\<close>; an input that is not found counts as deleted.\<close>

definition callProviderCleanup :: "batch_env \<Rightarrow> (go_string \<Rightarrow> go_string) \<Rightarrow> BatchImageJob \<Rightarrow> (go_error option \<Rightarrow> 'a prog) \<Rightarrow> 'a prog" where
  "callProviderCleanup env to_upper job k =
     (if \<not> be_known_provider env (bj_Provider job) then k (Some (''BATCH_IMAGE_UNSUPPORTED_PROVIDER'', []))
      else if (case bj_AccountID job of None \<Rightarrow> True | Some a \<Rightarrow> a \<le> 0) then k (Some (''BATCH_IMAGE_MISSING_ACCOUNT_ID'', []))
      else ask in_account (\<lambda>r. case r of
         Inl e \<Rightarrow> k (Some ([], be_text env e))
       | Inr _ \<Rightarrow> ask in_cleanup (\<lambda>err. case err of
           Some e \<Rightarrow> if cleanupErrorIsNotFound to_upper e then k None else k (Some e)
         | None \<Rightarrow> k None)))"

definition cleanupJob :: "batch_env \<Rightarrow> (go_string \<Rightarrow> go_string) \<Rightarrow> BatchImageJob \<Rightarrow> CleanupTarget \<Rightarrow>
    (batch_error option \<Rightarrow> 'a prog) \<Rightarrow> 'a prog" where
  "cleanupJob env to_upper job target k =
     (case cleanup_refused job target of
        Some r \<Rightarrow> k r
      | None \<Rightarrow>
          append_event_call (bj_BatchID job) (if target = CleanupTargetInput then ''input_cleanup_started'' else ''output_cleanup_started'')
            (\<lambda>_. callProviderCleanup env to_upper job (\<lambda>err. case err of
               Some e \<Rightarrow>
                 repo PlainCall () (\<lambda>i db. ((), RecordBatchImageCleanupFailure (bj_BatchID job) (cleanupFailureCode e)
                     (sanitizeBatchImagePublicMessage (snd e)) (in_now i) db))
                   (\<lambda>_. append_event_call (bj_BatchID job)
                      (if target = CleanupTargetInput then ''input_cleanup_failed'' else ''output_cleanup_failed'')
                      (\<lambda>_. k (Some (if go_trim_space (fst e) = ''VERTEX_UNSAFE_CLEANUP_PATH'' then ErrBatchImageCleanupUnsafePath
                                     else ErrBatchImageProviderCleanupFailed))))
             | None \<Rightarrow>
                 repo PlainCall (Some ErrOther)
                   (\<lambda>i. if target = CleanupTargetInput then MarkBatchImageInputDeleted (bj_BatchID job) (in_now i)
                         else MarkBatchImageOutputDeleted (bj_BatchID job) (in_now i)) k)))"

definition DeleteOutputsForOwner :: "batch_env \<Rightarrow> (go_string \<Rightarrow> go_string) \<Rightarrow> BatchImageOwner \<Rightarrow> go_string \<Rightarrow>
    (batch_error + BatchImageJob \<Rightarrow> 'a prog) \<Rightarrow> 'a prog" where
  "DeleteOutputsForOwner env to_upper owner batchID k =
     get_owned_job (ow_UserID owner) (ow_APIKeyID owner) batchID (\<lambda>r. case r of
        Inl e \<Rightarrow> k (Inl e)
      | Inr job \<Rightarrow>
          if bj_Status job = OutputDeleted \<or> bj_OutputDeletedAt job \<noteq> None then k (Inr job)
          else if bj_Status job \<noteq> Completed then k (Inl ErrBatchImageOutputDeleteNotReady)
          else append_event_call (bj_BatchID job) ''manual_output_delete_requested'' (\<lambda>_.
            cleanupJob env to_upper job CleanupTargetOutput (\<lambda>err. case err of
               Some e \<Rightarrow> k (Inl e)
             | None \<Rightarrow> get_owned_job (ow_UserID owner) (ow_APIKeyID owner) batchID k)))"

definition CleanupInput :: "batch_env \<Rightarrow> (go_string \<Rightarrow> go_string) \<Rightarrow> go_string \<Rightarrow> (batch_error option \<Rightarrow> 'a prog) \<Rightarrow> 'a prog" where
  "CleanupInput env to_upper batchID k =
     get_job batchID (\<lambda>r. case r of Inl e \<Rightarrow> k (Some e) | Inr job \<Rightarrow> cleanupJob env to_upper job CleanupTargetInput k)"

definition CleanupOutput :: "batch_env \<Rightarrow> (go_string \<Rightarrow> go_string) \<Rightarrow> go_string \<Rightarrow> (batch_error option \<Rightarrow> 'a prog) \<Rightarrow> 'a prog" where
  "CleanupOutput env to_upper batchID k =
     get_job batchID (\<lambda>r. case r of Inl e \<Rightarrow> k (Some e) | Inr job \<Rightarrow> cleanupJob env to_upper job CleanupTargetOutput k)"

end
