(* ===== verification/Batch_Safety.thy ===== *)
theory Batch_Safety
  imports Batch_Services
begin

text \<open>
  Many submissions, cancellations, workers and recoveries at once: the money of a batch moves at most
  once into the hold and at most once out of it. The proof is by rely and guarantee: each program is
  checked alone against what the others may do between two of its calls.
\<close>

section \<open>Claims and moves of one batch\<close>

definition claim_of :: "'a billing_db_scheme \<Rightarrow> go_string \<times> int \<Rightarrow> go_string option" where
  "claim_of db key = (case bl_dedup db key of Some f \<Rightarrow> Some f | None \<Rightarrow> bl_archive db key)"

fun move_batch :: "balance_move \<Rightarrow> go_string" where
  "move_batch (Reserved b u h) = b"
| "move_batch (Captured b u h a) = b"
| "move_batch (Released b u h) = b"

definition moves_of :: "go_string \<Rightarrow> 'a billing_db_scheme \<Rightarrow> balance_move list" where
  "moves_of b db = filter (\<lambda>m. move_batch m = b) (bl_moves db)"

text \<open>Ids as \<^verbatim>\<open>NewBatchImageID\<close> makes them: printable ASCII, so trimming leaves them alone.\<close>

definition plain :: "go_string \<Rightarrow> bool" where
  "plain s \<longleftrightarrow> (\<forall>c \<in> set s. (0x20 :: nat) < of_char c \<and> (of_char c :: nat) < 0x80)"

lemma plain_leading_space:
  assumes "plain s" and "rs = space_runes \<or> rs = map rev space_runes"
  shows "leading_space rs s = 0"
proof -
  have "\<not> go_has_prefix s r" if "r \<in> set rs" for r
  proof
    assume p: "go_has_prefix s r"
    have "r \<noteq> []" "\<forall>c \<in> set r. (of_char c :: nat) \<le> 0x20 \<or> 0x80 \<le> (of_char c :: nat)"
      using that assms(2) by (auto simp: space_runes_def)
    moreover have "hd r \<in> set s" using p \<open>r \<noteq> []\<close>
      by (metis go_has_prefix_def hd_in_set in_set_takeD)
    ultimately show False using assms(1) by (fastforce simp: plain_def dest: hd_in_set)
  qed
  then have "filter (go_has_prefix s) rs = []" by (simp add: filter_empty_conv)
  then show ?thesis by (simp add: leading_space_def)
qed

lemma plain_trim [simp]: "plain s \<Longrightarrow> go_trim_space s = s"
proof -
  assume s: "plain s"
  then have r: "plain (rev s)" by (simp add: plain_def)
  have "trim_left_with space_runes s = s"
    using plain_leading_space [OF s] by (simp add: trim_left_with.simps [of space_runes s])
  moreover have "trim_left_with (map rev space_runes) (rev s) = rev s"
    using plain_leading_space [OF r] by (simp add: trim_left_with.simps [of "map rev space_runes" "rev s"])
  ultimately show ?thesis by (simp add: go_trim_space_def)
qed

lemma plain_append [simp]: "plain (s @ t) \<longleftrightarrow> plain s \<and> plain t"
  by (auto simp: plain_def)

lemma plain_prefixes [simp]:
  "plain batchImageHoldRequestPrefix" "plain batchImageCaptureRequestPrefix" "plain batchImageReleaseRequestPrefix"
  by code_simp+

lemmas request_ids = BatchImageHoldRequestID_def BatchImageCaptureRequestID_def BatchImageReleaseRequestID_def

lemma request_id_distinct [simp]:
  "BatchImageHoldRequestID b \<noteq> BatchImageCaptureRequestID c" "BatchImageCaptureRequestID c \<noteq> BatchImageHoldRequestID b"
  "BatchImageHoldRequestID b \<noteq> BatchImageReleaseRequestID c" "BatchImageReleaseRequestID c \<noteq> BatchImageHoldRequestID b"
  "BatchImageCaptureRequestID b \<noteq> BatchImageReleaseRequestID c" "BatchImageReleaseRequestID c \<noteq> BatchImageCaptureRequestID b"
  by (simp_all add: request_ids batchImageHoldRequestPrefix_def batchImageCaptureRequestPrefix_def
      batchImageReleaseRequestPrefix_def)

lemma request_id_inj:
  assumes "plain b" and "plain c"
  shows "BatchImageHoldRequestID b = BatchImageHoldRequestID c \<longleftrightarrow> b = c"
    and "BatchImageCaptureRequestID b = BatchImageCaptureRequestID c \<longleftrightarrow> b = c"
    and "BatchImageReleaseRequestID b = BatchImageReleaseRequestID c \<longleftrightarrow> b = c"
  using assms by (simp_all add: request_ids)

lemma request_id_plain [simp]:
  "plain b \<Longrightarrow> plain (BatchImageHoldRequestID b)" "plain b \<Longrightarrow> plain (BatchImageCaptureRequestID b)"
  "plain b \<Longrightarrow> plain (BatchImageReleaseRequestID b)"
  by (simp_all add: request_ids)

section \<open>One billing transaction\<close>

text \<open>A committed effect claims its request id; everything else leaves the tables as they were.\<close>

lemma claim_result:
  "claimUsageBillingRequest rid a fp db =
     (r, db') \<Longrightarrow> r = Inr True \<longleftrightarrow> claim_of db (rid, a) = None"
  "claimUsageBillingRequest rid a fp db = (Inr True, db') \<Longrightarrow>
     db' = db\<lparr>bl_dedup := (bl_dedup db)((rid, a) \<mapsto> fp)\<rparr>"
  "claimUsageBillingRequest rid a fp db = (r, db') \<Longrightarrow> claim_of db (rid, a) = Some fp \<Longrightarrow> r = Inr False"
  by (auto simp: claimUsageBillingRequest_def claim_of_def Let_def split: option.splits if_splits)

lemma apply_hold_cases:
  assumes "applyBatchImageBalanceHold effect cmd db = (r, db')"
  obtains (same) "db' = db" "isl r \<or> r = Inr False \<and> claim_of db (hc_RequestID (Normalize cmd), hc_APIKeyID cmd) \<noteq> None"
  | (applied) db1 where "r = Inr True" "claim_of db (hc_RequestID (Normalize cmd), hc_APIKeyID cmd) = None"
      "db1 = db\<lparr>bl_dedup := (bl_dedup db)((hc_RequestID (Normalize cmd), hc_APIKeyID cmd) \<mapsto>
          hc_RequestFingerprint (Normalize cmd))\<rparr>"
      "effect (Normalize cmd) db1 = Inr db'"
proof -
  have a: "hc_APIKeyID (Normalize cmd) = hc_APIKeyID cmd" by (simp add: Normalize_def Let_def)
  obtain c db1 where c: "claimUsageBillingRequest (hc_RequestID (Normalize cmd)) (hc_APIKeyID cmd)
      (hc_RequestFingerprint (Normalize cmd)) db = (c, db1)" by fastforce
  show thesis
  proof (cases "hc_RequestID (Normalize cmd) = [] \<or> c \<noteq> Inr True \<or> isl (effect (Normalize cmd) db1)")
    case True
    then show ?thesis using assms c a same claim_result(1) [OF c]
      by (auto simp: applyBatchImageBalanceHold_def Let_def isl_def split: sum.splits bool.splits if_splits)
  next
    case False
    then obtain db2 where e: "effect (Normalize cmd) db1 = Inr db2" and i: "hc_RequestID (Normalize cmd) \<noteq> []"
      "c = Inr True" by (cases "effect (Normalize cmd) db1") auto
    then have "r = Inr True" "db' = db2" using assms c a
      by (auto simp: applyBatchImageBalanceHold_def Let_def)
    then show ?thesis using applied claim_result(1) [OF c] claim_result(2) [of _ _ _ db db1] c i e by blast
  qed
qed

lemma apply_hold_again:
  assumes "claim_of db (hc_RequestID (Normalize cmd), hc_APIKeyID cmd) = Some (hc_RequestFingerprint (Normalize cmd))"
    and "hc_RequestID (Normalize cmd) \<noteq> []"
  shows "applyBatchImageBalanceHold effect cmd db = (Inr False, db)"
proof -
  have a: "hc_APIKeyID (Normalize cmd) = hc_APIKeyID cmd" by (simp add: Normalize_def Let_def)
  obtain c db1 where c: "claimUsageBillingRequest (hc_RequestID (Normalize cmd)) (hc_APIKeyID cmd)
      (hc_RequestFingerprint (Normalize cmd)) db = (c, db1)" by fastforce
  then have "c = Inr False" using claim_result(3) assms(1) by blast
  then show ?thesis using assms(2) c a by (simp add: applyBatchImageBalanceHold_def Let_def)
qed

lemma claim_of_claim:
  "claim_of (db\<lparr>bl_dedup := (bl_dedup db)(key \<mapsto> fp)\<rparr>) key' = (if key' = key then Some fp else claim_of db key')"
  by (auto simp: claim_of_def split: option.split)

lemma update_user_frame:
  "update_user uid cond f db = Some db' \<Longrightarrow>
     bl_dedup db' = bl_dedup db \<and> bl_archive db' = bl_archive db \<and> bl_moves db' = bl_moves db \<and>
     billing_db.more db' = billing_db.more db"
  by (auto simp: update_user_def split: option.splits if_splits)

text \<open>An effect logs one move, or none at all when there is nothing to do.\<close>

lemma effect_frame:
  assumes "updated cmd e m db (update_user uid cond f db) = Inr db'"
  shows "bl_moves db' = bl_moves db @ [m]" and "bl_dedup db' = bl_dedup db" and "bl_archive db' = bl_archive db"
    and "billing_db.more db' = billing_db.more db"
  using assms update_user_frame [of uid cond f db]
  by (auto simp: updated_def log_move_def split: option.splits if_splits)

end
