(* ===== verification/Batch_Rely.thy ===== *)
theory Batch_Rely
  imports Batch_Safety
begin

text \<open>
  The invariant of one batch, what a program may do to it and rely on, and the rules that check a
  program call by call.
\<close>

section \<open>What a job fixes and what changes\<close>

text \<open>The columns of a job no statement changes, and those settlement depends on.\<close>

definition terms :: "BatchImageJob \<Rightarrow> go_string \<times> int \<times> int option \<times> int option \<times> go_string \<times> go_string \<times> int \<times>
    rat \<times> rat option \<times> rat \<times> int \<times> go_string option" where
  "terms j = (bj_BatchID j, bj_UserID j, bj_APIKeyID j, bj_AccountID j, bj_Provider j, bj_Model j, bj_ItemCount j,
     bj_EstimatedCost j, bj_HoldAmount j, bj_BillableUnitPrice j, bj_PricingSnapshotVersion j, bj_RequestHash j)"

definition progress :: "BatchImageJob \<Rightarrow> BatchImageJobStatus \<times> int \<times> int \<times> go_string option \<times> go_string option \<times>
    go_string option \<times> int \<times> go_string option" where
  "progress j = (bj_Status j, bj_SuccessCount j, bj_FailCount j, bj_ProviderJobName j, bj_ProviderOutputRef j,
     bj_ManifestHash j, bj_RetryCount j, bj_LastErrorCode j)"

definition ended :: "BatchImageJob \<Rightarrow> bool" where
  "ended j \<longleftrightarrow> bj_Status j \<in> {Failed, Cancelled}"

definition early :: "BatchImageJob \<Rightarrow> bool" where
  "early j \<longleftrightarrow> bj_Status j \<in> {Created, Uploading, Failed, Cancelled}"

definition settled_phase :: "BatchImageJob \<Rightarrow> bool" where
  "settled_phase j \<longleftrightarrow> bj_Status j \<in> {Settling, Completed, OutputDeleted}"

definition cost_of :: "BatchImageJob \<Rightarrow> rat" where
  "cost_of j = of_int (bj_SuccessCount j) * bj_BillableUnitPrice j"

text \<open>A settling job whose settlement passes every check before the capture.\<close>

definition settle_ready :: "BatchImageJob \<Rightarrow> bool" where
  "settle_ready j \<longleftrightarrow>
     \<not> isBatchImageSettlementRetryExhausted j \<and> \<not> counts_invalid j \<and>
     \<not> (batchImageDerefString (bj_ManifestHash j) \<noteq> [] \<and>
        batchImageDerefString (bj_ManifestHash j) \<noteq> BuildBatchImageSettlementManifestHash j) \<and>
     0 \<le> bj_BillableUnitPrice j \<and> \<not> cost_of j - hold_of j > batchImageCostEpsilon"

definition capture_command :: "BatchImageJob \<Rightarrow> batch_error + BatchImageBalanceHoldCommand" where
  "capture_command j = buildBatchImageHoldCommand j (BatchImageCaptureRequestID (bj_BatchID j)) (cost_of j)
     (BuildBatchImageSettlementManifestHash j)"

definition capture_fingerprint :: "BatchImageJob \<Rightarrow> go_string" where
  "capture_fingerprint j = (case capture_command j of Inr c \<Rightarrow> hc_RequestFingerprint (Normalize c) | Inl _ \<Rightarrow> [])"

lemma terms_hold: "terms j = terms j' \<Longrightarrow> hold_of j = hold_of j'"
  by (simp add: terms_def hold_of_def split: option.split)

lemma terms_progress_cong:
  assumes "terms j = terms j'" and "progress j = progress j'"
  shows "settle_ready j = settle_ready j'" and "capture_fingerprint j = capture_fingerprint j'"
    and "isBatchImageSettlementRetryExhausted j = isBatchImageSettlementRetryExhausted j'"
    and "hold_of j = hold_of j'" and "capture_command j = capture_command j'"
proof -
  have h: "hold_of j = hold_of j'" using terms_hold assms(1) .
  have m: "BuildBatchImageSettlementManifestHash j = BuildBatchImageSettlementManifestHash j'"
    and c: "cost_of j = cost_of j'"
    and e: "isBatchImageSettlementRetryExhausted j = isBatchImageSettlementRetryExhausted j'"
    using assms by (simp_all add: terms_def progress_def BuildBatchImageSettlementManifestHash_def
      cost_of_def isBatchImageSettlementRetryExhausted_def)
  show "settle_ready j = settle_ready j'"
    using assms m h c e by (simp add: settle_ready_def counts_invalid_def terms_def progress_def)
  show cmd: "capture_command j = capture_command j'"
    using assms m h c by (simp add: capture_command_def buildBatchImageHoldCommand_def terms_def progress_def split: option.split)
  show "capture_fingerprint j = capture_fingerprint j'"
    using cmd by (simp add: capture_fingerprint_def)
  show "isBatchImageSettlementRetryExhausted j = isBatchImageSettlementRetryExhausted j'" by (rule e)
  show "hold_of j = hold_of j'" by (rule h)
qed

section \<open>The invariant\<close>

definition hold_claim :: "batch_db \<Rightarrow> BatchImageJob \<Rightarrow> go_string option" where
  "hold_claim db j = claim_of db (BatchImageHoldRequestID (bj_BatchID j), the (bj_APIKeyID j))"

definition capture_claim :: "batch_db \<Rightarrow> BatchImageJob \<Rightarrow> go_string option" where
  "capture_claim db j = claim_of db (BatchImageCaptureRequestID (bj_BatchID j), the (bj_APIKeyID j))"

definition release_claim :: "batch_db \<Rightarrow> BatchImageJob \<Rightarrow> go_string option" where
  "release_claim db j = claim_of db (BatchImageReleaseRequestID (bj_BatchID j), the (bj_APIKeyID j))"

definition released :: "go_string \<Rightarrow> batch_db \<Rightarrow> bool" where
  "released b db \<longleftrightarrow> (\<exists>u h. Released b u h \<in> set (bl_moves db))"

text \<open>What may be charged on a hold: at most the hold, up to the tolerance of the cost check.\<close>

definition charge_ok :: "rat \<Rightarrow> rat \<Rightarrow> bool" where
  "charge_ok h c \<longleftrightarrow> 0 \<le> c \<and> c \<le> h + batchImageCostEpsilon"

text \<open>The four histories of a batch with a hold: nothing, held, held and captured, held and released.\<close>

definition ledger_ok :: "batch_db \<Rightarrow> BatchImageJob \<Rightarrow> bool" where
  "ledger_ok db j \<longleftrightarrow>
     (let b = bj_BatchID j; u = bj_UserID j; h = clip (hold_of j); ms = moves_of b db in
      if 0 < h then
        hold_claim db j = None \<and> capture_claim db j = None \<and> ms = []
        \<or> hold_claim db j \<noteq> None \<and> capture_claim db j = None \<and> ms = [Reserved b u h]
        \<or> hold_claim db j \<noteq> None \<and> capture_claim db j = None \<and> release_claim db j \<noteq> None \<and> ms = [Reserved b u h, Released b u h]
        \<or> hold_claim db j \<noteq> None \<and> capture_claim db j \<noteq> None \<and> (\<exists>c. charge_ok h c \<and> ms = [Reserved b u h, Captured b u h c])
      else
        capture_claim db j = None \<and> ms = []
        \<or> capture_claim db j \<noteq> None \<and> (ms = [] \<or> (\<exists>c. charge_ok h c \<and> ms = [Captured b u h c])))"

definition status_ok :: "batch_db \<Rightarrow> BatchImageJob \<Rightarrow> bool" where
  "status_ok db j \<longleftrightarrow>
     (capture_claim db j \<noteq> None \<longrightarrow> settled_phase j) \<and>
     (capture_claim db j \<noteq> None \<and> bj_Status j = Settling \<longrightarrow>
        settle_ready j \<and> capture_claim db j = Some (capture_fingerprint j)) \<and>
     (released (bj_BatchID j) db \<longrightarrow> early j \<or> isBatchImageSettlementRetryExhausted j) \<and>
     (bj_Status j \<notin> {Created, Failed, Cancelled} \<and> 0 < clip (hold_of j) \<longrightarrow> hold_claim db j \<noteq> None)"

definition batch_inv :: "go_string \<Rightarrow> batch_db \<Rightarrow> bool" where
  "batch_inv b db \<longleftrightarrow>
     plain b \<and> distinct (map bj_BatchID (db_jobs db)) \<and> (\<forall>b' j. job_of db b' = Some j \<longrightarrow> plain b') \<and>
     (case job_of db b of
        None \<Rightarrow> moves_of b db = [] \<and>
          (\<forall>a. claim_of db (BatchImageHoldRequestID b, a) = None \<and> claim_of db (BatchImageCaptureRequestID b, a) = None \<and>
               claim_of db (BatchImageReleaseRequestID b, a) = None)
      | Some j \<Rightarrow> 1 \<le> bj_PricingSnapshotVersion j \<and> bj_APIKeyID j \<noteq> None \<and> ledger_ok db j \<and> status_ok db j)"

section \<open>Guarantees\<close>

datatype role = Submitter | Worker | Bystander

text \<open>
  What every step keeps; what only the worker may do: leave the settling status or capture; what
  only the submission may do: leave the first statuses other than by ending the job.
\<close>

definition guar :: "go_string \<Rightarrow> role \<Rightarrow> batch_db \<Rightarrow> batch_db \<Rightarrow> bool" where
  "guar b r db db' \<longleftrightarrow>
     (\<forall>b' j. job_of db b' = Some j \<longrightarrow> (\<exists>j'. job_of db' b' = Some j' \<and> terms j' = terms j)) \<and>
     (\<forall>a. claim_of db (BatchImageHoldRequestID b, a) \<noteq> None \<longrightarrow> claim_of db' (BatchImageHoldRequestID b, a) \<noteq> None) \<and>
     (job_of db b = None \<and> r \<noteq> Submitter \<longrightarrow> job_of db' b = None) \<and>
     (\<forall>j j'. job_of db b = Some j \<and> job_of db' b = Some j' \<longrightarrow>
        (ended j \<longrightarrow> ended j') \<and>
        (IsTerminalBatchImageJobStatus (bj_Status j) \<longrightarrow> IsTerminalBatchImageJobStatus (bj_Status j')) \<and>
        (r \<noteq> Worker \<longrightarrow>
           (bj_Status j = Settling \<longrightarrow> progress j' = progress j) \<and>
           (\<not> settled_phase j \<longrightarrow> \<not> settled_phase j') \<and>
           capture_claim db' j' = capture_claim db j) \<and>
        (r \<noteq> Submitter \<longrightarrow> early j \<longrightarrow>
           early j' \<and> (ended j' \<or> \<not> ended j \<and> (released b db' \<longrightarrow> released b db))))"

text \<open>Two programs of the same batch have different roles, unless both are bystanders.\<close>

definition stable :: "go_string \<Rightarrow> role \<Rightarrow> (batch_db \<Rightarrow> bool) \<Rightarrow> bool" where
  "stable b r P \<longleftrightarrow>
     (\<forall>db db' r'. (r' = r \<longrightarrow> r = Bystander) \<and> batch_inv b db \<and> batch_inv b db' \<and> guar b r' db db' \<and> P db \<longrightarrow> P db')"

text \<open>
  The assumptions on a call: a capture is not lost, and a request that failed to enqueue a job
  records so before the job is being settled.
\<close>

definition permitted :: "call \<Rightarrow> batch_input \<Rightarrow> batch_db \<Rightarrow> bool" where
  "permitted c i db \<longleftrightarrow>
     (case c of
        PlainCall \<Rightarrow> True
      | CaptureCall \<Rightarrow> in_fault i \<notin> {FailBefore, FailAfter}
      | QueueFailedCall b \<Rightarrow> (case job_of db b of Some j \<Rightarrow> bj_Status j \<noteq> Settling | None \<Rightarrow> True))"

inductive safe :: "go_string \<Rightarrow> role \<Rightarrow> (batch_db \<Rightarrow> bool) \<Rightarrow> 'a prog \<Rightarrow> bool" for b r where
  safe_Ret: "safe b r P (Ret x)"
| safe_Act: "(\<And>i db. permitted c i db \<Longrightarrow> batch_inv b db \<Longrightarrow> P db \<Longrightarrow>
      batch_inv b (snd (f i db)) \<and> guar b r db (snd (f i db)) \<and>
      (\<exists>Q. stable b r Q \<and> Q (snd (f i db)) \<and> safe b r Q (fst (f i db)))) \<Longrightarrow> safe b r P (Act c f)"

inductive_cases safe_ActE: "safe b r P (Act c f)"

lemma safe_weaken:
  assumes "safe b r P p" and "\<And>db. Q db \<Longrightarrow> P db"
  shows "safe b r Q p"
  using assms(1)
proof (cases rule: safe.cases)
  case (safe_Ret x)
  then show ?thesis by (simp add: safe.safe_Ret)
next
  case (safe_Act c f)
  then show ?thesis using assms(2) by (auto intro!: safe.safe_Act)
qed

text \<open>A step of another batch, or one that only reads.\<close>

definition same_view :: "go_string \<Rightarrow> batch_db \<Rightarrow> batch_db \<Rightarrow> bool" where
  "same_view b db db' \<longleftrightarrow>
     job_of db' b = job_of db b \<and> moves_of b db' = moves_of b db \<and>
     (\<forall>a. claim_of db' (BatchImageHoldRequestID b, a) = claim_of db (BatchImageHoldRequestID b, a) \<and>
          claim_of db' (BatchImageCaptureRequestID b, a) = claim_of db (BatchImageCaptureRequestID b, a) \<and>
          claim_of db' (BatchImageReleaseRequestID b, a) = claim_of db (BatchImageReleaseRequestID b, a))"

definition keeps_jobs :: "batch_db \<Rightarrow> batch_db \<Rightarrow> bool" where
  "keeps_jobs db db' \<longleftrightarrow>
     (distinct (map bj_BatchID (db_jobs db)) \<longrightarrow> distinct (map bj_BatchID (db_jobs db'))) \<and>
     (\<forall>b' j. job_of db' b' = Some j \<longrightarrow> plain b' \<or> job_of db b' \<noteq> None) \<and>
     (\<forall>b' j. job_of db b' = Some j \<longrightarrow> (\<exists>j'. job_of db' b' = Some j' \<and> terms j' = terms j))"

lemma job_of_id: "job_of db b = Some j \<Longrightarrow> bj_BatchID j = b"
  by (auto simp: job_of_def find_Some_iff)

lemma released_moves: "released b db \<longleftrightarrow> (\<exists>u h. Released b u h \<in> set (moves_of b db))"
  by (auto simp: released_def moves_of_def)

lemma same_view_ok:
  assumes v: "same_view b db db'" and k: "keeps_jobs db db'" and i: "batch_inv b db"
  shows "batch_inv b db'" and "guar b r db db'"
proof -
  have p: "distinct (map bj_BatchID (db_jobs db')) \<and> (\<forall>b' j. job_of db' b' = Some j \<longrightarrow> plain b')"
    using k i by (fastforce simp: keeps_jobs_def batch_inv_def)
  have claims: "hold_claim db' j = hold_claim db j" "capture_claim db' j = capture_claim db j"
    "release_claim db' j = release_claim db j" if "bj_BatchID j = b" for j
    using v that by (simp_all add: same_view_def hold_claim_def capture_claim_def release_claim_def)
  have rel: "released b db' = released b db" using v by (simp add: released_moves same_view_def)
  show "batch_inv b db'"
  proof (cases "job_of db b")
    case None
    then show ?thesis using v i p by (simp add: batch_inv_def same_view_def)
  next
    case (Some j)
    then have b: "bj_BatchID j = b" by (rule job_of_id)
    have "ledger_ok db' j = ledger_ok db j" "status_ok db' j = status_ok db j"
      using v b claims [OF b] rel by (simp_all add: ledger_ok_def status_ok_def same_view_def)
    then show ?thesis using v i p Some by (simp add: batch_inv_def same_view_def)
  qed
  show "guar b r db db'"
    unfolding guar_def
  proof (intro conjI allI impI)
    fix j j' assume jj: "job_of db b = Some j \<and> job_of db' b = Some j'"
    then have j': "j' = j" using v by (simp add: same_view_def)
    have b: "bj_BatchID j = b" using jj job_of_id by blast
    show "ended j'" if "ended j" using that j' by simp
    show "IsTerminalBatchImageJobStatus (bj_Status j')" if "IsTerminalBatchImageJobStatus (bj_Status j)" using that j' by simp
    show "progress j' = progress j" using j' by simp
    show "\<not> settled_phase j'" if "\<not> settled_phase j" using that j' by simp
    show "capture_claim db' j' = capture_claim db j" using j' claims(2) [OF b] by simp
    show "early j'" if "early j" using that j' by simp
    show "ended j' \<or> \<not> ended j \<and> (released b db' \<longrightarrow> released b db)" using j' rel by blast
  qed (use v k in \<open>auto simp: same_view_def keeps_jobs_def\<close>)
qed

text \<open>An update of one job row.\<close>

definition row_op :: "go_string \<Rightarrow> (BatchImageJob \<Rightarrow> BatchImageJob) \<Rightarrow> batch_db \<Rightarrow> batch_db \<Rightarrow> bool" where
  "row_op b0 g db db' \<longleftrightarrow>
     (\<forall>b'. job_of db' b' = (if b' = b0 then map_option g (job_of db b0) else job_of db b')) \<and>
     claim_of db' = claim_of db \<and> bl_moves db' = bl_moves db \<and> (\<forall>j. terms (g j) = terms j) \<and>
     map bj_BatchID (db_jobs db') = map bj_BatchID (db_jobs db)"

lemma claim_of_cong: "bl_dedup db' = bl_dedup db \<Longrightarrow> bl_archive db' = bl_archive db \<Longrightarrow> claim_of db' = claim_of db"
  by (simp add: claim_of_def fun_eq_iff split: option.split)

lemma row_op_update:
  assumes "\<And>j. terms (f j) = terms j"
  shows "row_op b0 (\<lambda>j. if cond j then f j else j) db (snd (update_jobs b0 cond f db))"
proof -
  have "bj_BatchID (f j) = bj_BatchID j" for j using assms [of j] by (simp add: terms_def)
  then show ?thesis using assms
    by (auto simp: row_op_def job_of_update_jobs update_jobs_ids intro!: claim_of_cong)
qed

lemma row_op_event: "row_op b0 g db db' \<Longrightarrow> row_op b0 g db (append_event b1 e db')"
  using claim_of_cong [of "append_event b1 e db'" db'] by (simp add: row_op_def)

lemma row_op_same: "row_op b0 id db db"
  by (simp add: row_op_def option.map_id)

text \<open>What an update of the row must satisfy, on the job before and after.\<close>

definition row_ok :: "role \<Rightarrow> batch_db \<Rightarrow> BatchImageJob \<Rightarrow> BatchImageJob \<Rightarrow> bool" where
  "row_ok r db j j' \<longleftrightarrow> status_ok db j' \<and>
     (ended j \<longrightarrow> ended j') \<and>
     (IsTerminalBatchImageJobStatus (bj_Status j) \<longrightarrow> IsTerminalBatchImageJobStatus (bj_Status j')) \<and>
     (r \<noteq> Worker \<longrightarrow>
        (bj_Status j = Settling \<longrightarrow> progress j' = progress j) \<and> (\<not> settled_phase j \<longrightarrow> \<not> settled_phase j')) \<and>
     (r \<noteq> Submitter \<longrightarrow> early j \<longrightarrow> early j' \<and> (ended j' \<or> \<not> ended j))"

lemma terms_claims:
  assumes "terms j' = terms j"
  shows "hold_claim db j' = hold_claim db j" and "capture_claim db j' = capture_claim db j"
    and "release_claim db j' = release_claim db j" and "ledger_ok db j' = ledger_ok db j"
  using assms terms_hold [OF assms]
  by (simp_all add: terms_def hold_claim_def capture_claim_def release_claim_def ledger_ok_def)

lemma claims_cong:
  assumes "claim_of db' = claim_of db" and "bl_moves db' = bl_moves db"
  shows "hold_claim db' j = hold_claim db j" and "capture_claim db' j = capture_claim db j"
    and "ledger_ok db' j = ledger_ok db j" and "status_ok db' j = status_ok db j" and "released b db' = released b db"
    and "moves_of b db' = moves_of b db"
  using assms by (simp_all add: hold_claim_def capture_claim_def release_claim_def ledger_ok_def status_ok_def
      released_def moves_of_def)

lemma row_op_ok:
  assumes op: "row_op b0 g db db'" and i: "batch_inv b db"
    and ok: "\<And>j. b0 = b \<Longrightarrow> job_of db b = Some j \<Longrightarrow> row_ok r db j (g j)"
  shows "batch_inv b db' \<and> guar b r db db'"
proof (cases "b0 = b \<and> job_of db b \<noteq> None")
  case False
  have "same_view b db db'"
    using op False by (auto simp: row_op_def same_view_def moves_of_def)
  moreover have "keeps_jobs db db'"
    using op by (auto simp: row_op_def keeps_jobs_def)
  ultimately show ?thesis using same_view_ok i by blast
next
  case True
  then obtain j where b: "b0 = b" and j: "job_of db b = Some j" by auto
  have t: "terms (g j) = terms j" and j': "job_of db' b = Some (g j)"
    and cs: "claim_of db' = claim_of db" "bl_moves db' = bl_moves db"
    using op b j by (auto simp: row_op_def)
  note cong = claims_cong [OF cs] and tc = terms_claims [OF t]
  have r: "row_ok r db j (g j)" using ok b j by blast
  have k: "keeps_jobs db db'" using op by (auto simp: row_op_def keeps_jobs_def)
  have p: "distinct (map bj_BatchID (db_jobs db')) \<and> (\<forall>b' j. job_of db' b' = Some j \<longrightarrow> plain b')"
    using k i by (fastforce simp: keeps_jobs_def batch_inv_def)
  have "bj_PricingSnapshotVersion (g j) = bj_PricingSnapshotVersion j" "bj_APIKeyID (g j) = bj_APIKeyID j"
    using t by (simp_all add: terms_def)
  then have "batch_inv b db'"
    using p j j' i r cong tc by (simp add: batch_inv_def row_ok_def)
  moreover have "guar b r db db'"
    unfolding guar_def using k j j' r cs cong(5) tc(2) cong(2)
    by (auto simp: keeps_jobs_def row_ok_def)
  ultimately show ?thesis ..
qed

lemma row_ok_progress:
  assumes "progress j' = progress j" and "terms j' = terms j" and "status_ok db j"
  shows "row_ok r db j j'"
proof -
  have "status_ok db j'"
    using assms(3) terms_claims [OF assms(2)] terms_progress_cong [OF assms(2,1)] assms(1,2)
    by (simp add: status_ok_def progress_def settled_phase_def early_def terms_def)
  then show ?thesis using assms(1) by (auto simp: row_ok_def progress_def ended_def early_def settled_phase_def)
qed

lemma inv_status: "batch_inv b db \<Longrightarrow> job_of db b = Some j \<Longrightarrow> status_ok db j \<and> ledger_ok db j"
  by (simp add: batch_inv_def)

end
