(* ===== verification/Batch_Money.thy ===== *)
theory Batch_Money
  imports Batch_Rely
begin

text \<open>The three billing transactions keep the invariant of a batch under their conditions.\<close>

section \<open>Frames\<close>

lemma more_jobs: "billing_db.more db' = billing_db.more db \<Longrightarrow> db_jobs db' = db_jobs (db :: batch_db)"
  by (cases db; cases db') simp

definition logs_one :: "(BatchImageBalanceHoldCommand \<Rightarrow> batch_db \<Rightarrow> billing_error + batch_db) \<Rightarrow> bool" where
  "logs_one effect \<longleftrightarrow>
     (\<forall>c db db'. effect c db = Inr db' \<longrightarrow>
        bl_dedup db' = bl_dedup db \<and> bl_archive db' = bl_archive db \<and> db_jobs db' = db_jobs db \<and>
        (\<forall>b. b \<noteq> hc_BatchID c \<longrightarrow> moves_of b db' = moves_of b db))"

lemma logs_oneI:
  assumes "\<And>c db. effect c db = Inr db \<or> isl (effect c db) \<or>
    (\<exists>e m cond f. move_batch m = hc_BatchID c \<and>
       effect c db = updated c e m db (update_user (hc_UserID c) cond f db))"
  shows "logs_one effect"
  unfolding logs_one_def
proof (intro allI impI)
  fix c and db db' :: batch_db
  assume e: "effect c db = Inr db'"
  consider "db' = db" | e' m cond f where "move_batch m = hc_BatchID c"
    "updated c e' m db (update_user (hc_UserID c) cond f db) = Inr db'"
    using assms [of c db] e by (auto simp: isl_def)
  then show "bl_dedup db' = bl_dedup db \<and> bl_archive db' = bl_archive db \<and> db_jobs db' = db_jobs db \<and>
      (\<forall>b. b \<noteq> hc_BatchID c \<longrightarrow> moves_of b db' = moves_of b db)"
  proof cases
    case 1
    then show ?thesis by simp
  next
    case 2
    note fr = effect_frame [OF 2(2)]
    show ?thesis using fr 2(1) more_jobs [OF fr(4)] by (simp add: moves_of_def)
  qed
qed

lemma logs_one_effects:
  "logs_one reserveUsageBillingBatchImageBalance" "logs_one captureUsageBillingBatchImageBalance"
  "logs_one releaseUsageBillingBatchImageBalance"
proof -
  show "logs_one reserveUsageBillingBatchImageBalance"
  proof (rule logs_oneI)
    fix c and db :: batch_db
    show "reserveUsageBillingBatchImageBalance c db = Inr db \<or> isl (reserveUsageBillingBatchImageBalance c db) \<or>
      (\<exists>e m cond f. move_batch m = hc_BatchID c \<and> reserveUsageBillingBatchImageBalance c db =
         updated c e m db (update_user (hc_UserID c) cond f db))"
      unfolding reserveUsageBillingBatchImageBalance_def Let_def using move_batch.simps(1)
      by (cases "hc_HoldAmount c \<le> 0") (simp, metis)
  qed
  show "logs_one captureUsageBillingBatchImageBalance"
  proof (rule logs_oneI)
    fix c and db :: batch_db
    show "captureUsageBillingBatchImageBalance c db = Inr db \<or> isl (captureUsageBillingBatchImageBalance c db) \<or>
      (\<exists>e m cond f. move_batch m = hc_BatchID c \<and> captureUsageBillingBatchImageBalance c db =
         updated c e m db (update_user (hc_UserID c) cond f db))"
      unfolding captureUsageBillingBatchImageBalance_def Let_def using move_batch.simps(2)
      by (cases "hc_HoldAmount c \<le> 0 \<and> hc_ActualAmount c \<le> 0"; cases "1 / 10 ^ 8 < hc_ActualAmount c - hc_HoldAmount c")
         (simp, simp, simp, metis)
  qed
  show "logs_one releaseUsageBillingBatchImageBalance"
  proof (rule logs_oneI)
    fix c and db :: batch_db
    show "releaseUsageBillingBatchImageBalance c db = Inr db \<or> isl (releaseUsageBillingBatchImageBalance c db) \<or>
      (\<exists>e m cond f. move_batch m = hc_BatchID c \<and> releaseUsageBillingBatchImageBalance c db =
         updated c e m db (update_user (hc_UserID c) cond f db))"
      unfolding releaseUsageBillingBatchImageBalance_def Let_def using move_batch.simps(3)
      by (cases "hc_HoldAmount c \<le> 0"; cases "batchImageHoldClaimExists db (BatchImageHoldRequestID (hc_BatchID c)) (hc_APIKeyID c)")
         (simp, simp, metis, simp)
  qed
qed

lemma apply_frame:
  assumes "applyBatchImageBalanceHold effect cmd db = (r, db')" and "logs_one effect"
  shows "job_of db' = job_of db" and "\<And>b. b \<noteq> hc_BatchID (Normalize cmd) \<Longrightarrow> moves_of b db' = moves_of b db"
    and "\<And>key. key \<noteq> (hc_RequestID (Normalize cmd), hc_APIKeyID cmd) \<Longrightarrow> claim_of db' key = claim_of db key"
    and "\<And>key. claim_of db key \<noteq> None \<Longrightarrow> claim_of db' key = claim_of db key"
    and "db_jobs db' = db_jobs db"
proof -
  have "db_jobs db' = db_jobs db \<and> job_of db' = job_of db \<and> (\<forall>b. b \<noteq> hc_BatchID (Normalize cmd) \<longrightarrow> moves_of b db' = moves_of b db) \<and>
    (\<forall>key. key \<noteq> (hc_RequestID (Normalize cmd), hc_APIKeyID cmd) \<longrightarrow> claim_of db' key = claim_of db key) \<and>
    (\<forall>key. claim_of db key \<noteq> None \<longrightarrow> claim_of db' key = claim_of db key)"
    using assms(1)
  proof (cases rule: apply_hold_cases)
    case same
    then show ?thesis by simp
  next
    case (applied db1)
    have "bl_dedup db' = bl_dedup db1" "bl_archive db' = bl_archive db1" "db_jobs db' = db_jobs db1"
      "\<forall>b. b \<noteq> hc_BatchID (Normalize cmd) \<longrightarrow> moves_of b db' = moves_of b db1"
      using assms(2) applied(4) unfolding logs_one_def by blast+
    moreover have "claim_of db' = claim_of db1"
      using calculation(1,2) by (rule claim_of_cong)
    ultimately show ?thesis using applied(2,3) claim_of_claim [of db]
      by (auto simp: job_of_def fun_eq_iff moves_of_def)
  qed
  then show "job_of db' = job_of db" and "\<And>b. b \<noteq> hc_BatchID (Normalize cmd) \<Longrightarrow> moves_of b db' = moves_of b db"
    and "\<And>key. key \<noteq> (hc_RequestID (Normalize cmd), hc_APIKeyID cmd) \<Longrightarrow> claim_of db' key = claim_of db key"
    and "\<And>key. claim_of db key \<noteq> None \<Longrightarrow> claim_of db' key = claim_of db key"
    and "db_jobs db' = db_jobs db" by blast+
qed

section \<open>Commands of a job\<close>

definition job_command :: "BatchImageJob \<Rightarrow> go_string \<Rightarrow> BatchImageBalanceHoldCommand \<Rightarrow> bool" where
  "job_command j rid cmd \<longleftrightarrow>
     hc_RequestID (Normalize cmd) = rid \<and> hc_BatchID (Normalize cmd) = bj_BatchID j \<and>
     bj_APIKeyID j = Some (hc_APIKeyID cmd) \<and> hc_APIKeyID (Normalize cmd) = hc_APIKeyID cmd \<and>
     hc_UserID (Normalize cmd) = bj_UserID j \<and> hc_HoldAmount (Normalize cmd) = clip (hold_of j) \<and>
     hc_HoldAmount cmd = clip (hold_of j)"

lemma build_command:
  assumes "buildBatchImageHoldCommand j rid c h = Inr cmd" and "plain (bj_BatchID j)" and "plain rid"
  shows "job_command j rid cmd"
  using assms by (auto simp: buildBatchImageHoldCommand_def job_command_def Normalize_def Let_def clip_def
      split: option.splits if_splits)

lemma command_actual:
  "buildBatchImageHoldCommand j rid c h = Inr cmd \<Longrightarrow> hc_ActualAmount (Normalize cmd) = clip c \<and> 0 \<le> hc_ActualAmount (Normalize cmd)"
  by (auto simp: buildBatchImageHoldCommand_def Normalize_def Let_def clip_def split: option.splits if_splits)

lemma job_command_cong: "job_command j rid cmd \<Longrightarrow> terms j' = terms j \<Longrightarrow> job_command j' rid cmd"
  using terms_hold [of j' j] by (auto simp: job_command_def terms_def)

lemma other_batch_billing:
  assumes "applyBatchImageBalanceHold effect cmd db = (r, db')" and "logs_one effect"
    and "job_command j rid cmd" and "bj_BatchID j \<noteq> b" and "plain (bj_BatchID j)" and "batch_inv b db"
    and "rid \<in> {BatchImageHoldRequestID (bj_BatchID j), BatchImageCaptureRequestID (bj_BatchID j), BatchImageReleaseRequestID (bj_BatchID j)}"
  shows "batch_inv b db' \<and> guar b ro db db'"
proof -
  note fr = apply_frame [OF assms(1,2)]
  have b: "plain b" using assms(6) by (simp add: batch_inv_def)
  have "claim_of db' (x, a) = claim_of db (x, a)"
    if "x \<in> {BatchImageHoldRequestID b, BatchImageCaptureRequestID b, BatchImageReleaseRequestID b}" for x a
    using that assms(3,4,7) request_id_inj [OF b assms(5)] by (intro fr(3)) (auto simp: job_command_def)
  then have "same_view b db db'"
    using fr(1,2) assms(3,4) by (auto simp: same_view_def job_command_def)
  moreover have "keeps_jobs db db'" using fr(1,5) by (simp add: keeps_jobs_def)
  ultimately show ?thesis using same_view_ok assms(6) by blast
qed

section \<open>Transactions of the batch itself\<close>

text \<open>The job row stays; the rest of the invariant is about claims and moves.\<close>

lemma own_billing:
  assumes "applyBatchImageBalanceHold effect cmd db = (r, db')" and "logs_one effect"
    and "batch_inv b db" and "job_of db b = Some j" and "ledger_ok db' j" and "status_ok db' j"
    and "ro \<noteq> Worker \<Longrightarrow> capture_claim db' j = capture_claim db j"
    and "ro \<noteq> Submitter \<Longrightarrow> early j \<Longrightarrow> ended j \<or> (released b db' \<longrightarrow> released b db)"
  shows "batch_inv b db' \<and> guar b ro db db'"
proof -
  note fr = apply_frame [OF assms(1,2)]
  have "batch_inv b db'" using assms(3-6) fr(1,5) by (simp add: batch_inv_def)
  moreover have "guar b ro db db'"
    unfolding guar_def using fr(1,4) assms(4,7,8) by auto
  ultimately show ?thesis ..
qed

lemma reserve_own:
  assumes "ReserveBatchImageBalance cmd db = (r, db')" and "batch_inv b db" and "job_of db b = Some j"
    and "job_command j (BatchImageHoldRequestID b) cmd" and "0 < clip (hold_of j)"
  shows "batch_inv b db' \<and> guar b ro db db'" and "r = Inr x \<Longrightarrow> hold_claim db' j \<noteq> None"
proof -
  have b: "bj_BatchID j = b" using assms(3) by (rule job_of_id)
  note un = assms(1) [unfolded ReserveBatchImageBalance_def]
  note fr = apply_frame [OF un logs_one_effects(1)]
  have key: "hc_RequestID (Normalize cmd) = BatchImageHoldRequestID b" "hc_APIKeyID cmd = the (bj_APIKeyID j)"
    using assms(4) by (auto simp: job_command_def)
  have cc: "capture_claim db' j = capture_claim db j" and rc: "release_claim db' j = release_claim db j"
    unfolding capture_claim_def release_claim_def by (rule fr(3); simp add: key b)+
  have st: "status_ok db j" "ledger_ok db j" using inv_status assms(2,3) by blast+
  have "(batch_inv b db' \<and> guar b ro db db') \<and> (r = Inr x \<longrightarrow> hold_claim db' j \<noteq> None)"
    using un
  proof (cases rule: apply_hold_cases)
    case same
    have "hold_claim db j \<noteq> None" if "r = Inr x"
      using same(2) that by (auto simp: hold_claim_def key b)
    then show ?thesis using same(1) same_view_ok [of b db db] assms(2) by (auto simp: same_view_def keeps_jobs_def)
  next
    case (applied db1)
    have none: "hold_claim db j = None" using applied(2) by (simp add: hold_claim_def key b)
    have e: "updated (Normalize cmd) ErrInsufficientBalance (Reserved b (bj_UserID j) (clip (hold_of j))) db1
       (update_user (hc_UserID (Normalize cmd)) (\<lambda>u. hc_HoldAmount (Normalize cmd) \<le> us_balance u)
           (\<lambda>u. u\<lparr>us_balance := to_scale 8 (us_balance u - hc_HoldAmount (Normalize cmd)),
                   us_frozen := to_scale 8 (us_frozen u + hc_HoldAmount (Normalize cmd))\<rparr>) db1) = Inr db'"
      using applied(4) assms(4,5) b
      by (simp add: reserveUsageBillingBatchImageBalance_def Let_def job_command_def)
    note ef = effect_frame [OF e]
    have moves: "moves_of b db' = moves_of b db @ [Reserved b (bj_UserID j) (clip (hold_of j))]"
      using ef(1) applied(3) by (simp add: moves_of_def)
    have hc: "hold_claim db' j \<noteq> None"
      using claim_of_cong [OF ef(2,3)] applied(3) claim_of_claim [of db] by (simp add: hold_claim_def key b)
    have "ledger_ok db' j"
      using st(2) assms(5) none hc cc moves b by (auto simp: ledger_ok_def Let_def)
    moreover have rel: "released b db' = released b db" using moves by (simp add: released_moves)
    moreover have "status_ok db' j" using st(1) rel cc hc b by (simp add: status_ok_def)
    ultimately show ?thesis using own_billing [OF un logs_one_effects(1) assms(2,3)] cc hc by blast
  qed
  then show "batch_inv b db' \<and> guar b ro db db'" and "r = Inr x \<Longrightarrow> hold_claim db' j \<noteq> None" by blast+
qed

lemma capture_own:
  assumes "CaptureBatchImageBalance cmd db = (r, db')" and "batch_inv b db" and "job_of db b = Some j"
    and "capture_command j = Inr cmd" and "bj_Status j = Settling" and "settle_ready j"
  shows "batch_inv b db' \<and> guar b Worker db db'" and "isl r \<Longrightarrow> db' = db \<and> capture_claim db j = None"
proof -
  have b: "bj_BatchID j = b" using assms(3) by (rule job_of_id)
  have p: "plain b" using assms(2) by (simp add: batch_inv_def)
  have jc: "job_command j (BatchImageCaptureRequestID b) cmd"
    using build_command [OF assms(4) [unfolded capture_command_def]] b p by simp
  note un = assms(1) [unfolded CaptureBatchImageBalance_def]
  note fr = apply_frame [OF un logs_one_effects(2)]
  have key: "hc_RequestID (Normalize cmd) = BatchImageCaptureRequestID b" "hc_APIKeyID cmd = the (bj_APIKeyID j)"
    using jc by (auto simp: job_command_def)
  have hc: "hold_claim db' j = hold_claim db j" and rc: "release_claim db' j = release_claim db j"
    unfolding hold_claim_def release_claim_def by (rule fr(3); simp add: key b)+
  have st: "status_ok db j" "ledger_ok db j" using inv_status assms(2,3) by blast+
  have "(batch_inv b db' \<and> guar b Worker db db') \<and> (isl r \<longrightarrow> db' = db \<and> capture_claim db j = None)"
    using un
  proof (cases rule: apply_hold_cases)
    case same
    have "capture_claim db j = None" if "isl r"
    proof (rule ccontr)
      assume "capture_claim db j \<noteq> None"
      then have "capture_claim db j = Some (capture_fingerprint j)" using st(1) assms(5) by (simp add: status_ok_def)
      then have "applyBatchImageBalanceHold captureUsageBillingBatchImageBalance cmd db = (Inr False, db)"
        using assms(4) by (intro apply_hold_again)
          (simp_all add: capture_claim_def capture_fingerprint_def key b request_ids batchImageCaptureRequestPrefix_def)
      then show False using un that by simp
    qed
    then show ?thesis using same(1) same_view_ok [of b db db] assms(2) by (auto simp: same_view_def keeps_jobs_def)
  next
    case (applied db1)
    have none: "capture_claim db j = None" using applied(2) by (simp add: capture_claim_def key b)
    have "\<not> released b db"
      using st(1) assms(5,6) b by (auto simp: status_ok_def early_def settle_ready_def)
    have cc: "capture_claim db' j = Some (capture_fingerprint j)"
      using applied(3,4) logs_one_effects(2) claim_of_cong [of db' db1] claim_of_claim [of db] assms(4)
      by (auto simp: logs_one_def capture_claim_def capture_fingerprint_def key b)
    have moves: "moves_of b db' = moves_of b db \<and> \<not> 0 < clip (hold_of j) \<or>
      (\<exists>c. charge_ok (clip (hold_of j)) c \<and> moves_of b db' = moves_of b db @ [Captured b (bj_UserID j) (clip (hold_of j)) c])"
    proof (cases "hc_HoldAmount (Normalize cmd) \<le> 0 \<and> hc_ActualAmount (Normalize cmd) \<le> 0")
      case True
      then have "db' = db1" using applied(4) by (simp add: captureUsageBillingBatchImageBalance_def Let_def)
      then show ?thesis using True jc applied(3) by (simp add: moves_of_def job_command_def)
    next
      case False
      then obtain f e where e: "updated (Normalize cmd) e
          (Captured b (bj_UserID j) (clip (hold_of j)) (hc_ActualAmount (Normalize cmd))) db1
          (update_user (hc_UserID (Normalize cmd)) (\<lambda>u. hc_HoldAmount (Normalize cmd) \<le> us_frozen u) f db1) = Inr db'"
        using applied(4) jc b
        by (auto simp: captureUsageBillingBatchImageBalance_def Let_def job_command_def split: if_splits)
      have "charge_ok (clip (hold_of j)) (hc_ActualAmount (Normalize cmd))"
        using applied(4) False jc command_actual [OF assms(4) [unfolded capture_command_def]]
        by (auto simp: captureUsageBillingBatchImageBalance_def Let_def job_command_def charge_ok_def batchImageCostEpsilon_def
            split: if_splits)
      then show ?thesis using effect_frame(1) [OF e] applied(3) by (auto simp: moves_of_def)
    qed
    have held: "hold_claim db j \<noteq> None" if "0 < clip (hold_of j)"
      using st(1) that assms(5) by (simp add: status_ok_def)
    have unreleased: "moves_of b db \<noteq> [Reserved b (bj_UserID j) (clip (hold_of j)), Released b (bj_UserID j) (clip (hold_of j))]"
      using \<open>\<not> released b db\<close> by (auto simp: released_moves)
    have "ledger_ok db' j"
      using st(2) none hc cc moves held unreleased b by (auto simp: ledger_ok_def Let_def)
    moreover have rel: "\<not> released b db'" using moves \<open>\<not> released b db\<close> by (auto simp: released_moves)
    moreover have "status_ok db' j"
      using st(1) rel cc hc b assms(5,6) by (simp add: status_ok_def settled_phase_def)
    ultimately have "batch_inv b db' \<and> guar b Worker db db'"
      using own_billing [OF un logs_one_effects(2) assms(2,3)] by blast
    then show ?thesis using applied(1) by simp
  qed
  then show "batch_inv b db' \<and> guar b Worker db db'" and "isl r \<Longrightarrow> db' = db \<and> capture_claim db j = None" by blast+
qed

lemma release_own:
  assumes "ReleaseBatchImageBalance cmd db = (r, db')" and "batch_inv b db" and "job_of db b = Some j"
    and "job_command j (BatchImageReleaseRequestID b) cmd" and "0 < clip (hold_of j)"
    and "capture_claim db j = None" and "early j \<or> isBatchImageSettlementRetryExhausted j"
    and "ro \<noteq> Submitter \<Longrightarrow> early j \<Longrightarrow> ended j"
  shows "batch_inv b db' \<and> guar b ro db db'"
proof -
  have b: "bj_BatchID j = b" using assms(3) by (rule job_of_id)
  note un = assms(1) [unfolded ReleaseBatchImageBalance_def]
  note fr = apply_frame [OF un logs_one_effects(3)]
  have key: "hc_RequestID (Normalize cmd) = BatchImageReleaseRequestID b" "hc_APIKeyID cmd = the (bj_APIKeyID j)"
    using assms(4) by (auto simp: job_command_def)
  have cc: "capture_claim db' j = capture_claim db j" and hc: "hold_claim db' j = hold_claim db j"
    unfolding capture_claim_def hold_claim_def by (rule fr(3); simp add: key b)+
  have st: "status_ok db j" "ledger_ok db j" using inv_status assms(2,3) by blast+
  show ?thesis
    using un
  proof (cases rule: apply_hold_cases)
    case same
    then show ?thesis using same_view_ok [of b db db] assms(2) by (auto simp: same_view_def keeps_jobs_def)
  next
    case (applied db1)
    have none: "release_claim db j = None" using applied(2) by (simp add: release_claim_def key b)
    have rc: "release_claim db' j \<noteq> None"
      using applied(3,4) logs_one_effects(3) claim_of_cong [of db' db1] claim_of_claim [of db]
      by (auto simp: logs_one_def release_claim_def key b)
    have exists: "batchImageHoldClaimExists db1 (BatchImageHoldRequestID b) (hc_APIKeyID cmd) \<longleftrightarrow> hold_claim db j \<noteq> None"
      using applied(3) by (auto simp: batchImageHoldClaimExists_def hold_claim_def claim_of_def key b split: option.split)
    have moves: "moves_of b db' = (if hold_claim db j = None then moves_of b db
      else moves_of b db @ [Released b (bj_UserID j) (clip (hold_of j))])"
    proof (cases "hold_claim db j = None")
      case True
      then have "db' = db1" using applied(4) assms(4,5) exists b
        by (auto simp: releaseUsageBillingBatchImageBalance_def Let_def job_command_def)
      then show ?thesis using True applied(3) by (simp add: moves_of_def)
    next
      case False
      then obtain f e where e: "updated (Normalize cmd) e (Released b (bj_UserID j) (clip (hold_of j))) db1
          (update_user (hc_UserID (Normalize cmd)) (\<lambda>u. hc_HoldAmount (Normalize cmd) \<le> us_frozen u) f db1) = Inr db'"
        using applied(4) assms(4,5) exists b
        by (auto simp: releaseUsageBillingBatchImageBalance_def Let_def job_command_def split: if_splits)
      show ?thesis using effect_frame(1) [OF e] applied(3) False by (auto simp: moves_of_def)
    qed
    have "ledger_ok db' j"
      using st(2) none hc cc rc moves assms(5,6) b by (auto simp: ledger_ok_def Let_def)
    moreover have "status_ok db' j"
      using st(1) cc hc b assms(6,7) by (simp add: status_ok_def)
    ultimately show ?thesis using own_billing [OF un logs_one_effects(3) assms(2,3)] cc assms(8) by blast
  qed
qed

end
