(* ===== verification/Batch_Rules.thy ===== *)
theory Batch_Rules
  imports Batch_Money
begin

text \<open>Rules for the calls of a program, and what a program may remember of a job it has read.\<close>

section \<open>Calls\<close>

lemma guar_refl: "batch_inv b db \<Longrightarrow> guar b r db db"
  using same_view_ok [of b db db] by (simp add: same_view_def keeps_jobs_def)

lemma guar_job:
  assumes "guar b r db db'" and "job_of db b' = Some j"
  obtains j' where "job_of db' b' = Some j'" "terms j' = terms j"
  using assms unfolding guar_def by blast

lemma guar_hold:
  "guar b r db db' \<Longrightarrow> claim_of db (BatchImageHoldRequestID b, a) \<noteq> None \<Longrightarrow> claim_of db' (BatchImageHoldRequestID b, a) \<noteq> None"
  unfolding guar_def by blast

lemma guar_both:
  assumes "guar b r db db'" and "job_of db b = Some j" and "job_of db' b = Some j'"
  shows "ended j \<Longrightarrow> ended j'"
    and "IsTerminalBatchImageJobStatus (bj_Status j) \<Longrightarrow> IsTerminalBatchImageJobStatus (bj_Status j')"
    and "r \<noteq> Worker \<Longrightarrow> bj_Status j = Settling \<Longrightarrow> progress j' = progress j"
    and "r \<noteq> Worker \<Longrightarrow> \<not> settled_phase j \<Longrightarrow> \<not> settled_phase j'"
    and "r \<noteq> Worker \<Longrightarrow> capture_claim db' j' = capture_claim db j"
    and "r \<noteq> Submitter \<Longrightarrow> early j \<Longrightarrow> early j' \<and> (ended j' \<or> \<not> ended j \<and> (released b db' \<longrightarrow> released b db))"
  using assms unfolding guar_def by blast+

lemma safe_repo:
  assumes "stable b r P"
    and "\<And>i db. permitted c i db \<Longrightarrow> batch_inv b db \<Longrightarrow> P db \<Longrightarrow>
      batch_inv b (snd (f i db)) \<and> guar b r db (snd (f i db))"
    and "\<And>i db. permitted c i db \<Longrightarrow> batch_inv b db \<Longrightarrow> P db \<Longrightarrow>
      \<exists>Q. stable b r Q \<and> Q (snd (f i db)) \<and> safe b r Q (k (fst (f i db)))"
    and "c \<noteq> CaptureCall \<Longrightarrow> safe b r P (k lost)"
    and "\<And>i db. c \<noteq> CaptureCall \<Longrightarrow> permitted c i db \<Longrightarrow> batch_inv b db \<Longrightarrow> P db \<Longrightarrow>
      \<exists>Q. stable b r Q \<and> Q (snd (f i db)) \<and> safe b r Q (k lost)"
  shows "safe b r P (repo c lost f k)"
  unfolding repo_def
proof (rule safe_Act)
  fix i db
  assume h: "permitted c i db" "batch_inv b db" "P db"
  have np: "c \<noteq> CaptureCall" if "in_fault i = FailBefore \<or> in_fault i = FailAfter"
    using h(1) that by (auto simp: permitted_def)
  show "batch_inv b (snd (case in_fault i of FailBefore \<Rightarrow> (k lost, db) | FailAfter \<Rightarrow> (k lost, snd (f i db))
        | _ \<Rightarrow> (k (fst (f i db)), snd (f i db)))) \<and>
      guar b r db (snd (case in_fault i of FailBefore \<Rightarrow> (k lost, db) | FailAfter \<Rightarrow> (k lost, snd (f i db))
        | _ \<Rightarrow> (k (fst (f i db)), snd (f i db)))) \<and>
      (\<exists>Q. stable b r Q \<and> Q (snd (case in_fault i of FailBefore \<Rightarrow> (k lost, db) | FailAfter \<Rightarrow> (k lost, snd (f i db))
        | _ \<Rightarrow> (k (fst (f i db)), snd (f i db)))) \<and>
        safe b r Q (fst (case in_fault i of FailBefore \<Rightarrow> (k lost, db) | FailAfter \<Rightarrow> (k lost, snd (f i db))
        | _ \<Rightarrow> (k (fst (f i db)), snd (f i db)))))"
  proof (cases "in_fault i")
    case Fine
    then show ?thesis using assms(2,3) h by simp
  next
    case FailBefore
    then show ?thesis using assms(1,4) h guar_refl np by auto
  next
    case FailAfter
    then show ?thesis using assms(2,5) h np by simp
  next
    case EventLost
    then show ?thesis using assms(2,3) h by simp
  qed
qed

text \<open>A call whatever it answers leaves what is known.\<close>

lemma safe_step:
  assumes "stable b r P"
    and "\<And>i db. permitted c i db \<Longrightarrow> batch_inv b db \<Longrightarrow> P db \<Longrightarrow>
      (batch_inv b (snd (f i db)) \<and> guar b r db (snd (f i db))) \<and> P (snd (f i db))"
    and "\<And>x. safe b r P (k x)"
  shows "safe b r P (repo c lost f k)"
proof (rule safe_repo)
  show "stable b r P" by (rule assms(1))
  show "safe b r P (k lost)" by (rule assms(3))
qed (use assms in blast)+

lemma safe_read:
  assumes "stable b r P" and "safe b r P (k lost)"
    and "\<And>i db. batch_inv b db \<Longrightarrow> P db \<Longrightarrow> \<exists>Q. stable b r Q \<and> Q db \<and> safe b r Q (k (g i db))"
  shows "safe b r P (repo c lost (\<lambda>i db. (g i db, db)) k)"
proof (rule safe_repo)
  show "stable b r P" and "safe b r P (k lost)" by (rule assms)+
qed (use assms guar_refl in \<open>auto\<close>)

lemma safe_ask:
  assumes "stable b r P" and "\<And>x. safe b r P (k x)"
  shows "safe b r P (ask g k)"
  unfolding ask_def
proof (rule safe_Act)
  fix i db
  assume "batch_inv b db" and "P db"
  then show "batch_inv b (snd (k (g i), db)) \<and> guar b r db (snd (k (g i), db)) \<and>
      (\<exists>Q. stable b r Q \<and> Q (snd (k (g i), db)) \<and> safe b r Q (fst (k (g i), db)))"
    using assms guar_refl by auto
qed

lemma stable_True [simp]: "stable b r (\<lambda>db. True)"
  by (simp add: stable_def)

lemma safe_True: "safe b r (\<lambda>db. True) p \<Longrightarrow> safe b r P p"
  by (rule safe_weaken) simp_all

lemma goes_on: "stable b r Q \<Longrightarrow> Q db \<Longrightarrow> safe b r Q p \<Longrightarrow> \<exists>Q. stable b r Q \<and> Q db \<and> safe b r Q p"
  by blast

lemma goes_on_True: "safe b r (\<lambda>db. True) p \<Longrightarrow> \<exists>Q. stable b r Q \<and> Q db \<and> safe b r Q p"
  by (rule goes_on [of _ _ "\<lambda>db. True"]) simp_all

section \<open>What is known of a job that was read\<close>

definition has_copy :: "BatchImageJob \<Rightarrow> batch_db \<Rightarrow> bool" where
  "has_copy j db \<longleftrightarrow> (\<exists>j'. job_of db (bj_BatchID j) = Some j' \<and> terms j' = terms j)"

definition knows :: "go_string \<Rightarrow> BatchImageJob \<Rightarrow> (batch_db \<Rightarrow> BatchImageJob \<Rightarrow> bool) \<Rightarrow> batch_db \<Rightarrow> bool" where
  "knows b j X db \<longleftrightarrow> has_copy j db \<and> (bj_BatchID j = b \<longrightarrow> (\<forall>j'. job_of db b = Some j' \<longrightarrow> X db j'))"

lemma stable_knows:
  assumes "\<And>db db' r' j1 j2. bj_BatchID j = b \<Longrightarrow> r' = r \<longrightarrow> r = Bystander \<Longrightarrow> batch_inv b db \<Longrightarrow> batch_inv b db' \<Longrightarrow>
      guar b r' db db' \<Longrightarrow> job_of db b = Some j1 \<Longrightarrow> job_of db' b = Some j2 \<Longrightarrow> terms j2 = terms j1 \<Longrightarrow> X db j1 \<Longrightarrow> X db' j2"
  shows "stable b r (knows b j X)"
  unfolding stable_def
proof (intro allI impI, elim conjE)
  fix db db' r'
  assume r: "r' = r \<longrightarrow> r = Bystander" and i: "batch_inv b db" "batch_inv b db'" and g: "guar b r' db db'" and k: "knows b j X db"
  then obtain j1 where j1: "job_of db (bj_BatchID j) = Some j1" "terms j1 = terms j" by (auto simp: knows_def has_copy_def)
  then obtain j2 where j2: "job_of db' (bj_BatchID j) = Some j2" "terms j2 = terms j1"
    using guar_job [OF g] by blast
  have "X db' j2" if "bj_BatchID j = b"
    using assms [OF that r i g, of j1 j2] j1 j2 k that by (simp add: knows_def)
  then show "knows b j X db'" using j1 j2 by (auto simp: knows_def has_copy_def)
qed

lemma knows_read:
  "job_of db b0 = Some j \<Longrightarrow> (b0 = b \<Longrightarrow> X db j) \<Longrightarrow> knows b j X db"
  using job_of_id [of db b0 j] by (auto simp: knows_def has_copy_def)

lemma knows_copy: "knows b j X db \<Longrightarrow> has_copy j db"
  by (simp add: knows_def)

lemma knows_mono: "knows b j X db \<Longrightarrow> (\<And>j'. X db j' \<Longrightarrow> Y db j') \<Longrightarrow> knows b j Y db"
  by (auto simp: knows_def)

lemma knows_cong: "terms j' = terms j \<Longrightarrow> knows b j' X db = knows b j X db"
  by (simp add: knows_def has_copy_def terms_def)

definition anything :: "batch_db \<Rightarrow> BatchImageJob \<Rightarrow> bool" where "anything db j \<longleftrightarrow> True"
definition is_ended :: "batch_db \<Rightarrow> BatchImageJob \<Rightarrow> bool" where "is_ended db j \<longleftrightarrow> ended j"
definition is_terminal :: "batch_db \<Rightarrow> BatchImageJob \<Rightarrow> bool" where
  "is_terminal db j \<longleftrightarrow> IsTerminalBatchImageJobStatus (bj_Status j)"
definition is_open :: "batch_db \<Rightarrow> BatchImageJob \<Rightarrow> bool" where "is_open db j \<longleftrightarrow> \<not> settled_phase j"
definition unchanged :: "BatchImageJob \<Rightarrow> batch_db \<Rightarrow> BatchImageJob \<Rightarrow> bool" where
  "unchanged j0 db j \<longleftrightarrow> progress j = progress j0 \<and> bj_Status j = Settling"
definition uncaptured :: "BatchImageJob \<Rightarrow> batch_db \<Rightarrow> BatchImageJob \<Rightarrow> bool" where
  "uncaptured j0 db j \<longleftrightarrow> progress j = progress j0 \<and> bj_Status j = Settling \<and> capture_claim db j = None"
definition given_up :: "batch_db \<Rightarrow> BatchImageJob \<Rightarrow> bool" where
  "given_up db j \<longleftrightarrow> isBatchImageSettlementRetryExhausted j \<and> capture_claim db j = None"
definition is_early :: "batch_db \<Rightarrow> BatchImageJob \<Rightarrow> bool" where "is_early db j \<longleftrightarrow> early j"
definition is_fresh :: "batch_db \<Rightarrow> BatchImageJob \<Rightarrow> bool" where
  "is_fresh db j \<longleftrightarrow> early j \<and> (ended j \<or> \<not> released (bj_BatchID j) db)"
definition is_held :: "batch_db \<Rightarrow> BatchImageJob \<Rightarrow> bool" where
  "is_held db j \<longleftrightarrow> is_fresh db j \<and> (0 < clip (hold_of j) \<longrightarrow> hold_claim db j \<noteq> None)"

lemmas knowledge = anything_def is_ended_def is_terminal_def is_open_def unchanged_def uncaptured_def given_up_def
  is_early_def is_fresh_def is_held_def

lemma stable_anyone [simp]:
  "stable b r (knows b j anything)" "stable b r (knows b j is_ended)" "stable b r (knows b j is_terminal)"
proof -
  show "stable b r (knows b j anything)" by (rule stable_knows) (simp add: anything_def)
  show "stable b r (knows b j is_ended)" by (rule stable_knows) (use guar_both(1) in \<open>auto simp: is_ended_def\<close>)
  show "stable b r (knows b j is_terminal)" by (rule stable_knows) (use guar_both(2) in \<open>auto simp: is_terminal_def\<close>)
qed

lemma stable_worker:
  assumes "bj_BatchID j = b \<Longrightarrow> r = Worker"
  shows "stable b r (knows b j is_open)" and "stable b r (knows b j (unchanged j0))"
    and "stable b r (knows b j (uncaptured j0))" and "stable b r (knows b j given_up)"
proof -
  have w: "r' \<noteq> Worker" if "bj_BatchID j = b" "r' = r \<longrightarrow> r = Bystander" for r'
    using assms that by auto
  show "stable b r (knows b j is_open)"
    by (rule stable_knows) (use w guar_both(4) in \<open>auto simp: is_open_def\<close>)
  have u: "unchanged j0 db' j2 \<and> capture_claim db' j2 = capture_claim db j1"
    if "bj_BatchID j = b" "r' = r \<longrightarrow> r = Bystander" "guar b r' db db'" "job_of db b = Some j1"
      "job_of db' b = Some j2" "unchanged j0 db j1" for db db' r' j1 j2
    using guar_both(3,5) [OF that(3,4,5) w [OF that(1,2)]] that(6) by (auto simp: unchanged_def progress_def)
  show "stable b r (knows b j (unchanged j0))" by (rule stable_knows) (use u in blast)
  show "stable b r (knows b j (uncaptured j0))"
  proof (rule stable_knows)
    fix db db' r' j1 j2
    assume a: "bj_BatchID j = b" "r' = r \<longrightarrow> r = Bystander" "guar b r' db db'" "job_of db b = Some j1" "job_of db' b = Some j2"
      "uncaptured j0 db j1"
    then show "uncaptured j0 db' j2"
      using u [OF a(1-5)] by (simp add: uncaptured_def unchanged_def)
  qed
  show "stable b r (knows b j given_up)"
  proof (rule stable_knows)
    fix db db' r' j1 j2
    assume a: "bj_BatchID j = b" "r' = r \<longrightarrow> r = Bystander" "guar b r' db db'" "job_of db b = Some j1" "job_of db' b = Some j2"
      "terms j2 = terms j1" "given_up db j1"
    then have "bj_Status j1 = Settling" by (simp add: given_up_def isBatchImageSettlementRetryExhausted_def)
    then have "progress j2 = progress j1" "capture_claim db' j2 = capture_claim db j1"
      using guar_both(3,5) [OF a(3-5) w [OF a(1,2)]] by simp_all
    then show "given_up db' j2" using a(7) terms_progress_cong(3) [OF a(6)] by (simp add: given_up_def)
  qed
qed

lemma stable_submitter:
  assumes "bj_BatchID j = b \<Longrightarrow> r = Submitter"
  shows "stable b r (knows b j is_early)" and "stable b r (knows b j is_fresh)" and "stable b r (knows b j is_held)"
proof -
  have w: "r' \<noteq> Submitter" if "bj_BatchID j = b" "r' = r \<longrightarrow> r = Bystander" for r'
    using assms that by auto
  show "stable b r (knows b j is_early)"
    by (rule stable_knows) (use w guar_both(6) in \<open>auto simp: is_early_def\<close>)
  have f: "is_fresh db' j2" if "bj_BatchID j = b" "r' = r \<longrightarrow> r = Bystander" "guar b r' db db'" "job_of db b = Some j1"
    "job_of db' b = Some j2" "is_fresh db j1" for db db' r' j1 j2
  proof -
    have "early j2 \<and> (ended j2 \<or> \<not> ended j1 \<and> (released b db' \<longrightarrow> released b db))"
      using guar_both(6) [OF that(3-5) w [OF that(1,2)]] that(6) by (simp add: is_fresh_def)
    then show ?thesis using that job_of_id [of db b j1] job_of_id [of db' b j2] by (auto simp: is_fresh_def)
  qed
  show "stable b r (knows b j is_fresh)" by (rule stable_knows) (use f in blast)
  show "stable b r (knows b j is_held)"
  proof (rule stable_knows)
    fix db db' r' j1 j2
    assume a: "bj_BatchID j = b" "r' = r \<longrightarrow> r = Bystander" "guar b r' db db'" "job_of db b = Some j1" "job_of db' b = Some j2"
      "terms j2 = terms j1" "is_held db j1"
    have t: "bj_BatchID j1 = b" using a(4) job_of_id by blast
    have "hold_claim db' j2 = hold_claim db' j1" by (rule terms_claims(1) [OF a(6)])
    moreover have "hold_claim db j1 \<noteq> None \<longrightarrow> hold_claim db' j1 \<noteq> None"
      using guar_hold [OF a(3)] t by (simp add: hold_claim_def)
    ultimately show "is_held db' j2"
      using a(7) f [OF a(1,2,3,4,5)] terms_hold [OF a(6)] by (auto simp: is_held_def)
  qed
qed

section \<open>Updates of the job\<close>

lemma row_ok_quiet:
  assumes "batch_inv b db" and "job_of db b = Some j" and "terms j' = terms j" and "progress j' = progress j"
  shows "row_ok r db j j'"
  using row_ok_progress assms inv_status by blast

lemma knows_row_op:
  assumes op: "row_op b0 g db db'" and k: "knows b j X db"
    and x: "\<And>j1. bj_BatchID j = b \<Longrightarrow> job_of db b = Some j1 \<Longrightarrow> X db j1 \<Longrightarrow> X db' (if b0 = b then g j1 else j1)"
  shows "knows b j X db'"
proof -
  obtain j1 where j1: "job_of db (bj_BatchID j) = Some j1" "terms j1 = terms j" using k by (auto simp: knows_def has_copy_def)
  have "job_of db' (bj_BatchID j) = Some (if bj_BatchID j = b0 then g j1 else j1)"
    "terms (if bj_BatchID j = b0 then g j1 else j1) = terms j"
    using op j1 by (auto simp: row_op_def)
  then show ?thesis using j1 k x [of j1] unfolding knows_def has_copy_def by auto
qed

text \<open>An update of columns that neither the invariant nor settlement looks at.\<close>

lemma safe_quiet:
  assumes "stable b r (knows b j X)" and "\<And>x. safe b r (knows b j X) (k x)"
    and "\<And>i db. \<exists>b0 g. row_op b0 g db (snd (f i db)) \<and> (\<forall>j. progress (g j) = progress j)"
    and "\<And>db db' j1 j2. claim_of db' = claim_of db \<Longrightarrow> bl_moves db' = bl_moves db \<Longrightarrow> progress j2 = progress j1 \<Longrightarrow>
      terms j2 = terms j1 \<Longrightarrow> X db j1 \<Longrightarrow> X db' j2"
  shows "safe b r (knows b j X) (repo c lost f k)"
proof (rule safe_step [OF assms(1) _ assms(2)])
  fix i db
  assume h: "batch_inv b db" "knows b j X db"
  obtain b0 g where op: "row_op b0 g db (snd (f i db))" and g: "\<And>j. progress (g j) = progress j"
    using assms(3) by blast
  have t: "terms (g j) = terms j" for j using op by (simp add: row_op_def)
  have "batch_inv b (snd (f i db)) \<and> guar b r db (snd (f i db))"
    using row_op_ok [OF op h(1)] row_ok_quiet [OF h(1)] t g by blast
  moreover have "knows b j X (snd (f i db))"
    using op t g assms(4) by (intro knows_row_op [OF op h(2)]) (auto simp: row_op_def)
  ultimately show "(batch_inv b (snd (f i db)) \<and> guar b r db (snd (f i db))) \<and> knows b j X (snd (f i db))" by blast
qed

lemma knowledge_quiet:
  assumes "claim_of db' = claim_of db" and "bl_moves db' = bl_moves db" and "progress j2 = progress j1" and "terms j2 = terms j1"
  shows "anything db j1 \<Longrightarrow> anything db' j2" and "is_ended db j1 \<Longrightarrow> is_ended db' j2" and "is_terminal db j1 \<Longrightarrow> is_terminal db' j2"
    and "is_open db j1 \<Longrightarrow> is_open db' j2" and "is_early db j1 \<Longrightarrow> is_early db' j2" and "is_fresh db j1 \<Longrightarrow> is_fresh db' j2"
    and "is_held db j1 \<Longrightarrow> is_held db' j2"
proof -
  note c = claims_cong [OF assms(1,2)] and t = terms_claims [OF assms(4)] and h = terms_hold [OF assms(4)]
  have p: "bj_Status j2 = bj_Status j1" "bj_BatchID j2 = bj_BatchID j1" using assms(3,4) by (simp_all add: progress_def terms_def)
  show "anything db j1 \<Longrightarrow> anything db' j2" and "is_ended db j1 \<Longrightarrow> is_ended db' j2" and "is_terminal db j1 \<Longrightarrow> is_terminal db' j2"
    and "is_open db j1 \<Longrightarrow> is_open db' j2" and "is_early db j1 \<Longrightarrow> is_early db' j2" and "is_fresh db j1 \<Longrightarrow> is_fresh db' j2"
    and "is_held db j1 \<Longrightarrow> is_held db' j2"
    using p c t h by (simp_all add: knowledge ended_def early_def settled_phase_def)
qed

end
