(* ===== verification/Batch_Workers.thy ===== *)
theory Batch_Workers
  imports Batch_Rules
begin

text \<open>The worker, the recovery and the settlement keep the invariant of every batch.\<close>

section \<open>Reading a job\<close>

lemma safe_get_job:
  assumes "stable b r P" and "\<And>e. safe b r P (k (Inl e))"
    and "\<And>db j. batch_inv b db \<Longrightarrow> job_of db b0 = Some j \<Longrightarrow> P db \<Longrightarrow> \<exists>Q. stable b r Q \<and> Q db \<and> safe b r Q (k (Inr j))"
  shows "safe b r P (get_job b0 k)"
  unfolding get_job_def
proof (rule safe_read)
  show "stable b r P" and "safe b r P (k (Inl ErrOther))" by (rule assms)+
  fix i db
  assume "batch_inv b db" "P db"
  then show "\<exists>Q. stable b r Q \<and> Q db \<and> safe b r Q (k (GetBatchImageJobByBatchID b0 db))"
    using assms by (cases "job_of db b0") (auto simp: GetBatchImageJobByBatchID_def found_def)
qed

lemma safe_get_job_True:
  assumes "\<And>x. safe b r (\<lambda>db. True) (k x)"
  shows "safe b r P (get_job b0 k)"
proof (rule safe_True, rule safe_get_job)
  fix db j
  show "\<exists>Q. stable b r Q \<and> Q db \<and> safe b r Q (k (Inr j))"
    using assms by (intro exI [of _ "\<lambda>db. True"]) simp
qed (simp_all add: assms)

section \<open>Transitions\<close>

lemma transition_cases:
  assumes "TransitionBatchImageJobStatus b0 to ev code msg now db = (x, db')"
  obtains (refused) e where "x = Some e" "db' = db"
  | (moved) g j where "x = None" "row_op b0 g db db'" "job_of db b0 = Some j" "CanTransitionBatchImageJob (bj_Status j) to"
      "\<And>j. bj_Status (g j) = to"
proof (cases "job_of db b0")
  case None
  then show ?thesis using assms refused by (auto simp: TransitionBatchImageJobStatus_def)
next
  case (Some j)
  show ?thesis
  proof (cases "CanTransitionBatchImageJob (bj_Status j) to")
    case False
    then show ?thesis using assms refused Some by (auto simp: TransitionBatchImageJobStatus_def)
  next
    case True
    let ?f = "\<lambda>j. j\<lparr>bj_Status := to, bj_Version := bj_Version j + 1, bj_UpdatedAt := now,
                   bj_LastErrorCode := (if to = Failed then code else bj_LastErrorCode j),
                   bj_LastErrorMessage := (if to = Failed then msg else bj_LastErrorMessage j),
                   bj_SubmittedAt := first_time (to = Submitted) now (bj_SubmittedAt j),
                   bj_StartedAt := first_time (to = Running) now (bj_StartedAt j),
                   bj_FinishedAt := first_time (to \<in> {Completed, Failed, Cancelled}) now (bj_FinishedAt j),
                   bj_SettledAt := first_time (to = Completed) now (bj_SettledAt j),
                   bj_OutputDeletedAt := first_time (to = OutputDeleted) now (bj_OutputDeletedAt j)\<rparr>"
    have "row_op b0 (\<lambda>j. if True then ?f j else j) db (append_event b0 ev (snd (update_jobs b0 (\<lambda>_. True) ?f db)))"
      by (rule row_op_event, rule row_op_update) (simp add: terms_def)
    moreover have "x = None" "db' = append_event b0 ev (snd (update_jobs b0 (\<lambda>_. True) ?f db))"
      using assms Some True by (simp_all add: TransitionBatchImageJobStatus_def)
    ultimately show ?thesis using moved [of ?f j] Some True by simp
  qed
qed

text \<open>The transitions the programs ask for, and when they are in order.\<close>

definition may_transition :: "role \<Rightarrow> BatchImageJobStatus \<Rightarrow> batch_db \<Rightarrow> BatchImageJob \<Rightarrow> bool" where
  "may_transition r to db j \<longleftrightarrow>
     (to = Running \<or> to = Indexing \<or> to = Cancelled)
     \<or> to = Settling \<and> r = Worker
     \<or> to = Uploading \<and> r = Submitter \<and> (0 < clip (hold_of j) \<longrightarrow> hold_claim db j \<noteq> None)
     \<or> to = Failed \<and> (bj_Status j = Settling \<longrightarrow> r = Worker \<and> capture_claim db j = None)"

lemma transition_row_ok:
  assumes "batch_inv b db" and "job_of db b = Some j" and "CanTransitionBatchImageJob (bj_Status j) to"
    and "may_transition r to db j" and "terms j' = terms j" and "bj_Status j' = to"
  shows "row_ok r db j j'"
proof -
  have st: "status_ok db j" using inv_status assms(1,2) by blast
  note t = terms_claims [OF assms(5)] and h = terms_hold [OF assms(5)]
  have b: "bj_BatchID j' = bj_BatchID j" using assms(5) by (simp add: terms_def)
  show ?thesis
    using st assms(3,4,6) t h b
    by (cases "bj_Status j"; cases to)
       (simp_all add: row_ok_def status_ok_def CanTransitionBatchImageJob_def IsTerminalBatchImageJobStatus_def
          may_transition_def settled_phase_def early_def ended_def isBatchImageSettlementRetryExhausted_def)
qed

lemma safe_transition:
  assumes "stable b r P" and "stable b r Q" and "\<And>e. safe b r P (k (Some e))" and "safe b r Q (k None)"
    and "safe b r Q (k (Some ErrOther))"
    and "\<And>db j. batch_inv b db \<Longrightarrow> P db \<Longrightarrow> b0 = b \<Longrightarrow> job_of db b = Some j \<Longrightarrow> may_transition r to db j"
    and "\<And>db db' g. batch_inv b db \<Longrightarrow> P db \<Longrightarrow> row_op b0 g db db' \<Longrightarrow> (\<And>j. bj_Status (g j) = to) \<Longrightarrow>
      (\<And>j. job_of db b0 = Some j \<Longrightarrow> CanTransitionBatchImageJob (bj_Status j) to) \<Longrightarrow> Q db'"
  shows "safe b r P (transition b0 to ev code msg k)"
  unfolding transition_def
proof (rule safe_repo)
  show "stable b r P" and "safe b r P (k (Some ErrOther))" by (rule assms)+
next
  fix i db
  assume h: "batch_inv b db" "P db"
  obtain x db' where t: "TransitionBatchImageJobStatus b0 to ev code msg (in_now i) db = (x, db')" by fastforce
  show "batch_inv b (snd (TransitionBatchImageJobStatus b0 to ev code msg (in_now i) db)) \<and>
      guar b r db (snd (TransitionBatchImageJobStatus b0 to ev code msg (in_now i) db))"
    using t
  proof (cases rule: transition_cases)
    case refused
    then show ?thesis using t h guar_refl by simp
  next
    case (moved g j)
    have tm: "terms (g j) = terms j" for j using moved(2) by (simp add: row_op_def)
    have "batch_inv b db' \<and> guar b r db db'"
    proof (rule row_op_ok [OF moved(2) h(1)])
      fix j1 assume "b0 = b" "job_of db b = Some j1"
      then show "row_ok r db j1 (g j1)" using transition_row_ok [OF h(1)] moved tm assms(6) h by auto
    qed
    then show ?thesis using t by simp
  qed
  show "\<exists>Q. stable b r Q \<and> Q (snd (TransitionBatchImageJobStatus b0 to ev code msg (in_now i) db)) \<and>
      safe b r Q (k (fst (TransitionBatchImageJobStatus b0 to ev code msg (in_now i) db)))"
    using t
  proof (cases rule: transition_cases)
    case refused
    then show ?thesis using t h assms(1,3) by auto
  next
    case (moved g j)
    then have "Q db'" using assms(7) [OF h] by simp
    then show ?thesis using t moved(1) assms(2,4) by auto
  qed
  show "\<exists>Q. stable b r Q \<and> Q (snd (TransitionBatchImageJobStatus b0 to ev code msg (in_now i) db)) \<and>
      safe b r Q (k (Some ErrOther))"
    using t
  proof (cases rule: transition_cases)
    case refused
    then show ?thesis using t h assms(1,3) by auto
  next
    case (moved g j)
    then have "Q db'" using assms(7) [OF h] by simp
    then show ?thesis using t assms(2,5) by auto
  qed
qed

text \<open>When nothing is remembered afterwards.\<close>

lemma safe_transition_True:
  assumes "stable b r P" and "\<And>x. safe b r (\<lambda>db. True) (k x)"
    and "\<And>db j. batch_inv b db \<Longrightarrow> P db \<Longrightarrow> b0 = b \<Longrightarrow> job_of db b = Some j \<Longrightarrow> may_transition r to db j"
  shows "safe b r P (transition b0 to ev code msg k)"
proof (rule safe_transition [where Q = "\<lambda>db. True"])
  show "safe b r P (k (Some e))" for e by (rule safe_True [OF assms(2)])
qed (use assms in auto)

section \<open>Releasing\<close>

lemma has_copy_job:
  assumes "has_copy j db" and "bj_BatchID j = b"
  obtains j' where "job_of db b = Some j'" "terms j' = terms j"
  using assms by (auto simp: has_copy_def)

lemma safe_release:
  assumes "stable b r P" and "stable b r Q" and "\<And>x. safe b r Q (k x)"
    and "\<And>db. P db \<Longrightarrow> has_copy j db"
    and "\<And>db j'. batch_inv b db \<Longrightarrow> P db \<Longrightarrow> bj_BatchID j = b \<Longrightarrow> job_of db b = Some j' \<Longrightarrow>
      capture_claim db j' = None \<and> (early j' \<or> isBatchImageSettlementRetryExhausted j') \<and> (r \<noteq> Submitter \<longrightarrow> early j' \<longrightarrow> ended j')"
    and "\<And>db db'. P db \<Longrightarrow> job_of db' = job_of db \<Longrightarrow> (\<And>j'. capture_claim db' j' = capture_claim db j') \<Longrightarrow> Q db'"
  shows "safe b r P (releaseBatchImageBalanceHold j h k)"
proof -
  have PQ: "Q db" if "P db" for db using assms(6) [OF that] by blast
  have kP: "safe b r P (k x)" for x using safe_weaken [OF assms(3)] PQ by blast
  show ?thesis
  proof (cases "buildBatchImageHoldCommand j (BatchImageReleaseRequestID (bj_BatchID j)) 0 h")
    case (Inl e)
    then show ?thesis using kP by (simp add: releaseBatchImageBalanceHold_def)
  next
    case (Inr cmd)
    show ?thesis
    proof (cases "hc_HoldAmount cmd \<le> 0")
      case True
      then show ?thesis using kP Inr by (simp add: releaseBatchImageBalanceHold_def)
    next
      case False
      have main: "batch_inv b (snd (ReleaseBatchImageBalance cmd db)) \<and> guar b r db (snd (ReleaseBatchImageBalance cmd db)) \<and>
        Q (snd (ReleaseBatchImageBalance cmd db))" if h: "batch_inv b db" "P db" for db
      proof -
        obtain x db' where ap: "ReleaseBatchImageBalance cmd db = (x, db')" by fastforce
        obtain j' where j': "job_of db (bj_BatchID j) = Some j'" "terms j' = terms j"
          using assms(4) [OF h(2)] by (auto simp: has_copy_def)
        have p: "plain (bj_BatchID j)" using h(1) j'(1) by (auto simp: batch_inv_def)
        have jc: "job_command j (BatchImageReleaseRequestID (bj_BatchID j)) cmd"
          using build_command [OF Inr p] p by simp
        note un = ap [unfolded ReleaseBatchImageBalance_def]
        have "batch_inv b db' \<and> guar b r db db'"
        proof (cases "bj_BatchID j = b")
          case True
          have "0 < clip (hold_of j')" using False jc terms_hold [OF j'(2)] by (simp add: job_command_def)
          then show ?thesis
            using release_own [OF ap h(1), of j' r] job_command_cong [OF jc j'(2)] j'(1) assms(5) [OF h True, of j'] True by auto
        next
          case ne: False
          then show ?thesis using other_batch_billing [OF un logs_one_effects(3) jc ne p h(1)] by blast
        qed
        moreover have "Q db'"
        proof (rule assms(6) [OF h(2)])
          show "job_of db' = job_of db" by (rule apply_frame(1) [OF un logs_one_effects(3)])
          show "capture_claim db' j1 = capture_claim db j1" for j1
            unfolding capture_claim_def using jc
            by (intro apply_frame(3) [OF un logs_one_effects(3)]) (auto simp: job_command_def)
        qed
        ultimately show ?thesis using ap by simp
      qed
      have "safe b r P (repo PlainCall (Inl ErrDatabase) (\<lambda>i. ReleaseBatchImageBalance cmd)
            (\<lambda>r. case r of
               Inl e \<Rightarrow> if e = ErrUsageBillingRequestConflict then k None else k (Some ErrBatchImageBillingHoldFailed)
             | Inr _ \<Rightarrow> k None))" (is "safe b r P (repo _ _ _ ?k)")
      proof (rule safe_repo)
        have k: "safe b r Q (?k x)" for x using assms(3) by (simp split: sum.split)
        show "safe b r P (?k (Inl ErrDatabase))" using kP by simp
        show "stable b r P" by (rule assms(1))
        fix i db assume "batch_inv b db" "P db"
        note m = main [OF this]
        show "batch_inv b (snd (ReleaseBatchImageBalance cmd db)) \<and> guar b r db (snd (ReleaseBatchImageBalance cmd db))"
          using m by blast
        show "\<exists>Q. stable b r Q \<and> Q (snd (ReleaseBatchImageBalance cmd db)) \<and> safe b r Q (?k (fst (ReleaseBatchImageBalance cmd db)))"
          using m k assms(2) by blast
        show "\<exists>Q. stable b r Q \<and> Q (snd (ReleaseBatchImageBalance cmd db)) \<and> safe b r Q (?k (Inl ErrDatabase))"
          using m k [of "Inl ErrDatabase"] assms(2) by blast
      qed
      then show ?thesis using False Inr by (simp add: releaseBatchImageBalanceHold_def)
    qed
  qed
qed

text \<open>Anyone may release the hold of a job that failed or was cancelled.\<close>

lemma ended_uncaptured: "batch_inv b db \<Longrightarrow> job_of db b = Some j \<Longrightarrow> ended j \<Longrightarrow> capture_claim db j = None"
  using inv_status [of b db j] by (auto simp: status_ok_def settled_phase_def ended_def)

lemma safe_release_ended:
  assumes "\<And>x. safe b r (knows b j is_ended) (k x)"
  shows "safe b r (knows b j is_ended) (releaseBatchImageBalanceHold j h k)"
proof (rule safe_release [where Q = "knows b j is_ended"])
  fix db j'
  assume "batch_inv b db" "knows b j is_ended db" "bj_BatchID j = b" "job_of db b = Some j'"
  then show "capture_claim db j' = None \<and> (early j' \<or> isBatchImageSettlementRetryExhausted j') \<and> (r \<noteq> Submitter \<longrightarrow> early j' \<longrightarrow> ended j')"
    using ended_uncaptured by (auto simp: knows_def is_ended_def ended_def early_def)
next
  fix db db' assume "knows b j is_ended db" "job_of db' = job_of db"
  then show "knows b j is_ended db'" by (simp add: knows_def has_copy_def is_ended_def)
qed (use assms knows_copy in auto)

lemma safe_release_read:
  assumes "\<And>x. safe b r (\<lambda>db. True) (k x)" and "job_of db b0 = Some j" and "ended j"
  shows "\<exists>Q. stable b r Q \<and> Q db \<and> safe b r Q (releaseBatchImageBalanceHold j h k)"
proof (intro exI conjI)
  show "stable b r (knows b j is_ended)" by simp
  show "knows b j is_ended db" using knows_read [OF assms(2), of b is_ended] assms(3) by (simp add: is_ended_def)
  show "safe b r (knows b j is_ended) (releaseBatchImageBalanceHold j h k)"
    by (rule safe_release_ended) (rule safe_True [OF assms(1)])
qed

end
