(* ===== verification/Batch_Settle_Safe.thy ===== *)
theory Batch_Settle_Safe
  imports Batch_Workers
begin

text \<open>Settlement keeps the invariant of every batch.\<close>

section \<open>Recording a failure\<close>

definition recorded :: "int \<Rightarrow> go_string \<Rightarrow> batch_db \<Rightarrow> BatchImageJob \<Rightarrow> bool" where
  "recorded n code db j \<longleftrightarrow>
     bj_Status j = Settling \<and> bj_RetryCount j = n \<and> bj_LastErrorCode j = Some code \<and> capture_claim db j = None"

lemma stable_recorded:
  assumes "bj_BatchID j = b \<Longrightarrow> r = Worker"
  shows "stable b r (knows b j (recorded n code))"
proof (rule stable_knows)
  fix db db' r' j1 j2
  assume a: "bj_BatchID j = b" "r' = r \<longrightarrow> r = Bystander" "guar b r' db db'" "job_of db b = Some j1" "job_of db' b = Some j2"
    "recorded n code db j1"
  have w: "r' \<noteq> Worker" using a(1,2) assms by auto
  show "recorded n code db' j2"
    using guar_both(3,5) [OF a(3-5) w] a(6) by (auto simp: recorded_def progress_def)
qed

definition settlement_code :: "go_string \<Rightarrow> bool" where
  "settlement_code code \<longleftrightarrow> go_has_prefix (go_trim_space code) ''SETTLEMENT_''"

lemma settlement_codes [simp]:
  "settlement_code ''SETTLEMENT_RELEASE_FAILED''" "settlement_code ''SETTLEMENT_INVALID_COUNTS''"
  "settlement_code ''SETTLEMENT_MANIFEST_CONFLICT''" "settlement_code ''SETTLEMENT_PRICING_MISSING''"
  "settlement_code ''SETTLEMENT_COST_EXCEEDS_HOLD''" "settlement_code ''SETTLEMENT_BILLING_FAILED''"
  by code_simp+

lemma recorded_given_up:
  "recorded n code db j \<Longrightarrow> settlement_code code \<Longrightarrow> batchImageSettlementMaxRetries \<le> n \<Longrightarrow> given_up db j"
  by (simp add: recorded_def given_up_def isBatchImageSettlementRetryExhausted_def batchImageDerefString_def settlement_code_def)

lemma set_failed_cases:
  assumes "SetBatchImageJobSettlementFailed b0 code msg now db = (x, db')"
  obtains (missing) e where "x = Inl e" "db' = db"
  | (counted) g j where "job_of db b0 = Some j" "x = Inr (bj_RetryCount j + 1)" "row_op b0 g db db'"
      "\<And>j. bj_Status (g j) = bj_Status j" "\<And>j. bj_RetryCount (g j) = bj_RetryCount j + 1" "\<And>j. bj_LastErrorCode (g j) = Some code"
proof (cases "job_of db b0")
  case None
  then show ?thesis using assms missing by (auto simp: SetBatchImageJobSettlementFailed_def)
next
  case (Some j)
  let ?f = "\<lambda>j. j\<lparr>bj_LastErrorCode := Some code, bj_LastErrorMessage := Some msg,
                    bj_RetryCount := bj_RetryCount j + 1, bj_UpdatedAt := now\<rparr>"
  have "row_op b0 (\<lambda>j. if True then ?f j else j) db (append_event b0 ''settlement_failed'' (snd (update_jobs b0 (\<lambda>_. True) ?f db)))"
    by (rule row_op_event, rule row_op_update) (simp add: terms_def)
  then show ?thesis using counted [of j ?f] assms Some by (simp add: SetBatchImageJobSettlementFailed_def)
qed

lemma recount_row_ok:
  assumes "batch_inv b db" and "job_of db b = Some j" and "terms j' = terms j" and "bj_Status j = Settling"
    and "bj_Status j' = Settling" and "bj_RetryCount j' = bj_RetryCount j + 1" and "bj_LastErrorCode j' = Some code"
    and "settlement_code code" and "capture_claim db j = None"
  shows "row_ok Worker db j j'"
proof -
  have st: "status_ok db j" using inv_status assms(1,2) by blast
  note t = terms_claims [OF assms(3)] and h = terms_hold [OF assms(3)]
  have b: "bj_BatchID j' = bj_BatchID j" using assms(3) by (simp add: terms_def)
  have ex: "isBatchImageSettlementRetryExhausted j \<Longrightarrow> isBatchImageSettlementRetryExhausted j'"
    using assms(4-8) by (simp add: isBatchImageSettlementRetryExhausted_def settlement_code_def batchImageDerefString_def)
  show ?thesis
    using st assms(4,5,9) t h b ex
    by (auto simp: row_ok_def status_ok_def early_def ended_def settled_phase_def IsTerminalBatchImageJobStatus_def)
qed

lemma safe_set_failed:
  assumes w: "bj_BatchID j = b \<Longrightarrow> r = Worker" and code: "settlement_code code"
    and P: "stable b r (knows b j X)"
    and X: "\<And>db j'. X db j' \<Longrightarrow> bj_Status j' = Settling \<and> capture_claim db j' = None"
    and k1: "\<And>e. safe b r (\<lambda>db. True) (k (Inl e))"
    and k2: "\<And>n. safe b r (knows b j (recorded n code)) (k (Inr n))"
  shows "safe b r (knows b j X) (set_settlement_failed (bj_BatchID j) code msg k)"
  unfolding set_settlement_failed_def
proof (rule safe_repo)
  show "stable b r (knows b j X)" by (rule P)
  show "safe b r (knows b j X) (k (Inl ErrOther))" by (rule safe_True [OF k1])
next
  fix i db
  let ?s = "SetBatchImageJobSettlementFailed (bj_BatchID j) code (truncateBatchImageMessage msg batchImageMaxErrorMessageLength) (in_now i) db"
  assume h: "batch_inv b db" "knows b j X db"
  obtain x db' where s: "?s = (x, db')" by fastforce
  show "\<exists>Q. stable b r Q \<and> Q (snd ?s) \<and> safe b r Q (k (Inl ErrOther))"
    by (rule goes_on_True [OF k1])
  have "(batch_inv b db' \<and> guar b r db db') \<and> (\<exists>Q. stable b r Q \<and> Q db' \<and> safe b r Q (k x))"
    using s
  proof (cases rule: set_failed_cases)
    case (missing e)
    then show ?thesis using h guar_refl goes_on_True [OF k1] by simp
  next
    case (counted g j1)
    have tm: "terms (g j) = terms j" for j using counted(3) by (simp add: row_op_def)
    have X1: "bj_Status j1 = Settling \<and> capture_claim db j1 = None" if "bj_BatchID j = b"
      using h(2) counted(1) X that by (auto simp: knows_def)
    have "batch_inv b db' \<and> guar b r db db'"
    proof (rule row_op_ok [OF counted(3) h(1)])
      fix j2 assume b: "bj_BatchID j = b" and "job_of db b = Some j2"
      then have "j2 = j1" using counted(1) by simp
      then show "row_ok r db j2 (g j2)"
        using recount_row_ok [OF h(1), of j1 "g j1" code] counted tm X1 b code w by simp
    qed
    moreover have "knows b j (recorded (bj_RetryCount j1 + 1) code) db'"
    proof -
      have "job_of db' (bj_BatchID j) = Some (g j1)" using counted(1,3) by (simp add: row_op_def)
      moreover have "capture_claim db' (g j1) = capture_claim db j1"
        using counted(3) claims_cong(2) [of db' db "g j1"] terms_claims(2) [OF tm] by (simp add: row_op_def)
      moreover have "terms (g j1) = terms j" using tm h(2) counted(1) by (auto simp: knows_def has_copy_def)
      ultimately show ?thesis using X1 counted(4-6) by (auto simp: knows_def has_copy_def recorded_def)
    qed
    moreover have "stable b r (knows b j (recorded (bj_RetryCount j1 + 1) code))" using w by (rule stable_recorded)
    ultimately show ?thesis using counted(2) goes_on [OF _ _ k2] by simp
  qed
  then show "batch_inv b (snd ?s) \<and> guar b r db (snd ?s)"
    and "\<exists>Q. stable b r Q \<and> Q (snd ?s) \<and> safe b r Q (k (fst ?s))" using s by simp_all
qed

section \<open>Giving up\<close>

lemma safe_failExhaustedSettlement:
  assumes w: "bj_BatchID j = b \<Longrightarrow> r = Worker" and k: "\<And>e. safe b r (\<lambda>db. True) (k e)"
  shows "safe b r (knows b j given_up) (failExhaustedSettlement env j msg k)"
  unfolding failExhaustedSettlement_def
proof (rule safe_release [where Q = "knows b j given_up"])
  show "stable b r (knows b j given_up)" and "stable b r (knows b j given_up)" using stable_worker(4) [OF w] by simp_all
  show "has_copy j db" if "knows b j given_up db" for db using that by (rule knows_copy)
next
  fix db j'
  assume "knows b j given_up db" "bj_BatchID j = b" "job_of db b = Some j'"
  then have "given_up db j'" by (simp add: knows_def)
  then show "capture_claim db j' = None \<and> (early j' \<or> isBatchImageSettlementRetryExhausted j') \<and> (r \<noteq> Submitter \<longrightarrow> early j' \<longrightarrow> ended j')"
    by (simp add: given_up_def isBatchImageSettlementRetryExhausted_def early_def)
next
  fix db db'
  assume "knows b j given_up db" "job_of db' = job_of db" "\<And>j'. capture_claim db' j' = capture_claim db j'"
  then show "knows b j given_up db'" by (simp add: knows_def has_copy_def given_up_def)
next
  fix err
  have st: "stable b r (knows b j given_up)" by (rule stable_worker(4) [OF w])
  show "safe b r (knows b j given_up) (case err of
      None \<Rightarrow> let m = go_trim_space msg; m = if m = [] then ''settlement billing retry limit reached'' else m in
        transition (bj_BatchID j) Failed ''settlement_retry_exhausted'' (Some ''SETTLEMENT_BILLING_RETRY_EXHAUSTED'') (Some m)
          (\<lambda>err. case err of None \<Rightarrow> k ErrBatchImageSettlementBillingFailed | Some e \<Rightarrow> k e)
    | Some e \<Rightarrow> set_settlement_failed (bj_BatchID j) ''SETTLEMENT_RELEASE_FAILED'' (be_text env e)
        (\<lambda>_. k ErrBatchImageSettlementBillingFailed))"
  proof (cases err)
    case None
    have "safe b r (knows b j given_up) (transition (bj_BatchID j) Failed ''settlement_retry_exhausted''
        (Some ''SETTLEMENT_BILLING_RETRY_EXHAUSTED'') (Some m)
        (\<lambda>err. case err of None \<Rightarrow> k ErrBatchImageSettlementBillingFailed | Some e \<Rightarrow> k e))" for m
    proof (rule safe_transition_True [OF st])
      show "safe b r (\<lambda>db. True) (case x of None \<Rightarrow> k ErrBatchImageSettlementBillingFailed | Some e \<Rightarrow> k e)" for x
        using k by (simp split: option.split)
      show "may_transition r Failed db j'" if "knows b j given_up db" "bj_BatchID j = b" "job_of db b = Some j'" for db j'
        using that w by (auto simp: knows_def given_up_def may_transition_def)
    qed
    then show ?thesis using None by (simp add: Let_def)
  next
    case (Some e)
    have "safe b r (knows b j given_up) (set_settlement_failed (bj_BatchID j) ''SETTLEMENT_RELEASE_FAILED'' (be_text env e)
        (\<lambda>_. k ErrBatchImageSettlementBillingFailed))"
      by (rule safe_set_failed [OF w _ st])
         (simp_all add: k safe_True [OF k] given_up_def isBatchImageSettlementRetryExhausted_def)
    then show ?thesis using Some by simp
  qed
qed

lemma safe_settlement_failed:
  assumes w: "bj_BatchID j = b \<Longrightarrow> r = Worker" and k: "\<And>x. safe b r (\<lambda>db. True) (k x)" and code: "settlement_code code"
  shows "safe b r (knows b j (uncaptured j0)) (settlement_failed env j code msg e k)"
proof -
  let ?k = "\<lambda>failErr. case failErr of Some f \<Rightarrow> k (Inl f) | None \<Rightarrow> k (Inl e)"
  have k': "safe b r (\<lambda>db. True) (?k x)" for x using k by (simp split: option.split)
  have "safe b r (knows b j (uncaptured j0)) (recordSettlementFailure env j code msg ?k)"
    unfolding recordSettlementFailure_def
  proof (rule safe_set_failed [OF w code stable_worker(3) [OF w]])
    fix n
    show "safe b r (knows b j (recorded n code)) (case Inr n of Inl _ \<Rightarrow> ?k None
      | Inr retryCount \<Rightarrow> let job = j\<lparr>bj_RetryCount := retryCount, bj_LastErrorCode := Some code\<rparr> in
          if batchImageSettlementMaxRetries \<le> retryCount then failExhaustedSettlement env job msg (\<lambda>e. ?k (Some e)) else ?k None)"
    proof (cases "batchImageSettlementMaxRetries \<le> n")
      case True
      let ?j = "j\<lparr>bj_RetryCount := n, bj_LastErrorCode := Some code\<rparr>"
      have "terms ?j = terms j" by (simp add: terms_def)
      note cong = knows_cong [OF this]
      have "safe b r (knows b ?j given_up) (failExhaustedSettlement env ?j msg (\<lambda>e. ?k (Some e)))"
        by (rule safe_failExhaustedSettlement) (use w k in auto)
      then have "safe b r (knows b j (recorded n code)) (failExhaustedSettlement env ?j msg (\<lambda>e. ?k (Some e)))"
        by (rule safe_weaken) (use cong knows_mono recorded_given_up [OF _ code True] in blast)
      then show ?thesis using True by (simp add: Let_def)
    next
      case False
      then show ?thesis using safe_True [OF k' [of None]] by (simp add: Let_def)
    qed
  qed (use k' [of None] in \<open>auto simp: uncaptured_def\<close>)
  then show ?thesis by (simp add: settlement_failed_def)
qed

section \<open>Capturing\<close>

lemma safe_capture:
  assumes w: "bj_BatchID j = b \<Longrightarrow> r = Worker" and key: "bj_APIKeyID j = Some a" "0 < a"
    and own: "bj_BatchID j = b \<Longrightarrow> settle_ready j \<and> cost = cost_of j \<and> bj_Status j = Settling"
    and k1: "\<And>e. safe b r (knows b j (uncaptured j)) (k (Some e))" and k2: "safe b r (knows b j (unchanged j)) (k None)"
  shows "safe b r (knows b j (unchanged j))
    (captureBatchImageBalanceHold j cost (BuildBatchImageSettlementManifestHash j) k)"
proof -
  obtain cmd where cmd: "buildBatchImageHoldCommand j (BatchImageCaptureRequestID (bj_BatchID j)) cost
      (BuildBatchImageSettlementManifestHash j) = Inr cmd"
    using key by (simp add: buildBatchImageHoldCommand_def)
  let ?k = "\<lambda>r. case r of Inl e \<Rightarrow> k (Some ErrBatchImageSettlementBillingFailed) | Inr _ \<Rightarrow> k None"
  have "safe b r (knows b j (unchanged j)) (repo CaptureCall (Inl ErrDatabase) (\<lambda>i. CaptureBatchImageBalance cmd) ?k)"
  proof (rule safe_repo)
    show "stable b r (knows b j (unchanged j))" by (rule stable_worker(2) [OF w])
    fix i db
    assume h: "batch_inv b db" "knows b j (unchanged j) db"
    obtain x db' where ap: "CaptureBatchImageBalance cmd db = (x, db')" by fastforce
    note un = ap [unfolded CaptureBatchImageBalance_def]
    obtain j' where j': "job_of db (bj_BatchID j) = Some j'" "terms j' = terms j"
      using h(2) by (auto simp: knows_def has_copy_def)
    have p: "plain (bj_BatchID j)" using h(1) j'(1) by (auto simp: batch_inv_def)
    have jobs: "job_of db' = job_of db" by (rule apply_frame(1) [OF un logs_one_effects(2)])
    have kn: "knows b j (unchanged j) db'" using h(2) jobs by (simp add: knows_def has_copy_def unchanged_def)
    have "(batch_inv b db' \<and> guar b r db db') \<and> (\<exists>Q. stable b r Q \<and> Q db' \<and> safe b r Q (?k x))"
    proof (cases "bj_BatchID j = b")
      case True
      have u: "progress j' = progress j" using h(2) j'(1) True by (simp add: knows_def unchanged_def)
      have c: "capture_command j' = Inr cmd"
        using cmd own [OF True] terms_progress_cong(5) [OF j'(2) u] by (simp add: capture_command_def)
      have s: "bj_Status j' = Settling" "settle_ready j'"
        using own True u terms_progress_cong(1) [OF j'(2) u] by (simp_all add: progress_def)
      note co = capture_own [OF ap h(1), of j']
      have i: "batch_inv b db' \<and> guar b Worker db db'" using co(1) j'(1) True c s by simp
      have e: "isl x \<Longrightarrow> db' = db \<and> capture_claim db j' = None" using co(2) j'(1) True c s by simp
      show ?thesis
      proof (cases x)
        case (Inl er)
        have "knows b j (uncaptured j) db'"
          using kn e Inl j'(1) True by (auto simp: knows_def unchanged_def uncaptured_def)
        then show ?thesis using i w [OF True] Inl goes_on [OF stable_worker(3) [OF w] _ k1] by simp
      next
        case (Inr v)
        then show ?thesis using i w [OF True] kn goes_on [OF stable_worker(2) [OF w] _ k2] by simp
      qed
    next
      case False
      have jc: "job_command j (BatchImageCaptureRequestID (bj_BatchID j)) cmd" using build_command [OF cmd p] p by simp
      have i: "batch_inv b db' \<and> guar b r db db'"
        using other_batch_billing [OF un logs_one_effects(2) jc False p h(1)] by blast
      have "knows b j (uncaptured j) db'" using kn False by (simp add: knows_def)
      then show ?thesis
        using i kn goes_on [OF stable_worker(2) [OF w] _ k2] goes_on [OF stable_worker(3) [OF w] _ k1] by (cases x) simp_all
    qed
    then show "batch_inv b (snd (CaptureBatchImageBalance cmd db)) \<and> guar b r db (snd (CaptureBatchImageBalance cmd db))"
      and "\<exists>Q. stable b r Q \<and> Q (snd (CaptureBatchImageBalance cmd db)) \<and> safe b r Q (?k (fst (CaptureBatchImageBalance cmd db)))"
      using ap by simp_all
  qed simp_all
  then show ?thesis using cmd by (simp add: captureBatchImageBalanceHold_def)
qed

lemma mark_settled_row:
  "\<exists>g. row_op b0 g db (snd (MarkBatchImageJobSettled b0 cost h t now db)) \<and>
     (\<forall>j. progress (g j) = progress j \<or> bj_Status j = Settling \<and> bj_Status (g j) = Completed)"
proof -
  let ?c = "\<lambda>j. bj_Status j = Settling \<and> bj_ManifestHash j \<in> {None, Some [], Some h}"
  let ?f = "\<lambda>j. j\<lparr>bj_Status := Completed, bj_ActualCost := Some (to_scale 10 cost),
               bj_ManifestHash := Some h, bj_SettledAt := first_time True now (bj_SettledAt j),
               bj_FinishedAt := first_time True now (bj_FinishedAt j),
               bj_OutputExpiresAt := first_time True t (bj_OutputExpiresAt j),
               bj_UpdatedAt := now, bj_Version := bj_Version j + 1\<rparr>"
  have op: "row_op b0 (\<lambda>j. if ?c j then ?f j else j) db (snd (update_jobs b0 ?c ?f db))"
    by (rule row_op_update) (simp add: terms_def)
  then have "row_op b0 (\<lambda>j. if ?c j then ?f j else j) db (snd (MarkBatchImageJobSettled b0 cost h t now db))"
    using row_op_event by (auto simp: MarkBatchImageJobSettled_def Let_def split: prod.split option.split)
  then show ?thesis by (intro exI [of _ "\<lambda>j. if ?c j then ?f j else j"]) simp
qed

lemma settled_row_ok:
  assumes "batch_inv b db" and "job_of db b = Some j" and "terms j' = terms j" and "settle_ready j"
    and "progress j' = progress j \<or> bj_Status j = Settling \<and> bj_Status j' = Completed"
  shows "row_ok Worker db j j'"
proof (cases "progress j' = progress j")
  case True
  then show ?thesis using row_ok_quiet assms by blast
next
  case False
  then have s: "bj_Status j = Settling" "bj_Status j' = Completed" using assms(5) by auto
  have st: "status_ok db j" using inv_status assms(1,2) by blast
  note t = terms_claims [OF assms(3)] and h = terms_hold [OF assms(3)]
  have b: "bj_BatchID j' = bj_BatchID j" using assms(3) by (simp add: terms_def)
  show ?thesis
    using st assms(4) s t h b
    by (auto simp: row_ok_def status_ok_def early_def ended_def settled_phase_def IsTerminalBatchImageJobStatus_def settle_ready_def)
qed

lemma safe_settle_cost:
  assumes w: "bj_BatchID j = b \<Longrightarrow> r = Worker" and key: "bj_APIKeyID j = Some a" "0 < a"
    and own: "bj_BatchID j = b \<Longrightarrow> settle_ready j \<and> cost = cost_of j \<and> bj_Status j = Settling"
    and k: "\<And>x. safe b r (\<lambda>db. True) (k x)"
  shows "safe b r (knows b j (unchanged j)) (settle_cost env j cost k)"
  unfolding settle_cost_def Let_def
proof (rule safe_capture [OF w key own])
  show "safe b r (knows b j (uncaptured j)) (case Some e of
      None \<Rightarrow> repo PlainCall (Some ErrOther) (\<lambda>i. MarkBatchImageJobSettled (bj_BatchID j) cost (BuildBatchImageSettlementManifestHash j)
                (in_now i + be_output_retention env) (in_now i))
             (\<lambda>err. case err of None \<Rightarrow> k (Inr (settlement_result j cost False)) | Some e \<Rightarrow> k (Inl e))
    | Some e \<Rightarrow> settlement_failed env j ''SETTLEMENT_BILLING_FAILED''
                      (truncateBatchImageMessage (be_text env e) batchImageMaxErrorMessageLength) e k)" for e
    using safe_settlement_failed [OF w k settlement_codes(6)] by simp
next
  let ?k = "\<lambda>err. case err of None \<Rightarrow> k (Inr (settlement_result j cost False)) | Some e \<Rightarrow> k (Inl e)"
  have k': "safe b r (\<lambda>db. True) (?k x)" for x using k by (simp split: option.split)
  have "safe b r (knows b j (unchanged j)) (repo PlainCall (Some ErrOther)
      (\<lambda>i. MarkBatchImageJobSettled (bj_BatchID j) cost (BuildBatchImageSettlementManifestHash j)
                (in_now i + be_output_retention env) (in_now i)) ?k)"
  proof (rule safe_repo)
    show "stable b r (knows b j (unchanged j))" by (rule stable_worker(2) [OF w])
    show "safe b r (knows b j (unchanged j)) (?k (Some ErrOther))" by (rule safe_True [OF k'])
    fix i db
    let ?m = "MarkBatchImageJobSettled (bj_BatchID j) cost (BuildBatchImageSettlementManifestHash j)
                (in_now i + be_output_retention env) (in_now i) db"
    assume h: "batch_inv b db" "knows b j (unchanged j) db"
    show "\<exists>Q. stable b r Q \<and> Q (snd ?m) \<and> safe b r Q (?k (fst ?m))" "\<exists>Q. stable b r Q \<and> Q (snd ?m) \<and> safe b r Q (?k (Some ErrOther))"
      by (rule goes_on_True [OF k'])+
    obtain g where op: "row_op (bj_BatchID j) g db (snd ?m)"
      and g: "\<And>j. progress (g j) = progress j \<or> bj_Status j = Settling \<and> bj_Status (g j) = Completed"
      using mark_settled_row by blast
    show "batch_inv b (snd ?m) \<and> guar b r db (snd ?m)"
    proof (rule row_op_ok [OF op h(1)])
      fix j' assume b: "bj_BatchID j = b" and j': "job_of db b = Some j'"
      have u: "progress j' = progress j" "terms j' = terms j"
        using h(2) b j' by (auto simp: knows_def unchanged_def has_copy_def)
      have "settle_ready j'" using own [OF b] terms_progress_cong(1) [OF u(2,1)] by simp
      moreover have "terms (g j') = terms j'" using op by (simp add: row_op_def)
      ultimately show "row_ok r db j' (g j')" using settled_row_ok [OF h(1) j'] g [of j'] w [OF b] by simp
    qed
  qed
  then show "safe b r (knows b j (unchanged j)) (case None of
      None \<Rightarrow> repo PlainCall (Some ErrOther) (\<lambda>i. MarkBatchImageJobSettled (bj_BatchID j) cost (BuildBatchImageSettlementManifestHash j)
                (in_now i + be_output_retention env) (in_now i))
             (\<lambda>err. case err of None \<Rightarrow> k (Inr (settlement_result j cost False)) | Some e \<Rightarrow> k (Inl e))
    | Some e \<Rightarrow> settlement_failed env j ''SETTLEMENT_BILLING_FAILED''
                      (truncateBatchImageMessage (be_text env e) batchImageMaxErrorMessageLength) e k)" by simp
qed

end
