(* ===== verification/Batch_Process_Safe.thy ===== *)
theory Batch_Process_Safe
  imports Batch_Settle_Safe
begin

text \<open>The worker's programs keep the invariant of every batch.\<close>

section \<open>Settlement as a whole\<close>

lemma unsettled_uncaptured:
  assumes "batch_inv b db" and "job_of db b = Some j" and "bj_Status j = Settling" and "\<not> settle_ready j"
  shows "capture_claim db j = None"
  using inv_status [OF assms(1,2)] assms(3,4) by (auto simp: status_ok_def)

lemma snapshot_price:
  assumes "batch_inv b db" and "job_of db b = Some j"
  shows "checked_unit_price env j =
    (if bj_BillableUnitPrice j < 0 then Inl ErrBatchImageSettlementPricingMissing else Inr (bj_BillableUnitPrice j))"
  using assms by (simp add: batch_inv_def checked_unit_price_def settlementUnitPrice_def)

lemma safe_Settle:
  assumes w: "b0 = b \<Longrightarrow> r = Worker" and k: "\<And>x. safe b r (\<lambda>db. True) (k x)"
  shows "safe b r (\<lambda>db. True) (Settle env b0 k)"
  unfolding Settle_def
proof (rule safe_get_job)
  show "stable b r (\<lambda>db. True)" by simp
  show "safe b r (\<lambda>db. True) (case Inl e of Inl e \<Rightarrow> k (Inl e) | Inr job \<Rightarrow> p job)" for e p using k by simp
next
  fix db j
  assume i: "batch_inv b db" and j: "job_of db b0 = Some j"
  have id: "bj_BatchID j = b0" using j by (rule job_of_id)
  have w': "bj_BatchID j = b \<Longrightarrow> r = Worker" using w id by simp
  let ?ok = "\<lambda>p. \<exists>Q. stable b r Q \<and> Q db \<and> safe b r Q p"
  have fail: "?ok (settlement_failed env j code msg e k)"
    if "bj_Status j = Settling" "settlement_code code" "b0 = b \<Longrightarrow> \<not> settle_ready j" for code msg e
  proof (rule goes_on)
    show "stable b r (knows b j (uncaptured j))" by (rule stable_worker(3) [OF w'])
    show "safe b r (knows b j (uncaptured j)) (settlement_failed env j code msg e k)"
      by (rule safe_settlement_failed [OF w' k that(2)])
    show "knows b j (uncaptured j) db"
      by (rule knows_read [OF j]) (use that unsettled_uncaptured [OF i, of j] j in \<open>auto simp: uncaptured_def\<close>)
  qed
  have giveup: "?ok (failExhaustedSettlement env j msg (\<lambda>e. k (Inl e)))"
    if "bj_Status j = Settling" "isBatchImageSettlementRetryExhausted j" for msg
  proof (rule goes_on)
    show "stable b r (knows b j given_up)" by (rule stable_worker(4) [OF w'])
    show "safe b r (knows b j given_up) (failExhaustedSettlement env j msg (\<lambda>e. k (Inl e)))"
      by (rule safe_failExhaustedSettlement [OF w' k])
    have "\<not> settle_ready j" using that by (simp add: settle_ready_def)
    then show "knows b j given_up db"
      by (intro knows_read [OF j]) (use that unsettled_uncaptured [OF i, of j] j in \<open>auto simp: given_up_def\<close>)
  qed
  have settle: "?ok (settle_cost env j cost k)"
    if "bj_Status j = Settling" "bj_APIKeyID j = Some a" "0 < a" "b0 = b \<Longrightarrow> settle_ready j \<and> cost = cost_of j" for a cost
  proof (rule goes_on)
    show "stable b r (knows b j (unchanged j))" by (rule stable_worker(2) [OF w'])
    show "safe b r (knows b j (unchanged j)) (settle_cost env j cost k)"
      by (rule safe_settle_cost [OF w' that(2,3)]) (use that id k in auto)
    show "knows b j (unchanged j) db" by (rule knows_read [OF j]) (use that in \<open>simp add: unchanged_def\<close>)
  qed
  have answer: "?ok (k x)" for x by (rule goes_on_True [OF k])
  let ?rest = "\<lambda>job. let manifestHash = BuildBatchImageSettlementManifestHash job in
           if bj_Status job = Completed
           then k (Inr (settlement_result job (case bj_ActualCost job of Some c \<Rightarrow> c | None \<Rightarrow> 0) True))
           else if bj_Status job \<noteq> Settling then k (Inl ErrBatchImageSettlementInvalidStatus)
           else if (case bj_APIKeyID job of None \<Rightarrow> True | Some a \<Rightarrow> a \<le> 0)
           then k (Inl ErrBatchImageSettlementMissingAPIKeyID)
           else if (case bj_AccountID job of None \<Rightarrow> True | Some a \<Rightarrow> a \<le> 0)
           then k (Inl ErrBatchImageSettlementMissingAccountID)
           else if isBatchImageSettlementRetryExhausted job
           then failExhaustedSettlement env job
                  (''settlement retry limit reached: '' @ batchImageDerefString (bj_LastErrorCode job)) (\<lambda>e. k (Inl e))
           else if counts_invalid job
           then settlement_failed env job ''SETTLEMENT_INVALID_COUNTS''
                  (''success='' @ fmt_d (bj_SuccessCount job) @ '' fail='' @ fmt_d (bj_FailCount job) @
                   '' item_count='' @ fmt_d (bj_ItemCount job)) ErrBatchImageSettlementInvalidCounts k
           else if batchImageDerefString (bj_ManifestHash job) \<noteq> [] \<and>
                   batchImageDerefString (bj_ManifestHash job) \<noteq> manifestHash
           then settlement_failed env job ''SETTLEMENT_MANIFEST_CONFLICT'' ''manifest hash conflict''
                  ErrBatchImageSettlementManifestConflict k
           else case checked_unit_price env job of
             Inl e \<Rightarrow> settlement_failed env job ''SETTLEMENT_PRICING_MISSING'' (be_text env e) e k
           | Inr unitPrice \<Rightarrow>
               (let actualCost = of_int (bj_SuccessCount job) * unitPrice in
                if actualCost - hold_of job > batchImageCostEpsilon
                then settlement_failed env job ''SETTLEMENT_COST_EXCEEDS_HOLD''
                       (''actual cost '' @ fmt_f10 actualCost @ '' exceeds held amount '' @ fmt_f10 (hold_of job))
                       ErrBatchImageSettlementCostExceedsHold k
                else settle_cost env job actualCost k)"
  have "?ok (?rest j)"
  proof (cases "bj_Status j = Settling \<and> (\<exists>a. bj_APIKeyID j = Some a \<and> 0 < a) \<and> (\<exists>a. bj_AccountID j = Some a \<and> 0 < a)")
    case False
    have "\<exists>x. ?rest j = k x"
    proof (cases "bj_Status j = Settling")
      case True
      then show ?thesis using False by (cases "bj_APIKeyID j"; cases "bj_AccountID j") (auto simp: Let_def)
    next
      case ns: False
      then show ?thesis by (cases "bj_Status j = Completed") (auto simp: Let_def)
    qed
    then obtain x where x: "?rest j = k x" by blast
    show ?thesis unfolding x by (rule answer)
  next
    case True
    then obtain a c where s: "bj_Status j = Settling" and a: "bj_APIKeyID j = Some a" "0 < a"
      and c: "bj_AccountID j = Some c" "0 < c" by blast
    have price: "b0 = b \<Longrightarrow> checked_unit_price env j = Inl e \<Longrightarrow> \<not> settle_ready j"
      "b0 = b \<Longrightarrow> checked_unit_price env j = Inr u \<Longrightarrow> u = bj_BillableUnitPrice j \<and> 0 \<le> u" for e u
      using snapshot_price [OF i, of j env] j by (auto simp: settle_ready_def split: if_splits)
    show ?thesis
    proof (cases "isBatchImageSettlementRetryExhausted j")
      case True
      then show ?thesis using giveup [OF s] s a c by (simp add: Let_def)
    next
      case ne: False
      show ?thesis
      proof (cases "counts_invalid j \<or> batchImageDerefString (bj_ManifestHash j) \<noteq> [] \<and>
          batchImageDerefString (bj_ManifestHash j) \<noteq> BuildBatchImageSettlementManifestHash j")
        case True
        then have nr: "\<not> settle_ready j" by (auto simp: settle_ready_def)
        show ?thesis
        proof (cases "counts_invalid j")
          case bad: True
          then show ?thesis using fail [OF s settlement_codes(2)] nr ne s a c by (simp add: Let_def)
        next
          case False
          then show ?thesis using True fail [OF s settlement_codes(3)] nr ne s a c by (simp add: Let_def)
        qed
      next
        case ok: False
        show ?thesis
        proof (cases "checked_unit_price env j")
          case (Inl e)
          have "?ok (settlement_failed env j ''SETTLEMENT_PRICING_MISSING'' (be_text env e) e k)"
            by (rule fail [OF s settlement_codes(4)]) (rule price(1) [OF _ Inl])
          then show ?thesis using Inl ne ok s a c by (auto simp: Let_def)
        next
          case (Inr u)
          let ?cost = "of_int (bj_SuccessCount j) * u"
          have cost: "b0 = b \<Longrightarrow> ?cost = cost_of j" using price(2) Inr by (simp add: cost_of_def)
          show ?thesis
          proof (cases "?cost - hold_of j > batchImageCostEpsilon")
            case True
            have "b0 = b \<Longrightarrow> \<not> settle_ready j" using True cost by (simp add: settle_ready_def)
            then have "?ok (settlement_failed env j ''SETTLEMENT_COST_EXCEEDS_HOLD'' (''actual cost '' @ fmt_f10 ?cost @
                '' exceeds held amount '' @ fmt_f10 (hold_of j)) ErrBatchImageSettlementCostExceedsHold k)"
              by (rule fail [OF s settlement_codes(5)])
            then show ?thesis using True Inr ne ok s a c by (auto simp: Let_def)
          next
            case le: False
            have "b0 = b \<Longrightarrow> settle_ready j" using le cost ne ok price(2) Inr by (auto simp: settle_ready_def)
            then have "?ok (settle_cost env j ?cost k)" using cost by (intro settle [OF s a]) auto
            then show ?thesis using le Inr ne ok s a c by (auto simp: Let_def)
          qed
        qed
      qed
    qed
  qed
  then show "?ok (case Inr j of Inl e \<Rightarrow> k (Inl e) | Inr job \<Rightarrow> ?rest job)" by simp
qed

section \<open>Indexing\<close>

lemma replace_items_row:
  "\<exists>g. row_op b0 g db (snd (ReplaceBatchImageItemsForJob b0 items s f now db)) \<and>
     (\<forall>j. job_of db b0 = Some j \<longrightarrow> progress (g j) = progress j \<or> bj_Status j = Indexing) \<and>
     (\<forall>j. bj_Status (g j) = bj_Status j)"
proof (cases "job_of db b0")
  case None
  then show ?thesis using row_op_same [of b0 db] by (intro exI [of _ id]) (simp add: ReplaceBatchImageItemsForJob_def)
next
  case (Some j)
  let ?rows = "insert_items (map (\<lambda>i. if bi_PromptPreview i = None
      then i\<lparr>bi_PromptPreview := prompt_preview (db_items db b0) (bi_CustomID i)\<rparr> else i) items) []"
  show ?thesis
  proof (cases "bj_Status j = Indexing \<and> ?rows \<noteq> None")
    case False
    then show ?thesis using row_op_same [of b0 db] Some
      by (intro exI [of _ id]) (auto simp: ReplaceBatchImageItemsForJob_def split: option.split)
  next
    case True
    then obtain rows where rows: "?rows = Some rows" and s: "bj_Status j = Indexing" by auto
    let ?f = "\<lambda>j. j\<lparr>bj_SuccessCount := s, bj_FailCount := f, bj_UpdatedAt := now\<rparr>"
    let ?db = "db\<lparr>db_items := (db_items db)(b0 := rows)\<rparr>"
    have "row_op b0 (\<lambda>j. if True then ?f j else j) ?db (snd (update_jobs b0 (\<lambda>_. True) ?f ?db))"
      by (rule row_op_update) (simp add: terms_def)
    moreover have "job_of ?db b' = job_of db b'" "claim_of ?db = claim_of db" for b'
      by (simp add: job_of_def, rule claim_of_cong) simp_all
    ultimately have "row_op b0 ?f db (snd (update_jobs b0 (\<lambda>_. True) ?f ?db))" by (simp add: row_op_def)
    then show ?thesis using Some rows s
      by (intro exI [of _ ?f]) (simp add: ReplaceBatchImageItemsForJob_def)
  qed
qed

lemma open_row_ok:
  assumes "batch_inv b db" and "job_of db b = Some j" and "terms j' = terms j"
    and "bj_Status j' = bj_Status j" and "\<not> settled_phase j"
  shows "row_ok r db j j'"
proof -
  have st: "status_ok db j" using inv_status assms(1,2) by blast
  note t = terms_claims [OF assms(3)] and h = terms_hold [OF assms(3)]
  have b: "bj_BatchID j' = bj_BatchID j" using assms(3) by (simp add: terms_def)
  show ?thesis
    using st assms(4,5) t h b
    by (auto simp: row_ok_def status_ok_def settled_phase_def early_def ended_def isBatchImageSettlementRetryExhausted_def)
qed

text \<open>A call on the worker's job that keeps the status.\<close>

lemma safe_open_step:
  assumes w: "bj_BatchID j = b \<Longrightarrow> r = Worker" and k: "\<And>x. safe b r (knows b j is_open) (k x)"
    and op: "\<And>i db. \<exists>g. row_op (bj_BatchID j) g db (snd (f i db)) \<and> (\<forall>j. bj_Status (g j) = bj_Status j)"
  shows "safe b r (knows b j is_open) (repo c lost f k)"
proof (rule safe_step [OF stable_worker(1) [OF w] _ k])
  fix i db
  assume h: "batch_inv b db" "knows b j is_open db"
  obtain g where g: "row_op (bj_BatchID j) g db (snd (f i db))" "\<And>j. bj_Status (g j) = bj_Status j" using op by blast
  have t: "terms (g j) = terms j" for j using g(1) by (simp add: row_op_def)
  have "batch_inv b (snd (f i db)) \<and> guar b r db (snd (f i db))"
  proof (rule row_op_ok [OF g(1) h(1)])
    fix j' assume "bj_BatchID j = b" "job_of db b = Some j'"
    then show "row_ok r db j' (g j')"
      using open_row_ok [OF h(1) _ t g(2)] h(2) by (auto simp: knows_def is_open_def)
  qed
  moreover have "knows b j is_open (snd (f i db))"
    by (rule knows_row_op [OF g(1) h(2)]) (use g(2) in \<open>auto simp: is_open_def settled_phase_def\<close>)
  ultimately show "(batch_inv b (snd (f i db)) \<and> guar b r db (snd (f i db))) \<and> knows b j is_open (snd (f i db))" by blast
qed

lemma safe_event:
  assumes "stable b r (knows b j X)" and "\<And>x. safe b r (knows b j X) (k x)"
    and "\<And>db db' j1 j2. claim_of db' = claim_of db \<Longrightarrow> bl_moves db' = bl_moves db \<Longrightarrow> progress j2 = progress j1 \<Longrightarrow>
      terms j2 = terms j1 \<Longrightarrow> X db j1 \<Longrightarrow> X db' j2"
  shows "safe b r (knows b j X) (append_event_call b1 ev k)"
  unfolding append_event_call_def
proof (rule safe_quiet [OF assms(1,2) _ assms(3)])
  fix i :: batch_input and db
  show "\<exists>b0 g. row_op b0 g db (snd (None, append_event b1 ev db)) \<and> (\<forall>j. progress (g j) = progress j)"
    using row_op_event [OF row_op_same] by (intro exI [of _ b1] exI [of _ id]) simp
qed

lemma safe_Index:
  assumes w: "bj_BatchID j = b \<Longrightarrow> r = Worker" and k: "\<And>x. safe b r (knows b j is_open) (k x)"
  shows "safe b r (knows b j is_open) (Index env j k)"
proof -
  have st: "stable b r (knows b j is_open)" by (rule stable_worker(1) [OF w])
  have replace: "safe b r (knows b j is_open) (repo PlainCall (Some ErrOther)
      (\<lambda>i. ReplaceBatchImageItemsForJob (bj_BatchID j) items s f (in_now i))
      (\<lambda>err. case err of Some e \<Rightarrow> k (Inl e) | None \<Rightarrow> k (Inr result)))" for items s f result
  proof (rule safe_open_step [OF w])
    show "safe b r (knows b j is_open) (case x of Some e \<Rightarrow> k (Inl e) | None \<Rightarrow> k (Inr result))" for x
      using k by (simp split: option.split)
    fix i db
    show "\<exists>g. row_op (bj_BatchID j) g db (snd (ReplaceBatchImageItemsForJob (bj_BatchID j) items s f (in_now i) db)) \<and>
        (\<forall>j. bj_Status (g j) = bj_Status j)"
      using replace_items_row [of "bj_BatchID j" db items s f "in_now i"] by blast
  qed
  have event: "safe b r (knows b j is_open) (append_event_call (bj_BatchID j) ev (\<lambda>_. p))"
    if "safe b r (knows b j is_open) p" for p :: "'a prog" and ev
    by (rule safe_event [OF st that]) (rule knowledge_quiet(4))
  show ?thesis
    unfolding Index_def
  proof (rule safe_read [OF st])
    let ?k = "\<lambda>x. case x of Inl e \<Rightarrow> k (Inl e)
      | Inr expected \<Rightarrow> ask in_result (\<lambda>r. case r of
             Inl _ \<Rightarrow> k (Inl ErrBatchImageIndexOutputMissing)
           | Inr (lines, scanErr) \<Rightarrow>
               (case index_lines env expected 0 lines index_start of
                  Inl e \<Rightarrow> k (Inl e)
                | Inr st \<Rightarrow>
                    (case scanErr of
                       Some e \<Rightarrow> k (Inl e)
                     | None \<Rightarrow>
                         (let missingCount = length (missing_ids expected st); st = add_missing expected st; result = xs_result st;
                              replace = repo PlainCall (Some ErrOther)
                                (\<lambda>i. ReplaceBatchImageItemsForJob (bj_BatchID j) (xs_items st)
                                   (ix_SuccessCount result) (ix_FailCount result) (in_now i))
                                (\<lambda>err. case err of Some e \<Rightarrow> k (Inl e) | None \<Rightarrow> k (Inr result)) in
                          if ix_TotalCount result = 0 then k (Inl ErrBatchImageIndexNoResultLines)
                          else if xs_unknown st > 0 \<or> missingCount > 0
                          then append_event_call (bj_BatchID j) ''index_reconciled'' (\<lambda>_. replace)
                          else replace))))"
    show "safe b r (knows b j is_open) (?k (Inl ErrOther))" using k by simp
    fix i :: batch_input and db
    assume o: "knows b j is_open db"
    have "safe b r (knows b j is_open) (?k (Inr (listExpectedCustomIDs (bj_BatchID j) db)))"
      unfolding sum.case
      by (rule safe_ask [OF st]) (auto simp: Let_def split: sum.split prod.split option.split intro!: k replace event)
    then show "\<exists>Q. stable b r Q \<and> Q db \<and> safe b r Q (?k (Inr (listExpectedCustomIDs (bj_BatchID j) db)))"
      using o st by blast
  qed
qed

section \<open>The processors\<close>

lemma safe_end_job:
  assumes w: "bj_BatchID j = b \<Longrightarrow> r = Worker" and k: "\<And>x. safe b r (\<lambda>db. True) (k x)" and s: "s = Failed \<or> s = Cancelled"
  shows "safe b r (knows b j is_open) (end_job j s ev code msg k)"
  unfolding end_job_def
proof (rule safe_transition [where Q = "knows b j is_ended"])
  let ?rel = "releaseTerminalHold (j\<lparr>bj_Status := s\<rparr>) (\<lambda>err. case err of Some e \<Rightarrow> k (Inl e) | None \<Rightarrow> k terminal)"
  have k': "safe b r P (k x)" for x P by (rule safe_True [OF k])
  show "stable b r (knows b j is_open)" by (rule stable_worker(1) [OF w])
  show "stable b r (knows b j is_ended)" by simp
  show "safe b r (knows b j is_open) (case Some e of Some e \<Rightarrow> k (Inl e) | None \<Rightarrow> ?rel)" for e using k' by simp
  show "safe b r (knows b j is_ended) (case Some ErrOther of Some e \<Rightarrow> k (Inl e) | None \<Rightarrow> ?rel)" using k' by simp
  have "terms (j\<lparr>bj_Status := s\<rparr>) = terms j" by (simp add: terms_def)
  note cong = knows_cong [OF this, of b is_ended]
  have "safe b r (knows b (j\<lparr>bj_Status := s\<rparr>) is_ended) (releaseBatchImageBalanceHold (j\<lparr>bj_Status := s\<rparr>) h
      (\<lambda>err. case err of Some e \<Rightarrow> k (Inl e) | None \<Rightarrow> k terminal))" for h
    by (rule safe_release_ended) (use k' in \<open>simp split: option.split\<close>)
  then have "safe b r (knows b j is_ended) ?rel"
    using s cong by (auto simp: releaseTerminalHold_def intro: safe_weaken)
  then show "safe b r (knows b j is_ended) (case None of Some e \<Rightarrow> k (Inl e) | None \<Rightarrow> ?rel)" by simp
  show "may_transition r s db j'" if "knows b j is_open db" "bj_BatchID j = b" "job_of db b = Some j'" for db j'
    using that s by (auto simp: knows_def is_open_def settled_phase_def may_transition_def)
  show "knows b j is_ended db'" if op: "row_op (bj_BatchID j) g db db'" and o: "knows b j is_open db" and g: "\<And>j. bj_Status (g j) = s"
    for db db' g
  proof -
    obtain j1 where "job_of db (bj_BatchID j) = Some j1" "terms j1 = terms j" using o by (auto simp: knows_def has_copy_def)
    then have "job_of db' (bj_BatchID j) = Some (g j1)" "terms (g j1) = terms j" using op by (auto simp: row_op_def)
    then show ?thesis using g s by (auto simp: knows_def has_copy_def is_ended_def ended_def)
  qed
qed

lemma safe_indexAndSettle:
  assumes w: "bj_BatchID j = b \<Longrightarrow> r = Worker" and k: "\<And>x. safe b r (\<lambda>db. True) (k x)"
  shows "safe b r (knows b j is_open) (indexAndSettle env j k)"
  unfolding indexAndSettle_def
proof (rule safe_Index [OF w])
  fix x
  have k': "safe b r P (k x)" for x P by (rule safe_True [OF k])
  have e: "safe b r (knows b j is_open) (end_job j Failed ev code msg k)" for ev code msg by (rule safe_end_job [OF w k disjI1 [OF refl]])
  have t: "safe b r (knows b j is_open) (transition (bj_BatchID j) Settling ev None None
      (\<lambda>err. case err of Some e \<Rightarrow> k (Inl e) | None \<Rightarrow> k (requeue millisecond)))" for ev
    by (rule safe_transition_True [OF stable_worker(1) [OF w]]) (use k w in \<open>auto simp: may_transition_def split: option.split\<close>)
  show "safe b r (knows b j is_open) (case x of
        Inl e \<Rightarrow>
          if e = ErrBatchImageIndexOutputMissing then k (Inl e)
          else if e = ErrBatchImageIndexStateConflict then k (requeue millisecond)
          else (let code = (if e = ErrBatchImageDuplicateCustomID then ''DUPLICATE_CUSTOM_ID_IN_OUTPUT''
                            else ''INDEX_PARSE_FAILED'') in
                end_job j Failed ''indexing_failed'' (Some code)
                  (batchImageOptionalStringPtr (truncateBatchImageMessage (be_text env e) batchImageMaxErrorMessageLength)) k)
      | Inr result \<Rightarrow>
          transition (bj_BatchID j) Settling ''indexing_completed'' None None (\<lambda>err. case err of
             Some e \<Rightarrow> k (Inl e) | None \<Rightarrow> k (requeue millisecond)))"
    using k' e t by (simp add: Let_def split: sum.split)
qed

lemma safe_persistProviderOutputRef:
  assumes w: "bj_BatchID j = b \<Longrightarrow> r = Worker" and k1: "\<And>e. safe b r (knows b j is_open) (k (Inl e))"
    and k2: "\<And>j'. terms j' = terms j \<Longrightarrow> safe b r (knows b j is_open) (k (Inr j'))"
  shows "safe b r (knows b j is_open) (persistProviderOutputRef j ref k)"
proof -
  let ?ref = "go_trim_space ref"
  have "safe b r (knows b j is_open) (repo PlainCall (Some ErrOther)
      (\<lambda>i. UpdateBatchImageJobProviderOutputRef (bj_BatchID j) ?ref (in_now i))
      (\<lambda>err. case err of Some e \<Rightarrow> k (Inl e) | None \<Rightarrow> k (Inr (j\<lparr>bj_ProviderOutputRef := Some ?ref\<rparr>))))"
  proof (rule safe_open_step [OF w])
    show "safe b r (knows b j is_open) (case x of Some e \<Rightarrow> k (Inl e) | None \<Rightarrow> k (Inr (j\<lparr>bj_ProviderOutputRef := Some ?ref\<rparr>)))" for x
      using k1 k2 by (simp add: terms_def split: option.split)
    fix i db
    let ?f = "\<lambda>j. j\<lparr>bj_ProviderOutputRef := Some ?ref, bj_UpdatedAt := in_now i\<rparr>"
    have "row_op (bj_BatchID j) (\<lambda>j. if True then ?f j else j) db (snd (update_jobs (bj_BatchID j) (\<lambda>_. True) ?f db))"
      by (rule row_op_update) (simp add: terms_def)
    then show "\<exists>g. row_op (bj_BatchID j) g db (snd (UpdateBatchImageJobProviderOutputRef (bj_BatchID j) ?ref (in_now i) db)) \<and>
        (\<forall>j. bj_Status (g j) = bj_Status j)"
      by (intro exI [of _ ?f]) (simp add: UpdateBatchImageJobProviderOutputRef_def case_prod_beta)
  qed
  then show ?thesis using k2 [of j] by (simp add: persistProviderOutputRef_def Let_def)
qed

lemma safe_follow_status:
  assumes w: "bj_BatchID j = b \<Longrightarrow> r = Worker" and k: "\<And>x. safe b r (\<lambda>db. True) (k x)"
  shows "safe b r (knows b j is_open) (follow_status env j status k)"
proof -
  have st: "stable b r (knows b j is_open)" by (rule stable_worker(1) [OF w])
  have k': "safe b r P (k x)" for x P by (rule safe_True [OF k])
  have run: "safe b r (knows b j is_open) (transition (bj_BatchID j) Running ev None None
      (\<lambda>err. case err of Some e \<Rightarrow> k (Inl e) | None \<Rightarrow> k later))" for ev later
    by (rule safe_transition_True [OF st]) (use k in \<open>auto simp: may_transition_def split: option.split\<close>)
  have index: "safe b r (knows b j is_open) (transition (bj_BatchID j) Indexing ev None None
      (\<lambda>err. case err of Some e \<Rightarrow> k (Inl e) | None \<Rightarrow> indexAndSettle env (j\<lparr>bj_Status := Indexing\<rparr>) k))" for ev
  proof (rule safe_transition [OF st st])
    let ?j = "j\<lparr>bj_Status := Indexing\<rparr>"
    have "terms ?j = terms j" by (simp add: terms_def)
    note cong = knows_cong [OF this, of b is_open]
    have "safe b r (knows b ?j is_open) (indexAndSettle env ?j k)"
      by (rule safe_indexAndSettle) (use w k in auto)
    then show "safe b r (knows b j is_open) (case None of Some e \<Rightarrow> k (Inl e) | None \<Rightarrow> indexAndSettle env ?j k)"
      using cong by (auto intro: safe_weaken)
    show "knows b j is_open db'" if op: "row_op (bj_BatchID j) g db db'" and o: "knows b j is_open db" and g: "\<And>j. bj_Status (g j) = Indexing"
      for db db' g
      by (rule knows_row_op [OF op o]) (use g in \<open>auto simp: is_open_def settled_phase_def\<close>)
  qed (use k' in \<open>auto simp: may_transition_def\<close>)
  have now: "safe b r (knows b j is_open) (indexAndSettle env j k)" by (rule safe_indexAndSettle [OF w k])
  have failed: "safe b r (knows b j is_open) (end_job j Failed ev code msg k)" for ev code msg
    by (rule safe_end_job [OF w k disjI1 [OF refl]])
  have cancelled: "safe b r (knows b j is_open) (end_job j Cancelled ev code msg k)" for ev code msg
    by (rule safe_end_job [OF w k disjI2 [OF refl]])
  show ?thesis
    unfolding follow_status_def Let_def by (auto intro!: k' run index now failed cancelled)
qed

lemma safe_releaseTerminalHold:
  assumes k: "\<And>x. safe b r (\<lambda>db. True) (k x)" and j: "job_of db b0 = Some j"
  shows "\<exists>Q. stable b r Q \<and> Q db \<and> safe b r Q (releaseTerminalHold j k)"
proof (cases "ended j")
  case True
  then show ?thesis using safe_release_read [OF k j True] by (auto simp: releaseTerminalHold_def ended_def)
next
  case False
  then have e: "releaseTerminalHold j k = k None" by (auto simp: releaseTerminalHold_def ended_def)
  show ?thesis unfolding e by (rule goes_on_True [OF k])
qed

lemma safe_ProviderProcess:
  assumes w: "b0 = b \<Longrightarrow> r = Worker" and k: "\<And>x. safe b r (\<lambda>db. True) (k x)"
  shows "safe b r (\<lambda>db. True) (ProviderProcess env b0 k)"
  unfolding ProviderProcess_def
proof (rule safe_get_job)
  show "stable b r (\<lambda>db. True)" by simp
  show "safe b r (\<lambda>db. True) (case Inl e of Inl e \<Rightarrow> k (Inl e) | Inr job \<Rightarrow> p job)" for e p using k by simp
next
  fix db j
  assume i: "batch_inv b db" and j: "job_of db b0 = Some j"
  have id: "bj_BatchID j = b0" using j by (rule job_of_id)
  have w': "bj_BatchID j = b \<Longrightarrow> r = Worker" using w id by simp
  have st: "stable b r (knows b j is_open)" by (rule stable_worker(1) [OF w'])
  have k': "safe b r P (k x)" for x P by (rule safe_True [OF k])
  let ?done = "releaseTerminalHold j (\<lambda>err. case err of Some e \<Rightarrow> k (Inl e) | None \<Rightarrow> k terminal)"
  let ?poll = "ask in_account (\<lambda>r. case r of
             Inl e \<Rightarrow> k (Inl e)
           | Inr supported \<Rightarrow>
               if \<not> supported then k (Inl ErrBatchImageProviderUnsupportedAccount)
               else if batchImageDerefString (bj_ProviderJobName j) = [] then k (Inl ErrBatchImageMissingProviderJobName)
               else if bj_Status j = Indexing then indexAndSettle env j k
               else ask in_status (\<lambda>r. case r of
                  Inl _ \<Rightarrow> k (requeue minute)
                | Inr None \<Rightarrow> k (requeue (requeueDelay env 0))
                | Inr (Some status) \<Rightarrow>
                    persistProviderOutputRef j (ps_ProviderOutputRef status) (\<lambda>r. case r of
                       Inl e \<Rightarrow> k (Inl e)
                     | Inr job \<Rightarrow> follow_status env job status k)))"
  have follow: "safe b r (knows b j is_open) (persistProviderOutputRef j (ps_ProviderOutputRef status) (\<lambda>r. case r of
      Inl e \<Rightarrow> k (Inl e) | Inr job \<Rightarrow> follow_status env job status k))" for status
  proof (rule safe_persistProviderOutputRef [OF w'])
    show "safe b r (knows b j is_open) (case Inl e of Inl e \<Rightarrow> k (Inl e) | Inr job \<Rightarrow> follow_status env job status k)" for e
      using k' by simp
    fix j' assume t: "terms j' = terms j"
    then have "bj_BatchID j' = bj_BatchID j" by (simp add: terms_def)
    then have "safe b r (knows b j' is_open) (follow_status env j' status k)"
      by (intro safe_follow_status) (use w' k in auto)
    then show "safe b r (knows b j is_open) (case Inr j' of Inl e \<Rightarrow> k (Inl e) | Inr job \<Rightarrow> follow_status env job status k)"
      using knows_cong [OF t, of b is_open] by (auto intro: safe_weaken)
  qed
  have poll: "safe b r (knows b j is_open) ?poll"
    by (rule safe_ask [OF st])
       (auto split: sum.split option.split intro!: k' safe_ask [OF st] follow safe_indexAndSettle [OF w' k])
  have go: "\<exists>Q. stable b r Q \<and> Q db \<and> safe b r Q ?poll" if "\<not> isBatchImageProcessorDoneStatus (bj_Status j)"
    by (rule goes_on [OF st knows_read [OF j] poll])
       (use that in \<open>auto simp: is_open_def settled_phase_def isBatchImageProcessorDoneStatus_def IsTerminalBatchImageJobStatus_def\<close>)
  have "\<exists>Q. stable b r Q \<and> Q db \<and> safe b r Q ?done"
    by (rule safe_releaseTerminalHold [OF _ j]) (use k in \<open>simp split: option.split\<close>)
  then show "\<exists>Q. stable b r Q \<and> Q db \<and> safe b r Q (case Inr j of Inl e \<Rightarrow> k (Inl e) | Inr job \<Rightarrow>
          if isBatchImageProcessorDoneStatus (bj_Status job)
          then releaseTerminalHold job (\<lambda>err. case err of Some e \<Rightarrow> k (Inl e) | None \<Rightarrow> k terminal)
          else if \<not> be_known_provider env (bj_Provider job) then k (Inl ErrBatchImageUnsupportedProvider)
          else if (case bj_AccountID job of None \<Rightarrow> True | Some a \<Rightarrow> a \<le> 0) then k (Inl ErrBatchImageMissingAccountID)
          else ask in_account (\<lambda>r. case r of
             Inl e \<Rightarrow> k (Inl e)
           | Inr supported \<Rightarrow>
               if \<not> supported then k (Inl ErrBatchImageProviderUnsupportedAccount)
               else if batchImageDerefString (bj_ProviderJobName job) = [] then k (Inl ErrBatchImageMissingProviderJobName)
               else if bj_Status job = Indexing then indexAndSettle env job k
               else ask in_status (\<lambda>r. case r of
                  Inl _ \<Rightarrow> k (requeue minute)
                | Inr None \<Rightarrow> k (requeue (requeueDelay env 0))
                | Inr (Some status) \<Rightarrow>
                    persistProviderOutputRef job (ps_ProviderOutputRef status) (\<lambda>r. case r of
                       Inl e \<Rightarrow> k (Inl e)
                     | Inr job \<Rightarrow> follow_status env job status k))))"
    using go goes_on_True [OF k] by (auto split: if_split)
qed

lemma safe_PipelineProcess:
  assumes w: "b0 = b \<Longrightarrow> r = Worker" and k: "\<And>x. safe b r (\<lambda>db. True) (k x)"
  shows "safe b r (\<lambda>db. True) (PipelineProcess env b0 k)"
proof -
  have settle: "safe b r (\<lambda>db. True) (Settle env b0 (\<lambda>r. case r of
      Inl e \<Rightarrow>
        if e = ErrBatchImageSettlementBillingFailed
        then get_job b0 (\<lambda>r. case r of
           Inr updatedJob \<Rightarrow> if IsTerminalBatchImageJobStatus (bj_Status updatedJob) then k terminal else k (requeue minute)
         | Inl _ \<Rightarrow> k (requeue minute))
        else k (Inl e)
    | Inr _ \<Rightarrow> k terminal))"
    by (rule safe_Settle [OF w]) (auto intro!: k safe_get_job_True split: sum.split)
  show ?thesis
    unfolding PipelineProcess_def
    by (rule safe_get_job_True) (auto intro!: k settle safe_ProviderProcess [OF w k] split: sum.split)
qed

end
