(* ===== verification/Batch_Bystanders.thy ===== *)
theory Batch_Bystanders
  imports Batch_Process_Safe
begin

text \<open>Cancelling, recovery, deletion and cleanup keep the invariant of every batch, whoever runs them.\<close>

section \<open>Updates of other columns\<close>

definition quiet :: "batch_db \<Rightarrow> batch_db \<Rightarrow> bool" where
  "quiet db db' \<longleftrightarrow> (\<exists>b0 g. row_op b0 g db db' \<and> (\<forall>j. progress (g j) = progress j))"

lemma quiet_update:
  assumes "\<And>j. terms (f j) = terms j" and "\<And>j. progress (f j) = progress j"
  shows "quiet db (snd (update_jobs b0 cond f db))"
proof -
  have "row_op b0 (\<lambda>j. if cond j then f j else j) db (snd (update_jobs b0 cond f db))"
    by (rule row_op_update) (rule assms(1))
  moreover have "progress (if cond j then f j else j) = progress j" for j using assms(2) by simp
  ultimately show ?thesis unfolding quiet_def by blast
qed

lemma quiet_affected: "quiet db (snd x) \<Longrightarrow> quiet db (snd (affected_or e b0 ev x))"
  unfolding quiet_def affected_or_def using row_op_event by (cases "fst x = 0") fastforce+

lemma quiet_ops:
  "quiet db (TouchBatchImageJobSubmitting b0 now db)"
  "quiet db (snd (MarkBatchImageInputDeleted b0 now db))"
  "quiet db (snd (MarkBatchImageDownloaded b0 now db))"
  "quiet db (snd (MarkBatchImageJobUserDeleted u a b0 now db))"
  unfolding TouchBatchImageJobSubmitting_def MarkBatchImageInputDeleted_def MarkBatchImageDownloaded_def
    MarkBatchImageJobUserDeleted_def
  by (intro quiet_affected quiet_update; simp add: terms_def progress_def)+

lemma safe_quiet_True:
  assumes "\<And>i db. quiet db (snd (f i db))" and "\<And>x. safe b r (\<lambda>db. True) (k x)"
  shows "safe b r (\<lambda>db. True) (repo c lost f k)"
proof (rule safe_step)
  fix i db
  assume h: "batch_inv b db"
  obtain b0 g where op: "row_op b0 g db (snd (f i db))" and g: "\<And>j. progress (g j) = progress j"
    using assms(1) unfolding quiet_def by blast
  have t: "terms (g j) = terms j" for j using op by (simp add: row_op_def)
  show "(batch_inv b (snd (f i db)) \<and> guar b r db (snd (f i db))) \<and> True"
    using row_op_ok [OF op h] row_ok_quiet [OF h] t g by blast
qed (use assms(2) in simp_all)

lemma safe_event_True:
  assumes "\<And>x. safe b r (\<lambda>db. True) (k x)"
  shows "safe b r (\<lambda>db. True) (append_event_call b1 ev k)"
  unfolding append_event_call_def
proof (rule safe_quiet_True)
  show "quiet db (snd (None, append_event b1 ev db))" for db
    unfolding quiet_def using row_op_event [OF row_op_same] by (intro exI [of _ b1] exI [of _ id]) simp
qed (rule assms)

lemma goes_on_if:
  assumes "c \<Longrightarrow> \<exists>Q. stable b r Q \<and> Q db \<and> safe b r Q p" and "\<not> c \<Longrightarrow> \<exists>Q. stable b r Q \<and> Q db \<and> safe b r Q q"
  shows "\<exists>Q. stable b r Q \<and> Q db \<and> safe b r Q (if c then p else q)"
  using assms by (cases c) simp_all

lemma safe_get_owned_job:
  assumes "stable b r P" and "\<And>e. safe b r P (k (Inl e))"
    and "\<And>db j. batch_inv b db \<Longrightarrow> job_of db b0 = Some j \<Longrightarrow> P db \<Longrightarrow> \<exists>Q. stable b r Q \<and> Q db \<and> safe b r Q (k (Inr j))"
  shows "safe b r P (get_owned_job u a b0 k)"
  unfolding get_owned_job_def
proof (rule safe_read)
  show "stable b r P" and "safe b r P (k (Inl ErrOther))" by (rule assms)+
  fix i db
  assume h: "batch_inv b db" "P db"
  consider e where "GetBatchImageJobByBatchIDForOwner u a b0 db = Inl e"
    | j where "GetBatchImageJobByBatchIDForOwner u a b0 db = Inr j" "job_of db b0 = Some j"
    by (cases "GetBatchImageJobByBatchIDForOwner u a b0 db")
       (auto simp: GetBatchImageJobByBatchIDForOwner_def found_def split: option.splits if_splits)
  then show "\<exists>Q. stable b r Q \<and> Q db \<and> safe b r Q (k (GetBatchImageJobByBatchIDForOwner u a b0 db))"
    using assms h by cases auto
qed

lemma safe_get_owned_job_True:
  assumes "\<And>x. safe b r (\<lambda>db. True) (k x)"
  shows "safe b r P (get_owned_job u a b0 k)"
proof (rule safe_True, rule safe_get_owned_job)
  fix db j
  show "\<exists>Q. stable b r Q \<and> Q db \<and> safe b r Q (k (Inr j))" by (rule goes_on_True [OF assms])
qed (simp_all add: assms)

section \<open>Cancelling\<close>

lemma safe_enqueueBillingRetry:
  assumes "safe b r (\<lambda>db. True) p"
  shows "safe b r (\<lambda>db. True) (enqueueBillingRetry b0 p)"
  unfolding enqueueBillingRetry_def
  by (rule safe_ask) (use assms in \<open>auto split: option.split intro!: safe_event_True\<close>)

lemma safe_cancel_release:
  assumes "\<And>x. safe b r (\<lambda>db. True) (k x)"
  shows "safe b r (knows b j is_ended) (cancel_release j k)"
  unfolding cancel_release_def
  by (rule safe_release_ended, rule safe_True) (use assms in \<open>auto split: option.split intro!: safe_enqueueBillingRetry\<close>)

lemma knows_moved_ended:
  assumes op: "row_op (bj_BatchID j) g db db'" and copy: "has_copy j db" and g: "\<And>j1. job_of db (bj_BatchID j) = Some j1 \<Longrightarrow> ended (g j1)"
  shows "knows b j is_ended db'"
proof -
  obtain j1 where "job_of db (bj_BatchID j) = Some j1" "terms j1 = terms j" using copy by (auto simp: has_copy_def)
  then have "job_of db' (bj_BatchID j) = Some (g j1)" "terms (g j1) = terms j" "ended (g j1)"
    using op g by (auto simp: row_op_def)
  then show ?thesis by (auto simp: knows_def has_copy_def is_ended_def)
qed

lemma safe_Cancel:
  assumes k: "\<And>x. safe b r (\<lambda>db. True) (k x)"
  shows "safe b r (\<lambda>db. True) (Cancel env owner b0 k)"
proof -
  have k': "safe b r P (k x)" for x P by (rule safe_True [OF k])
  have again: "safe b r P (get_owned_job u a b1 k)" for P u a b1 by (rule safe_get_owned_job_True [OF k])
  have release: "safe b r (knows b j is_ended) (cancel_release j (\<lambda>err. case err of Some e \<Rightarrow> k (Inl e) | None \<Rightarrow> p))"
    if "safe b r (\<lambda>db. True) p" for j p
    by (rule safe_cancel_release) (use k that in \<open>auto split: option.split\<close>)
  have upstream: "safe b r (\<lambda>db. True) (ask in_account (\<lambda>r. case r of
                Inl _ \<Rightarrow> k (Inl ErrBatchImageCancelFailed)
              | Inr _ \<Rightarrow> ask in_cancel (\<lambda>err. case err of
                  Some _ \<Rightarrow> k (Inl ErrBatchImageCancelFailed)
                | None \<Rightarrow> append_event_call b1 ''job_cancel_requested'' (\<lambda>_.
                    ask in_enqueue (\<lambda>err.
                      if err \<noteq> None \<and> err \<noteq> Some ErrBatchImageAlreadyQueued then k (Inl ErrBatchImageCancelFailed)
                      else get_owned_job (ow_UserID owner) (ow_APIKeyID owner) b0 k)))))" for b1
    by (auto intro!: safe_ask k again safe_event_True split: sum.split option.split)
  have cancel: "safe b r (knows b j anything) (transition (bj_BatchID j) Cancelled ''job_cancelled'' None None (\<lambda>err. case err of
             Some e \<Rightarrow> k (Inl e)
           | None \<Rightarrow> cancel_release j (\<lambda>err. case err of
               Some e \<Rightarrow> k (Inl e)
             | None \<Rightarrow> get_owned_job (ow_UserID owner) (ow_APIKeyID owner) b0 k)))" for j
  proof (rule safe_transition [where Q = "knows b j is_ended"])
    show "knows b j is_ended db'" if "knows b j anything db" "row_op (bj_BatchID j) g db db'" "\<And>j. bj_Status (g j) = Cancelled"
      for db db' g using that by (intro knows_moved_ended [OF that(2) knows_copy]) (simp_all add: ended_def)
  qed (use k' release [OF again] in \<open>auto simp: may_transition_def\<close>)
  show ?thesis
    unfolding Cancel_def
  proof (rule safe_get_owned_job)
    fix db j
    assume j: "job_of db b0 = Some j"
    have "\<exists>Q. stable b r Q \<and> Q db \<and> safe b r Q (cancel_release j (\<lambda>err. case err of Some e \<Rightarrow> k (Inl e) | None \<Rightarrow> k (Inr j)))"
      if "bj_Status j = Failed \<or> bj_Status j = Cancelled"
      by (rule goes_on [OF _ knows_read [OF j] release [OF k]]) (use that in \<open>auto simp: is_ended_def ended_def\<close>)
    note ended = this and open_job = goes_on [OF _ knows_read [OF j] cancel [of j]]
    show "\<exists>Q. stable b r Q \<and> Q db \<and> safe b r Q (case Inr j of Inl e \<Rightarrow> k (Inl e) | Inr job \<Rightarrow>
          if isBatchImageProcessorDoneStatus (bj_Status job) then
            (if bj_Status job = Failed \<or> bj_Status job = Cancelled
             then cancel_release job (\<lambda>err. case err of Some e \<Rightarrow> k (Inl e) | None \<Rightarrow> k (Inr job))
             else k (Inr job))
          else if bj_ProviderJobName job \<noteq> None \<and> batchImageDerefString (bj_ProviderJobName job) \<noteq> [] then
            (if \<not> be_known_provider env (bj_Provider job) then k (Inl ErrBatchImageUnsupportedProvider)
             else if bj_AccountID job = None then k (Inl ErrBatchImageCancelFailed)
             else ask in_account (\<lambda>r. case r of
                Inl _ \<Rightarrow> k (Inl ErrBatchImageCancelFailed)
              | Inr _ \<Rightarrow> ask in_cancel (\<lambda>err. case err of
                  Some _ \<Rightarrow> k (Inl ErrBatchImageCancelFailed)
                | None \<Rightarrow> append_event_call (bj_BatchID job) ''job_cancel_requested'' (\<lambda>_.
                    ask in_enqueue (\<lambda>err.
                      if err \<noteq> None \<and> err \<noteq> Some ErrBatchImageAlreadyQueued then k (Inl ErrBatchImageCancelFailed)
                      else get_owned_job (ow_UserID owner) (ow_APIKeyID owner) b0 k)))))
          else transition (bj_BatchID job) Cancelled ''job_cancelled'' None None (\<lambda>err. case err of
             Some e \<Rightarrow> k (Inl e)
           | None \<Rightarrow> cancel_release job (\<lambda>err. case err of
               Some e \<Rightarrow> k (Inl e)
             | None \<Rightarrow> get_owned_job (ow_UserID owner) (ow_APIKeyID owner) b0 k)))"
      unfolding sum.case
      by (intro goes_on_if goes_on_True [OF upstream] goes_on_True [OF k] open_job ended) (simp_all add: anything_def)
  qed (use k in simp_all)
qed

lemma safe_DeleteRecord:
  assumes k: "\<And>x. safe b r (\<lambda>db. True) (k x)"
  shows "safe b r (\<lambda>db. True) (DeleteRecord owner b0 k)"
  unfolding DeleteRecord_def
  by (rule safe_get_owned_job_True) (auto intro!: k safe_quiet_True quiet_ops split: sum.split)

lemma safe_MarkDownloaded:
  assumes k: "\<And>x. safe b r (\<lambda>db. True) (k x)"
  shows "safe b r (\<lambda>db. True) (MarkDownloaded owner b0 k)"
  unfolding MarkDownloaded_def
  by (rule safe_get_owned_job_True) (auto intro!: k safe_quiet_True quiet_ops split: sum.split)

lemma safe_submit_heartbeat:
  assumes "safe b r (\<lambda>db. True) p"
  shows "safe b r (\<lambda>db. True) (submit_heartbeat b0 p)"
  unfolding submit_heartbeat_def by (rule safe_quiet_True) (simp_all add: quiet_ops assms)

section \<open>Cleanup\<close>

lemma terminal_row_ok:
  assumes "batch_inv b db" and "job_of db b = Some j" and "terms j' = terms j" and "IsTerminalBatchImageJobStatus (bj_Status j)"
    and "bj_Status j' = bj_Status j \<or> bj_Status j = Completed \<and> bj_Status j' = OutputDeleted"
  shows "row_ok r db j j'"
proof -
  have st: "status_ok db j" using inv_status assms(1,2) by blast
  note t = terms_claims [OF assms(3)] and h = terms_hold [OF assms(3)]
  have b: "bj_BatchID j' = bj_BatchID j" using assms(3) by (simp add: terms_def)
  show ?thesis
    using st assms(4,5) t h b
    by (cases "bj_Status j")
       (auto simp: row_ok_def status_ok_def settled_phase_def early_def ended_def isBatchImageSettlementRetryExhausted_def
          IsTerminalBatchImageJobStatus_def simp del: split_paired_All split_paired_Ex)
qed

lemma safe_terminal_step:
  assumes k: "\<And>x. safe b r (knows b j is_terminal) (k x)"
    and op: "\<And>i db. \<exists>g. row_op (bj_BatchID j) g db (snd (f i db)) \<and>
      (\<forall>j. bj_Status (g j) = bj_Status j \<or> bj_Status j = Completed \<and> bj_Status (g j) = OutputDeleted)"
  shows "safe b r (knows b j is_terminal) (repo c lost f k)"
proof (rule safe_step [OF _ _ k])
  show "stable b r (knows b j is_terminal)" by simp
  fix i db
  assume h: "batch_inv b db" "knows b j is_terminal db"
  obtain g where g: "row_op (bj_BatchID j) g db (snd (f i db))"
    "\<And>j. bj_Status (g j) = bj_Status j \<or> bj_Status j = Completed \<and> bj_Status (g j) = OutputDeleted" using op by blast
  have t: "terms (g j) = terms j" for j using g(1) by (simp add: row_op_def)
  have "batch_inv b (snd (f i db)) \<and> guar b r db (snd (f i db))"
  proof (rule row_op_ok [OF g(1) h(1)])
    fix j' assume "bj_BatchID j = b" "job_of db b = Some j'"
    then show "row_ok r db j' (g j')"
      using terminal_row_ok [OF h(1) _ t _ g(2)] h(2) by (auto simp: knows_def is_terminal_def)
  qed
  moreover have "knows b j is_terminal (snd (f i db))"
  proof (rule knows_row_op [OF g(1) h(2)])
    fix j1 assume "is_terminal db j1"
    then show "is_terminal (snd (f i db)) (if bj_BatchID j = b then g j1 else j1)"
      using g(2) [of j1] by (auto simp: is_terminal_def IsTerminalBatchImageJobStatus_def)
  qed
  ultimately show "(batch_inv b (snd (f i db)) \<and> guar b r db (snd (f i db))) \<and> knows b j is_terminal (snd (f i db))" by blast
qed

lemma cleanup_failure_row:
  "\<exists>g. row_op b0 g db (RecordBatchImageCleanupFailure b0 code msg now db) \<and>
    (\<forall>j. bj_Status (g j) = bj_Status j \<or> bj_Status j = Completed \<and> bj_Status (g j) = OutputDeleted)"
proof -
  let ?f = "\<lambda>j. j\<lparr>bj_LastErrorCode := Some code, bj_LastErrorMessage := Some msg,
              bj_RetryCount := bj_RetryCount j + 1, bj_UpdatedAt := now\<rparr>"
  have "row_op b0 (\<lambda>j. if True then ?f j else j) db (append_event b0 ''output_cleanup_failed'' (snd (update_jobs b0 (\<lambda>_. True) ?f db)))"
    by (rule row_op_event, rule row_op_update) (simp add: terms_def)
  then show ?thesis by (intro exI [of _ ?f]) (simp add: RecordBatchImageCleanupFailure_def)
qed

lemma affected_row: "row_op b0 g db (snd x) \<Longrightarrow> row_op b0 g db (snd (affected_or e b1 ev x))"
  using row_op_event by (simp add: affected_or_def)

lemma cleanup_row:
  "\<exists>g. row_op b0 g db (snd ((if target = CleanupTargetInput then MarkBatchImageInputDeleted b0 now
       else MarkBatchImageOutputDeleted b0 now) db)) \<and>
    (\<forall>j. bj_Status (g j) = bj_Status j \<or> bj_Status j = Completed \<and> bj_Status (g j) = OutputDeleted)"
proof (cases target)
  case CleanupTargetInput
  let ?f = "\<lambda>j. j\<lparr>bj_InputDeletedAt := first_time True now (bj_InputDeletedAt j), bj_UpdatedAt := now,
              bj_Version := bj_Version j + 1\<rparr>"
  have "row_op b0 (\<lambda>j. if True then ?f j else j) db (snd (MarkBatchImageInputDeleted b0 now db))"
    unfolding MarkBatchImageInputDeleted_def by (rule affected_row, rule row_op_update) (simp add: terms_def)
  then show ?thesis using CleanupTargetInput by (intro exI [of _ ?f]) simp
next
  case CleanupTargetOutput
  let ?f = "\<lambda>j. j\<lparr>bj_Status := (if bj_Status j = Completed then OutputDeleted else bj_Status j),
              bj_OutputDeletedAt := first_time True now (bj_OutputDeletedAt j),
              bj_FinishedAt := first_time (bj_Status j = Completed) now (bj_FinishedAt j),
              bj_UpdatedAt := now, bj_Version := bj_Version j + 1\<rparr>"
  have "row_op b0 (\<lambda>j. if True then ?f j else j) db (snd (MarkBatchImageOutputDeleted b0 now db))"
    unfolding MarkBatchImageOutputDeleted_def by (rule affected_row, rule row_op_update) (simp add: terms_def)
  then show ?thesis using CleanupTargetOutput by (intro exI [of _ ?f]) simp
qed

lemma safe_callProviderCleanup:
  assumes "stable b r P" and "\<And>x. safe b r P (k x)"
  shows "safe b r P (callProviderCleanup env up j k)"
  unfolding callProviderCleanup_def
  by (auto intro!: assms safe_ask [OF assms(1)] split: sum.split option.split)

lemma safe_cleanupJob:
  assumes k: "\<And>x. safe b r (\<lambda>db. True) (k x)"
  shows "safe b r (knows b j is_terminal) (cleanupJob env up j target k)"
proof (cases "cleanup_refused j target")
  case (Some x)
  then show ?thesis using safe_True [OF k] by (simp add: cleanupJob_def)
next
  case None
  have k': "safe b r P (k x)" for x P by (rule safe_True [OF k])
  have st: "stable b r (knows b j is_terminal)" by simp
  have event: "safe b r (knows b j is_terminal) (append_event_call b1 ev (\<lambda>_. p))" if "safe b r (knows b j is_terminal) p"
    for p :: "'a prog" and b1 ev
    by (rule safe_event [OF st that]) (rule knowledge_quiet(3))
  have failed: "safe b r (knows b j is_terminal) (repo PlainCall () (\<lambda>i db. ((), RecordBatchImageCleanupFailure (bj_BatchID j) code msg
      (in_now i) db)) (\<lambda>_. append_event_call (bj_BatchID j) ev (\<lambda>_. k x)))" for code msg ev x
    by (rule safe_terminal_step) (use cleanup_failure_row in \<open>auto intro!: event k'\<close>)
  have completed: "safe b r (knows b j is_terminal) (repo PlainCall (Some ErrOther)
      (\<lambda>i. if target = CleanupTargetInput then MarkBatchImageInputDeleted (bj_BatchID j) (in_now i)
            else MarkBatchImageOutputDeleted (bj_BatchID j) (in_now i)) k)"
    by (rule safe_terminal_step [OF k' cleanup_row])
  show ?thesis
    unfolding cleanupJob_def None option.case(1)
  proof (rule event, rule safe_callProviderCleanup [OF st])
    fix x :: "go_error option"
    show "safe b r (knows b j is_terminal) (case x of
               Some e \<Rightarrow>
                 repo PlainCall () (\<lambda>i db. ((), RecordBatchImageCleanupFailure (bj_BatchID j) (cleanupFailureCode e)
                     (sanitizeBatchImagePublicMessage (snd e)) (in_now i) db))
                   (\<lambda>_. append_event_call (bj_BatchID j)
                      (if target = CleanupTargetInput then ''input_cleanup_failed'' else ''output_cleanup_failed'')
                      (\<lambda>_. k (Some (if go_trim_space (fst e) = ''VERTEX_UNSAFE_CLEANUP_PATH'' then ErrBatchImageCleanupUnsafePath
                                     else ErrBatchImageProviderCleanupFailed))))
             | None \<Rightarrow>
                 repo PlainCall (Some ErrOther)
                   (\<lambda>i. if target = CleanupTargetInput then MarkBatchImageInputDeleted (bj_BatchID j) (in_now i)
                         else MarkBatchImageOutputDeleted (bj_BatchID j) (in_now i)) k)"
      by (cases x) (simp_all only: option.case failed completed)
  qed
qed

lemma safe_cleanup_read:
  assumes k: "\<And>x. safe b r (\<lambda>db. True) (k x)" and j: "job_of db b0 = Some j"
  shows "\<exists>Q. stable b r Q \<and> Q db \<and> safe b r Q (cleanupJob env up j target k)"
proof (cases "cleanup_refused j target")
  case (Some x)
  then have e: "cleanupJob env up j target k = k x" by (simp add: cleanupJob_def)
  show ?thesis unfolding e by (rule goes_on_True [OF k])
next
  case None
  then have "IsTerminalBatchImageJobStatus (bj_Status j)"
    by (auto simp: cleanup_refused_def IsTerminalBatchImageJobStatus_def split: CleanupTarget.splits if_splits)
  then show ?thesis
    by (intro goes_on [OF _ knows_read [OF j] safe_cleanupJob [OF k]]) (simp_all add: is_terminal_def)
qed

lemma safe_CleanupInput:
  assumes k: "\<And>x. safe b r (\<lambda>db. True) (k x)"
  shows "safe b r (\<lambda>db. True) (CleanupInput env up b0 k)"
  unfolding CleanupInput_def
  by (rule safe_get_job) (use k safe_cleanup_read [of b r k] in auto)

lemma safe_CleanupOutput:
  assumes k: "\<And>x. safe b r (\<lambda>db. True) (k x)"
  shows "safe b r (\<lambda>db. True) (CleanupOutput env up b0 k)"
  unfolding CleanupOutput_def
  by (rule safe_get_job) (use k safe_cleanup_read [of b r k] in auto)

lemma safe_DeleteOutputsForOwner:
  assumes k: "\<And>x. safe b r (\<lambda>db. True) (k x)"
  shows "safe b r (\<lambda>db. True) (DeleteOutputsForOwner env up owner b0 k)"
  unfolding DeleteOutputsForOwner_def
proof (rule safe_get_owned_job)
  fix db j
  assume j: "job_of db b0 = Some j"
  let ?rest = "append_event_call (bj_BatchID j) ''manual_output_delete_requested'' (\<lambda>_.
            cleanupJob env up j CleanupTargetOutput (\<lambda>err. case err of
               Some e \<Rightarrow> k (Inl e)
             | None \<Rightarrow> get_owned_job (ow_UserID owner) (ow_APIKeyID owner) b0 k))"
  have "safe b r (knows b j is_terminal) ?rest"
    by (rule safe_event, simp, rule safe_cleanupJob)
       (use k safe_get_owned_job_True [OF k] knowledge_quiet(3) in \<open>auto split: option.split\<close>)
  then have rest: "\<exists>Q. stable b r Q \<and> Q db \<and> safe b r Q ?rest" if "bj_Status j = Completed"
    using that by (intro goes_on [of b r "knows b j is_terminal"] knows_read [OF j])
      (auto simp: is_terminal_def IsTerminalBatchImageJobStatus_def)
  show "\<exists>Q. stable b r Q \<and> Q db \<and> safe b r Q (case Inr j of Inl e \<Rightarrow> k (Inl e) | Inr job \<Rightarrow>
          if bj_Status job = OutputDeleted \<or> bj_OutputDeletedAt job \<noteq> None then k (Inr job)
          else if bj_Status job \<noteq> Completed then k (Inl ErrBatchImageOutputDeleteNotReady)
          else append_event_call (bj_BatchID job) ''manual_output_delete_requested'' (\<lambda>_.
            cleanupJob env up job CleanupTargetOutput (\<lambda>err. case err of
               Some e \<Rightarrow> k (Inl e)
             | None \<Rightarrow> get_owned_job (ow_UserID owner) (ow_APIKeyID owner) b0 k)))"
    unfolding sum.case by (intro goes_on_if goes_on_True [OF k] rest) simp
qed (use k in simp_all)

section \<open>Recovery\<close>

lemma row_op_copy:
  assumes op: "row_op b0 g db db'" and copy: "has_copy j db"
  shows "has_copy j db'"
proof -
  obtain j1 where "job_of db (bj_BatchID j) = Some j1" "terms j1 = terms j" using copy by (auto simp: has_copy_def)
  then have "job_of db' (bj_BatchID j) = Some (if bj_BatchID j = b0 then g j1 else j1)"
    "terms (if bj_BatchID j = b0 then g j1 else j1) = terms j" using op by (auto simp: row_op_def)
  then show ?thesis unfolding has_copy_def by blast
qed

lemma fail_stale_row:
  assumes "batch_inv b db" and "FailStaleUnsubmittedBatchImageJob (bj_BatchID j) cutoff code msg lost now db = (x, db')" and "has_copy j db"
  shows "batch_inv b db' \<and> guar b r db db'" and "(\<And>j'. has_copy j' db \<Longrightarrow> has_copy j' db')"
    and "fst x \<Longrightarrow> knows b j is_ended db'"
proof -
  let ?c = "\<lambda>j. bj_Status j \<in> {Created, Uploading} \<and> bj_ProviderJobName j = None \<and> bj_UpdatedAt j \<le> cutoff"
  let ?f = "\<lambda>j. j\<lparr>bj_Status := Failed, bj_LastErrorCode := Some code, bj_LastErrorMessage := Some msg,
               bj_FinishedAt := first_time True now (bj_FinishedAt j), bj_UpdatedAt := now,
               bj_Version := bj_Version j + 1\<rparr>"
  let ?g = "\<lambda>j. if ?c j then ?f j else j"
  let ?b = "bj_BatchID j"
  have t: "terms (?f j) = terms j" for j by (simp add: terms_def)
  have op: "row_op ?b ?g db (snd (update_jobs ?b ?c ?f db))" by (rule row_op_update) (rule t)
  have op': "row_op ?b ?g db db'"
    using assms(2) op row_op_event [OF op]
    by (auto simp: FailStaleUnsubmittedBatchImageJob_def case_prod_beta split: if_splits)
  show "batch_inv b db' \<and> guar b r db db'"
  proof (rule row_op_ok [OF op' assms(1)])
    fix j1 assume "?b = b" and j1: "job_of db b = Some j1"
    show "row_ok r db j1 (?g j1)"
    proof (cases "?c j1")
      case True
      then have "row_ok r db j1 (?f j1)"
        by (intro transition_row_ok [OF assms(1) j1, of Failed])
           (auto simp: CanTransitionBatchImageJob_def IsTerminalBatchImageJobStatus_def may_transition_def t)
      then show ?thesis using True by simp
    next
      case False
      have "row_ok r db j1 j1" by (rule row_ok_quiet [OF assms(1) j1]) simp_all
      then show ?thesis using False by (simp only: if_False)
    qed
  qed
  show "has_copy j' db'" if "has_copy j' db" for j'
    by (rule row_op_copy [OF op' that])
  show "knows b j is_ended db'" if "fst x"
  proof (rule knows_moved_ended [OF op' assms(3)])
    fix j1 assume j1: "job_of db ?b = Some j1"
    have "fst (update_jobs ?b ?c ?f db) \<noteq> 0"
      using that assms(2) by (auto simp: FailStaleUnsubmittedBatchImageJob_def case_prod_beta split: if_splits)
    then obtain j2 where j2: "j2 \<in> set (db_jobs db)" "bj_BatchID j2 = ?b" "?c j2"
      by (auto simp: update_jobs_def Let_def filter_empty_conv)
    have "j1 \<in> set (db_jobs db)" "bj_BatchID j1 = ?b" using j1 by (auto simp: job_of_def find_Some_iff)
    then have "j1 = j2"
      using j2 assms(1) by (auto simp: batch_inv_def distinct_map inj_on_def)
    then show "ended (?g j1)" using j2 by (simp add: ended_def)
  qed
qed

lemma has_copies_stable: "stable b r (\<lambda>db. \<forall>j\<in>set js. has_copy j db)"
  unfolding stable_def has_copy_def using guar_job by (metis (no_types, lifting))

lemma release_stale_release:
  assumes k: "\<And>x. safe b r (\<lambda>db. \<forall>j\<in>set js. has_copy j db) (k x)"
  shows "safe b r (\<lambda>db. knows b j is_ended db \<and> (\<forall>j\<in>set js. has_copy j db)) (releaseBatchImageBalanceHold (j\<lparr>bj_Status := Failed\<rparr>) h k)"
proof (rule safe_release)
  let ?P = "\<lambda>db. knows b j is_ended db \<and> (\<forall>j\<in>set js. has_copy j db)"
  let ?Q = "\<lambda>db. \<forall>j\<in>set js. has_copy j db"
  have "stable b r (knows b j is_ended)" by simp
  then show "stable b r ?P" using has_copies_stable [of b r js] unfolding stable_def by blast
  show "stable b r ?Q" by (rule has_copies_stable)
  show "safe b r ?Q (k x)" for x by (rule k)
  show "has_copy (j\<lparr>bj_Status := Failed\<rparr>) db" if "?P db" for db
    using that by (simp add: knows_def has_copy_def terms_def)
  show "capture_claim db j' = None \<and> (early j' \<or> isBatchImageSettlementRetryExhausted j') \<and> (r \<noteq> Submitter \<longrightarrow> early j' \<longrightarrow> ended j')"
    if "batch_inv b db" "?P db" "bj_BatchID (j\<lparr>bj_Status := Failed\<rparr>) = b" "job_of db b = Some j'" for db j'
  proof -
    have e: "ended j'" using that by (simp add: knows_def is_ended_def)
    then show ?thesis using ended_uncaptured [OF that(1,4) e] by (auto simp: ended_def early_def)
  qed
  show "?Q db'" if "?P db" "job_of db' = job_of db" for db db' using that by (simp add: has_copy_def)
qed

lemma safe_release_stale:
  assumes k: "\<And>x. safe b r (\<lambda>db. True) (k x)"
  shows "safe b r (\<lambda>db. \<forall>j\<in>set jobs. has_copy j db) (release_stale cutoff jobs n e k)"
proof (induction jobs arbitrary: n e)
  case Nil
  then show ?case using safe_True [OF k] by simp
next
  case (Cons j jobs)
  let ?Q = "\<lambda>db. \<forall>j\<in>set jobs. has_copy j db"
  let ?go = "\<lambda>answer. case answer of
              (False, Some e) \<Rightarrow> release_stale cutoff jobs n (Some e) k
            | (False, None) \<Rightarrow> release_stale cutoff jobs n e k
            | (True, _) \<Rightarrow>
                releaseBatchImageBalanceHold (j\<lparr>bj_Status := Failed\<rparr>) (batchImageDerefString (bj_RequestHash j))
                  (\<lambda>err. case err of
                     Some e \<Rightarrow> ask in_enqueue (\<lambda>_. release_stale cutoff jobs n (Some e) k)
                   | None \<Rightarrow> release_stale cutoff jobs (n + 1) e k)"
  have st: "stable b r ?Q" by (rule has_copies_stable)
  have no: "safe b r ?Q (?go (False, x))" for x using Cons.IH by (cases x) simp_all
  have yes: "safe b r (\<lambda>db. knows b j is_ended db \<and> ?Q db) (?go (True, x))" for x
    by (simp, rule release_stale_release) (auto intro!: safe_ask st Cons.IH split: option.split)
  have sty: "stable b r (\<lambda>db. knows b j is_ended db \<and> ?Q db)"
    using st stable_anyone(2) [of b r j] unfolding stable_def by blast
  show ?case
    unfolding release_stale.simps Let_def
  proof (rule safe_Act)
    fix i db
    assume h: "batch_inv b db" "\<forall>j\<in>set (j # jobs). has_copy j db"
    let ?r = "FailStaleUnsubmittedBatchImageJob (bj_BatchID j) cutoff ''SUBMIT_STALE_BEFORE_PROVIDER''
             ''batch image submission did not reach provider before recovery cutoff'' (in_fault i = EventLost) (in_now i) db"
    obtain x db' where r: "?r = (x, db')" by fastforce
    have c: "has_copy j db" using h(2) by simp
    note row = fail_stale_row [OF h(1) r c]
    have q: "?Q db'" using h(2) row(2) by simp
    have go: "\<exists>Q. stable b r Q \<and> Q db' \<and> safe b r Q (?go x)"
    proof (cases "fst x")
      case True
      then have x: "x = (True, snd x)" by (cases x) simp
      show ?thesis by (rule goes_on [OF sty]) (use row(3) [OF True] q yes [of "snd x"] x in auto)
    next
      case False
      then have x: "x = (False, snd x)" by (cases x) simp
      show ?thesis by (rule goes_on [OF st q]) (use no [of "snd x"] x in simp)
    qed
    show "batch_inv b (snd (case in_fault i of FailBefore \<Rightarrow> (?go (False, Some ErrOther), db) | FailAfter \<Rightarrow> (?go (False, Some ErrOther), snd ?r)
        | _ \<Rightarrow> (?go (fst ?r), snd ?r))) \<and>
      guar b r db (snd (case in_fault i of FailBefore \<Rightarrow> (?go (False, Some ErrOther), db) | FailAfter \<Rightarrow> (?go (False, Some ErrOther), snd ?r)
        | _ \<Rightarrow> (?go (fst ?r), snd ?r))) \<and>
      (\<exists>Q. stable b r Q \<and> Q (snd (case in_fault i of FailBefore \<Rightarrow> (?go (False, Some ErrOther), db) | FailAfter \<Rightarrow> (?go (False, Some ErrOther), snd ?r)
        | _ \<Rightarrow> (?go (fst ?r), snd ?r))) \<and>
        safe b r Q (fst (case in_fault i of FailBefore \<Rightarrow> (?go (False, Some ErrOther), db) | FailAfter \<Rightarrow> (?go (False, Some ErrOther), snd ?r)
        | _ \<Rightarrow> (?go (fst ?r), snd ?r))))"
      unfolding r fst_conv snd_conv
      using row(1) go goes_on [OF st q no [of "Some ErrOther"]] goes_on [OF st _ no [of "Some ErrOther"], of db] h guar_refl
      by (cases "in_fault i") simp_all
  qed
qed

lemma insert_by_update_set [simp]: "set (insert_by_update j js) = insert j (set js)"
  by (induction js) auto

lemma stale_listed:
  assumes "batch_inv b db" and "j \<in> set (ListStaleUnsubmittedBatchImageJobs cutoff limit db)"
  shows "has_copy j db"
proof -
  have "set (foldl (\<lambda>js j. insert_by_update j js) acc xs) = set acc \<union> set xs" for acc xs
    by (induction xs arbitrary: acc) auto
  note all = this
  have j: "j \<in> set (db_jobs db)"
    using assms(2) [unfolded ListStaleUnsubmittedBatchImageJobs_def, THEN in_set_takeD] by (simp add: all)
  then obtain j1 where j1: "job_of db (bj_BatchID j) = Some j1"
    unfolding job_of_def by (metis (mono_tags, lifting) find_None_iff not_Some_eq)
  then have "j1 \<in> set (db_jobs db)" "bj_BatchID j1 = bj_BatchID j" by (auto simp: job_of_def find_Some_iff)
  then have "j1 = j" using j assms(1) by (auto simp: batch_inv_def distinct_map inj_on_def)
  then show ?thesis using j1 by (simp add: has_copy_def)
qed

lemma safe_ReleaseStaleUnsubmittedOnce:
  assumes k: "\<And>x. safe b r (\<lambda>db. True) (k x)"
  shows "safe b r (\<lambda>db. True) (ReleaseStaleUnsubmittedOnce staleAfter limit k)"
  unfolding ReleaseStaleUnsubmittedOnce_def Let_def
proof (rule safe_ask, simp, rule safe_read, simp)
  show "safe b r (\<lambda>db. True) (case Inl e of Inl e \<Rightarrow> k (0, Some e) | Inr jobs \<Rightarrow> p jobs)" for e p using k by simp
  fix db cutoff limit assume "batch_inv b db"
  then show "\<exists>Q. stable b r Q \<and> Q db \<and> safe b r Q (case Inr (ListStaleUnsubmittedBatchImageJobs cutoff limit db) of
      Inl e \<Rightarrow> k (0, Some e) | Inr jobs \<Rightarrow> release_stale cutoff jobs 0 None k)"
    unfolding sum.case using stale_listed by (intro goes_on [OF has_copies_stable _ safe_release_stale [OF k]]) blast
qed

end
