(* ===== verification/Batch_Submit_Safe.thy ===== *)
theory Batch_Submit_Safe
  imports Batch_Bystanders
begin

text \<open>A submission keeps the invariant of every batch.\<close>

section \<open>Recording a failed submission\<close>

lemma same_status_row_ok:
  assumes "batch_inv b db" and "job_of db b = Some j" and "terms j' = terms j"
    and "bj_Status j' = bj_Status j" and "bj_Status j \<noteq> Settling"
  shows "row_ok r db j j'"
proof (cases "settled_phase j")
  case True
  then show ?thesis
    using assms terminal_row_ok [OF assms(1-3)] by (auto simp: settled_phase_def IsTerminalBatchImageJobStatus_def)
next
  case False
  then show ?thesis by (rule open_row_ok [OF assms(1-4)])
qed

lemma early_failed_row_ok:
  assumes "batch_inv b db" and "job_of db b = Some j" and "terms j' = terms j" and "bj_Status j' = Failed" and "early j"
  shows "row_ok r db j j'"
proof -
  have st: "status_ok db j" using inv_status assms(1,2) by blast
  note t = terms_claims [OF assms(3)]
  show ?thesis
    using st assms(4,5) t
    by (cases "bj_Status j")
       (simp_all add: row_ok_def status_ok_def settled_phase_def early_def ended_def IsTerminalBatchImageJobStatus_def)
qed

lemma record_failure_row:
  "\<exists>g. row_op b0 g db (RecordBatchImageJobSubmitFailure b0 code msg mark now db) \<and>
    (\<forall>j. bj_Status (g j) = (if mark then Failed else bj_Status j))"
proof -
  let ?f = "\<lambda>j. let status = (if mark then Failed else bj_Status j) in
             j\<lparr>bj_Status := status, bj_LastErrorCode := Some code, bj_LastErrorMessage := Some msg,
               bj_FinishedAt := first_time (status = Failed) now (bj_FinishedAt j), bj_UpdatedAt := now,
               bj_Version := bj_Version j + 1\<rparr>"
  have "row_op b0 (\<lambda>j. if True then ?f j else j) db (append_event b0 (if mark then ''submit_failed'' else ''queue_failed'')
      (snd (update_jobs b0 (\<lambda>_. True) ?f db)))"
    by (rule row_op_event, rule row_op_update) (simp add: terms_def Let_def)
  then show ?thesis
    by (intro exI [of _ ?f]) (simp add: RecordBatchImageJobSubmitFailure_def Let_def)
qed

lemma safe_record_failed:
  assumes w: "bj_BatchID j = b \<Longrightarrow> r = Submitter" and k: "safe b r (\<lambda>db. True) p"
  shows "safe b r (knows b j is_early) (record_submit_failure (bj_BatchID j) code msg True p)"
  unfolding record_submit_failure_def if_True
proof (rule safe_step)
  show "stable b r (knows b j is_early)" by (rule stable_submitter(1) [OF w])
  show "safe b r (knows b j is_early) p" by (rule safe_True [OF k])
  fix i db
  assume h: "batch_inv b db" "knows b j is_early db"
  let ?db = "RecordBatchImageJobSubmitFailure (bj_BatchID j) code msg True (in_now i) db"
  obtain g where g: "row_op (bj_BatchID j) g db ?db" "\<And>j. bj_Status (g j) = Failed"
    using record_failure_row [of "bj_BatchID j" db code msg True "in_now i"] by auto
  have t: "terms (g j) = terms j" for j using g(1) by (simp add: row_op_def)
  have "batch_inv b ?db \<and> guar b r db ?db"
    by (rule row_op_ok [OF g(1) h(1)])
       (use early_failed_row_ok [OF h(1) _ t g(2)] h(2) in \<open>auto simp: knows_def is_early_def\<close>)
  moreover have "knows b j is_early ?db"
    by (rule knows_row_op [OF g(1) h(2)]) (use g(2) in \<open>auto simp: is_early_def early_def\<close>)
  ultimately show "(batch_inv b (snd ((), ?db)) \<and> guar b r db (snd ((), ?db))) \<and> knows b j is_early (snd ((), ?db))" by simp
qed

lemma safe_enqueue_job:
  assumes k: "\<And>x. safe b r (\<lambda>db. True) (k x)"
  shows "safe b r (\<lambda>db. True) (enqueue_job env b0 k)"
proof -
  have "safe b r (\<lambda>db. True) (record_submit_failure b0 code msg False p)" if "safe b r (\<lambda>db. True) p" for code msg p
    unfolding record_submit_failure_def if_False
  proof (rule safe_step)
    fix i db
    assume h: "permitted (QueueFailedCall b0) i db" "batch_inv b db"
    let ?db = "RecordBatchImageJobSubmitFailure b0 code msg False (in_now i) db"
    obtain g where g: "row_op b0 g db ?db" "\<And>j. bj_Status (g j) = bj_Status j"
      using record_failure_row [of b0 db code msg False "in_now i"] by auto
    have t: "terms (g j) = terms j" for j using g(1) by (simp add: row_op_def)
    have "batch_inv b ?db \<and> guar b r db ?db"
      by (rule row_op_ok [OF g(1) h(2)])
         (use same_status_row_ok [OF h(2) _ t g(2)] h(1) in \<open>auto simp: permitted_def\<close>)
    then show "(batch_inv b (snd ((), ?db)) \<and> guar b r db (snd ((), ?db))) \<and> True" by simp
  qed (use that in simp_all)
  note rec = this [OF k]
  show ?thesis
    unfolding enqueue_job_def by (auto intro!: safe_ask k rec split: option.split)
qed

section \<open>Giving up\<close>

lemma is_fresh_early: "knows b j is_fresh db \<Longrightarrow> knows b j is_early db"
  by (erule knows_mono) (simp add: is_fresh_def is_early_def)

lemma is_held_fresh: "knows b j is_held db \<Longrightarrow> knows b j is_fresh db"
  by (erule knows_mono) (simp add: is_held_def)

lemma early_uncaptured: "batch_inv b db \<Longrightarrow> job_of db b = Some j \<Longrightarrow> early j \<Longrightarrow> capture_claim db j = None"
  using inv_status [of b db j] by (auto simp: status_ok_def settled_phase_def early_def)

lemma safe_releaseFailedSubmitHold:
  assumes w: "bj_BatchID j = b \<Longrightarrow> r = Submitter" and k: "\<And>e. safe b r (\<lambda>db. True) (k (Some e))"
    and k': "safe b r (knows b j is_early) (k None)"
  shows "safe b r (knows b j is_early) (releaseFailedSubmitHold env j h k)"
  unfolding releaseFailedSubmitHold_def
proof (rule safe_release)
  have st: "stable b r (knows b j is_early)" by (rule stable_submitter(1) [OF w])
  show "stable b r (knows b j is_early)" and "stable b r (knows b j is_early)" by (rule st)+
  show "safe b r (knows b j is_early) (case x of
        Some e \<Rightarrow> record_submit_failure (bj_BatchID j) ''BILLING_RELEASE_FAILED''
                    (sanitizeBatchImagePublicMessage (be_text env e)) True
                    (enqueueBillingRetry (bj_BatchID j) (k (Some ErrBatchImageBillingHoldFailed)))
      | None \<Rightarrow> k None)" for x
    using k' by (auto split: option.split intro!: safe_record_failed [OF w] safe_enqueueBillingRetry k)
  show "capture_claim db j' = None \<and> (early j' \<or> isBatchImageSettlementRetryExhausted j') \<and> (r \<noteq> Submitter \<longrightarrow> early j' \<longrightarrow> ended j')"
    if "batch_inv b db" "knows b j is_early db" "bj_BatchID j = b" "job_of db b = Some j'" for db j'
    using that w early_uncaptured [OF that(1,4)] by (auto simp: knows_def is_early_def)
  show "knows b j is_early db'" if "knows b j is_early db" "job_of db' = job_of db" for db db'
    using that by (simp add: knows_def has_copy_def is_early_def)
qed (simp add: knows_def)

lemma safe_submit_failed:
  assumes w: "bj_BatchID j = b \<Longrightarrow> r = Submitter" and k: "safe b r (\<lambda>db. True) p"
  shows "safe b r (knows b j is_early) (submit_failed owner j code msg p)"
  unfolding submit_failed_def
proof (rule safe_record_failed [OF w])
  show "safe b r (\<lambda>db. True) (hidePreUpstreamSubmitFailure owner j p)"
    unfolding hidePreUpstreamSubmitFailure_def by (auto intro!: k safe_quiet_True quiet_ops)
qed

lemma safe_abandon:
  assumes w: "bj_BatchID j = b \<Longrightarrow> r = Submitter" and k: "\<And>x. safe b r (\<lambda>db. True) (k x)"
  shows "safe b r (knows b j is_early) (abandon env owner j h code msg e k)"
  unfolding abandon_def
  by (rule safe_releaseFailedSubmitHold [OF w]) (auto intro!: k safe_submit_failed [OF w])

section \<open>The provider's answer\<close>

lemma provider_submit_cases:
  assumes "UpdateBatchImageJobProviderSubmit b0 name inp out now db = (x, db')"
  obtains (refused) e where "x = Some e" "db' = db"
  | (moved) g j where "x = None" "row_op b0 g db db'" "job_of db b0 = Some j" "CanTransitionBatchImageJob (bj_Status j) Submitted"
      "\<And>j. bj_Status (g j) = Submitted"
proof (cases "job_of db b0")
  case None
  then show ?thesis using assms refused by (auto simp: UpdateBatchImageJobProviderSubmit_def)
next
  case (Some j)
  show ?thesis
  proof (cases "CanTransitionBatchImageJob (bj_Status j) Submitted")
    case False
    then show ?thesis using assms refused Some by (auto simp: UpdateBatchImageJobProviderSubmit_def)
  next
    case True
    let ?f = "\<lambda>j. j\<lparr>bj_Status := Submitted, bj_ProviderJobName := Some name,
                   bj_ProviderInputRef := null_if_empty inp, bj_ProviderOutputRef := null_if_empty out,
                   bj_SubmittedAt := first_time True now (bj_SubmittedAt j), bj_UpdatedAt := now,
                   bj_Version := bj_Version j + 1\<rparr>"
    have "row_op b0 (\<lambda>j. if True then ?f j else j) db (append_event b0 ''provider_submitted'' (snd (update_jobs b0 (\<lambda>_. True) ?f db)))"
      by (rule row_op_event, rule row_op_update) (simp add: terms_def)
    moreover have "x = None" "db' = append_event b0 ''provider_submitted'' (snd (update_jobs b0 (\<lambda>_. True) ?f db))"
      using assms Some True by (simp_all add: UpdateBatchImageJobProviderSubmit_def)
    ultimately show ?thesis using moved [of ?f j] Some True by simp
  qed
qed

lemma submitted_row_ok:
  assumes "batch_inv b db" and "job_of db b = Some j" and "terms j' = terms j" and "bj_Status j' = Submitted"
    and "CanTransitionBatchImageJob (bj_Status j) Submitted" and "is_held db j"
  shows "row_ok Submitter db j j'"
proof -
  have st: "status_ok db j" using inv_status assms(1,2) by blast
  note t = terms_claims [OF assms(3)] and h = terms_hold [OF assms(3)]
  have b: "bj_BatchID j' = bj_BatchID j" using assms(3) by (simp add: terms_def)
  show ?thesis
    using st assms(4-6) t h b
    by (cases "bj_Status j")
       (simp_all add: row_ok_def status_ok_def CanTransitionBatchImageJob_def IsTerminalBatchImageJobStatus_def
          is_held_def is_fresh_def settled_phase_def early_def ended_def)
qed

lemma safe_after_submit:
  assumes w: "bj_BatchID j = b \<Longrightarrow> r = Submitter" and k: "\<And>x. safe b r (\<lambda>db. True) (k x)"
  shows "safe b r (knows b j is_held) (after_submit env owner j h answer k)"
proof -
  have k': "safe b r P (k x)" for x P by (rule safe_True [OF k])
  have abandon: "safe b r (knows b j is_held) (abandon env owner j h code msg e k)" for code msg e
  proof (rule safe_weaken)
    show "safe b r (knows b j is_early) (abandon env owner j h code msg e k)" by (rule safe_abandon [OF w k])
  qed (rule is_fresh_early, rule is_held_fresh)
  have submit: "safe b r (knows b j is_held) (repo PlainCall (Some ErrOther)
            (\<lambda>i. UpdateBatchImageJobProviderSubmit (bj_BatchID j) name inp out (in_now i))
            (\<lambda>err. case err of
               Some e \<Rightarrow> ask in_cancel (\<lambda>_. ask in_cleanup (\<lambda>_.
                 append_event_call (bj_BatchID j) ''provider_job_aborted_after_submit'' (\<lambda>_. k (Inl e))))
             | None \<Rightarrow> enqueue_job env (bj_BatchID j) (\<lambda>r. case r of
                 Inl e \<Rightarrow> k (Inl e)
               | Inr _ \<Rightarrow> get_job (bj_BatchID j) k)))" (is "safe b r _ (repo _ _ _ ?k)") for name inp out
  proof (rule safe_repo)
    have any: "safe b r (\<lambda>db. True) (?k x)" for x
      by (auto intro!: safe_ask safe_event_True k safe_enqueue_job safe_get_job_True split: option.split sum.split)
    show "stable b r (knows b j is_held)" by (rule stable_submitter(3) [OF w])
    show "safe b r (knows b j is_held) (?k (Some ErrOther))" by (rule safe_True [OF any])
    fix i db
    assume h: "batch_inv b db" "knows b j is_held db"
    let ?r = "UpdateBatchImageJobProviderSubmit (bj_BatchID j) name inp out (in_now i) db"
    obtain x db' where t: "?r = (x, db')" by fastforce
    show "batch_inv b (snd ?r) \<and> guar b r db (snd ?r)"
      using t
    proof (cases rule: provider_submit_cases)
      case refused
      then show ?thesis using t h guar_refl by simp
    next
      case (moved g j1)
      have tm: "terms (g j) = terms j" for j using moved(2) by (simp add: row_op_def)
      have "batch_inv b db' \<and> guar b r db db'"
      proof (rule row_op_ok [OF moved(2) h(1)])
        fix j2 assume b: "bj_BatchID j = b" and j2: "job_of db b = Some j2"
        then have "j2 = j1" and "is_held db j2" using moved(3) h(2) by (auto simp: knows_def)
        then show "row_ok r db j2 (g j2)"
          using submitted_row_ok [OF h(1) j2 tm moved(5)] moved(4) w b by simp
      qed
      then show ?thesis using t by simp
    qed
    show "\<exists>Q. stable b r Q \<and> Q (snd ?r) \<and> safe b r Q (?k (fst ?r))" by (rule goes_on_True [OF any])
    show "\<exists>Q. stable b r Q \<and> Q (snd ?r) \<and> safe b r Q (?k (Some ErrOther))" by (rule goes_on_True [OF any])
  qed
  show ?thesis
    unfolding after_submit_def using abandon submit by (simp add: Let_def split: sum.split prod.split option.split)
qed

section \<open>Holding the money\<close>

lemma safe_reserve:
  assumes w: "bj_BatchID j = b \<Longrightarrow> r = Submitter" and k1: "\<And>e. safe b r (knows b j is_fresh) (k (Some e))"
    and k2: "safe b r (knows b j is_held) (k None)"
  shows "safe b r (knows b j is_fresh) (reserveBatchImageBalanceHold j h k)"
proof -
  have sf: "stable b r (knows b j is_fresh)" and sh: "stable b r (knows b j is_held)"
    by (rule stable_submitter [OF w], assumption)+
  show ?thesis
  proof (cases "buildBatchImageHoldCommand j (BatchImageHoldRequestID (bj_BatchID j)) 0 h")
    case (Inl e)
    then show ?thesis using k1 by (simp add: reserveBatchImageBalanceHold_def)
  next
    case (Inr cmd)
    have amount: "hc_HoldAmount cmd = clip (hold_of j)"
      using Inr by (auto simp: buildBatchImageHoldCommand_def clip_def split: option.splits if_splits)
    show ?thesis
    proof (cases "hc_HoldAmount cmd \<le> 0")
      case True
      have "knows b j is_held db" if fr: "knows b j is_fresh db" for db
      proof -
        obtain j1 where j1: "job_of db (bj_BatchID j) = Some j1" "terms j1 = terms j"
          using fr by (auto simp: knows_def has_copy_def)
        have "clip (hold_of j1) \<le> 0" using terms_hold [OF j1(2)] True amount by simp
        then show ?thesis using fr j1 by (auto simp: knows_def is_held_def)
      qed
      then have "safe b r (knows b j is_fresh) (k None)" by (rule safe_weaken [OF k2])
      then show ?thesis using True Inr by (simp add: reserveBatchImageBalanceHold_def)
    next
      case False
      have main: "batch_inv b db' \<and> guar b r db db' \<and> knows b j is_fresh db' \<and> (\<not> isl x \<longrightarrow> knows b j is_held db')"
        if h: "batch_inv b db" "knows b j is_fresh db" and ap: "ReserveBatchImageBalance cmd db = (x, db')" for db x db'
      proof -
        obtain j' where j': "job_of db (bj_BatchID j) = Some j'" "terms j' = terms j"
          using h(2) by (auto simp: knows_def has_copy_def)
        have p: "plain (bj_BatchID j)" using h(1) j'(1) by (auto simp: batch_inv_def)
        have jc: "job_command j (BatchImageHoldRequestID (bj_BatchID j)) cmd" using build_command [OF Inr p] p by simp
        note un = ap [unfolded ReserveBatchImageBalance_def]
        have jobs: "job_of db' = job_of db" by (rule apply_frame(1) [OF un logs_one_effects(1)])
        show ?thesis
        proof (cases "bj_BatchID j = b")
          case True
          have j1: "job_of db b = Some j'" using j'(1) True by simp
          have "0 < clip (hold_of j')" using False amount terms_hold [OF j'(2)] by simp
          note own = reserve_own [OF ap h(1) j1 job_command_cong [OF jc [unfolded True] j'(2)] this]
          have "knows b j is_fresh db'"
            using sf h own(1) [of Bystander] w [OF True] unfolding stable_def by blast
          moreover have "hold_claim db' j' \<noteq> None" if "\<not> isl x"
            using own(2) [of "projr x"] that by (cases x) auto
          ultimately show ?thesis using own(1) [of r] jobs j1 by (auto simp: knows_def is_held_def)
        next
          case ne: False
          then show ?thesis
            using other_batch_billing [OF un logs_one_effects(1) jc ne p h(1)] jobs h(2) by (auto simp: knows_def has_copy_def)
        qed
      qed
      have "safe b r (knows b j is_fresh) (repo PlainCall (Inl ErrDatabase) (\<lambda>i. ReserveBatchImageBalance cmd)
            (\<lambda>r. case r of
               Inl e \<Rightarrow> k (Some (if e = ErrInsufficientBalance then ErrBatchImageInsufficientBalance
                                  else ErrBatchImageBillingHoldFailed))
             | Inr _ \<Rightarrow> k None))" (is "safe b r _ (repo _ _ _ ?k)")
      proof (rule safe_repo)
        show "stable b r (knows b j is_fresh)" by (rule sf)
        have l: "safe b r (knows b j is_fresh) (?k (Inl e))" for e using k1 by simp
        show "safe b r (knows b j is_fresh) (?k (Inl ErrDatabase))" by (rule l)
        fix i db assume h: "batch_inv b db" "knows b j is_fresh db"
        obtain x db' where ap: "ReserveBatchImageBalance cmd db = (x, db')" by fastforce
        note m = main [OF h ap]
        show "batch_inv b (snd (ReserveBatchImageBalance cmd db)) \<and> guar b r db (snd (ReserveBatchImageBalance cmd db))"
          using m ap by simp
        show "\<exists>Q. stable b r Q \<and> Q (snd (ReserveBatchImageBalance cmd db)) \<and> safe b r Q (?k (fst (ReserveBatchImageBalance cmd db)))"
        proof (cases x)
          case (Inl e)
          then show ?thesis using goes_on [OF sf _ l [of e], of db'] m ap by simp
        next
          case (Inr y)
          then show ?thesis using goes_on [OF sh _ k2, of db'] m ap by simp
        qed
        show "\<exists>Q. stable b r Q \<and> Q (snd (ReserveBatchImageBalance cmd db)) \<and> safe b r Q (?k (Inl ErrDatabase))"
          by (rule goes_on [OF sf _ l]) (simp add: ap m)
      qed
      then show ?thesis using False Inr by (simp add: reserveBatchImageBalanceHold_def)
    qed
  qed
qed

lemma bulk_items_row: "row_op b1 id db (snd (BulkCreateBatchImageItems b0 items db))"
proof (cases "insert_items items (db_items db b0)")
  case None
  then show ?thesis by (simp add: BulkCreateBatchImageItems_def row_op_same)
next
  case (Some rows)
  let ?db = "db\<lparr>db_items := (db_items db)(b0 := rows)\<rparr>"
  have "claim_of ?db = claim_of db" by (rule claim_of_cong) simp_all
  then have "row_op b1 id db ?db" by (simp add: row_op_def job_of_def option.map_id)
  then show ?thesis using Some by (simp add: BulkCreateBatchImageItems_def)
qed

lemma safe_run_submission:
  assumes w: "bj_BatchID j = b \<Longrightarrow> r = Submitter" and k: "\<And>x. safe b r (\<lambda>db. True) (k x)"
  shows "safe b r (knows b j is_fresh) (run_submission env owner req j k)"
proof -
  have k': "safe b r P (k x)" for x P by (rule safe_True [OF k])
  have sh: "stable b r (knows b j is_held)" by (rule stable_submitter(3) [OF w])
  have early: "safe b r (knows b j is_held) p" if "safe b r (knows b j is_early) p" for p :: "'a prog"
    by (rule safe_weaken [OF that]) (rule is_fresh_early, rule is_held_fresh)
  have abandon: "safe b r (knows b j is_held) (abandon env owner j h code msg e k)" for h code msg e
    by (rule early, rule safe_abandon [OF w k])
  have release: "safe b r (knows b j is_held) (releaseFailedSubmitHold env j h (\<lambda>err. case err of
      Some f \<Rightarrow> k (Inl f) | None \<Rightarrow> k (Inl e)))" for h e
    by (rule early, rule safe_releaseFailedSubmitHold [OF w]) (use k k' in auto)
  have submit: "safe b r (knows b j is_held) (ask in_submit (\<lambda>answer. after_submit env owner (j\<lparr>bj_Status := Uploading\<rparr>) h answer k))" for h
  proof (rule safe_ask [OF sh])
    fix answer
    have t: "terms (j\<lparr>bj_Status := Uploading\<rparr>) = terms j" by (simp add: terms_def)
    have "safe b r (knows b (j\<lparr>bj_Status := Uploading\<rparr>) is_held) (after_submit env owner (j\<lparr>bj_Status := Uploading\<rparr>) h answer k)"
      by (rule safe_after_submit) (use w k in simp_all)
    then show "safe b r (knows b j is_held) (after_submit env owner (j\<lparr>bj_Status := Uploading\<rparr>) h answer k)"
      by (rule safe_weaken) (simp add: knows_cong [OF t])
  qed
  let ?up = "\<lambda>err. case err of
      Some e \<Rightarrow> if e = ErrBatchImageInvalidTransition
                then releaseFailedSubmitHold env j (rq_Hash req) (\<lambda>err. case err of Some f \<Rightarrow> k (Inl f) | None \<Rightarrow> k (Inl e))
                else abandon env owner j (rq_Hash req) ''UPLOAD_TRANSITION_FAILED'' (be_text env e) e k
    | None \<Rightarrow> ask in_submit (\<lambda>answer. after_submit env owner (j\<lparr>bj_Status := Uploading\<rparr>) (rq_Hash req) answer k)"
  have up: "safe b r (knows b j is_held) (?up x)" for x
    using abandon release submit by (simp split: option.split)
  have upload: "safe b r (knows b j is_held) (transition (bj_BatchID j) Uploading ''upload_started'' None None ?up)"
  proof (rule safe_transition [OF sh sh])
    show "may_transition r Uploading db j'" if "knows b j is_held db" "bj_BatchID j = b" "job_of db b = Some j'" for db j'
      using that w by (auto simp: may_transition_def knows_def is_held_def)
    show "knows b j is_held db'" if op: "row_op (bj_BatchID j) g db db'" and o: "knows b j is_held db"
      and g: "\<And>j. bj_Status (g j) = Uploading" and c: "\<And>j1. job_of db (bj_BatchID j) = Some j1 \<Longrightarrow> CanTransitionBatchImageJob (bj_Status j1) Uploading"
      for db db' g
    proof (rule knows_row_op [OF op o])
      fix j1 assume a: "bj_BatchID j = b" "job_of db b = Some j1" "is_held db j1"
      have "\<not> ended j1" using c [of j1] a by (auto simp: CanTransitionBatchImageJob_def IsTerminalBatchImageJobStatus_def ended_def)
      moreover have t: "terms (g j1) = terms j1" using op by (simp add: row_op_def)
      moreover have "bj_BatchID (g j1) = bj_BatchID j1" using t by (simp add: terms_def)
      moreover have cs: "claim_of db' = claim_of db" "bl_moves db' = bl_moves db" using op by (simp_all add: row_op_def)
      ultimately show "is_held db' (if bj_BatchID j = b then g j1 else j1)"
        using a g terms_hold [OF t] terms_claims [OF t] claims_cong [OF cs] by (simp add: is_held_def is_fresh_def early_def)
    qed
  qed (rule up)+
  have items: "safe b r (knows b j is_held) (repo PlainCall (Some ErrOther)
      (\<lambda>i. BulkCreateBatchImageItems (bj_BatchID j) (pending_items req)) (\<lambda>err. case err of
             Some e \<Rightarrow> abandon env owner j (rq_Hash req) ''ITEM_CREATE_FAILED'' (be_text env e) ErrBatchImageQueueFailed k
           | None \<Rightarrow> transition (bj_BatchID j) Uploading ''upload_started'' None None ?up))"
  proof (rule safe_quiet [OF sh])
    show "safe b r (knows b j is_held) (case x of
             Some e \<Rightarrow> abandon env owner j (rq_Hash req) ''ITEM_CREATE_FAILED'' (be_text env e) ErrBatchImageQueueFailed k
           | None \<Rightarrow> transition (bj_BatchID j) Uploading ''upload_started'' None None ?up)" for x
      using abandon upload by (simp split: option.split)
    show "\<exists>b0 g. row_op b0 g db (snd (BulkCreateBatchImageItems (bj_BatchID j) (pending_items req) db)) \<and>
        (\<forall>j. progress (g j) = progress j)" for db
      using bulk_items_row by (intro exI [of _ "[]"] exI [of _ id]) simp
  qed (rule knowledge_quiet(7))
  show ?thesis
    unfolding run_submission_def
  proof (rule safe_reserve [OF w])
    fix e
    have "safe b r (knows b j is_fresh) (submit_failed owner j code msg (k (Inl e)))" for code msg
    proof (rule safe_weaken)
      show "safe b r (knows b j is_early) (submit_failed owner j code msg (k (Inl e)))" by (rule safe_submit_failed [OF w k])
    qed (rule is_fresh_early)
    then show "safe b r (knows b j is_fresh) (case Some e of
        Some e \<Rightarrow> submit_failed owner j
            (if e = ErrBatchImageInsufficientBalance then ''INSUFFICIENT_BALANCE'' else ''BILLING_HOLD_FAILED'')
            (be_text env e) (k (Inl e))
      | None \<Rightarrow> p)" for p
      by simp
  qed (assumption, unfold option.case, rule items)
qed

section \<open>Creating the job\<close>

lemma job_of_append:
  "job_of db (bj_BatchID job) = None \<Longrightarrow>
    job_of (db\<lparr>db_jobs := db_jobs db @ [job]\<rparr>) b = (if b = bj_BatchID job then Some job else job_of db b)"
proof -
  have "find (\<lambda>j. bj_BatchID j = b) (js @ [job]) =
    (case find (\<lambda>j. bj_BatchID j = b) js of Some j \<Rightarrow> Some j | None \<Rightarrow> if bj_BatchID job = b then Some job else None)" for js
    by (induction js) auto
  then show "job_of db (bj_BatchID job) = None \<Longrightarrow> ?thesis" by (auto simp: job_of_def split: option.split)
qed

lemma create_cases:
  assumes "CreateBatchImageJob params now db = (x, db')"
  obtains (refused) e where "x = Inl e" "db' = db"
  | (stored) job where "x = Inr job" "db' = db\<lparr>db_jobs := db_jobs db @ [job]\<rparr>" "job_of db (cp_BatchID params) = None"
      "bj_BatchID job = cp_BatchID params" "bj_Status job = Created" "bj_APIKeyID job = cp_APIKeyID params"
      "bj_PricingSnapshotVersion job = cp_PricingSnapshotVersion params"
  using assms unfolding CreateBatchImageJob_def Let_def by (auto split: if_splits)

lemma created_ok:
  assumes c: "CreateBatchImageJob (new_params owner req key b0 provider account snapshot) now db = (Inr job, db')"
    and i: "batch_inv b db" and p: "plain b0" and w: "b0 = b \<Longrightarrow> r = Submitter"
  shows "batch_inv b db' \<and> guar b r db db'" and "knows b job is_fresh db'" and "bj_BatchID job = b0"
proof -
  from c obtain none: "job_of db b0 = None" and db': "db' = db\<lparr>db_jobs := db_jobs db @ [job]\<rparr>" and id: "bj_BatchID job = b0"
    and job: "bj_Status job = Created" "bj_APIKeyID job = Some (ow_APIKeyID owner)" "bj_PricingSnapshotVersion job = 1"
    by (cases rule: create_cases) (auto simp: new_params_def)
  have jobs: "job_of db' b' = (if b' = b0 then Some job else job_of db b')" for b'
    using job_of_append [of db job b'] none id by (simp add: db')
  have ids: "distinct (map bj_BatchID (db_jobs db'))"
  proof -
    have "b0 \<notin> set (map bj_BatchID (db_jobs db))" using none by (auto simp: job_of_def find_None_iff)
    then show ?thesis using i id by (simp add: db' batch_inv_def)
  qed
  have cl: "claim_of db' = claim_of db" unfolding db' by (rule claim_of_cong) simp_all
  have mv: "bl_moves db' = bl_moves db" by (simp add: db')
  have pl: "plain b'" if "job_of db' b' = Some j" for b' j
    using that jobs p i by (cases "b' = b0") (auto simp: batch_inv_def)
  have inv: "(batch_inv b db' \<and> guar b r db db') \<and> (b0 = b \<longrightarrow> is_fresh db' job)"
  proof (cases "b0 = b")
    case False
    have "same_view b db db'" using False jobs cl mv by (simp add: same_view_def moves_of_def)
    moreover have "keeps_jobs db db'" using jobs ids pl none by (auto simp: keeps_jobs_def)
    ultimately show ?thesis using same_view_ok i False by blast
  next
    case True
    have m: "moves_of b db' = []" and c: "claim_of db' (BatchImageHoldRequestID b, a) = None"
      "claim_of db' (BatchImageCaptureRequestID b, a) = None" "claim_of db' (BatchImageReleaseRequestID b, a) = None" for a
      using i none True cl mv by (simp_all add: batch_inv_def moves_of_def)
    have rel: "\<not> released b db'" using m by (simp add: released_moves)
    have "ledger_ok db' job" using m c id True by (simp add: ledger_ok_def hold_claim_def capture_claim_def Let_def)
    moreover have "status_ok db' job"
      using c rel id True job by (simp add: status_ok_def capture_claim_def early_def)
    ultimately have "batch_inv b db'"
      using i ids pl jobs True job by (auto simp: batch_inv_def)
    moreover have "guar b r db db'"
      using none True jobs w cl by (auto simp: guar_def)
    ultimately show ?thesis using rel id True job by (simp add: is_fresh_def early_def)
  qed
  then show "batch_inv b db' \<and> guar b r db db'" by blast
  show "bj_BatchID job = b0" by (rule id)
  show "knows b job is_fresh db'" using inv jobs id by (simp add: knows_def has_copy_def)
qed

lemma safe_create_submission:
  assumes p: "plain b0" and w: "b0 = b \<Longrightarrow> r = Submitter" and k: "\<And>x. safe b r (\<lambda>db. True) (k x)"
  shows "safe b r (\<lambda>db. True) (create_submission env owner req key b0 k)"
proof -
  have create: "safe b r (\<lambda>db. True) (repo PlainCall (Inl ErrOther)
      (\<lambda>i. CreateBatchImageJob (new_params owner req key b0 provider account snapshot) (in_now i))
      (\<lambda>r. case r of Inl e \<Rightarrow> k (Inl e) | Inr job \<Rightarrow> run_submission env owner req job k))" (is "safe b r _ (repo _ _ _ ?k)")
    for provider account snapshot
  proof (rule safe_repo)
    have l: "safe b r (\<lambda>db. True) (?k (Inl e))" for e using k by simp
    show "safe b r (\<lambda>db. True) (?k (Inl ErrOther))" by (rule l)
    fix i db assume h: "batch_inv b db"
    let ?r = "CreateBatchImageJob (new_params owner req key b0 provider account snapshot) (in_now i) db"
    obtain x db' where c: "?r = (x, db')" by fastforce
    show "batch_inv b (snd ?r) \<and> guar b r db (snd ?r)"
    proof (cases x)
      case (Inl e)
      from c show ?thesis by (cases rule: create_cases) (use Inl c h guar_refl in auto)
    next
      case (Inr job)
      then show ?thesis using created_ok(1) [OF c [unfolded Inr] h p w] c by simp
    qed
    show "\<exists>Q. stable b r Q \<and> Q (snd ?r) \<and> safe b r Q (?k (fst ?r))"
    proof (cases x)
      case (Inl e)
      then show ?thesis using goes_on_True [OF l] c by simp
    next
      case (Inr job)
      note ok = created_ok(2,3) [OF c [unfolded Inr] h p w]
      have w': "bj_BatchID job = b \<Longrightarrow> r = Submitter" using w ok(2) by simp
      have "safe b r (knows b job is_fresh) (?k x)" using Inr safe_run_submission [OF w' k] by simp
      then show ?thesis using stable_submitter(2) [OF w'] ok(1) c by auto
    qed
    show "\<exists>Q. stable b r Q \<and> Q (snd ?r) \<and> safe b r Q (?k (Inl ErrOther))" by (rule goes_on_True [OF l])
  qed simp
  have owned: "safe b r (\<lambda>db. True) (get_owned_job u a parent (\<lambda>r. case r of Inl e \<Rightarrow> k (Inl e) | Inr _ \<Rightarrow> p))"
    if "safe b r (\<lambda>db. True) p" for u a parent p
    by (rule safe_get_owned_job_True) (use k that in \<open>simp split: sum.split\<close>)
  show ?thesis
    unfolding create_submission_def Let_def
    by (auto intro!: safe_ask k create owned split: sum.split option.split)
qed

lemma safe_Submit:
  assumes p: "plain b0" and w: "b0 = b \<Longrightarrow> r = Submitter" and k: "\<And>x. safe b r (\<lambda>db. True) (k x)"
  shows "safe b r (\<lambda>db. True) (Submit env owner req key b0 k)"
proof -
  note create = safe_create_submission [OF p w k]
  have again: "safe b r (\<lambda>db. True) (enqueue_job env b1 (\<lambda>r. case r of Inl e \<Rightarrow> k (Inl e) | Inr _ \<Rightarrow> k (Inr j)))" for b1 j
    by (rule safe_enqueue_job) (use k in \<open>simp split: sum.split\<close>)
  show ?thesis
    unfolding Submit_def Let_def
    by (auto intro!: create k again safe_read goes_on_True split: sum.split)
qed

end
