(* ===== verification/Batch_System.thy ===== *)
theory Batch_System
  imports Batch_Submit_Safe
begin

text \<open>
  The whole: requests, queue workers, recovery and cleanup run at the same time on one database, each
  stopped between any two of its calls, and any of them may die at any moment. A submission has a
  fresh batch id (\<^verbatim>\<open>NewBatchImageID\<close> draws sixteen random bytes) and the queue's lock lets one worker at a
  time process a batch; everything else may run any number of times. The rest of the gateway, which
  shares the users' balances and the claims, appears as steps that leave the jobs and the claims of
  batches alone.
\<close>

section \<open>Services\<close>

datatype service =
    SubmitRequest batch_env BatchImageOwner BatchImageSubmitRequest go_string go_string
  | QueueWorker batch_env go_string
  | CancelRequest batch_env BatchImageOwner go_string
  | DeleteRecordRequest BatchImageOwner go_string
  | MarkDownloadedRequest BatchImageOwner go_string
  | DeleteOutputsRequest batch_env "go_string \<Rightarrow> go_string" BatchImageOwner go_string
  | InputCleanup batch_env "go_string \<Rightarrow> go_string" go_string
  | OutputCleanup batch_env "go_string \<Rightarrow> go_string" go_string
  | HoldRecovery int nat
  | SubmitHeartbeat go_string

fun program_of :: "service \<Rightarrow> unit prog" where
  "program_of (SubmitRequest env owner req key b) = Submit env owner req key b (\<lambda>_. Ret ())"
| "program_of (QueueWorker env b) = PipelineProcess env b (\<lambda>_. Ret ())"
| "program_of (CancelRequest env owner b) = Cancel env owner b (\<lambda>_. Ret ())"
| "program_of (DeleteRecordRequest owner b) = DeleteRecord owner b (\<lambda>_. Ret ())"
| "program_of (MarkDownloadedRequest owner b) = MarkDownloaded owner b (\<lambda>_. Ret ())"
| "program_of (DeleteOutputsRequest env up owner b) = DeleteOutputsForOwner env up owner b (\<lambda>_. Ret ())"
| "program_of (InputCleanup env up b) = CleanupInput env up b (\<lambda>_. Ret ())"
| "program_of (OutputCleanup env up b) = CleanupOutput env up b (\<lambda>_. Ret ())"
| "program_of (HoldRecovery staleAfter limit) = ReleaseStaleUnsubmittedOnce staleAfter limit (\<lambda>_. Ret ())"
| "program_of (SubmitHeartbeat b) = submit_heartbeat b (Ret ())"

text \<open>The batch a service submits or holds the queue lock of.\<close>

fun process_key :: "service \<Rightarrow> (role \<times> go_string) option" where
  "process_key (SubmitRequest env owner req key b) = Some (Submitter, b)"
| "process_key (QueueWorker env b) = Some (Worker, b)"
| "process_key _ = None"

definition role_in :: "go_string \<Rightarrow> service \<Rightarrow> role" where
  "role_in b s = (case process_key s of Some (r, b0) \<Rightarrow> if b0 = b then r else Bystander | None \<Rightarrow> Bystander)"

text \<open>\<^verbatim>\<open>NewBatchImageID\<close> on the bytes it draws.\<close>

definition NewBatchImageID :: "8 word list \<Rightarrow> go_string" where
  "NewBatchImageID raw = ''imgbatch_'' @ hex_encode raw"

fun id_ok :: "service \<Rightarrow> bool" where
  "id_ok (SubmitRequest env owner req key b) \<longleftrightarrow> (\<exists>raw. length raw = 16 \<and> b = NewBatchImageID raw)"
| "id_ok _ \<longleftrightarrow> True"

text \<open>No two submissions of one id and no two workers of one batch.\<close>

definition admits :: "(service \<times> unit prog) list \<Rightarrow> service \<Rightarrow> bool" where
  "admits pool s \<longleftrightarrow> id_ok s \<and> (process_key s = None \<or> process_key s \<notin> set (map (process_key \<circ> fst) pool))"

section \<open>Steps\<close>

text \<open>What the rest of the gateway may do: charge users, claim other requests, archive old claims.\<close>

definition elsewhere :: "batch_db \<Rightarrow> batch_db \<Rightarrow> bool" where
  "elsewhere db db' \<longleftrightarrow>
     db_jobs db' = db_jobs db \<and> bl_moves db' = bl_moves db \<and>
     (\<forall>b a. claim_of db' (BatchImageHoldRequestID b, a) = claim_of db (BatchImageHoldRequestID b, a) \<and>
            claim_of db' (BatchImageCaptureRequestID b, a) = claim_of db (BatchImageCaptureRequestID b, a) \<and>
            claim_of db' (BatchImageReleaseRequestID b, a) = claim_of db (BatchImageReleaseRequestID b, a))"

type_synonym system = "batch_db \<times> (service \<times> unit prog) list"

definition without :: "nat \<Rightarrow> 'a list \<Rightarrow> 'a list" where
  "without n xs = take n xs @ drop (Suc n) xs"

inductive step :: "system \<Rightarrow> system \<Rightarrow> bool" where
  step_start: "admits pool s \<Longrightarrow> step (db, pool) (db, pool @ [(s, program_of s)])"
| step_run: "n < length pool \<Longrightarrow> pool ! n = (s, Act c f) \<Longrightarrow> permitted c i db \<Longrightarrow> f i db = (p, db') \<Longrightarrow>
    step (db, pool) (db', pool[n := (s, p)])"
| step_stop: "n < length pool \<Longrightarrow> step (db, pool) (db, without n pool)"
| step_elsewhere: "elsewhere db db' \<Longrightarrow> step (db, pool) (db', pool)"

definition initial :: "batch_db \<Rightarrow> bool" where
  "initial db \<longleftrightarrow>
     db_jobs db = [] \<and> bl_moves db = [] \<and>
     (\<forall>b a. claim_of db (BatchImageHoldRequestID b, a) = None \<and> claim_of db (BatchImageCaptureRequestID b, a) = None \<and>
            claim_of db (BatchImageReleaseRequestID b, a) = None)"

inductive reachable :: "system \<Rightarrow> bool" where
  reachable_initial: "initial db \<Longrightarrow> reachable (db, [])"
| reachable_step: "reachable s \<Longrightarrow> step s s' \<Longrightarrow> reachable s'"

section \<open>The invariant\<close>

definition process_ok :: "go_string \<Rightarrow> batch_db \<Rightarrow> service \<times> unit prog \<Rightarrow> bool" where
  "process_ok b db sp \<longleftrightarrow> (\<exists>P. stable b (role_in b (fst sp)) P \<and> P db \<and> safe b (role_in b (fst sp)) P (snd sp))"

definition apart :: "go_string \<Rightarrow> (service \<times> unit prog) list \<Rightarrow> bool" where
  "apart b pool \<longleftrightarrow> distinct (filter (\<lambda>r. r \<noteq> Bystander) (map (role_in b \<circ> fst) pool))"

definition system_ok :: "go_string \<Rightarrow> system \<Rightarrow> bool" where
  "system_ok b s \<longleftrightarrow> batch_inv b (fst s) \<and> apart b (snd s) \<and> (\<forall>sp \<in> set (snd s). process_ok b (fst s) sp)"

lemma plain_hex_digit: "n < 16 \<Longrightarrow> plain [hex_digit n]"
  by (auto simp: plain_def hex_digit_def of_char_of)

lemma plain_hex_encode: "plain (hex_encode raw)"
proof (induction raw)
  case Nil
  then show ?case by (simp add: hex_encode_def plain_def)
next
  case (Cons w raw)
  have "unat w < 256" using unsigned_less [of w] by simp
  then have "plain [hex_digit (unat w div 16)]" "plain [hex_digit (unat w mod 16)]" by (auto intro!: plain_hex_digit)
  then show ?case using Cons by (auto simp: hex_encode_def plain_def)
qed

lemma plain_new_id: "plain (NewBatchImageID raw)"
  using plain_hex_encode by (simp add: NewBatchImageID_def plain_def)

lemma distinct_filter_nth:
  assumes "distinct (filter P xs)" and "m < length xs" and "n < length xs" and "m \<noteq> n" and "xs ! m = xs ! n"
  shows "\<not> P (xs ! n)"
  using assms
proof (induction xs arbitrary: m n)
  case (Cons x xs)
  have "x \<notin> set (filter P xs)" if "P x" using Cons.prems(1) that by simp
  moreover have "distinct (filter P xs)" using Cons.prems(1) by (simp split: if_splits)
  ultimately show ?case using Cons.IH Cons.prems by (cases m; cases n) (auto simp: nth_Cons')
qed simp

lemma role_conflict: "role_in b s' = role_in b s \<Longrightarrow> role_in b s \<noteq> Bystander \<Longrightarrow> process_key s' = process_key s \<and> process_key s \<noteq> None"
  by (cases s; cases s') (auto simp: role_in_def split: if_splits)

lemma program_safe:
  assumes "id_ok s"
  shows "safe b (role_in b s) (\<lambda>db. True) (program_of s)"
proof -
  have k: "safe b r (\<lambda>db. True) (Ret ())" for r by (rule safe_Ret)
  show ?thesis
  proof (cases s)
    case (SubmitRequest env owner req key b0)
    then have "plain b0" using assms plain_new_id by auto
    then show ?thesis using SubmitRequest by (auto simp: role_in_def intro!: safe_Submit k)
  qed (auto simp: role_in_def intro!: k safe_PipelineProcess safe_Cancel safe_DeleteRecord safe_MarkDownloaded safe_DeleteOutputsForOwner
      safe_CleanupInput safe_CleanupOutput safe_ReleaseStaleUnsubmittedOnce safe_submit_heartbeat)
qed

lemma initial_ok: "initial db \<Longrightarrow> plain b \<Longrightarrow> system_ok b (db, [])"
  by (auto simp: initial_def system_ok_def batch_inv_def apart_def job_of_def moves_of_def)

text \<open>Another process of a different role leaves what a process knows.\<close>

lemma process_ok_others:
  assumes "process_ok b db sp" and "batch_inv b db" and "batch_inv b db'" and "guar b r db db'"
    and "r = role_in b (fst sp) \<longrightarrow> role_in b (fst sp) = Bystander"
  shows "process_ok b db' sp"
  using assms unfolding process_ok_def stable_def by blast

lemma step_ok:
  assumes "step s s'" and "system_ok b s" and "plain b"
  shows "system_ok b s'"
  using assms(1)
proof (cases rule: step.cases)
  case (step_start pool t db)
  have i: "batch_inv b db" and a: "apart b pool" and ok: "\<forall>sp \<in> set pool. process_ok b db sp"
    using assms(2) step_start by (simp_all add: system_ok_def)
  have "process_ok b db (t, program_of t)"
    using program_safe [of t b] step_start by (auto simp: process_ok_def admits_def intro: exI [of _ "\<lambda>db. True"])
  moreover have "apart b (pool @ [(t, program_of t)])"
  proof -
    have "role_in b t \<notin> set (filter (\<lambda>r. r \<noteq> Bystander) (map (role_in b \<circ> fst) pool))"
    proof
      assume "role_in b t \<in> set (filter (\<lambda>r. r \<noteq> Bystander) (map (role_in b \<circ> fst) pool))"
      then obtain sp where sp: "sp \<in> set pool" "role_in b (fst sp) = role_in b t" "role_in b t \<noteq> Bystander" by auto
      have "process_key (fst sp) = process_key t" "process_key t \<noteq> None" using role_conflict [OF sp(2,3)] by simp_all
      moreover have "process_key t = None \<or> process_key t \<notin> set (map (process_key \<circ> fst) pool)"
        using step_start by (simp add: admits_def)
      ultimately show False using sp(1) by (metis comp_apply imageI list.set_map)
    qed
    then show ?thesis using a by (auto simp: apart_def)
  qed
  ultimately show ?thesis using i ok step_start by (simp add: system_ok_def)
next
  case (step_run n pool t c f i db p db')
  have inv: "batch_inv b db" and a: "apart b pool" and ok: "\<forall>sp \<in> set pool. process_ok b db sp"
    using assms(2) step_run by (simp_all add: system_ok_def)
  have "process_ok b db (t, Act c f)" using ok step_run by (metis nth_mem)
  then obtain P where P: "P db" "safe b (role_in b t) P (Act c f)" by (auto simp: process_ok_def)
  have next_ok: "batch_inv b db' \<and> guar b (role_in b t) db db' \<and>
      (\<exists>Q. stable b (role_in b t) Q \<and> Q db' \<and> safe b (role_in b t) Q p)"
    using P(2) by (rule safe_ActE) (use step_run P(1) inv in force)
  have "process_ok b db' sp" if sp: "sp \<in> set (pool[n := (t, p)])" for sp
  proof -
    obtain m where m: "m < length pool" "sp = pool[n := (t, p)] ! m"
      using sp unfolding in_set_conv_nth by auto
    show ?thesis
    proof (cases "m = n")
      case True
      then show ?thesis using m next_ok by (simp add: process_ok_def)
    next
      case False
      then have old: "sp = pool ! m" "sp \<in> set pool" using m by auto
      have "role_in b t = role_in b (fst sp) \<longrightarrow> role_in b (fst sp) = Bystander"
        using distinct_filter_nth [OF a [unfolded apart_def], of n m] False m old step_run by auto
      then show ?thesis using process_ok_others [of b db sp db' "role_in b t"] ok old inv next_ok by blast
    qed
  qed
  moreover have "apart b (pool[n := (t, p)])"
  proof -
    have "map (role_in b \<circ> fst) (pool[n := (t, p)]) = map (role_in b \<circ> fst) pool"
      using step_run by (intro nth_equalityI) (auto simp: nth_list_update)
    then show ?thesis using a by (simp add: apart_def)
  qed
  ultimately show ?thesis using next_ok step_run by (simp add: system_ok_def)
next
  case (step_stop n pool db)
  have "pool = take n pool @ pool ! n # drop (Suc n) pool" using step_stop by (simp add: id_take_nth_drop)
  then have "apart b (take n pool @ pool ! n # drop (Suc n) pool)" using assms(2) step_stop by (simp add: system_ok_def)
  then have "apart b (without n pool)" by (auto simp: apart_def without_def split: if_splits)
  moreover have "set (without n pool) \<subseteq> set pool"
    using set_take_subset [of n pool] set_drop_subset [of "Suc n" pool] by (auto simp: without_def)
  ultimately show ?thesis using assms(2) step_stop by (auto simp: system_ok_def)
next
  case (step_elsewhere db db' pool)
  have inv: "batch_inv b db" using assms(2) step_elsewhere by (simp add: system_ok_def)
  have "same_view b db db'" "keeps_jobs db db'"
    using step_elsewhere by (simp_all add: elsewhere_def same_view_def keeps_jobs_def job_of_def moves_of_def)
  then have "batch_inv b db'" "guar b Bystander db db'" using same_view_ok inv by blast+
  then show ?thesis
    using assms(2) step_elsewhere process_ok_others [of b db _ db' Bystander] by (auto simp: system_ok_def)
qed

lemma reachable_ok: "reachable s \<Longrightarrow> plain b \<Longrightarrow> system_ok b s"
  by (induction rule: reachable.induct) (auto intro: initial_ok step_ok)

section \<open>The money of a batch\<close>

lemma reachable_inv:
  assumes "reachable (db, pool)" and "job_of db b = Some j"
  shows "batch_inv b db"
proof -
  have "plain []" by (simp add: plain_def)
  then have "batch_inv [] db" using reachable_ok [OF assms(1)] by (simp add: system_ok_def)
  then have "plain b" using assms(2) by (auto simp: batch_inv_def)
  then show ?thesis using reachable_ok [OF assms(1)] by (simp add: system_ok_def)
qed

text \<open>The histories a batch may have.\<close>

fun history_ok :: "go_string \<Rightarrow> int \<Rightarrow> rat \<Rightarrow> balance_move list \<Rightarrow> bool" where
  "history_ok b u h [] \<longleftrightarrow> True"
| "history_ok b u h [m] \<longleftrightarrow>
     m = Reserved b u h \<and> 0 < h \<or> (case m of Captured b' u' h' c \<Rightarrow> b' = b \<and> u' = u \<and> h' = h \<and> h = 0 \<and> charge_ok h c | _ \<Rightarrow> False)"
| "history_ok b u h [m, m'] \<longleftrightarrow>
     0 < h \<and> m = Reserved b u h \<and>
     (m' = Released b u h \<or> (case m' of Captured b' u' h' c \<Rightarrow> b' = b \<and> u' = u \<and> h' = h \<and> charge_ok h c | _ \<Rightarrow> False))"
| "history_ok b u h _ \<longleftrightarrow> False"

lemma ledger_history:
  assumes "ledger_ok db j" and "bj_BatchID j = b"
  shows "history_ok b (bj_UserID j) (clip (hold_of j)) (moves_of b db)"
proof (cases "0 < clip (hold_of j)")
  case True
  then show ?thesis using assms by (auto simp: ledger_ok_def Let_def)
next
  case False
  then have "clip (hold_of j) = 0" by (auto simp: clip_def split: if_splits)
  then show ?thesis using assms by (auto simp: ledger_ok_def Let_def)
qed

lemma moves_in_batch: "m \<in> set (bl_moves db) \<Longrightarrow> move_batch m = b \<Longrightarrow> m \<in> set (moves_of b db)"
  by (simp add: moves_of_def)

lemma ledger_moves:
  assumes "ledger_ok db j" and "bj_BatchID j = b"
  shows "Captured b u h c \<in> set (bl_moves db) \<Longrightarrow> capture_claim db j \<noteq> None"
    and "0 < hold_of j \<Longrightarrow> hold_claim db j \<noteq> None \<Longrightarrow> Reserved b (bj_UserID j) (hold_of j) \<in> set (bl_moves db)"
proof -
  show "capture_claim db j \<noteq> None" if "Captured b u h c \<in> set (bl_moves db)"
    using moves_in_batch [OF that, of b] assms by (auto simp: ledger_ok_def Let_def split: if_splits)
  show "Reserved b (bj_UserID j) (hold_of j) \<in> set (bl_moves db)" if h: "0 < hold_of j" and c: "hold_claim db j \<noteq> None"
  proof -
    have k: "clip (hold_of j) = hold_of j" using h by (simp add: clip_def)
    have "Reserved b (bj_UserID j) (hold_of j) \<in> set (moves_of b db)"
      using assms c h unfolding ledger_ok_def Let_def k by auto
    then show ?thesis by (simp add: moves_of_def)
  qed
qed

end
