(* ===== verification/Batch_Accounts.thy ===== *)
theory Batch_Accounts
  imports Batch_Safety
begin

text \<open>
  What holding, capturing and releasing do to the balances: no money appears or disappears when the
  amounts have the eight decimals of the balance columns, and what happens when they do not.
\<close>

section \<open>Rounding\<close>

lemma to_scale_exact: "has_scale d x \<Longrightarrow> to_scale d x = x"
proof -
  assume "has_scale d x"
  then obtain n where n: "x * 10 ^ d = of_int n" by (auto simp: has_scale_def elim: Ints_cases)
  have "\<lfloor>of_int n + 1 / (2 :: rat)\<rfloor> = n" "\<lfloor>of_int (- n) + 1 / (2 :: rat)\<rfloor> = - n" by linarith+
  then show ?thesis using n by (simp add: to_scale_def) (simp add: field_simps)
qed

lemma to_scale_numeral [simp]: "to_scale d (numeral n) = numeral n" "to_scale d 0 = 0" "to_scale d 1 = 1"
  by (rule to_scale_exact; simp add: has_scale_def)+




section \<open>Sums\<close>






datatype hold_op = ReserveOp BatchImageBalanceHoldCommand | CaptureOp BatchImageBalanceHoldCommand | ReleaseOp BatchImageBalanceHoldCommand

fun run_hold_op :: "hold_op \<Rightarrow> 'a billing_db_scheme \<Rightarrow> 'a billing_db_scheme" where
  "run_hold_op (ReserveOp c) db = snd (ReserveBatchImageBalance c db)"
| "run_hold_op (CaptureOp c) db = snd (CaptureBatchImageBalance c db)"
| "run_hold_op (ReleaseOp c) db = snd (ReleaseBatchImageBalance c db)"





lemma amounts_normal [simp]:
  "hc_HoldAmount (Normalize c) = hc_HoldAmount c" "hc_ActualAmount (Normalize c) = hc_ActualAmount c"
  "hc_UserID (Normalize c) = hc_UserID c"
  by (simp_all add: Normalize_def Let_def)






definition sample_command :: "rat \<Rightarrow> rat \<Rightarrow> BatchImageBalanceHoldCommand" where
  "sample_command h c = \<lparr>hc_RequestID = ''r'', hc_APIKeyID = 1, hc_RequestFingerprint = [], hc_RequestPayloadHash = [],
     hc_UserID = 7, hc_BatchID = ''b'', hc_HoldAmount = h, hc_ActualAmount = c\<rparr>"

definition sample_user :: user_row where
  "sample_user = \<lparr>us_balance = 100, us_frozen = 0, us_deleted = False\<rparr>"

definition sample_billing :: billing_db where
  "sample_billing = \<lparr>bl_users = (\<lambda>u. if u = 7 then Some sample_user else None), bl_dedup = (\<lambda>_. None), bl_archive = (\<lambda>_. None), bl_moves = []\<rparr>"


section \<open>Holds with more decimals than the balance column\<close>

fun settles :: "int \<Rightarrow> rat \<Rightarrow> hold_op \<Rightarrow> bool" where
  "settles u h (ReserveOp c) \<longleftrightarrow> False"
| "settles u h (CaptureOp c) \<longleftrightarrow> hc_UserID c = u \<and> hc_HoldAmount c = h"
| "settles u h (ReleaseOp c) \<longleftrightarrow> hc_UserID c = u \<and> hc_HoldAmount c = h"

lemma short_of_frozen:
  assumes "bl_users db u = Some r" and "us_frozen r < h" and "0 < h" and "settles u h op"
  shows "bl_users (run_hold_op op db) = bl_users db"
proof -
  have users: "bl_users db' = bl_users db"
    if "applyBatchImageBalanceHold effect cmd db = (x, db')"
      "\<And>db1 db2. effect (Normalize cmd) db1 = Inr db2 \<Longrightarrow> bl_users db1 = bl_users db \<Longrightarrow> bl_users db2 = bl_users db1"
    for effect cmd x db'
    using that(1)
  proof (cases rule: apply_hold_cases)
    case (applied db1)
    then show ?thesis using that(2) [OF applied(4)] by simp
  qed simp
  show ?thesis
  proof (cases op)
    case (CaptureOp c)
    obtain x db' where e: "CaptureBatchImageBalance c db = (x, db')" by fastforce
    have "bl_users db' = bl_users db"
      by (rule users [OF e [unfolded CaptureBatchImageBalance_def]])
         (use assms CaptureOp in \<open>auto simp: captureUsageBillingBatchImageBalance_def Let_def updated_def update_user_def split: if_splits\<close>)
    then show ?thesis using e CaptureOp by simp
  next
    case (ReleaseOp c)
    obtain x db' where e: "ReleaseBatchImageBalance c db = (x, db')" by fastforce
    have "bl_users db' = bl_users db"
      by (rule users [OF e [unfolded ReleaseBatchImageBalance_def]])
         (use assms ReleaseOp in \<open>auto simp: releaseUsageBillingBatchImageBalance_def Let_def updated_def update_user_def split: if_splits\<close>)
    then show ?thesis using e ReleaseOp by simp
  qed (use assms in simp)
qed

lemma reserve_first:
  assumes "bl_users db (hc_UserID c) = Some r" and "\<not> us_deleted r" and "0 < hc_HoldAmount c" and "hc_HoldAmount c \<le> us_balance r"
    and "claim_of db (go_trim_space (hc_RequestID c), hc_APIKeyID c) = None" and "go_trim_space (hc_RequestID c) \<noteq> []"
  shows "fst (ReserveBatchImageBalance c db) = Inr True \<and>
    bl_users (snd (ReserveBatchImageBalance c db)) (hc_UserID c) =
      Some (r\<lparr>us_balance := to_scale 8 (us_balance r - hc_HoldAmount c), us_frozen := to_scale 8 (us_frozen r + hc_HoldAmount c)\<rparr>)"
  using assms
  by (simp add: ReserveBatchImageBalance_def applyBatchImageBalanceHold_def claimUsageBillingRequest_def claim_of_def
      reserveUsageBillingBatchImageBalance_def updated_def update_user_def log_move_def Normalize_def Let_def split: option.splits)

text \<open>
  A hold is stored with ten decimals and the frozen balance with eight. A hold that the frozen balance rounds down is
  reserved, and then no capture and no release of it succeeds, however often it is tried.
\<close>

theorem rounded_hold_is_stuck:
  assumes "bl_users db (hc_UserID c) = Some r" and "us_frozen r = 0" and "\<not> us_deleted r" and "0 < hc_HoldAmount c"
    and "hc_HoldAmount c \<le> us_balance r" and "to_scale 8 (hc_HoldAmount c) < hc_HoldAmount c"
    and "claim_of db (go_trim_space (hc_RequestID c), hc_APIKeyID c) = None" and "go_trim_space (hc_RequestID c) \<noteq> []"
    and "\<forall>op \<in> set ops. settles (hc_UserID c) (hc_HoldAmount c) op"
  shows "fst (ReserveBatchImageBalance c db) = Inr True \<and>
    bl_users (fold run_hold_op ops (snd (ReserveBatchImageBalance c db))) = bl_users (snd (ReserveBatchImageBalance c db))"
proof -
  let ?u = "hc_UserID c" and ?h = "hc_HoldAmount c"
  note res = reserve_first [OF assms(1,3,4,5,7,8)]
  have "bl_users (fold run_hold_op ops db1) = bl_users db1"
    if "bl_users db1 ?u = Some r1" "us_frozen r1 < ?h" for db1 :: "'a billing_db_scheme" and r1
    using that assms(9)
  proof (induction ops arbitrary: db1)
    case (Cons op ops)
    then have "bl_users (run_hold_op op db1) = bl_users db1" using short_of_frozen [OF _ _ assms(4)] by auto
    then show ?case using Cons by simp
  qed simp
  then show ?thesis using res assms(2,6) by simp
qed

theorem rounded_hold_is_stuck_witness:
  "fst (ReserveBatchImageBalance (sample_command (1000000004 / 10 ^ 10) 0) sample_billing) = Inr True \<and>
    bl_users (fold run_hold_op [CaptureOp (sample_command (1000000004 / 10 ^ 10) 0), ReleaseOp (sample_command (1000000004 / 10 ^ 10) 0)]
      (snd (ReserveBatchImageBalance (sample_command (1000000004 / 10 ^ 10) 0) sample_billing))) =
    bl_users (snd (ReserveBatchImageBalance (sample_command (1000000004 / 10 ^ 10) 0) sample_billing))"
proof (rule rounded_hold_is_stuck)
  show "bl_users sample_billing (hc_UserID (sample_command (1000000004 / 10 ^ 10) 0)) = Some sample_user"
    by (simp add: sample_billing_def sample_command_def)
  show "to_scale 8 (hc_HoldAmount (sample_command (1000000004 / 10 ^ 10) 0)) < hc_HoldAmount (sample_command (1000000004 / 10 ^ 10) 0)"
    by code_simp
  have "go_trim_space ''r'' = ''r''" by (rule plain_trim) (simp add: plain_def)
  then show "go_trim_space (hc_RequestID (sample_command (1000000004 / 10 ^ 10) 0)) \<noteq> []" by (simp add: sample_command_def)
qed (simp_all add: sample_command_def sample_user_def sample_billing_def claim_of_def)

end
