(* ===== verification/Batch_Runs.thy ===== *)
theory Batch_Runs
  imports Batch_System Batch_Accounts
begin

text \<open>Running one service call by call, and complete runs of a batch.\<close>

section \<open>Running a program\<close>

fun exec :: "batch_input list \<Rightarrow> 'a prog \<Rightarrow> batch_db \<Rightarrow> 'a prog \<times> batch_db" where
  "exec (i # is) (Act c f) db = (case f i db of (p, db') \<Rightarrow> exec is p db')"
| "exec _ p db = (p, db)"

fun allowed :: "batch_input list \<Rightarrow> 'a prog \<Rightarrow> batch_db \<Rightarrow> bool" where
  "allowed (i # is) (Act c f) db \<longleftrightarrow> permitted c i db \<and> (case f i db of (p, db') \<Rightarrow> allowed is p db')"
| "allowed _ p db \<longleftrightarrow> True"

lemma list_update_here: "xs ! n = x \<Longrightarrow> xs[n := x] = xs"
  by auto

lemma reachable_exec:
  assumes "reachable (db, pool)" and "n < length pool" and "pool ! n = (s, p)" and "allowed is p db"
  shows "reachable (snd (exec is p db), pool[n := (s, fst (exec is p db))])"
  using assms
proof (induction "is" p db arbitrary: pool rule: exec.induct)
  case (1 i js c f db)
  obtain q db1 where f: "f i db = (q, db1)" by fastforce
  have "permitted c i db" using 1(5) by simp
  then have "step (db, pool) (db1, pool[n := (s, q)])" by (rule step_run [OF 1(3,4) _ f])
  then have "reachable (db1, pool[n := (s, q)])" using 1 by (blast intro: reachable_step)
  then show ?case using 1(1) [OF f [symmetric], of "pool[n := (s, q)]"] 1(3,5) f by simp
qed (simp_all add: list_update_here)

text \<open>Runs of the whole system, as a list of events.\<close>

datatype event = Begin service | Calls nat "batch_input list" | End nat

fun play :: "event list \<Rightarrow> system \<Rightarrow> system" where
  "play [] st = st"
| "play (Begin s # es) (db, pool) = play es (db, pool @ [(s, program_of s)])"
| "play (Calls n is # es) (db, pool) =
     (case exec is (snd (pool ! n)) db of (p, db') \<Rightarrow> play es (db', pool[n := (fst (pool ! n), p)]))"
| "play (End n # es) (db, pool) = play es (db, without n pool)"

fun playable :: "event list \<Rightarrow> system \<Rightarrow> bool" where
  "playable [] st \<longleftrightarrow> True"
| "playable (Begin s # es) (db, pool) \<longleftrightarrow> admits pool s \<and> playable es (db, pool @ [(s, program_of s)])"
| "playable (Calls n is # es) (db, pool) \<longleftrightarrow>
     n < length pool \<and> allowed is (snd (pool ! n)) db \<and>
     (case exec is (snd (pool ! n)) db of (p, db') \<Rightarrow> playable es (db', pool[n := (fst (pool ! n), p)]))"
| "playable (End n # es) (db, pool) \<longleftrightarrow> n < length pool \<and> playable es (db, without n pool)"

lemma reachable_play: "reachable st \<Longrightarrow> playable es st \<Longrightarrow> reachable (play es st)"
proof (induction es st rule: play.induct)
  case (2 s es db pool)
  then show ?case by (auto intro: reachable_step step_start)
next
  case (3 n js es db pool)
  obtain p db' where e: "exec js (snd (pool ! n)) db = (p, db')" by fastforce
  have "reachable (db', pool[n := (fst (pool ! n), p)])"
    using reachable_exec [OF 3(2), of n "fst (pool ! n)" "snd (pool ! n)" js] 3(3) e by simp
  then show ?case using 3(1) [OF e [symmetric]] 3(3) e by simp
next
  case (4 n es db pool)
  then show ?case by (auto intro: reachable_step step_stop)
qed simp

section \<open>A batch from submission to payment\<close>

definition env0 :: batch_env where
  "env0 = \<lparr>be_known_provider = (\<lambda>_. True), be_unit_price = (\<lambda>_ _. Inr 10),
     be_parse_line = (\<lambda>line n. Inr \<lparr>pb_CustomID = line, pb_Status = ''succeeded'', pb_ImageCount = 1, pb_ErrorCode = [], pb_ErrorMessage = []\<rparr>),
     be_text = (\<lambda>_. []), be_default_requeue = 0, be_output_retention = 100\<rparr>"

definition input0 :: batch_input where
  "input0 = \<lparr>in_now = 1000, in_fault = Fine, in_account = Inr True,
     in_status = Inr (Some \<lparr>ps_InternalState = ''succeeded'', ps_ProviderOutputRef = [], ps_ErrorCode = [], ps_ErrorMessage = [], ps_SuggestedRequeueAfter = 0\<rparr>),
     in_result = Inr ([''a''], None), in_submit = Inr (Some \<lparr>pj_ProviderJobName = ''job'', pj_ProviderInputRef = [], pj_ProviderOutputRef = []\<rparr>),
     in_cancel = None, in_cleanup = None, in_enqueue = None, in_selection = Inr (''gemini_api'', 5),
     in_group = Inr (None, None), in_account_multiplier = 1\<rparr>"

definition db0 :: batch_db where
  "db0 = \<lparr>bl_users = (\<lambda>u. if u = 7 then Some \<lparr>us_balance = 100, us_frozen = 0, us_deleted = False\<rparr> else None),
     bl_dedup = (\<lambda>_. None), bl_archive = (\<lambda>_. None), bl_moves = [], db_jobs = [], db_items = (\<lambda>_. []), db_events = []\<rparr>"

definition owner0 :: BatchImageOwner where "owner0 = \<lparr>ow_UserID = 7, ow_APIKeyID = 1\<rparr>"

definition request0 :: BatchImageSubmitRequest where
  "request0 = \<lparr>rq_Model = ''m'', rq_ParentBatchID = [], rq_Items = [(''a'', ''p'')], rq_Hash = ''h''\<rparr>"

definition batch0 :: go_string where "batch0 = NewBatchImageID (replicate 16 0)"

lemma plain_batch0 [simp]: "plain batch0" by (simp add: batch0_def plain_new_id)

definition batch1 :: go_string where "batch1 = NewBatchImageID (replicate 16 1)"

lemma plain_batch1 [simp]: "plain batch1" by (simp add: batch1_def plain_new_id)

lemma batches_distinct [simp]: "batch1 \<noteq> batch0" "batch0 \<noteq> batch1"
proof -
  have "hex_encode (replicate 16 0) \<noteq> hex_encode (replicate 16 1)" by code_simp
  then show "batch1 \<noteq> batch0" "batch0 \<noteq> batch1" by (simp_all add: batch0_def batch1_def NewBatchImageID_def)
qed

lemma batch0_nonempty [simp]: "batch0 \<noteq> []" by (simp add: batch0_def NewBatchImageID_def)

lemma plain_chars [simp]: "plain ''m''" "plain ''h''" "plain ''p''" "plain ''a''" "plain ''job''" "plain ''gemini_api''" "plain ''k''" "plain []"
  by (simp_all add: plain_def)

lemmas run_defs = exec.simps allowed.simps repo_def ask_def permitted_def Let_def

lemmas submit_defs = Submit_def create_submission_def resolvePricingSnapshot_def run_submission_def reserveBatchImageBalanceHold_def
  buildBatchImageHoldCommand_def CreateBatchImageJob_def new_params_def IsSupportedBatchImageProvider_def job_of_def hold_of_def
  ReserveBatchImageBalance_def applyBatchImageBalanceHold_def claimUsageBillingRequest_def reserveUsageBillingBatchImageBalance_def
  Normalize_def updated_def update_user_def log_move_def BulkCreateBatchImageItems_def pending_items_def
  transition_def TransitionBatchImageJobStatus_def update_jobs_def append_event_def CanTransitionBatchImageJob_def IsTerminalBatchImageJobStatus_def
  after_submit_def UpdateBatchImageJobProviderSubmit_def enqueue_job_def get_job_def GetBatchImageJobByBatchID_def found_def
  batchImageOptionalStringPtr_def clip_def first_time_def null_if_empty_def

lemma request_ids_nonempty [simp]: "BatchImageHoldRequestID b \<noteq> []" "BatchImageCaptureRequestID b \<noteq> []" "BatchImageReleaseRequestID b \<noteq> []"
  by (simp_all add: BatchImageHoldRequestID_def BatchImageCaptureRequestID_def BatchImageReleaseRequestID_def
      batchImageHoldRequestPrefix_def batchImageCaptureRequestPrefix_def batchImageReleaseRequestPrefix_def)

lemmas worker_defs = PipelineProcess_def ProviderProcess_def isBatchImageProcessorDoneStatus_def batchImageDerefString_def
  persistProviderOutputRef_def follow_status_def indexAndSettle_def Index_def listExpectedCustomIDs_def list_pages.simps ListBatchImageItems_def
  index_start_def missing_ids_def sort_strings_def add_missing_def count_item_def parsed_item_def ReplaceBatchImageItemsForJob_def prompt_preview_def
  requeue_def terminal_def

lemmas settle_defs = Settle_def isBatchImageSettlementRetryExhausted_def batchImageSettlementMaxRetries_def counts_invalid_def
  checked_unit_price_def settlementUnitPrice_def batchImageCostEpsilon_def settle_cost_def captureBatchImageBalanceHold_def
  CaptureBatchImageBalance_def captureUsageBillingBatchImageBalance_def MarkBatchImageJobSettled_def settlement_result_def wrap64_def truncateBatchImageMessage_def

lemmas sample_defs = input0_def env0_def owner0_def request0_def db0_def

lemma initial_db0: "reachable (db0, [])"
  by (rule reachable_initial) (simp add: initial_def db0_def claim_of_def)

definition submit0 :: service where "submit0 = SubmitRequest env0 owner0 request0 [] batch0"
definition worker0 :: service where "worker0 = QueueWorker env0 batch0"

text \<open>Submitted, indexed by a first run of the worker, settled by a second.\<close>

definition life0 :: "event list" where
  "life0 = [Begin submit0, Calls 0 (replicate 10 input0), Begin worker0, Calls 1 (replicate 12 input0), End 1,
     Begin worker0, Calls 1 (replicate 4 input0)]"

lemma id_ok_new: "id_ok (SubmitRequest env owner req key (NewBatchImageID raw)) \<longleftrightarrow> (\<exists>raw'. length raw' = 16 \<and> NewBatchImageID raw = NewBatchImageID raw')"
  by simp

lemma id_ok_batch0 [simp]: "id_ok (SubmitRequest env owner req key batch0)"
  unfolding batch0_def id_ok_new by (rule exI [of _ "replicate 16 0"]) simp

lemma id_ok_batch1 [simp]: "id_ok (SubmitRequest env owner req key batch1)"
  unfolding batch1_def id_ok_new by (rule exI [of _ "replicate 16 1"]) simp

lemmas play_defs = play.simps playable.simps admits_def without_def numeral_eq_Suc run_defs submit_defs worker_defs settle_defs sample_defs
  submit0_def worker0_def

lemma life0_playable: "playable life0 (db0, [])"
  by (simp add: life0_def play_defs del: id_ok.simps(1))

definition paid_db :: batch_db where "paid_db = fst (play life0 (db0, []))"

lemma paid_reachable: "reachable (paid_db, snd (play life0 (db0, [])))"
  using reachable_play [OF initial_db0 life0_playable] by (simp add: paid_db_def)

text \<open>What is looked at in the state a run ends in.\<close>

definition view :: "system \<Rightarrow> balance_move list \<times> user_row option \<times> (BatchImageJobStatus \<times> go_string option \<times> int option) option \<times> bool" where
  "view st = (bl_moves (fst st), bl_users (fst st) 7,
     map_option (\<lambda>j. (bj_Status j, bj_ProviderJobName j, bj_UserDeletedAt j)) (job_of (fst st) batch0),
     list_all (\<lambda>sp. snd sp = Ret ()) (snd st))"

lemma paid_run:
  "view (play life0 (db0, [])) = ([Reserved batch0 7 6, Captured batch0 7 6 5],
     Some \<lparr>us_balance = 95, us_frozen = 0, us_deleted = False\<rparr>, Some (Completed, Some ''job'', None), True)"
  by (simp add: life0_def play_defs view_def)

definition paid_job :: BatchImageJob where "paid_job = the (job_of paid_db batch0)"

lemma paid_job_read: "job_of paid_db batch0 = Some paid_job"
  using paid_run by (auto simp: paid_job_def paid_db_def view_def)

lemma paid_facts:
  "bl_moves paid_db = [Reserved batch0 7 6, Captured batch0 7 6 5]" "bj_Status paid_job = Completed"
  using paid_run by (auto simp: paid_job_def paid_db_def view_def)

text \<open>Between indexing and payment, and the same after four failures.\<close>

definition settling_db :: batch_db where "settling_db = fst (play (take 4 life0) (db0, []))"

definition settling_job :: BatchImageJob where "settling_job = the (job_of settling_db batch0)"

definition settling_sample :: "batch_db \<Rightarrow> bool" where
  "settling_sample db \<longleftrightarrow>
     (case job_of db batch0 of
        None \<Rightarrow> False
      | Some j \<Rightarrow>
          bj_Status j = Settling \<and> settle_ready j \<and> bj_PricingSnapshotVersion j = 1 \<and> bj_APIKeyID j = Some 1 \<and> bj_AccountID j = Some 5 \<and>
          bj_ManifestHash j = None \<and> bj_UserID j = 7 \<and> hold_of j = 6 \<and> bj_SuccessCount j = 1 \<and> bj_BillableUnitPrice j = 5) \<and>
     bl_users db 7 = Some \<lparr>us_balance = 94, us_frozen = 6, us_deleted = False\<rparr> \<and> bl_moves db = [Reserved batch0 7 6] \<and>
     claim_of db (BatchImageHoldRequestID batch0, 1) \<noteq> None \<and> claim_of db (BatchImageCaptureRequestID batch0, 1) = None \<and>
     claim_of db (BatchImageReleaseRequestID batch0, 1) = None"

lemma settling_run: "settling_sample settling_db"
  by (simp add: settling_db_def life0_def play_defs settling_sample_def settle_ready_def cost_of_def claim_of_def)

lemma settling_facts:
  "job_of settling_db batch0 = Some settling_job" "bj_Status settling_job = Settling" "settle_ready settling_job"
  "1 \<le> bj_PricingSnapshotVersion settling_job" "bj_APIKeyID settling_job = Some 1" "bj_AccountID settling_job = Some 5"
  "bj_ManifestHash settling_job = None" "capture_claim settling_db settling_job = None"
  "bl_users settling_db (bj_UserID settling_job) = Some \<lparr>us_balance = 94, us_frozen = 6, us_deleted = False\<rparr>"
  "\<not> us_deleted \<lparr>us_balance = 94, us_frozen = 6, us_deleted = False\<rparr>"
  "hold_of settling_job = 6" "bj_UserID settling_job = 7" "bj_SuccessCount settling_job = 1" "bj_BillableUnitPrice settling_job = 5"
  "bl_moves settling_db = [Reserved batch0 7 6]"
  "release_claim settling_db settling_job = None" "hold_claim settling_db settling_job \<noteq> None"
  using settling_run job_of_id [of settling_db batch0]
  by (auto simp: settling_sample_def settling_job_def capture_claim_def hold_claim_def release_claim_def split: option.splits)

definition tired_db :: batch_db where
  "tired_db = settling_db\<lparr>db_jobs := map (\<lambda>j. j\<lparr>bj_RetryCount := 4\<rparr>) (db_jobs settling_db)\<rparr>"

definition tired_job :: BatchImageJob where "tired_job = the (job_of tired_db batch0)"

definition code0 :: go_string where "code0 = ''SETTLEMENT_BILLING_FAILED''"

lemma tired_job_read: "job_of tired_db batch0 = Some (settling_job\<lparr>bj_RetryCount := 4\<rparr>)"
proof -
  have "find (\<lambda>j. bj_BatchID j = b) (map (\<lambda>j. j\<lparr>bj_RetryCount := 4\<rparr>) js) =
      map_option (\<lambda>j. j\<lparr>bj_RetryCount := 4\<rparr>) (find (\<lambda>j. bj_BatchID j = b) js)" for b and js :: "BatchImageJob list"
    by (induction js) simp_all
  then show ?thesis using settling_facts(1) by (simp add: job_of_def tired_db_def)
qed

lemma tired_facts:
  "job_of tired_db batch0 = Some tired_job" "bj_Status tired_job = Settling" "batchImageSettlementMaxRetries \<le> bj_RetryCount tired_job + 1"
  "bj_APIKeyID tired_job = Some 1" "release_claim tired_db tired_job = None" "hold_claim tired_db tired_job \<noteq> None"
  "bl_users tired_db (bj_UserID tired_job) = Some \<lparr>us_balance = 94, us_frozen = 6, us_deleted = False\<rparr>"
  "\<not> us_deleted \<lparr>us_balance = 94, us_frozen = 6, us_deleted = False\<rparr>"
  "hold_of tired_job = 6" "bj_UserID tired_job = 7" "bl_moves tired_db = [Reserved batch0 7 6]"
proof -
  have j: "tired_job = settling_job\<lparr>bj_RetryCount := 4\<rparr>" by (simp add: tired_job_def tired_job_read)
  have c: "claim_of tired_db = claim_of settling_db" by (rule claim_of_cong) (simp_all add: tired_db_def)
  have t: "hold_of tired_job = hold_of settling_job" by (simp add: j hold_of_def split: option.split)
  show "release_claim tired_db tired_job = None" "hold_claim tired_db tired_job \<noteq> None"
    using settling_facts(16,17) c by (simp_all add: release_claim_def hold_claim_def j)
  show "batchImageSettlementMaxRetries \<le> bj_RetryCount tired_job + 1" by (simp add: j batchImageSettlementMaxRetries_def)
  show "bl_users tired_db (bj_UserID tired_job) = Some \<lparr>us_balance = 94, us_frozen = 6, us_deleted = False\<rparr>"
    using settling_facts(9) by (simp add: tired_db_def j)
  show "hold_of tired_job = 6" using t settling_facts(11) by simp
  show "bl_moves tired_db = [Reserved batch0 7 6]" by (simp add: tired_db_def settling_facts)
qed (simp_all add: tired_job_def tired_job_read settling_facts)

end
