(* ===== verification/Batch_Indexing.thy ===== *)
theory Batch_Indexing
  imports Batch_Services
begin

text \<open>The indexer's bookkeeping, and the price a submission fixes.\<close>

section \<open>Reading the items page by page\<close>

lemma list_pages_drop: "list_pages b offset db = map bi_CustomID (drop offset (db_items db b))"
proof (induction b offset db rule: list_pages.induct)
  case (1 b offset db)
  let ?page = "ListBatchImageItems b 500 offset db"
  have page: "?page = take 500 (drop offset (db_items db b))" by (simp add: ListBatchImageItems_def)
  show ?case
  proof (cases "length ?page < 500")
    case True
    then have "?page = drop offset (db_items db b)" unfolding page by simp
    then show ?thesis using True by (simp add: list_pages.simps [of b offset])
  next
    case False
    then have l: "length ?page = 500" unfolding page by simp
    have "map bi_CustomID ?page @ map bi_CustomID (drop (offset + 500) (db_items db b)) = map bi_CustomID (drop offset (db_items db b))"
      unfolding page map_append [symmetric] by (metis add.commute append_take_drop_id drop_drop)
    then show ?thesis using 1 False l by (simp add: list_pages.simps [of b offset] Let_def)
  qed
qed

section \<open>Every expected item once\<close>

definition index_ok :: "batch_env \<Rightarrow> go_string list \<Rightarrow> go_string list \<Rightarrow> index_state \<Rightarrow> bool" where
  "index_ok env expected lines st \<longleftrightarrow>
     map bi_CustomID (xs_items st) = xs_seen st \<and> distinct (xs_seen st) \<and> set (xs_seen st) \<subseteq> set expected \<and>
     ix_SuccessCount (xs_result st) = int (length (filter (\<lambda>i. bi_Status i = ItemSuccess) (xs_items st))) \<and>
     ix_SuccessCount (xs_result st) + ix_FailCount (xs_result st) = int (length (xs_items st)) \<and>
     (\<forall>i \<in> set (xs_items st). bi_Status i = ItemSuccess \<longrightarrow>
        (\<exists>line \<in> set lines. \<exists>n p. be_parse_line env (go_trim_space line) n = Inr p \<and>
           pb_CustomID p = bi_CustomID i \<and> pb_Status p = ''succeeded''))"

lemma index_ok_mono: "index_ok env expected lines st \<Longrightarrow> set lines \<subseteq> set lines' \<Longrightarrow> index_ok env expected lines' st"
  unfolding index_ok_def by blast

lemma index_lines_ok:
  assumes "index_lines env expected n lines st = Inr st'" and "expected \<noteq> []" and "index_ok env expected before st"
  shows "index_ok env expected (before @ lines) st'"
  using assms
proof (induction env expected n lines st arbitrary: before rule: index_lines.induct)
  case (1 env expected n st)
  then show ?case by simp
next
  case (2 env expected n line lines st)
  let ?l = "go_trim_space line"
  have up: "index_ok env expected (before @ line # lines) st'"
    if "index_ok env expected ((before @ [line]) @ lines) st'" using that by simp
  have keep: "index_ok env expected (before @ [line]) st" by (rule index_ok_mono [OF 2(6)]) auto
  show ?case
  proof (cases "?l = []")
    case True
    then show ?thesis using 2(1) [OF refl refl True _ 2(5) keep] 2(4) up by simp
  next
    case ne: False
    show ?thesis
    proof (cases "be_parse_line env ?l (n + 1)")
      case (Inl e)
      then show ?thesis using 2(4) ne by (simp add: Let_def)
    next
      case (Inr p)
      show ?thesis
      proof (cases "pb_CustomID p \<notin> set expected")
        case True
        have "index_ok env expected (before @ [line]) (st\<lparr>xs_unknown := xs_unknown st + 1\<rparr>)"
          using keep by (simp add: index_ok_def)
        moreover have "index_ok env expected (lines1 @ lines) st'" if "index_ok env expected lines1 (st\<lparr>xs_unknown := xs_unknown st + 1\<rparr>)" for lines1
          using 2(2) [OF refl refl ne Inr _ _ 2(5) that] 2(4,5) True ne Inr by (simp add: Let_def)
        ultimately show ?thesis using up by blast
      next
        case False
        then have fresh: "pb_CustomID p \<notin> set (xs_seen st)"
          using 2(4) ne Inr by (auto simp: Let_def split: if_splits)
        let ?st = "count_item (parsed_item p (n + 1)) (st\<lparr>xs_seen := xs_seen st @ [pb_CustomID p]\<rparr>)"
        have id: "bi_CustomID (parsed_item p m) = pb_CustomID p"
          "bi_Status (parsed_item p m) = ItemSuccess \<longleftrightarrow> pb_Status p = ''succeeded''" for m
          by (simp_all add: parsed_item_def)
        have "index_ok env expected (before @ [line]) ?st"
          using keep fresh False Inr by (auto simp: index_ok_def count_item_def id)
        moreover have "index_ok env expected (lines1 @ lines) st'" if "index_ok env expected lines1 ?st" for lines1
          using 2(3) [OF refl refl ne Inr _ fresh _ 2(5) that] 2(4,5) False fresh ne Inr by (simp add: Let_def)
        ultimately show ?thesis using up by blast
      qed
    qed
  qed
qed

lemma insert_string_list: "set (insert_string s ts) = insert s (set ts)" "distinct (insert_string s ts) \<longleftrightarrow> s \<notin> set ts \<and> distinct ts"
proof -
  show s: "set (insert_string s ts) = insert s (set ts)" for ts by (induction ts) auto
  show "distinct (insert_string s ts) \<longleftrightarrow> s \<notin> set ts \<and> distinct ts" by (induction ts) (auto simp: s)
qed

lemma sort_strings_list: "set (sort_strings ss) = set ss" "distinct (sort_strings ss) \<longleftrightarrow> distinct ss"
proof -
  show s: "set (sort_strings ss) = set ss" for ss by (induction ss) (auto simp: sort_strings_def insert_string_list)
  show "distinct (sort_strings ss) \<longleftrightarrow> distinct ss"
  proof (induction ss)
    case (Cons a ss)
    then show ?case using s [of ss] by (simp add: sort_strings_def insert_string_list)
  qed (simp add: sort_strings_def)
qed

lemma add_items:
  "xs_items (foldl (\<lambda>st c. count_item (missing_item c) st) st cs) = xs_items st @ map missing_item cs"
  "ix_SuccessCount (xs_result (foldl (\<lambda>st c. count_item (missing_item c) st) st cs)) = ix_SuccessCount (xs_result st)"
  "ix_FailCount (xs_result (foldl (\<lambda>st c. count_item (missing_item c) st) st cs)) = ix_FailCount (xs_result st) + int (length cs)"
  by (induction cs arbitrary: st) (simp_all add: count_item_def missing_item_def)

lemma missing_simps [simp]: "bi_CustomID (missing_item c) = c" "bi_Status (missing_item c) = ItemFailed"
  by (simp_all add: missing_item_def)

section \<open>The hold covers the cost\<close>

text \<open>In units of the tenth decimal.\<close>

lemma rounded_cost_bound:
  assumes "0 \<le> (x :: rat)" and "x \<le> y" and "0 \<le> s" and "s \<le> int n" and "n \<le> 200"
  shows "of_int s * to_scale 10 x - to_scale 10 (y * of_nat n) \<le> 1 / 10 ^ 8"
proof -
  define A B where "A = \<lfloor>x * 10 ^ 10 + 1 / 2\<rfloor>" and "B = \<lfloor>y * of_nat n * 10 ^ 10 + 1 / 2\<rfloor>"
  have A: "of_int A \<le> x * 10 ^ 10 + 1 / 2" "0 \<le> A" using assms(1) unfolding A_def by (linarith, simp)
  have B: "y * of_nat n * 10 ^ 10 - 1 / 2 < of_int B" unfolding B_def by linarith
  have "of_int (s * A) \<le> (of_int (int n * A) :: rat)" using assms(3,4) A(2) by (simp add: mult_right_mono)
  also have "of_int (int n * A) \<le> of_nat n * (x * 10 ^ 10 + 1 / 2 :: rat)" using A(1) by (simp add: mult_left_mono)
  also have "\<dots> \<le> of_nat n * (y * 10 ^ 10) + 100"
  proof -
    have "of_nat n * x \<le> of_nat n * y" using assms(2) by (simp add: mult_left_mono)
    moreover have "(of_nat n :: rat) \<le> 200" using assms(5) by simp
    ultimately show ?thesis by (simp add: algebra_simps)
  qed
  also have "\<dots> < of_int B + 101" using B by (simp add: algebra_simps)
  finally have "s * A \<le> B + 100" by linarith
  then have "of_int (s * A) - of_int B \<le> (100 :: rat)" by linarith
  moreover have "to_scale 10 x = of_int A / 10 ^ 10" "to_scale 10 (y * of_nat n) = of_int B / 10 ^ 10"
    using assms(1,2) by (simp_all add: to_scale_def A_def B_def)
  ultimately show ?thesis by (simp only:) (simp add: field_simps)
qed

lemma snapshot_prices:
  assumes "resolvePricingSnapshot env model n lookup multiplier = Inr sn"
  shows "0 \<le> sn_BillableUnitPrice sn" and "sn_BillableUnitPrice sn \<le> sn_HoldUnitPrice sn" and "sn_HoldAmount sn = sn_HoldUnitPrice sn * of_nat n"
proof -
  have clip: "0 \<le> clip x" for x by (simp add: clip_def)
  obtain u g d h where u: "0 \<le> u" and g: "0 \<le> g" and d: "0 \<le> d" and sn: "sn = \<lparr>sn_BillableUnitPrice = u * g * clip multiplier * d,
      sn_HoldUnitPrice = u * g * clip multiplier * (if h < d then d else h),
      sn_EstimatedCost = u * g * clip multiplier * d * of_nat n,
      sn_HoldAmount = u * g * clip multiplier * (if h < d then d else h) * of_nat n\<rparr>"
  proof (cases lookup)
    case (Inr look)
    obtain grp rate where look: "look = (grp, rate)" by fastforce
    let ?g = "case grp of Some g \<Rightarrow> group_multiplier g rate | None \<Rightarrow> 1"
    let ?d = "case grp of Some g \<Rightarrow> clip (gp_BatchImageDiscountMultiplier g) | None \<Rightarrow> 1 / 2"
    have "0 \<le> ?g" "0 \<le> ?d" using clip by (simp_all add: group_multiplier_def split: option.split)
    let ?h = "case grp of Some g \<Rightarrow> if gp_BatchImageHoldMultiplier g \<ge> 0 then gp_BatchImageHoldMultiplier g else 6 / 10 | None \<Rightarrow> 6 / 10"
    let ?unit = "case (case grp of Some g \<Rightarrow> gp_ImagePrice g | None \<Rightarrow> None) of
                    Some u \<Rightarrow> if u \<ge> 0 then Inr u else be_unit_price env None model
                  | None \<Rightarrow> be_unit_price env None model"
    note def = assms [unfolded resolvePricingSnapshot_def Inr look sum.case prod.case Let_def]
    obtain u where u: "?unit = Inr u" "0 \<le> u" using def by (cases ?unit) (auto split: if_splits)
    show ?thesis
      by (rule that [of u ?g ?d ?h]) (use \<open>0 \<le> ?g\<close> \<open>0 \<le> ?d\<close> u def in \<open>simp_all split: if_split_asm\<close>)
  qed (use assms in \<open>simp add: resolvePricingSnapshot_def\<close>)
  have p: "0 \<le> u * g * clip multiplier" using u g clip by simp
  then show "0 \<le> sn_BillableUnitPrice sn" and "sn_BillableUnitPrice sn \<le> sn_HoldUnitPrice sn"
    using d by (simp_all add: sn mult_left_mono)
  show "sn_HoldAmount sn = sn_HoldUnitPrice sn * of_nat n" by (simp add: sn)
qed

end
