(* ===== verification/Batch_Results.thy ===== *)
theory Batch_Results
  imports Batch_Runs Batch_Indexing
begin

text \<open>What settlement does when nothing fails, when it gives up, and what no step ever undoes.\<close>

section \<open>The money of a batch\<close>





section \<open>A capture and a release that find their claim free\<close>

lemma claim_free:
  "claim_of db (rid, a) = None \<Longrightarrow>
    claimUsageBillingRequest rid a fp db = (Inr True, db\<lparr>bl_dedup := (bl_dedup db)((rid, a) \<mapsto> fp)\<rparr>)"
  by (auto simp: claimUsageBillingRequest_def claim_of_def Let_def split: option.splits)

lemma job_of_frame: "db_jobs db' = db_jobs db \<Longrightarrow> job_of db' = job_of db"
  by (simp add: job_of_def fun_eq_iff)

lemma capture_free:
  assumes "job_command j (BatchImageCaptureRequestID b) cmd" and "hc_ActualAmount (Normalize cmd) = c" and "bj_BatchID j = b"
    and "capture_claim db j = None" and "bl_users db (bj_UserID j) = Some u" and "\<not> us_deleted u"
    and "0 < hold_of j" and "hold_of j \<le> us_frozen u" and "\<not> c - hold_of j > batchImageCostEpsilon"
  shows "\<exists>db'. CaptureBatchImageBalance cmd db = (Inr True, db') \<and> db_jobs db' = db_jobs db \<and>
    bl_users db' = (bl_users db)(bj_UserID j \<mapsto>
      u\<lparr>us_balance := to_scale 8 (us_balance u + (hold_of j - c)), us_frozen := to_scale 8 (us_frozen u - hold_of j)\<rparr>) \<and>
    bl_moves db' = bl_moves db @ [Captured b (bj_UserID j) (hold_of j) c]"
proof -
  note jc = assms(1) [unfolded job_command_def]
  have h: "clip (hold_of j) = hold_of j" using assms(7) by (simp add: clip_def)
  have free: "claim_of db (BatchImageCaptureRequestID b, hc_APIKeyID (Normalize cmd)) = None"
    using assms(3,4) jc by (auto simp: capture_claim_def)
  show ?thesis
    using jc h claim_free [OF free] assms
    by (simp add: CaptureBatchImageBalance_def applyBatchImageBalanceHold_def captureUsageBillingBatchImageBalance_def Let_def
        updated_def update_user_def log_move_def batchImageCostEpsilon_def algebra_simps)
qed


section \<open>Settling\<close>

lemma exec_repo:
  "in_fault i = Fine \<Longrightarrow> exec (i # is) (repo c lost f k) db = exec is (k (fst (f i db))) (snd (f i db))"
  by (simp add: repo_def)

lemma settle_ready_program:
  assumes "bj_Status j = Settling" and "settle_ready j" and "1 \<le> bj_PricingSnapshotVersion j"
    and "bj_APIKeyID j = Some a" and "0 < a" and "bj_AccountID j = Some c" and "0 < c" and "job_of db b = Some j" and "in_fault i = Fine"
  shows "exec (i # is) (Settle env b k) db = exec is (settle_cost env j (cost_of j) k) db"
proof -
  have p: "checked_unit_price env j = Inr (bj_BillableUnitPrice j)"
    using assms(2,3) by (simp add: checked_unit_price_def settlementUnitPrice_def settle_ready_def)
  show ?thesis
    using assms p unfolding Settle_def get_job_def
    by (auto simp: exec_repo GetBatchImageJobByBatchID_def found_def Let_def settle_ready_def cost_of_def)
qed

lemma mark_settled_ok:
  assumes "job_of db b = Some j" and "bj_Status j = Settling" and "bj_ManifestHash j = None"
  shows "\<exists>db' j'. MarkBatchImageJobSettled b cost manifest expires now db = (None, db') \<and> bl_users db' = bl_users db \<and>
    bl_moves db' = bl_moves db \<and> job_of db' b = Some j' \<and> terms j' = terms j \<and> bj_Status j' = Completed \<and> bj_ActualCost j' = Some (to_scale 10 cost)"
proof -
  let ?c = "\<lambda>j. bj_Status j = Settling \<and> bj_ManifestHash j \<in> {None, Some [], Some manifest}"
  let ?f = "\<lambda>j. j\<lparr>bj_Status := Completed, bj_ActualCost := Some (to_scale 10 cost),
               bj_ManifestHash := Some manifest, bj_SettledAt := first_time True now (bj_SettledAt j),
               bj_FinishedAt := first_time True now (bj_FinishedAt j),
               bj_OutputExpiresAt := first_time True expires (bj_OutputExpiresAt j),
               bj_UpdatedAt := now, bj_Version := bj_Version j + 1\<rparr>"
  have "j \<in> set (db_jobs db)" "bj_BatchID j = b" using assms(1) by (auto simp: job_of_def find_Some_iff)
  then have n: "fst (update_jobs b ?c ?f db) \<noteq> 0"
    using assms(2,3) by (auto simp: update_jobs_def Let_def filter_empty_conv)
  have "job_of (snd (update_jobs b ?c ?f db)) b = Some (?f j)"
    using assms by (subst job_of_update_jobs) simp_all
  then show ?thesis
    using n by (auto simp: MarkBatchImageJobSettled_def case_prod_beta terms_def)
qed

text \<open>
  C10. The settlement of a job that passes the checks, run without faults: it answers with the result, charges the
  successful items at the price fixed on submission, returns the rest of the hold to the balance, takes the
  whole hold out of the frozen amount, and leaves the job completed with that cost.
\<close>

theorem settle_charges_successes:
  assumes "job_of db b = Some j" and "plain b" and "bj_Status j = Settling" and "settle_ready j" and "1 \<le> bj_PricingSnapshotVersion j"
    and "bj_APIKeyID j = Some a" and "0 < a" and "bj_AccountID j = Some c" and "0 < c" and "bj_ManifestHash j = None"
    and "capture_claim db j = None" and "bl_users db (bj_UserID j) = Some u" and "\<not> us_deleted u"
    and "0 < hold_of j" and "hold_of j \<le> us_frozen u" and "in_fault i1 = Fine" and "in_fault i2 = Fine" and "in_fault i3 = Fine"
  shows "\<exists>db' j'. exec [i1, i2, i3] (Settle env b Ret) db =
      (Ret (Inr (settlement_result j (of_int (bj_SuccessCount j) * bj_BillableUnitPrice j) False)), db') \<and>
    bl_users db' = (bl_users db)(bj_UserID j \<mapsto>
      u\<lparr>us_balance := to_scale 8 (us_balance u + (hold_of j - of_int (bj_SuccessCount j) * bj_BillableUnitPrice j)),
        us_frozen := to_scale 8 (us_frozen u - hold_of j)\<rparr>) \<and>
    bl_moves db' = bl_moves db @ [Captured b (bj_UserID j) (hold_of j) (of_int (bj_SuccessCount j) * bj_BillableUnitPrice j)] \<and>
    job_of db' b = Some j' \<and> bj_Status j' = Completed \<and>
    bj_ActualCost j' = Some (to_scale 10 (of_int (bj_SuccessCount j) * bj_BillableUnitPrice j))"
proof -
  have id: "bj_BatchID j = b" using assms(1) by (rule job_of_id)
  let ?m = "BuildBatchImageSettlementManifestHash j"
  have cost: "0 \<le> cost_of j" "\<not> cost_of j - hold_of j > batchImageCostEpsilon"
    using assms(4) by (simp_all add: settle_ready_def cost_of_def counts_invalid_def)
  obtain cmd where cmd: "buildBatchImageHoldCommand j (BatchImageCaptureRequestID b) (cost_of j) ?m = Inr cmd"
    using assms(6,7) by (simp add: buildBatchImageHoldCommand_def)
  have jc: "job_command j (BatchImageCaptureRequestID b) cmd" using build_command [OF cmd] assms(2) id by simp
  have actual: "hc_ActualAmount (Normalize cmd) = cost_of j" using command_actual [OF cmd] cost(1) by (simp add: clip_def)
  obtain db1 where db1: "CaptureBatchImageBalance cmd db = (Inr True, db1)" "db_jobs db1 = db_jobs db"
    "bl_users db1 = (bl_users db)(bj_UserID j \<mapsto>
      u\<lparr>us_balance := to_scale 8 (us_balance u + (hold_of j - cost_of j)), us_frozen := to_scale 8 (us_frozen u - hold_of j)\<rparr>)"
    "bl_moves db1 = bl_moves db @ [Captured b (bj_UserID j) (hold_of j) (cost_of j)]"
    using capture_free [OF jc actual id assms(11-15) cost(2)] by blast
  have "job_of db1 b = Some j" using job_of_frame [OF db1(2)] assms(1) by simp
  then obtain db2 j' where db2: "MarkBatchImageJobSettled b (cost_of j) ?m (in_now i3 + be_output_retention env) (in_now i3) db1 = (None, db2)"
    "bl_users db2 = bl_users db1" "bl_moves db2 = bl_moves db1" "job_of db2 b = Some j'" "bj_Status j' = Completed"
    "bj_ActualCost j' = Some (to_scale 10 (cost_of j))"
    using mark_settled_ok [OF _ assms(3,10)] by blast
  have "exec [i1, i2, i3] (Settle env b Ret) db = exec [i2, i3] (settle_cost env j (cost_of j) Ret) db"
    by (rule settle_ready_program [OF assms(3-9,1,16)])
  also have "\<dots> = (Ret (Inr (settlement_result j (cost_of j) False)), db2)"
    using assms(17,18) cmd db1(1) db2(1) id
    by (simp add: settle_cost_def captureBatchImageBalanceHold_def exec_repo)
  finally show ?thesis using db1 db2 by (auto simp: cost_of_def)
qed

theorem settle_charges_successes_witness:
  "\<exists>db' j'. exec [input0, input0, input0] (Settle env0 batch0 Ret) settling_db =
      (Ret (Inr (settlement_result settling_job (of_int (bj_SuccessCount settling_job) * bj_BillableUnitPrice settling_job) False)), db') \<and>
    bl_moves db' = [Reserved batch0 7 6, Captured batch0 7 6 5] \<and> job_of db' batch0 = Some j' \<and> bj_Status j' = Completed"
  using settle_charges_successes [OF settling_facts(1) plain_batch0 settling_facts(2,3,4,5) zero_less_one settling_facts(6) _ settling_facts(7-10),
      of input0 input0 input0 env0]
  by (auto simp: settling_facts input0_def)

section \<open>Giving up\<close>





section \<open>What no step undoes\<close>

lemma step_guar:
  assumes "step (db, pool) (db', pool')" and "reachable (db, pool)" and "plain b"
  shows "\<exists>r. guar b r db db'"
proof -
  have ok: "system_ok b (db, pool)" using reachable_ok assms(2,3) by blast
  then have inv: "batch_inv b db" by (simp add: system_ok_def)
  show ?thesis
    using assms(1)
  proof (cases rule: step.cases)
    case (step_run n s c f i p)
    have "process_ok b db (s, Act c f)" using ok step_run by (metis fst_conv nth_mem snd_conv system_ok_def)
    then obtain P where "P db" "safe b (role_in b s) P (Act c f)" by (auto simp: process_ok_def)
    then show ?thesis using step_run inv by (elim safe_ActE) force
  next
    case step_elsewhere
    then have "same_view b db db'" "keeps_jobs db db'"
      by (simp_all add: elsewhere_def same_view_def keeps_jobs_def job_of_def moves_of_def)
    then show ?thesis using same_view_ok(2) inv by blast
  qed (use guar_refl [OF inv] in auto)
qed

text \<open>
  C20. No step of the system, whichever service takes it, removes a job or changes its terms (owner, key, provider,
  model, prices, hold), revives a job that ended, or turns a failed or cancelled job into a completed one.
\<close>

theorem ended_jobs_stay_ended:
  assumes "reachable (db, pool)" and "step (db, pool) (db', pool')" and "job_of db b = Some j"
  shows "\<exists>j'. job_of db' b = Some j' \<and> terms j' = terms j \<and>
    (bj_Status j \<in> {Failed, Cancelled} \<longrightarrow> bj_Status j' \<in> {Failed, Cancelled}) \<and>
    (IsTerminalBatchImageJobStatus (bj_Status j) \<longrightarrow> IsTerminalBatchImageJobStatus (bj_Status j'))"
proof -
  have "plain b" using reachable_inv [OF assms(1,3)] by (simp add: batch_inv_def)
  then obtain r where g: "guar b r db db'" using step_guar [OF assms(2,1)] by blast
  obtain j' where j': "job_of db' b = Some j'" "terms j' = terms j" using guar_job [OF g assms(3)] .
  then show ?thesis using guar_both(1,2) [OF g assms(3) j'(1)] by (auto simp: ended_def)
qed

theorem ended_jobs_stay_ended_witness:
  "\<exists>j'. job_of (paid_db\<lparr>bl_users := (\<lambda>u. None)\<rparr>) batch0 = Some j' \<and> terms j' = terms paid_job \<and>
    IsTerminalBatchImageJobStatus (bj_Status j')"
proof -
  let ?pool = "snd (play life0 (db0, []))"
  have "claim_of (paid_db\<lparr>bl_users := (\<lambda>u. None)\<rparr>) = claim_of paid_db" by (rule claim_of_cong) simp_all
  then have "step (paid_db, ?pool) (paid_db\<lparr>bl_users := (\<lambda>u. None)\<rparr>, ?pool)"
    by (intro step_elsewhere) (simp add: elsewhere_def)
  moreover have "IsTerminalBatchImageJobStatus (bj_Status paid_job)"
    by (simp add: paid_facts IsTerminalBatchImageJobStatus_def)
  ultimately show ?thesis using ended_jobs_stay_ended [OF paid_reachable _ paid_job_read] by blast
qed



section \<open>Indexing and pricing\<close>

text \<open>
  C18. When the lines of the provider's output were read without an error, the items stored are those submitted, each
  once, whatever the output left out or added: the counts add up to the number of submitted items, the number
  of successes is that of the items stored as successful, and each of these has a line that says so.
\<close>

theorem index_accounts_for_items:
  assumes "index_lines env expected 0 lines index_start = Inr st" and "expected \<noteq> []" and "distinct expected"
  shows "distinct (map bi_CustomID (xs_items (add_missing expected st))) \<and>
    set (map bi_CustomID (xs_items (add_missing expected st))) = set expected \<and>
    ix_SuccessCount (xs_result (add_missing expected st)) =
      int (length (filter (\<lambda>i. bi_Status i = ItemSuccess) (xs_items (add_missing expected st)))) \<and>
    ix_SuccessCount (xs_result (add_missing expected st)) + ix_FailCount (xs_result (add_missing expected st)) = int (length expected) \<and>
    (\<forall>i \<in> set (xs_items (add_missing expected st)). bi_Status i = ItemSuccess \<longrightarrow>
       (\<exists>line \<in> set lines. \<exists>n p. be_parse_line env (go_trim_space line) n = Inr p \<and>
          pb_CustomID p = bi_CustomID i \<and> pb_Status p = ''succeeded''))"
proof -
  have "index_ok env expected [] index_start" by (simp add: index_ok_def index_start_def)
  then have ok: "index_ok env expected lines st" using index_lines_ok [OF assms(1,2)] by fastforce
  let ?m = "missing_ids expected st"
  have ids: "map bi_CustomID (xs_items st) = xs_seen st" and d: "distinct (xs_seen st)" and sub: "set (xs_seen st) \<subseteq> set expected"
    using ok by (simp_all add: index_ok_def)
  have m: "set ?m = set expected - set (xs_seen st)" "distinct ?m"
    using assms(3) by (auto simp: missing_ids_def sort_strings_list)
  have items: "xs_items (add_missing expected st) = xs_items st @ map missing_item ?m" by (simp add: add_missing_def add_items)
  have all: "map bi_CustomID (xs_items (add_missing expected st)) = xs_seen st @ ?m"
    by (simp add: items ids comp_def)
  have dist: "distinct (xs_seen st @ ?m)" and set: "set (xs_seen st @ ?m) = set expected" using m d sub by auto
  have "length (xs_seen st @ ?m) = length expected" using dist set assms(3) distinct_card by metis
  moreover have "length (xs_items st) = length (xs_seen st)" using ids by (metis length_map)
  ultimately have "ix_SuccessCount (xs_result (add_missing expected st)) + ix_FailCount (xs_result (add_missing expected st)) = int (length expected)"
    using ok by (simp add: add_missing_def add_items index_ok_def)
  moreover have "ix_SuccessCount (xs_result (add_missing expected st)) =
      int (length (filter (\<lambda>i. bi_Status i = ItemSuccess) (xs_items (add_missing expected st))))"
    using ok by (simp add: items index_ok_def filter_False) (simp add: add_missing_def add_items)
  ultimately show ?thesis using ok dist set unfolding all by (auto simp: items index_ok_def)
qed

definition index0 :: index_state where
  "index0 = count_item (parsed_item \<lparr>pb_CustomID = ''a'', pb_Status = ''succeeded'', pb_ImageCount = 1, pb_ErrorCode = [], pb_ErrorMessage = []\<rparr> 1)
     (index_start\<lparr>xs_seen := [''a'']\<rparr>)"

theorem index_accounts_for_items_witness:
  "distinct (map bi_CustomID (xs_items (add_missing [''a'', ''k''] index0))) \<and>
    set (map bi_CustomID (xs_items (add_missing [''a'', ''k''] index0))) = {''a'', ''k''} \<and>
    ix_SuccessCount (xs_result (add_missing [''a'', ''k''] index0)) + ix_FailCount (xs_result (add_missing [''a'', ''k''] index0)) = 2"
proof -
  have "index_lines env0 [''a'', ''k''] 0 [''a''] index_start = Inr index0"
    by (simp add: index0_def env0_def index_start_def Let_def)
  from index_accounts_for_items [OF this] show ?thesis by simp
qed





end
