(* ===== verification/Batch_Findings.thy ===== *)
theory Batch_Findings
  imports Batch_Runs
begin

text \<open>Runs in which the money of a batch is not returned, or returned when it should not be.\<close>

lemmas cancel_defs = Cancel_def get_owned_job_def GetBatchImageJobByBatchIDForOwner_def cancel_release_def
  releaseBatchImageBalanceHold_def ReleaseBatchImageBalance_def releaseUsageBillingBatchImageBalance_def
  batchImageHoldClaimExists_def releaseFailedSubmitHold_def submit_failed_def hidePreUpstreamSubmitFailure_def
  record_submit_failure_def RecordBatchImageJobSubmitFailure_def MarkBatchImageJobUserDeleted_def affected_or_def
  sanitizeBatchImagePublicMessage_def

definition cancel0 :: service where "cancel0 = CancelRequest env0 owner0 batch0"

definition lost_input :: batch_input where "lost_input = input0\<lparr>in_fault := FailAfter\<rparr>"

definition cancel_before_hold :: "event list" where
  "cancel_before_hold = [Begin submit0, Calls 0 (replicate 3 input0), Begin cancel0, Calls 1 (replicate 4 input0),
     Calls 0 (replicate 4 input0)]"

lemma cancel_before_hold_run:
  "playable cancel_before_hold (db0, [])"
  "view (play cancel_before_hold (db0, [])) = ([Reserved batch0 7 6], Some \<lparr>us_balance = 94, us_frozen = 6, us_deleted = False\<rparr>,
     Some (Cancelled, None, None), True)"
  "claim_of (fst (play cancel_before_hold (db0, []))) (BatchImageReleaseRequestID batch0, 1) \<noteq> None"
  by (simp_all add: cancel_before_hold_def cancel0_def play_defs cancel_defs claim_of_def view_def del: id_ok.simps(1))

text \<open>
  A cancellation between \<^verbatim>\<open>CreateBatchImageJob\<close> and the reservation uses up the release of a hold that does
  not exist yet. The reservation that follows is never undone: no release of the batch has an effect.
\<close>

theorem cancel_before_hold_leaks:
  "\<exists>db pool j. reachable (db, pool) \<and> (\<forall>sp \<in> set pool. snd sp = Ret ()) \<and> job_of db batch0 = Some j \<and> bj_Status j = Cancelled \<and>
    bl_moves db = [Reserved batch0 7 6] \<and>
    (\<forall>effect cmd. hc_RequestID (Normalize cmd) = BatchImageReleaseRequestID batch0 \<and> hc_APIKeyID cmd = 1 \<longrightarrow>
       snd (applyBatchImageBalanceHold effect cmd db) = db)"
proof -
  let ?st = "play cancel_before_hold (db0, [])"
  note run = cancel_before_hold_run
  have r: "reachable (fst ?st, snd ?st)" using reachable_play [OF initial_db0 run(1)] by simp
  obtain j where j: "job_of (fst ?st) batch0 = Some j" "bj_Status j = Cancelled" using run(2) by (auto simp: view_def)
  have "snd (applyBatchImageBalanceHold effect cmd (fst ?st)) = fst ?st"
    if "hc_RequestID (Normalize cmd) = BatchImageReleaseRequestID batch0" "hc_APIKeyID cmd = 1"
    for effect :: "BatchImageBalanceHoldCommand \<Rightarrow> batch_db \<Rightarrow> billing_error + batch_db" and cmd
  proof -
    obtain x db' where a: "applyBatchImageBalanceHold effect cmd (fst ?st) = (x, db')" by fastforce
    then show ?thesis by (cases rule: apply_hold_cases) (use that run(3) a in auto)
  qed
  moreover have "bl_moves (fst ?st) = [Reserved batch0 7 6]" "\<forall>sp \<in> set (snd ?st). snd sp = Ret ()"
    using run(2) by (simp_all add: view_def list_all_iff)
  ultimately show ?thesis using r j by blast
qed

definition hold_reply_lost :: "event list" where
  "hold_reply_lost = [Begin submit0, Calls 0 (replicate 3 input0 @ [lost_input] @ replicate 2 input0)]"

lemma hold_reply_lost_run:
  "playable hold_reply_lost (db0, [])"
  "view (play hold_reply_lost (db0, [])) = ([Reserved batch0 7 6], Some \<lparr>us_balance = 94, us_frozen = 6, us_deleted = False\<rparr>,
     Some (Failed, None, Some 1000), True)"
  "length (db_jobs (fst (play hold_reply_lost (db0, [])))) = 1"
  by (simp_all add: hold_reply_lost_def lost_input_def play_defs cancel_defs go_contains_at.simps view_def del: id_ok.simps(1))

text \<open>
  A reservation that was committed but whose answer was lost: the job is recorded as failed and hidden
  from its owner, and nothing that runs later looks at it again.
\<close>

theorem hold_reply_lost_leaks:
  "\<exists>db pool j. reachable (db, pool) \<and> (\<forall>sp \<in> set pool. snd sp = Ret ()) \<and> job_of db batch0 = Some j \<and> bj_Status j = Failed \<and>
    bl_moves db = [Reserved batch0 7 6] \<and> GetBatchImageJobByBatchIDForOwner 7 1 batch0 db = Inl ErrBatchImageJobNotFound \<and>
    ListStaleUnsubmittedBatchImageJobs cutoff limit db = []"
proof -
  let ?st = "play hold_reply_lost (db0, [])"
  note run = hold_reply_lost_run
  have r: "reachable (fst ?st, snd ?st)" using reachable_play [OF initial_db0 run(1)] by simp
  obtain j where j: "job_of (fst ?st) batch0 = Some j" "bj_Status j = Failed" "bj_UserDeletedAt j = Some 1000"
    using run(2) by (auto simp: view_def)
  have "GetBatchImageJobByBatchIDForOwner 7 1 batch0 (fst ?st) = Inl ErrBatchImageJobNotFound"
    using j by (simp add: GetBatchImageJobByBatchIDForOwner_def found_def)
  moreover have "ListStaleUnsubmittedBatchImageJobs cutoff limit (fst ?st) = []"
  proof -
    have "length (db_jobs (fst ?st)) = 1" by (rule run(3))
    then obtain j1 where "db_jobs (fst ?st) = [j1]" by (auto simp: length_Suc_conv)
    then have "db_jobs (fst ?st) = [j]" using j(1) by (simp add: job_of_def split: if_splits)
    then show ?thesis using j(2) by (simp add: ListStaleUnsubmittedBatchImageJobs_def)
  qed
  moreover have "bl_moves (fst ?st) = [Reserved batch0 7 6]" "\<forall>sp \<in> set (snd ?st). snd sp = Ret ()"
    using run(2) by (simp_all add: view_def list_all_iff)
  ultimately show ?thesis using r j by blast
qed

definition cancel_while_submitting :: "event list" where
  "cancel_while_submitting = [Begin submit0, Calls 0 (replicate 7 input0), Begin cancel0, Calls 1 [input0],
     Calls 0 (replicate 3 input0), Calls 1 (replicate 3 input0)]"

lemma cancel_while_submitting_run:
  "playable cancel_while_submitting (db0, [])"
  "view (play cancel_while_submitting (db0, [])) = ([Reserved batch0 7 6, Released batch0 7 6],
     Some \<lparr>us_balance = 100, us_frozen = 0, us_deleted = False\<rparr>, Some (Cancelled, Some ''job'', None), True)"
  by (simp_all add: cancel_while_submitting_def cancel0_def play_defs cancel_defs view_def del: id_ok.simps(1))

text \<open>
  A cancellation that read the job before the provider's name was stored: the hold is returned and the
  job ends as cancelled with a provider job name, and the provider was never asked to cancel.
\<close>

theorem cancel_while_submitting_refunds:
  "\<exists>db pool j. reachable (db, pool) \<and> job_of db batch0 = Some j \<and> bj_Status j = Cancelled \<and> bj_ProviderJobName j = Some ''job'' \<and>
    bl_moves db = [Reserved batch0 7 6, Released batch0 7 6]"
proof -
  obtain db pool where st: "play cancel_while_submitting (db0, []) = (db, pool)" by fastforce
  have "reachable (db, pool)" using reachable_play [OF initial_db0 cancel_while_submitting_run(1)] by (simp add: st)
  moreover have "\<exists>j. job_of db batch0 = Some j \<and> bj_Status j = Cancelled \<and> bj_ProviderJobName j = Some ''job'' \<and>
      bl_moves db = [Reserved batch0 7 6, Released batch0 7 6]"
    using cancel_while_submitting_run(2) by (auto simp: view_def st)
  ultimately show ?thesis by blast
qed

lemmas retry_defs = settlement_failed_def recordSettlementFailure_def set_settlement_failed_def
  SetBatchImageJobSettlementFailed_def failExhaustedSettlement_def batchImageMaxErrorMessageLength_def

definition down_input :: batch_input where "down_input = input0\<lparr>in_fault := FailBefore\<rparr>"

definition submit1 :: service where "submit1 = SubmitRequest env0 owner0 request0 [] batch1"

definition worker_run :: "batch_input \<Rightarrow> event list" where
  "worker_run capture = [Begin worker0, Calls 0 ([input0, input0, capture] @ replicate 4 input0), End 0]"

definition capture_replies_lost :: "event list" where
  "capture_replies_lost = [Begin submit1, Calls 0 (replicate 10 input0), End 0, Begin submit0, Calls 0 (replicate 10 input0), End 0,
     Begin worker0, Calls 0 (replicate 12 input0), End 0] @
     worker_run lost_input @ worker_run down_input @ worker_run down_input @ worker_run down_input @ worker_run down_input"

lemma capture_replies_lost_run:
  "view (play capture_replies_lost (db0, [])) = ([Reserved batch1 7 6, Reserved batch0 7 6, Captured batch0 7 6 5, Released batch0 7 6],
     Some \<lparr>us_balance = 95, us_frozen = 0, us_deleted = False\<rparr>, Some (Failed, Some ''job'', None), True)"
  by (simp add: capture_replies_lost_def worker_run_def down_input_def lost_input_def submit1_def play_defs cancel_defs retry_defs
     request_id_inj view_def del: id_ok.simps(1))

text \<open>
  Without the assumption that the answer of a capture arrives: five failed calls in a row, the first of
  them committed, end in a release of the captured hold, paid from the hold of another batch.
\<close>

theorem lost_captures_release_twice:
  "bl_moves (fst (play capture_replies_lost (db0, []))) =
     [Reserved batch1 7 6, Reserved batch0 7 6, Captured batch0 7 6 5, Released batch0 7 6] \<and>
   bl_users (fst (play capture_replies_lost (db0, []))) 7 = Some \<lparr>us_balance = 95, us_frozen = 0, us_deleted = False\<rparr>"
  using capture_replies_lost_run by (simp add: view_def)

definition keyed :: "go_string \<Rightarrow> service" where "keyed b = SubmitRequest env0 owner0 request0 ''k'' b"

definition same_key_twice :: "event list" where
  "same_key_twice = [Begin (keyed batch0), Begin (keyed batch1), Calls 0 [input0], Calls 1 [input0],
     Calls 0 (replicate 10 input0), Calls 1 (replicate 10 input0)]"

lemma same_key_twice_run:
  "playable same_key_twice (db0, [])"
  "map (\<lambda>j. (bj_BatchID j, bj_IdempotencyKey j, bj_Status j)) (db_jobs (fst (play same_key_twice (db0, [])))) =
     [(batch0, Some ''k'', Submitted), (batch1, Some ''k'', Submitted)]"
  "bl_moves (fst (play same_key_twice (db0, []))) = [Reserved batch0 7 6, Reserved batch1 7 6]"
  by (simp_all add: same_key_twice_def keyed_def play_defs GetBatchImageJobByIdempotencyKey_def request_id_inj del: id_ok.simps(1))

text \<open>Two concurrent requests with one idempotency key are two jobs with two holds.\<close>

theorem same_key_two_jobs:
  "\<exists>db pool. reachable (db, pool) \<and> map (\<lambda>j. (bj_BatchID j, bj_IdempotencyKey j, bj_Status j)) (db_jobs db) =
     [(batch0, Some ''k'', Submitted), (batch1, Some ''k'', Submitted)] \<and> bl_moves db = [Reserved batch0 7 6, Reserved batch1 7 6]"
proof -
  obtain db pool where st: "play same_key_twice (db0, []) = (db, pool)" by fastforce
  have "reachable (db, pool)" using reachable_play [OF initial_db0 same_key_twice_run(1)] by (simp add: st)
  moreover have "map (\<lambda>j. (bj_BatchID j, bj_IdempotencyKey j, bj_Status j)) (db_jobs db) =
     [(batch0, Some ''k'', Submitted), (batch1, Some ''k'', Submitted)]" "bl_moves db = [Reserved batch0 7 6, Reserved batch1 7 6]"
    using same_key_twice_run(2,3) by (simp_all add: st)
  ultimately show ?thesis by (intro exI conjI)
qed

end
