(* ===== verification/Batch_Queue.thy ===== *)
theory Batch_Queue
  imports Batch_Services
begin

text \<open>
  The queue of batch image jobs in Redis (\<^verbatim>\<open>repository/batch_image_queue.go\<close>) and one round of a queue worker
  (\<^verbatim>\<open>service/batch_image_worker.go\<close>). Every script and every transaction of commands is one step on the
  keys; the keys of the two lists of timers, of the deduplication marks and of the locks are separate
  fields, which the configured prefixes keep apart. Clocks are in nanoseconds and shared by the gateway
  and Redis, whose own unit is the millisecond.
\<close>

section \<open>Redis\<close>

text \<open>A sorted set is the list of its entries by score, then by member.\<close>

type_synonym zset = "(int \<times> go_string) list"

definition zset_less :: "int \<times> go_string \<Rightarrow> int \<times> go_string \<Rightarrow> bool" where
  "zset_less x y \<longleftrightarrow> fst x < fst y \<or> fst x = fst y \<and> string_less (snd x) (snd y)"

fun zset_insert :: "int \<times> go_string \<Rightarrow> zset \<Rightarrow> zset" where
  "zset_insert e [] = [e]"
| "zset_insert e (x # xs) = (if zset_less x e then x # zset_insert e xs else e # x # xs)"

definition zrem :: "go_string \<Rightarrow> zset \<Rightarrow> zset" where
  "zrem m z = filter (\<lambda>e. snd e \<noteq> m) z"

definition zadd :: "int \<Rightarrow> go_string \<Rightarrow> zset \<Rightarrow> zset" where
  "zadd score m z = zset_insert (score, m) (zrem m z)"

definition zadd_xx :: "int \<Rightarrow> go_string \<Rightarrow> zset \<Rightarrow> zset" where
  "zadd_xx score m z = (if m \<in> set (map snd z) then zadd score m z else z)"

definition zrange_by_score :: "int \<Rightarrow> nat \<Rightarrow> zset \<Rightarrow> go_string list" where
  "zrange_by_score mx limit z = map snd (take limit (filter (\<lambda>e. fst e \<le> mx) z))"

definition unix_milli :: "int \<Rightarrow> int" where
  "unix_milli t = t div 1000000"

text \<open>A key lives up to and including the millisecond of its expiry.\<close>

definition key_live :: "int \<Rightarrow> int \<Rightarrow> bool" where
  "key_live now expiry \<longleftrightarrow> unix_milli now \<le> expiry"

section \<open>The queue\<close>

record batchImageQueue =
  qu_ready :: "go_string list"
  qu_delayed :: zset
  qu_active :: zset
  qu_inflight :: "go_string \<Rightarrow> int option"
  qu_locks :: "go_string \<Rightarrow> (go_string \<times> int) option"

record batchImageQueueOptions =
  qo_InflightTTL :: int
  qo_LockTTL :: int

datatype queue_error = ErrQueueEmpty | ErrAlreadyQueued | ErrInvalidBatchImageQueuePayload | ErrRedis

definition normalizeBatchImageQueueOptions :: "batchImageQueueOptions \<Rightarrow> batchImageQueueOptions" where
  "normalizeBatchImageQueueOptions opts =
     \<lparr>qo_InflightTTL = (if qo_InflightTTL opts \<le> 0 then 7 * 24 * 60 * minute else qo_InflightTTL opts),
      qo_LockTTL = (if qo_LockTTL opts \<le> 0 then 5 * minute else qo_LockTTL opts)\<rparr>"

definition IsValidBatchImageID :: "go_string \<Rightarrow> bool" where
  "IsValidBatchImageID batchID \<longleftrightarrow> go_has_prefix batchID ''imgbatch_'' \<and> length batchID > length ''imgbatch_''"

definition Enqueue :: "batchImageQueueOptions \<Rightarrow> int \<Rightarrow> go_string \<Rightarrow> batchImageQueue \<Rightarrow> queue_error option \<times> batchImageQueue" where
  "Enqueue opts now batchID q =
     (if \<not> IsValidBatchImageID batchID then (Some ErrInvalidBatchImageQueuePayload, q)
      else if (case qu_inflight q batchID of Some e \<Rightarrow> key_live now e | None \<Rightarrow> False) then (Some ErrAlreadyQueued, q)
      else (None, q\<lparr>qu_inflight := (qu_inflight q)(batchID \<mapsto> unix_milli now + unix_milli (qo_InflightTTL opts)),
                    qu_ready := batchID # qu_ready q\<rparr>))"

text \<open>
  One poll of \<^verbatim>\<open>Reserve\<close>. An id that is not valid is taken out of the active set again by a second command;
  the operations here never put one in.
\<close>

definition reserveOnce :: "int \<Rightarrow> batchImageQueue \<Rightarrow> (queue_error + go_string) \<times> batchImageQueue" where
  "reserveOnce now q =
     (if qu_ready q = [] then (Inl ErrQueueEmpty, q)
      else let batchID = last (qu_ready q);
               q = q\<lparr>qu_ready := butlast (qu_ready q), qu_active := zadd (unix_milli now) batchID (qu_active q)\<rparr> in
        if \<not> IsValidBatchImageID batchID
        then (Inl ErrInvalidBatchImageQueuePayload,
              if batchID \<noteq> [] then q\<lparr>qu_active := zrem batchID (qu_active q)\<rparr> else q)
        else (Inr batchID, q))"

definition RequeueAfter :: "int \<Rightarrow> go_string \<Rightarrow> int \<Rightarrow> batchImageQueue \<Rightarrow> queue_error option \<times> batchImageQueue" where
  "RequeueAfter now batchID delay q =
     (if \<not> IsValidBatchImageID batchID then (Some ErrInvalidBatchImageQueuePayload, q)
      else let q = q\<lparr>qu_active := zrem batchID (qu_active q), qu_delayed := zrem batchID (qu_delayed q)\<rparr> in
        (None, if delay \<le> 0 then q\<lparr>qu_ready := batchID # qu_ready q\<rparr>
               else q\<lparr>qu_delayed := zadd (unix_milli (now + delay)) batchID (qu_delayed q)\<rparr>))"

definition Ack :: "go_string \<Rightarrow> batchImageQueue \<Rightarrow> queue_error option \<times> batchImageQueue" where
  "Ack batchID q =
     (if \<not> IsValidBatchImageID batchID then (Some ErrInvalidBatchImageQueuePayload, q)
      else (None, q\<lparr>qu_active := zrem batchID (qu_active q), qu_delayed := zrem batchID (qu_delayed q),
                    qu_inflight := (qu_inflight q)(batchID := None)\<rparr>))"

definition Heartbeat :: "int \<Rightarrow> go_string \<Rightarrow> batchImageQueue \<Rightarrow> queue_error option \<times> batchImageQueue" where
  "Heartbeat now batchID q =
     (if \<not> IsValidBatchImageID batchID then (Some ErrInvalidBatchImageQueuePayload, q)
      else (None, q\<lparr>qu_active := zadd_xx (unix_milli now) batchID (qu_active q)\<rparr>))"

definition MoveDueDelayedToReady :: "int \<Rightarrow> int \<Rightarrow> batchImageQueue \<Rightarrow> nat \<times> batchImageQueue" where
  "MoveDueDelayedToReady now limit q =
     (let limit = (if limit \<le> 0 then 100 else nat limit);
          jobs = zrange_by_score (unix_milli now) limit (qu_delayed q) in
      (length jobs, foldl (\<lambda>q job. q\<lparr>qu_delayed := zrem job (qu_delayed q), qu_ready := job # qu_ready q\<rparr>) q jobs))"

definition RecoverStaleActive :: "int \<Rightarrow> int \<Rightarrow> int \<Rightarrow> batchImageQueue \<Rightarrow> (queue_error + nat) \<times> batchImageQueue" where
  "RecoverStaleActive now staleAfter limit q =
     (if staleAfter \<le> 0 then (Inl ErrInvalidBatchImageQueuePayload, q)
      else let limit = (if limit \<le> 0 then 100 else nat limit);
               jobs = zrange_by_score (unix_milli (now - staleAfter)) limit (qu_active q) in
        (Inr (length jobs), foldl (\<lambda>q job. q\<lparr>qu_active := zrem job (qu_active q), qu_ready := job # qu_ready q\<rparr>) q jobs))"

text \<open>\<^verbatim>\<open>SetNX\<close> rounds a positive time to live up to a millisecond.\<close>

definition TryAcquireJobLock :: "batchImageQueueOptions \<Rightarrow> int \<Rightarrow> go_string \<Rightarrow> int \<Rightarrow> go_string \<Rightarrow> batchImageQueue \<Rightarrow>
    (queue_error + bool) \<times> batchImageQueue" where
  "TryAcquireJobLock opts now batchID ttl token q =
     (if \<not> IsValidBatchImageID batchID then (Inl ErrInvalidBatchImageQueuePayload, q)
      else let ttl = (if ttl \<le> 0 then qo_LockTTL opts else ttl) in
        if (case qu_locks q batchID of Some (t, e) \<Rightarrow> key_live now e | None \<Rightarrow> False) then (Inr False, q)
        else (Inr True, q\<lparr>qu_locks := (qu_locks q)(batchID \<mapsto> (token, unix_milli now + max 1 (unix_milli ttl)))\<rparr>))"

definition lock_held :: "int \<Rightarrow> go_string \<Rightarrow> go_string \<Rightarrow> batchImageQueue \<Rightarrow> bool" where
  "lock_held now batchID token q \<longleftrightarrow>
     (case qu_locks q batchID of Some (t, e) \<Rightarrow> key_live now e \<and> t = token | None \<Rightarrow> False)"

definition Release :: "int \<Rightarrow> go_string \<Rightarrow> go_string \<Rightarrow> batchImageQueue \<Rightarrow> batchImageQueue" where
  "Release now batchID token q =
     (if lock_held now batchID token q then q\<lparr>qu_locks := (qu_locks q)(batchID := None)\<rparr> else q)"

definition Refresh :: "int \<Rightarrow> go_string \<Rightarrow> go_string \<Rightarrow> int \<Rightarrow> batchImageQueue \<Rightarrow> batchImageQueue" where
  "Refresh now batchID token ttl q =
     (let ttl = unix_milli (if ttl \<le> 0 then 5 * minute else ttl) in
      if lock_held now batchID token q
      then q\<lparr>qu_locks := (qu_locks q)(batchID := if ttl \<le> 0 then None else Some (token, unix_milli now + ttl))\<rparr>
      else q)"

section \<open>A worker\<close>

record BatchImageWorkerOptions =
  wo_JobLockTTL :: int
  wo_LockConflictDelay :: int
  wo_DefaultRequeueDelay :: int
  wo_ErrorRetryDelay :: int
  wo_StaleActiveAfter :: int
  wo_DelayedMoveLimit :: int
  wo_RecoverLimit :: int

definition normalizeBatchImageWorkerOptions :: "BatchImageWorkerOptions \<Rightarrow> BatchImageWorkerOptions" where
  "normalizeBatchImageWorkerOptions opts =
     (let second = 1000 * millisecond; default = (\<lambda>x d. if x \<le> 0 then d else x) in
      \<lparr>wo_JobLockTTL = default (wo_JobLockTTL opts) (5 * minute),
       wo_LockConflictDelay = default (wo_LockConflictDelay opts) (5 * second),
       wo_DefaultRequeueDelay = default (wo_DefaultRequeueDelay opts) (30 * second),
       wo_ErrorRetryDelay = default (wo_ErrorRetryDelay opts) minute,
       wo_StaleActiveAfter = default (wo_StaleActiveAfter opts) (10 * minute),
       wo_DelayedMoveLimit = default (wo_DelayedMoveLimit opts) 100,
       wo_RecoverLimit = default (wo_RecoverLimit opts) 100\<rparr>)"

text \<open>
  Where a worker is in \<^verbatim>\<open>RunOnce\<close>: it has no job; it reserved one; it gives a reserved job back; the processor
  runs; the processor answered; the deferred release of the lock is left. \<open>lease\<close> is the
  expiry of the lock as far as the worker was told.
\<close>

datatype worker =
    Idle
  | Reserved_Job go_string
  | Giving_Back go_string
  | Processing go_string go_string int
  | Processed go_string go_string "batch_error + BatchImageProcessResult"
  | Releasing go_string go_string

text \<open>What a step of a worker is told: the clock, whether its call fails, the random token, the processor's answer.\<close>

record worker_input =
  wi_now :: int
  wi_fault :: fault
  wi_token :: go_string
  wi_answer :: "batch_error + BatchImageProcessResult"

definition redis_call :: "fault \<Rightarrow> 'r \<Rightarrow> 'r \<times> batchImageQueue \<Rightarrow> batchImageQueue \<Rightarrow> 'r \<times> batchImageQueue" where
  "redis_call f lost sent q =
     (case f of FailBefore \<Rightarrow> (lost, q) | FailAfter \<Rightarrow> (lost, snd sent) | _ \<Rightarrow> sent)"

definition after_process :: "BatchImageWorkerOptions \<Rightarrow> int \<Rightarrow> go_string \<Rightarrow> batch_error + BatchImageProcessResult \<Rightarrow>
    batchImageQueue \<Rightarrow> queue_error option \<times> batchImageQueue" where
  "after_process opts now batchID answer q =
     (case answer of
        Inl e \<Rightarrow> RequeueAfter now batchID (wo_ErrorRetryDelay opts) q
      | Inr result \<Rightarrow>
          if pr_Terminal result then Ack batchID q
          else RequeueAfter now batchID
            (if pr_RequeueAfter result \<le> 0 then wo_DefaultRequeueDelay opts else pr_RequeueAfter result) q)"

fun RunOnce :: "batchImageQueueOptions \<Rightarrow> BatchImageWorkerOptions \<Rightarrow> worker_input \<Rightarrow> worker \<Rightarrow> batchImageQueue \<Rightarrow>
    worker \<times> batchImageQueue" where
  "RunOnce qo wo i Idle q =
     (case redis_call (wi_fault i) (Inl ErrRedis) (reserveOnce (wi_now i) q) q of
        (Inl e, q) \<Rightarrow> (Idle, q) | (Inr batchID, q) \<Rightarrow> (Reserved_Job batchID, q))"
| "RunOnce qo wo i (Reserved_Job batchID) q =
     (case redis_call (wi_fault i) (Inl ErrRedis)
         (TryAcquireJobLock qo (wi_now i) batchID (wo_JobLockTTL wo) (wi_token i) q) q of
        (Inr True, q) \<Rightarrow> (Processing batchID (wi_token i) (unix_milli (wi_now i) + unix_milli (wo_JobLockTTL wo)), q)
      | (_, q) \<Rightarrow> (Giving_Back batchID, q))"
| "RunOnce qo wo i (Giving_Back batchID) q =
     (Idle, snd (redis_call (wi_fault i) (Some ErrRedis) (RequeueAfter (wi_now i) batchID (wo_LockConflictDelay wo) q) q))"
| "RunOnce qo wo i (Processing batchID token lease) q = (Processed batchID token (wi_answer i), q)"
| "RunOnce qo wo i (Processed batchID token answer) q =
     (Releasing batchID token,
      snd (redis_call (wi_fault i) (Some ErrRedis) (after_process wo (wi_now i) batchID answer q) q))"
| "RunOnce qo wo i (Releasing batchID token) q =
     (Idle, snd (redis_call (wi_fault i) () ((), Release (wi_now i) batchID token q) q))"

text \<open>
  The heartbeat while the processor runs: two calls. A refresh whose answer arrives and found the lock
  its own extends the lease.
\<close>

fun worker_heartbeat :: "worker_input \<Rightarrow> worker \<Rightarrow> batchImageQueue \<Rightarrow> worker \<times> batchImageQueue" where
  "worker_heartbeat i (Processing batchID token lease) q =
     (Processing batchID token lease,
      snd (redis_call (wi_fault i) (Some ErrRedis) (Heartbeat (wi_now i) batchID q) q))"
| "worker_heartbeat i w q = (w, q)"

fun worker_refresh :: "BatchImageWorkerOptions \<Rightarrow> worker_input \<Rightarrow> worker \<Rightarrow> batchImageQueue \<Rightarrow> worker \<times> batchImageQueue" where
  "worker_refresh wo i (Processing batchID token lease) q =
     (let held = lock_held (wi_now i) batchID token q;
          (answer, q') = redis_call (wi_fault i) False (held, Refresh (wi_now i) batchID token (wo_JobLockTTL wo) q) q in
      (Processing batchID token
         (if answer then unix_milli (wi_now i) + unix_milli (wo_JobLockTTL wo) else lease), q'))"
| "worker_refresh wo i w q = (w, q)"

definition MoveDueDelayedOnce :: "BatchImageWorkerOptions \<Rightarrow> int \<Rightarrow> batchImageQueue \<Rightarrow> nat \<times> batchImageQueue" where
  "MoveDueDelayedOnce wo now q = MoveDueDelayedToReady now (wo_DelayedMoveLimit wo) q"

definition RecoverStaleActiveOnce :: "BatchImageWorkerOptions \<Rightarrow> int \<Rightarrow> batchImageQueue \<Rightarrow> (queue_error + nat) \<times> batchImageQueue" where
  "RecoverStaleActiveOnce wo now q = RecoverStaleActive now (wo_StaleActiveAfter wo) (wo_RecoverLimit wo) q"

end
