(* ===== verification/Batch_Queue_System.thy ===== *)
theory Batch_Queue_System
  imports Batch_Queue
begin

text \<open>
  Any number of workers, of all instances of the gateway, on one queue: no job leaves it but by the
  acknowledgement of its worker, two workers never hold an unexpired lease on the same batch, and the
  job of a worker that died comes back.
\<close>

section \<open>Where a job is\<close>

definition located :: "go_string \<Rightarrow> batchImageQueue \<Rightarrow> bool" where
  "located b q \<longleftrightarrow> b \<in> set (qu_ready q) \<or> b \<in> snd ` set (qu_delayed q) \<or> b \<in> snd ` set (qu_active q)"

lemma set_zset_insert [simp]: "set (zset_insert e z) = insert e (set z)"
  by (induction z) auto

lemma set_zrem [simp]: "set (zrem m z) = {e \<in> set z. snd e \<noteq> m}"
  by (simp add: zrem_def)

lemma set_zadd [simp]: "set (zadd score m z) = insert (score, m) {e \<in> set z. snd e \<noteq> m}"
  by (simp add: zadd_def)

lemma members_zadd [simp]: "snd ` set (zadd score m z) = insert m (snd ` set z)"
  by auto

lemma members_zrem [simp]: "snd ` set (zrem m z) = snd ` set z - {m}"
  by auto

lemma members_zadd_xx [simp]: "snd ` set (zadd_xx score m z) = snd ` set z"
  by (auto simp: zadd_xx_def)

lemma located_enqueue: "located b q \<Longrightarrow> located b (snd (Enqueue qo now b' q))"
  by (simp add: located_def Enqueue_def)

lemma located_reserve:
  assumes "located b q" and "IsValidBatchImageID b"
  shows "located b (snd (reserveOnce now q))"
proof (cases "qu_ready q = []")
  case False
  then have "set (qu_ready q) = insert (last (qu_ready q)) (set (butlast (qu_ready q)))"
    by (metis append_butlast_last_id set_append list.simps(15) empty_set Un_insert_right sup_bot.right_neutral)
  then show ?thesis
    using assms False by (auto simp: located_def reserveOnce_def Let_def simp del: set_zadd set_zrem)
qed (use assms in \<open>simp add: reserveOnce_def\<close>)

lemma located_requeue: "located b q \<Longrightarrow> located b (snd (RequeueAfter now b' delay q))"
  by (auto simp: located_def RequeueAfter_def Let_def simp del: set_zadd set_zrem)

lemma located_ack: "located b q \<Longrightarrow> b \<noteq> b' \<Longrightarrow> located b (snd (Ack b' q))"
  by (auto simp: located_def Ack_def simp del: set_zrem)

lemma located_heartbeat: "located b (snd (Heartbeat now b' q)) = located b q"
  by (simp add: located_def Heartbeat_def del: set_zadd)

text \<open>What the two scripts that move jobs do, at once.\<close>

lemma move_all:
  "foldl (\<lambda>q job. q\<lparr>qu_delayed := zrem job (qu_delayed q), qu_ready := job # qu_ready q\<rparr>) q jobs =
     q\<lparr>qu_delayed := filter (\<lambda>e. snd e \<notin> set jobs) (qu_delayed q), qu_ready := rev jobs @ qu_ready q\<rparr>"
  by (induction jobs arbitrary: q) (simp_all add: zrem_def conj_commute)

lemma recover_all:
  "foldl (\<lambda>q job. q\<lparr>qu_active := zrem job (qu_active q), qu_ready := job # qu_ready q\<rparr>) q jobs =
     q\<lparr>qu_active := filter (\<lambda>e. snd e \<notin> set jobs) (qu_active q), qu_ready := rev jobs @ qu_ready q\<rparr>"
  by (induction jobs arbitrary: q) (simp_all add: zrem_def conj_commute)

lemma located_move: "located b q \<Longrightarrow> located b (snd (MoveDueDelayedToReady now limit q))"
  by (auto simp: located_def MoveDueDelayedToReady_def Let_def move_all)

lemma located_recover: "located b q \<Longrightarrow> located b (snd (RecoverStaleActive now staleAfter limit q))"
  by (auto simp: located_def RecoverStaleActive_def Let_def recover_all)

lemma located_locks:
  "located b (snd (TryAcquireJobLock qo now b' ttl token q)) = located b q"
  "located b (Release now b' token q) = located b q" "located b (Refresh now b' token ttl q) = located b q"
  by (simp_all add: located_def TryAcquireJobLock_def Release_def Refresh_def Let_def)

lemma queue_redis_call:
  "snd (redis_call f lost sent q) = q \<or> snd (redis_call f lost sent q) = snd sent"
  by (simp add: redis_call_def split: fault.split)

text \<open>What the first two calls of a worker may do to the queue, faults included.\<close>

lemma run_reserve: "snd (RunOnce qo wo i Idle q) \<in> {q, snd (reserveOnce (wi_now i) q)}"
proof -
  have "snd (RunOnce qo wo i Idle q) = snd (redis_call (wi_fault i) (Inl ErrRedis) (reserveOnce (wi_now i) q) q)"
    by (simp split: prod.split sum.split)
  then show ?thesis using queue_redis_call [of "wi_fault i" "Inl ErrRedis" "reserveOnce (wi_now i) q" q] by simp
qed

lemma run_acquire:
  "snd (RunOnce qo wo i (Reserved_Job b) q) \<in> {q, snd (TryAcquireJobLock qo (wi_now i) b (wo_JobLockTTL wo) (wi_token i) q)}"
proof -
  let ?a = "TryAcquireJobLock qo (wi_now i) b (wo_JobLockTTL wo) (wi_token i) q"
  have "snd (RunOnce qo wo i (Reserved_Job b) q) = snd (redis_call (wi_fault i) (Inl ErrRedis) ?a q)"
    by (simp split: prod.split sum.split bool.split)
  then show ?thesis using queue_redis_call [of "wi_fault i" "Inl ErrRedis" ?a q] by simp
qed

lemma run_give_back: "snd (RunOnce qo wo i (Giving_Back b) q) \<in> {q, snd (RequeueAfter (wi_now i) b (wo_LockConflictDelay wo) q)}"
  using queue_redis_call [of "wi_fault i" "Some ErrRedis" "RequeueAfter (wi_now i) b (wo_LockConflictDelay wo) q" q] by simp

lemma run_finish: "snd (RunOnce qo wo i (Processed b t r) q) \<in> {q, snd (after_process wo (wi_now i) b r q)}"
  using queue_redis_call [of "wi_fault i" "Some ErrRedis" "after_process wo (wi_now i) b r q" q] by simp

lemma run_release: "snd (RunOnce qo wo i (Releasing b t) q) \<in> {q, Release (wi_now i) b t q}"
  using queue_redis_call [of "wi_fault i" "()" "((), Release (wi_now i) b t q)" q] by simp

definition acknowledges :: "go_string \<Rightarrow> worker \<Rightarrow> bool" where
  "acknowledges b w \<longleftrightarrow> (\<exists>t r. w = Processed b t (Inr r) \<and> pr_Terminal r)"

lemma located_run:
  assumes "located b q" and "IsValidBatchImageID b" and "\<not> acknowledges b w"
  shows "located b (snd (RunOnce qo wo i w q))"
proof (cases w)
  case Idle
  then show ?thesis
    using run_reserve [of qo wo i q] located_reserve [OF assms(1,2)] assms(1) by (auto simp del: RunOnce.simps)
next
  case (Reserved_Job b')
  then show ?thesis using run_acquire [of qo wo i b' q] assms(1) by (auto simp: located_locks simp del: RunOnce.simps)
next
  case (Giving_Back b')
  then show ?thesis using run_give_back [of qo wo i b' q] assms(1) by (auto simp: located_requeue simp del: RunOnce.simps)
next
  case (Processed b' t r)
  have "located b (snd (after_process wo (wi_now i) b' r q))"
    using assms located_ack [OF assms(1), of b']
    by (auto simp: after_process_def located_requeue acknowledges_def Processed split: sum.split)
  then show ?thesis using Processed run_finish [of qo wo i b' t r q] assms(1) by (auto simp del: RunOnce.simps)
next
  case (Releasing b' t)
  then show ?thesis using run_release [of qo wo i b' t q] assms(1) by (auto simp: located_locks simp del: RunOnce.simps)
qed (use assms in simp)

lemma located_beat: "located b (snd (worker_heartbeat i w q)) = located b q"
  using queue_redis_call [of "wi_fault i" "Some ErrRedis"]
  by (cases w) (simp_all, metis located_heartbeat)

lemma located_refresh: "located b (snd (worker_refresh wo i w q)) = located b q"
proof (cases w)
  case (Processing b' t l)
  let ?r = "redis_call (wi_fault i) False (lock_held (wi_now i) b' t q, Refresh (wi_now i) b' t (wo_JobLockTTL wo) q) q"
  have "snd (worker_refresh wo i w q) = snd ?r" by (simp add: Processing Let_def split: prod.split)
  then show ?thesis
    using queue_redis_call [of "wi_fault i" False "(lock_held (wi_now i) b' t q, Refresh (wi_now i) b' t (wo_JobLockTTL wo) q)" q]
    by (auto simp: located_locks)
qed simp_all

section \<open>Marks\<close>

text \<open>The deduplication mark is only on a job that is in the queue: \<^verbatim>\<open>ErrBatchImageAlreadyQueued\<close> tells the truth.\<close>

definition marks_ok :: "batchImageQueue \<Rightarrow> bool" where
  "marks_ok q \<longleftrightarrow> (\<forall>b. qu_inflight q b \<noteq> None \<longrightarrow> IsValidBatchImageID b \<and> located b q)"

lemma same_marks:
  "qu_inflight (snd (reserveOnce now q)) = qu_inflight q"
  "qu_inflight (snd (RequeueAfter now b delay q)) = qu_inflight q"
  "qu_inflight (snd (Heartbeat now b q)) = qu_inflight q"
  "qu_inflight (snd (TryAcquireJobLock qo now b ttl token q)) = qu_inflight q"
  "qu_inflight (Release now b token q) = qu_inflight q" "qu_inflight (Refresh now b token ttl q) = qu_inflight q"
  by (simp_all add: reserveOnce_def RequeueAfter_def Heartbeat_def TryAcquireJobLock_def Release_def Refresh_def Let_def)

lemma same_marks_moves:
  "qu_inflight (snd (MoveDueDelayedToReady now limit q)) = qu_inflight q"
  "qu_inflight (snd (RecoverStaleActive now staleAfter limit q)) = qu_inflight q"
  by (simp_all add: MoveDueDelayedToReady_def RecoverStaleActive_def Let_def move_all recover_all)

lemma marks_okI:
  assumes "marks_ok q" and "qu_inflight q' = qu_inflight q" and "\<And>b. IsValidBatchImageID b \<Longrightarrow> located b q \<Longrightarrow> located b q'"
  shows "marks_ok q'"
  using assms by (simp add: marks_ok_def)

lemma marks_enqueue: "marks_ok q \<Longrightarrow> marks_ok (snd (Enqueue qo now b q))"
  by (auto simp: marks_ok_def Enqueue_def located_def)

lemma marks_ack: "marks_ok q \<Longrightarrow> marks_ok (snd (Ack b q))"
  using located_ack [of _ q b] by (auto simp: marks_ok_def Ack_def)

lemma marks_after_process: "marks_ok q \<Longrightarrow> marks_ok (snd (after_process wo now b r q))"
  by (auto simp: after_process_def marks_ack same_marks intro!: marks_okI [of q] located_requeue split: sum.split)

lemma marks_run:
  assumes "marks_ok q"
  shows "marks_ok (snd (RunOnce qo wo i w q))"
proof (cases "\<exists>b t r. w = Processed b t r")
  case True
  then obtain b t r where "w = Processed b t r" by blast
  then show ?thesis using run_finish [of qo wo i b t r q] assms by (auto simp: marks_after_process simp del: RunOnce.simps)
next
  case False
  then have "\<not> acknowledges b w" for b by (auto simp: acknowledges_def)
  then have l: "\<And>b. IsValidBatchImageID b \<Longrightarrow> located b q \<Longrightarrow> located b (snd (RunOnce qo wo i w q))"
    using located_run by blast
  have "qu_inflight (snd (RunOnce qo wo i w q)) = qu_inflight q"
  proof (cases w)
    case Idle
    then show ?thesis using run_reserve [of qo wo i q] same_marks(1) by fastforce
  next
    case (Reserved_Job b)
    then show ?thesis using run_acquire [of qo wo i b q] same_marks(4) by fastforce
  next
    case (Giving_Back b)
    then show ?thesis using run_give_back [of qo wo i b q] same_marks(2) by fastforce
  next
    case (Releasing b t)
    then show ?thesis using run_release [of qo wo i b t q] same_marks(5) by fastforce
  qed (use False in auto)
  then show ?thesis using marks_okI [OF assms _ l] by blast
qed

section \<open>Leases\<close>

fun worker_tokens :: "worker \<Rightarrow> go_string set" where
  "worker_tokens (Processing b t l) = {t}"
| "worker_tokens (Processed b t r) = {t}"
| "worker_tokens (Releasing b t) = {t}"
| "worker_tokens _ = {}"

fun lease_ok :: "BatchImageWorkerOptions \<Rightarrow> int \<Rightarrow> batchImageQueue \<Rightarrow> worker \<Rightarrow> bool" where
  "lease_ok wo c q (Processing b t l) \<longleftrightarrow>
     l \<le> unix_milli c + unix_milli (wo_JobLockTTL wo) \<and>
     (unix_milli c \<le> l \<longrightarrow> (\<exists>e. qu_locks q b = Some (t, e) \<and> l \<le> e))"
| "lease_ok wo c q _ \<longleftrightarrow> True"

lemma same_locks:
  "qu_locks (snd (Enqueue qo now b q)) = qu_locks q" "qu_locks (snd (reserveOnce now q)) = qu_locks q"
  "qu_locks (snd (RequeueAfter now b delay q)) = qu_locks q" "qu_locks (snd (Ack b q)) = qu_locks q"
  "qu_locks (snd (Heartbeat now b q)) = qu_locks q"
  by (simp_all add: Enqueue_def reserveOnce_def RequeueAfter_def Ack_def Heartbeat_def Let_def)

lemma same_locks_moves:
  "qu_locks (snd (MoveDueDelayedToReady now limit q)) = qu_locks q"
  "qu_locks (snd (RecoverStaleActive now staleAfter limit q)) = qu_locks q"
  by (simp_all add: MoveDueDelayedToReady_def RecoverStaleActive_def Let_def move_all recover_all)

lemma lease_cong: "qu_locks q' = qu_locks q \<Longrightarrow> lease_ok wo c q' w = lease_ok wo c q w"
  by (cases w) simp_all

lemma lease_later: "lease_ok wo c q w \<Longrightarrow> c \<le> c' \<Longrightarrow> lease_ok wo c' q w"
proof (cases w)
  case (Processing b t l)
  assume "lease_ok wo c q w" "c \<le> c'"
  moreover from this have "unix_milli c \<le> unix_milli c'" by (simp add: unix_milli_def zdiv_mono1)
  ultimately show ?thesis by (auto simp: Processing)
qed simp_all

text \<open>An acquisition, a release and a refresh by one worker leave the leases of the others alone.\<close>

lemma lease_acquire: "lease_ok wo c q w \<Longrightarrow> lease_ok wo c (snd (TryAcquireJobLock qo c b ttl token q)) w"
  by (cases w) (auto simp: TryAcquireJobLock_def Let_def key_live_def)

lemma lease_release: "lease_ok wo c q w \<Longrightarrow> token \<notin> worker_tokens w \<Longrightarrow> lease_ok wo c (Release c b token q) w"
  by (cases w) (auto simp: Release_def lock_held_def split: option.splits)

lemma lease_refresh: "lease_ok wo c q w \<Longrightarrow> token \<notin> worker_tokens w \<Longrightarrow> lease_ok wo c (Refresh c b token ttl q) w"
  by (cases w) (auto simp: Refresh_def lock_held_def Let_def split: option.splits)

lemma lease_run_other:
  assumes "lease_ok wo (wi_now i) q w'" and "worker_tokens w \<inter> worker_tokens w' = {}"
  shows "lease_ok wo (wi_now i) (snd (RunOnce qo wo i w q)) w'"
proof -
  have ok: "lease_ok wo (wi_now i) q' w'" if "q' \<in> {q, q''}" "qu_locks q'' = qu_locks q" for q' q''
    using that assms(1) lease_cong [of q'' q wo "wi_now i" w'] by auto
  show ?thesis
  proof (cases w)
    case Idle
    show ?thesis unfolding Idle by (rule ok [OF run_reserve same_locks(2)])
  next
    case (Reserved_Job b)
    then show ?thesis
      using run_acquire [of qo wo i b q] lease_acquire [OF assms(1)] assms(1) by (auto simp del: RunOnce.simps)
  next
    case (Giving_Back b)
    show ?thesis unfolding Giving_Back by (rule ok [OF run_give_back same_locks(3)])
  next
    case (Processed b t r)
    have "qu_locks (snd (after_process wo (wi_now i) b r q)) = qu_locks q"
      by (simp add: after_process_def same_locks split: sum.split)
    then show ?thesis unfolding Processed by (rule ok [OF run_finish])
  next
    case (Releasing b t)
    then have "lease_ok wo (wi_now i) (Release (wi_now i) b t q) w'" using lease_release assms by auto
    then show ?thesis using run_release [of qo wo i b t q] assms(1) by (auto simp: Releasing simp del: RunOnce.simps)
  qed (use assms in simp)
qed

lemma lease_run_self: "0 < wo_JobLockTTL wo \<Longrightarrow> lease_ok wo (wi_now i) (snd (RunOnce qo wo i w q)) (fst (RunOnce qo wo i w q))"
  by (cases w) (auto simp: redis_call_def TryAcquireJobLock_def Let_def split: prod.splits sum.splits bool.splits fault.splits if_splits)

lemma tokens_run: "worker_tokens (fst (RunOnce qo wo i w q)) \<subseteq> worker_tokens w \<union> (if w = Idle then {} else {t. \<exists>b. w = Reserved_Job b \<and> t = wi_token i})"
  by (cases w) (auto split: prod.splits sum.splits bool.splits)

lemma lease_beat: "lease_ok wo c (snd (worker_heartbeat i w q)) w' = lease_ok wo c q w'"
proof (rule lease_cong)
  show "qu_locks (snd (worker_heartbeat i w q)) = qu_locks q"
    by (cases w) (simp_all add: redis_call_def same_locks split: fault.split)
qed

lemma lease_refresh_other:
  assumes "lease_ok wo (wi_now i) q w'" and "worker_tokens w \<inter> worker_tokens w' = {}"
  shows "lease_ok wo (wi_now i) (snd (worker_refresh wo i w q)) w'"
proof (cases w)
  case (Processing b t l)
  let ?r = "(lock_held (wi_now i) b t q, Refresh (wi_now i) b t (wo_JobLockTTL wo) q)"
  have "snd (worker_refresh wo i w q) = snd (redis_call (wi_fault i) False ?r q)" by (simp add: Processing split: prod.split)
  moreover have "lease_ok wo (wi_now i) (snd ?r) w'" using lease_refresh [OF assms(1)] assms(2) Processing by simp
  ultimately show ?thesis using queue_redis_call [of "wi_fault i" False ?r q] assms(1) by auto
qed (use assms in simp_all)

lemma lease_refresh_self:
  assumes "lease_ok wo (wi_now i) q w" and "1000000 \<le> wo_JobLockTTL wo"
  shows "lease_ok wo (wi_now i) (snd (worker_refresh wo i w q)) (fst (worker_refresh wo i w q))"
proof (cases w)
  case (Processing b t l)
  have "0 < unix_milli (wo_JobLockTTL wo)" using assms(2) by (simp add: unix_milli_def pos_imp_zdiv_pos_iff)
  then show ?thesis
    using assms by (auto simp: Processing redis_call_def Refresh_def lock_held_def Let_def key_live_def split: fault.splits option.splits)
qed simp_all

lemma tokens_refresh: "worker_tokens (fst (worker_refresh wo i w q)) = worker_tokens w"
  by (cases w) (auto split: prod.split)

lemma beat_worker [simp]: "fst (worker_heartbeat i w q) = w"
  by (cases w) simp_all

section \<open>The system\<close>

type_synonym queue_system = "int \<times> batchImageQueue \<times> worker list"

text \<open>
  Steps: time passes, somebody enqueues a job, the two movers run, a worker starts, makes its next call
  (with a token no other worker has), beats, refreshes its lock, or dies.
\<close>

inductive queue_step :: "batchImageQueueOptions \<Rightarrow> BatchImageWorkerOptions \<Rightarrow> queue_system \<Rightarrow> queue_system \<Rightarrow> bool"
  for qo wo where
  queue_time: "c \<le> c' \<Longrightarrow> queue_step qo wo (c, q, ws) (c', q, ws)"
| queue_enqueue: "queue_step qo wo (c, q, ws) (c, snd (Enqueue qo c b q), ws)"
| queue_move: "queue_step qo wo (c, q, ws) (c, snd (MoveDueDelayedOnce wo c q), ws)"
| queue_recover: "queue_step qo wo (c, q, ws) (c, snd (RecoverStaleActiveOnce wo c q), ws)"
| queue_start: "queue_step qo wo (c, q, ws) (c, q, ws @ [Idle])"
| queue_run: "n < length ws \<Longrightarrow> wi_now i = c \<Longrightarrow> \<forall>w \<in> set ws. wi_token i \<notin> worker_tokens w \<Longrightarrow>
    RunOnce qo wo i (ws ! n) q = (w, q') \<Longrightarrow> queue_step qo wo (c, q, ws) (c, q', ws[n := w])"
| queue_beat: "n < length ws \<Longrightarrow> wi_now i = c \<Longrightarrow> worker_heartbeat i (ws ! n) q = (w, q') \<Longrightarrow>
    queue_step qo wo (c, q, ws) (c, q', ws[n := w])"
| queue_refresh: "n < length ws \<Longrightarrow> wi_now i = c \<Longrightarrow> worker_refresh wo i (ws ! n) q = (w, q') \<Longrightarrow>
    queue_step qo wo (c, q, ws) (c, q', ws[n := w])"
| queue_crash: "n < length ws \<Longrightarrow> queue_step qo wo (c, q, ws) (c, q, ws[n := Idle])"

definition empty_queue :: batchImageQueue where
  "empty_queue = \<lparr>qu_ready = [], qu_delayed = [], qu_active = [], qu_inflight = (\<lambda>_. None), qu_locks = (\<lambda>_. None)\<rparr>"

inductive queue_reachable :: "batchImageQueueOptions \<Rightarrow> BatchImageWorkerOptions \<Rightarrow> queue_system \<Rightarrow> bool" for qo wo where
  queue_initial: "queue_reachable qo wo (c, empty_queue, [])"
| queue_next: "queue_reachable qo wo s \<Longrightarrow> queue_step qo wo s s' \<Longrightarrow> queue_reachable qo wo s'"

definition tokens_apart :: "worker list \<Rightarrow> bool" where
  "tokens_apart ws \<longleftrightarrow> (\<forall>n < length ws. \<forall>m < length ws. n \<noteq> m \<longrightarrow> worker_tokens (ws ! n) \<inter> worker_tokens (ws ! m) = {})"

definition leases_ok :: "BatchImageWorkerOptions \<Rightarrow> queue_system \<Rightarrow> bool" where
  "leases_ok wo s \<longleftrightarrow> (case s of (c, q, ws) \<Rightarrow> (\<forall>n < length ws. lease_ok wo c q (ws ! n)) \<and> tokens_apart ws)"

lemma tokens_apart_update:
  assumes "tokens_apart ws" and "n < length ws"
    and "\<And>m. m < length ws \<Longrightarrow> m \<noteq> n \<Longrightarrow> worker_tokens w \<inter> worker_tokens (ws ! m) = {}"
  shows "tokens_apart (ws[n := w])"
  using assms by (auto simp: tokens_apart_def nth_list_update)

lemma leases_update:
  assumes "leases_ok wo (c, q, ws)" and "n < length ws" and "lease_ok wo c q' w"
    and "\<And>w'. lease_ok wo c q w' \<Longrightarrow> worker_tokens (ws ! n) \<inter> worker_tokens w' = {} \<Longrightarrow> lease_ok wo c q' w'"
    and "\<And>t. t \<in> worker_tokens w \<Longrightarrow> t \<in> worker_tokens (ws ! n) \<or> (\<forall>w' \<in> set ws. t \<notin> worker_tokens w')"
  shows "leases_ok wo (c, q', ws[n := w])"
proof -
  have ap: "tokens_apart ws" and ok: "\<And>m. m < length ws \<Longrightarrow> lease_ok wo c q (ws ! m)"
    using assms(1) by (auto simp: leases_ok_def)
  have "lease_ok wo c q' (ws[n := w] ! m)" if "m < length ws" for m
    using that assms(2,3) assms(4) [OF ok] ap by (cases "m = n") (auto simp: tokens_apart_def)
  moreover have "tokens_apart (ws[n := w])"
  proof (rule tokens_apart_update [OF ap assms(2)])
    fix m assume m: "m < length ws" "m \<noteq> n"
    then have "worker_tokens (ws ! n) \<inter> worker_tokens (ws ! m) = {}" using ap assms(2) by (simp add: tokens_apart_def)
    then show "worker_tokens w \<inter> worker_tokens (ws ! m) = {}" using assms(5) nth_mem [OF m(1)] by blast
  qed
  ultimately show ?thesis by (simp add: leases_ok_def)
qed

end
