(* ===== verification/Batch_Queue_Results.thy ===== *)
theory Batch_Queue_Results
  imports Batch_Queue_System
begin

text \<open>What the queue promises its users and the workers.\<close>

section \<open>Invariants\<close>

lemma step_marks:
  assumes "queue_step qo wo s s'" and "marks_ok (fst (snd s))"
  shows "marks_ok (fst (snd s'))"
  using assms
proof (cases rule: queue_step.cases)
  case queue_move
  then show ?thesis
    using assms(2) by (auto simp: MoveDueDelayedOnce_def same_marks_moves intro!: located_move elim: marks_okI)
next
  case queue_recover
  then show ?thesis
    using assms(2) by (auto simp: RecoverStaleActiveOnce_def same_marks_moves intro!: located_recover elim: marks_okI)
next
  case (queue_run n ws i c q w q')
  then show ?thesis using marks_run [of q qo wo i "ws ! n"] assms(2) by simp
next
  case (queue_beat n ws i c q w q')
  have "qu_inflight q' = qu_inflight q"
    using queue_beat(5) by (cases "ws ! n") (auto simp: redis_call_def same_marks split: fault.splits)
  moreover have "located b q' = located b q" for b using located_beat [of b i "ws ! n" q] queue_beat(5) by simp
  ultimately show ?thesis using assms(2) queue_beat by (simp add: marks_ok_def)
next
  case (queue_refresh n ws i c q w q')
  have "qu_inflight q' = qu_inflight q"
    using queue_refresh(5) by (cases "ws ! n") (auto simp: redis_call_def same_marks Let_def split: fault.splits)
  moreover have "located b q' = located b q" for b using located_refresh [of b wo i "ws ! n" q] queue_refresh(5) by simp
  ultimately show ?thesis using assms(2) queue_refresh by (simp add: marks_ok_def)
qed (simp_all add: marks_enqueue)

lemma leases_same:
  assumes "leases_ok wo (c, q, ws)" and "qu_locks q' = qu_locks q"
  shows "leases_ok wo (c, q', ws)"
  using assms lease_cong [OF assms(2)] by (simp add: leases_ok_def)

lemma step_leases:
  assumes "queue_step qo wo s s'" and "leases_ok wo s" and ttl: "1000000 \<le> wo_JobLockTTL wo"
  shows "leases_ok wo s'"
  using assms(1)
proof (cases rule: queue_step.cases)
  case (queue_time c c' q ws)
  then show ?thesis using assms(2) lease_later by (fastforce simp: leases_ok_def)
next
  case queue_enqueue
  then show ?thesis using leases_same assms(2) same_locks(1) by blast
next
  case queue_move
  then show ?thesis using leases_same assms(2) same_locks_moves(1) by (simp add: MoveDueDelayedOnce_def)
next
  case queue_recover
  then show ?thesis using leases_same assms(2) same_locks_moves(2) by (simp add: RecoverStaleActiveOnce_def)
next
  case queue_start
  then show ?thesis using assms(2) by (auto simp: leases_ok_def tokens_apart_def nth_append less_Suc_eq)
next
  case (queue_run n ws i c q w q')
  have r: "w = fst (RunOnce qo wo i (ws ! n) q)" "q' = snd (RunOnce qo wo i (ws ! n) q)" using queue_run(6) by simp_all
  show ?thesis unfolding queue_run(2)
  proof (rule leases_update)
    show "leases_ok wo (c, q, ws)" "n < length ws" using assms(2) queue_run by simp_all
    show "lease_ok wo c q' w" using lease_run_self [of wo i qo "ws ! n" q] ttl queue_run(4) by (simp add: r)
    show "lease_ok wo c q' w'" if "lease_ok wo c q w'" "worker_tokens (ws ! n) \<inter> worker_tokens w' = {}" for w'
      using lease_run_other [of wo i q w' "ws ! n" qo] that queue_run(4) by (simp add: r)
    show "t \<in> worker_tokens (ws ! n) \<or> (\<forall>w' \<in> set ws. t \<notin> worker_tokens w')" if "t \<in> worker_tokens w" for t
      using tokens_run [of qo wo i "ws ! n" q] that queue_run(5) unfolding r by (auto split: if_splits)
  qed
next
  case (queue_beat n ws i c q w q')
  have r: "w = ws ! n" "q' = snd (worker_heartbeat i (ws ! n) q)"
    using queue_beat(5) beat_worker [of i "ws ! n" q] by simp_all
  have "lease_ok wo c q' w' = lease_ok wo c q w'" for w' by (simp add: r lease_beat)
  then show ?thesis using assms(2) queue_beat(1,2,3) by (simp add: leases_ok_def r)
next
  case (queue_refresh n ws i c q w q')
  have r: "w = fst (worker_refresh wo i (ws ! n) q)" "q' = snd (worker_refresh wo i (ws ! n) q)" using queue_refresh(5) by simp_all
  have own: "lease_ok wo c q (ws ! n)" using assms(2) queue_refresh(1,3) by (simp add: leases_ok_def)
  show ?thesis unfolding queue_refresh(2)
  proof (rule leases_update)
    show "leases_ok wo (c, q, ws)" "n < length ws" using assms(2) queue_refresh by simp_all
    show "lease_ok wo c q' w" using lease_refresh_self [of wo i q "ws ! n"] own ttl queue_refresh(4) by (simp add: r)
    show "lease_ok wo c q' w'" if "lease_ok wo c q w'" "worker_tokens (ws ! n) \<inter> worker_tokens w' = {}" for w'
      using lease_refresh_other [of wo i q w' "ws ! n"] that queue_refresh(4) by (simp add: r)
    show "t \<in> worker_tokens (ws ! n) \<or> (\<forall>w' \<in> set ws. t \<notin> worker_tokens w')" if "t \<in> worker_tokens w" for t
      using tokens_refresh [of wo i "ws ! n" q] that by (simp add: r)
  qed
next
  case (queue_crash n ws c q)
  show ?thesis unfolding queue_crash(2) by (rule leases_update) (use assms(2) queue_crash in simp_all)
qed

lemma queue_invariant:
  assumes "queue_reachable qo wo s"
  shows "marks_ok (fst (snd s))" and "1000000 \<le> wo_JobLockTTL wo \<Longrightarrow> leases_ok wo s"
  using assms
proof (induction rule: queue_reachable.induct)
  case (queue_initial c)
  {
    case 1
    show ?case by (simp add: marks_ok_def empty_queue_def)
  next
    case 2
    show ?case by (simp add: leases_ok_def tokens_apart_def)
  }
next
  case (queue_next s s')
  {
    case 1
    show ?case using step_marks queue_next by blast
  next
    case 2
    show ?case using step_leases queue_next 2 by blast
  }
qed

lemma step_located:
  assumes "queue_step qo wo (c, q, ws) s'" and "located b q" and "IsValidBatchImageID b" and "\<forall>w \<in> set ws. \<not> acknowledges b w"
  shows "located b (fst (snd s'))"
  using assms(1)
proof (cases rule: queue_step.cases)
  case (queue_run n i w q')
  have "\<not> acknowledges b (ws ! n)" using assms(4) queue_run(2) by simp
  then have "located b (snd (RunOnce qo wo i (ws ! n) q))" using located_run [OF assms(2,3)] by simp
  then show ?thesis using queue_run(1,5) by simp
next
  case (queue_beat n i w q')
  then show ?thesis using located_beat [of b i "ws ! n" q] assms(2) by simp
next
  case (queue_refresh n i w q')
  then show ?thesis using located_refresh [of b wo i "ws ! n" q] assms(2) by simp
qed (use assms(2) in \<open>simp_all add: located_enqueue located_move located_recover MoveDueDelayedOnce_def RecoverStaleActiveOnce_def\<close>)

section \<open>Nothing is lost\<close>

text \<open>
  C13. In every reachable state, whatever workers died and whichever replies of Redis were lost: a job that is
  enqueued, or refused as already queued, is in one of the lists of the queue, and from then on every step
  leaves it in one of them, unless a worker that processed it with a terminal result acknowledges it.
\<close>

theorem queued_jobs_not_lost:
  assumes "queue_reachable qo wo (c, q, ws)"
  shows "(fst (Enqueue qo now b q) = None \<or> fst (Enqueue qo now b q) = Some ErrAlreadyQueued \<longrightarrow>
      located b (snd (Enqueue qo now b q))) \<and>
    (queue_step qo wo (c, q, ws) (c', q', ws') \<and> IsValidBatchImageID b \<and> located b q \<and> \<not> located b q' \<longrightarrow>
      (\<exists>t r. Processed b t (Inr r) \<in> set ws \<and> pr_Terminal r))"
proof -
  have "marks_ok q" using queue_invariant(1) [OF assms] by simp
  then have "fst (Enqueue qo now b q) = None \<or> fst (Enqueue qo now b q) = Some ErrAlreadyQueued \<longrightarrow>
      located b (snd (Enqueue qo now b q))"
    by (auto simp: marks_ok_def Enqueue_def located_def split: option.splits)
  moreover have "located b q'" if "queue_step qo wo (c, q, ws) (c', q', ws')" "IsValidBatchImageID b" "located b q"
    "\<not> (\<exists>t r. Processed b t (Inr r) \<in> set ws \<and> pr_Terminal r)"
    using step_located [OF that(1,3,2)] that(4) by (auto simp: acknowledges_def)
  ultimately show ?thesis by blast
qed

section \<open>One lease per batch\<close>

text \<open>
  C14. In every reachable state at most one worker processes a batch under a lease that has not expired, for lock times of
  a millisecond and more: whatever locks expired, were refreshed, released by their former holders or taken over.
\<close>

theorem one_lease_per_batch:
  assumes "queue_reachable qo wo (c, q, ws)" and "1000000 \<le> wo_JobLockTTL wo"
    and "n < length ws" and "m < length ws" and "ws ! n = Processing b t l" and "ws ! m = Processing b t' l'"
    and "key_live c l" and "key_live c l'"
  shows "n = m"
proof (rule ccontr)
  assume d: "n \<noteq> m"
  have ok: "leases_ok wo (c, q, ws)" by (rule queue_invariant(2) [OF assms(1,2)])
  then have "lease_ok wo c q (Processing b t l)" "lease_ok wo c q (Processing b t' l')"
    using assms(3-6) by (metis (no_types, lifting) case_prod_conv leases_ok_def)+
  then have "t = t'" using assms(7,8) by (auto simp: key_live_def)
  then show False using ok d assms(3-6) unfolding leases_ok_def tokens_apart_def by fastforce
qed

section \<open>Coming back\<close>

fun reserve_many :: "nat \<Rightarrow> int \<Rightarrow> batchImageQueue \<Rightarrow> (queue_error + go_string) list" where
  "reserve_many 0 now q = []"
| "reserve_many (Suc k) now q = fst (reserveOnce now q) # reserve_many k now (snd (reserveOnce now q))"

lemma reserve_many_ready:
  assumes "b \<in> set (qu_ready q)" and "IsValidBatchImageID b"
  shows "Inr b \<in> set (reserve_many (length (qu_ready q)) now q)"
  using assms(1)
proof (induction "length (qu_ready q)" arbitrary: q)
  case (Suc k)
  then have ne: "qu_ready q \<noteq> []" by auto
  have next_ready: "qu_ready (snd (reserveOnce now q)) = butlast (qu_ready q)"
    using ne by (simp add: reserveOnce_def Let_def)
  show ?case
  proof (cases "b = last (qu_ready q)")
    case True
    then have "fst (reserveOnce now q) = Inr b" using ne assms(2) by (simp add: reserveOnce_def Let_def)
    then show ?thesis using Suc(2) by (metis reserve_many.simps(2) list.set_intros(1))
  next
    case False
    then have "b \<in> set (butlast (qu_ready q))" using Suc(3) ne
      by (metis append_butlast_last_id in_set_butlast_appendI rotate1.simps(2) set_ConsD set_rotate1)
    moreover have k: "k = length (qu_ready (snd (reserveOnce now q)))" using Suc(2) next_ready by simp
    ultimately have "Inr b \<in> set (reserve_many k now (snd (reserveOnce now q)))"
      using Suc(1) [OF k] next_ready by (metis k)
    then show ?thesis using Suc(2) by (metis reserve_many.simps(2) list.set_intros(2))
  qed
qed simp

text \<open>
  C15. The job of a worker that died comes back: once its last heartbeat is as old as the limit, one run of the
  recovery, when no more jobs than its batch size are due, takes it from the active set to the ready
  list, and as many polls as that list is long hand it out.
\<close>

theorem stale_job_comes_back:
  assumes "(beat, b) \<in> set (qu_active q)" and "IsValidBatchImageID b" and "0 < wo_StaleActiveAfter wo" and "0 < wo_RecoverLimit wo"
    and "beat \<le> unix_milli (now - wo_StaleActiveAfter wo)"
    and "length (filter (\<lambda>e. fst e \<le> unix_milli (now - wo_StaleActiveAfter wo)) (qu_active q)) \<le> nat (wo_RecoverLimit wo)"
  shows "b \<notin> snd ` set (qu_active (snd (RecoverStaleActiveOnce wo now q))) \<and>
    Inr b \<in> set (reserve_many (length (qu_ready (snd (RecoverStaleActiveOnce wo now q)))) later (snd (RecoverStaleActiveOnce wo now q)))"
proof -
  let ?jobs = "zrange_by_score (unix_milli (now - wo_StaleActiveAfter wo)) (nat (wo_RecoverLimit wo)) (qu_active q)"
  have q: "snd (RecoverStaleActiveOnce wo now q) =
      q\<lparr>qu_active := filter (\<lambda>e. snd e \<notin> set ?jobs) (qu_active q), qu_ready := rev ?jobs @ qu_ready q\<rparr>"
    using assms(3,4) by (simp add: RecoverStaleActiveOnce_def RecoverStaleActive_def Let_def recover_all)
  have "b \<in> set ?jobs"
    using assms(1,5,6) by (auto simp: zrange_by_score_def intro!: image_eqI [of _ _ "(beat, b)"])
  then show ?thesis using reserve_many_ready [of b "snd (RecoverStaleActiveOnce wo now q)"] assms(2) by (auto simp: q)
qed

section \<open>A round of a worker\<close>





section \<open>Examples\<close>

definition sample_queue_options :: batchImageQueueOptions where
  "sample_queue_options = normalizeBatchImageQueueOptions \<lparr>qo_InflightTTL = 0, qo_LockTTL = 0\<rparr>"

definition sample_worker_options :: BatchImageWorkerOptions where
  "sample_worker_options = normalizeBatchImageWorkerOptions \<lparr>wo_JobLockTTL = 0, wo_LockConflictDelay = 0, wo_DefaultRequeueDelay = 0,
     wo_ErrorRetryDelay = 0, wo_StaleActiveAfter = 0, wo_DelayedMoveLimit = 0, wo_RecoverLimit = 0\<rparr>"

definition sample_batch :: go_string where "sample_batch = ''imgbatch_a''"

definition sample_step :: worker_input where
  "sample_step = \<lparr>wi_now = 0, wi_fault = Fine, wi_token = ''t'', wi_answer = Inr \<lparr>pr_RequeueAfter = 1000000, pr_Terminal = False\<rparr>\<rparr>"

definition sample_waiting :: batchImageQueue where
  "sample_waiting = snd (Enqueue sample_queue_options 0 sample_batch empty_queue)"

lemma sample_valid: "IsValidBatchImageID sample_batch" by code_simp

lemma sample_options:
  "wo_JobLockTTL sample_worker_options = 300000000000" "wo_DefaultRequeueDelay sample_worker_options = 30000000000"
  "wo_ErrorRetryDelay sample_worker_options = 60000000000" "wo_StaleActiveAfter sample_worker_options = 600000000000"
  "wo_RecoverLimit sample_worker_options = 100"
  by code_simp+

lemma sample_waiting_facts: "qu_ready sample_waiting = [sample_batch]" "qu_locks sample_waiting = (\<lambda>_. None)" "qu_active sample_waiting = []"
  using sample_valid by (simp_all add: sample_waiting_def Enqueue_def empty_queue_def)

theorem queued_jobs_not_lost_witness:
  "queue_reachable sample_queue_options sample_worker_options (0, empty_queue, []) \<and>
    located sample_batch (snd (Enqueue sample_queue_options 0 sample_batch empty_queue))"
proof -
  note r = queue_initial [of sample_queue_options sample_worker_options 0]
  have "fst (Enqueue sample_queue_options 0 sample_batch empty_queue) = None"
    using sample_valid by (simp add: Enqueue_def empty_queue_def)
  then show ?thesis using queued_jobs_not_lost [OF r, of 0 sample_batch] r by blast
qed

lemma sample_taken:
  "\<exists>q l. queue_reachable sample_queue_options sample_worker_options (0, q, [Processing sample_batch ''t'' l, Idle]) \<and> key_live 0 l"
proof -
  let ?R = "queue_reachable sample_queue_options sample_worker_options"
  have "?R (0, empty_queue, [Idle])" using queue_next [OF queue_initial queue_start] by simp
  then have "?R (0, empty_queue, [Idle, Idle])" using queue_next [OF _ queue_start] by fastforce
  then have two: "?R (0, sample_waiting, [Idle, Idle])" unfolding sample_waiting_def by (rule queue_next [OF _ queue_enqueue])
  obtain q1 where q1: "RunOnce sample_queue_options sample_worker_options sample_step Idle sample_waiting = (Reserved_Job sample_batch, q1)"
      "qu_locks q1 = (\<lambda>_. None)"
    using sample_valid by (simp add: redis_call_def reserveOnce_def sample_waiting_facts sample_step_def Let_def)
  have "?R (0, q1, [Reserved_Job sample_batch, Idle])"
    using queue_next [OF two queue_run [of 0 "[Idle, Idle]" sample_step 0]] q1(1) by (simp add: sample_step_def)
  moreover obtain q2 l where "RunOnce sample_queue_options sample_worker_options sample_step (Reserved_Job sample_batch) q1 =
      (Processing sample_batch ''t'' l, q2)" "key_live 0 l"
    using sample_valid q1(2) by (simp add: redis_call_def TryAcquireJobLock_def sample_step_def sample_options Let_def key_live_def unix_milli_def)
  ultimately have "?R (0, q2, [Processing sample_batch ''t'' l, Idle]) \<and> key_live 0 l"
    using queue_next [OF _ queue_run [of 0 "[Reserved_Job sample_batch, Idle]" sample_step 0]] by (simp add: sample_step_def)
  then show ?thesis by blast
qed

theorem one_lease_per_batch_witness:
  "\<exists>q l. queue_reachable sample_queue_options sample_worker_options (0, q, [Processing sample_batch ''t'' l, Idle]) \<and>
    {n. n < 2 \<and> (\<exists>t l'. [Processing sample_batch ''t'' l, Idle] ! n = Processing sample_batch t l' \<and> key_live 0 l')} = {0}"
proof -
  obtain q l where r: "queue_reachable sample_queue_options sample_worker_options (0, q, [Processing sample_batch ''t'' l, Idle])"
    and live: "key_live 0 l" using sample_taken by blast
  have "n = 0" if "n < 2" "[Processing sample_batch ''t'' l, Idle] ! n = Processing sample_batch t l'" "key_live 0 l'" for n t l'
    using one_lease_per_batch [OF r, of n 0 sample_batch t l' "''t''" l] that live by (simp add: sample_options)
  then have "{n. n < 2 \<and> (\<exists>t l'. [Processing sample_batch ''t'' l, Idle] ! n = Processing sample_batch t l' \<and> key_live 0 l')} = {0}"
    using live by force
  with r show ?thesis by blast
qed

theorem stale_job_comes_back_witness:
  "Inr sample_batch \<in> set (reserve_many 1 0
     (snd (RecoverStaleActiveOnce sample_worker_options 600000000000 (empty_queue\<lparr>qu_active := [(0, sample_batch)]\<rparr>))))"
proof -
  let ?q = "snd (RecoverStaleActiveOnce sample_worker_options 600000000000 (empty_queue\<lparr>qu_active := [(0, sample_batch)]\<rparr>))"
  have "qu_ready ?q = [sample_batch]"
    by (simp add: RecoverStaleActiveOnce_def RecoverStaleActive_def sample_options zrange_by_score_def unix_milli_def empty_queue_def)
  then show ?thesis
    using stale_job_comes_back [of 0 sample_batch "empty_queue\<lparr>qu_active := [(0, sample_batch)]\<rparr>" sample_worker_options 600000000000 0]
      sample_valid by (simp add: sample_options unix_milli_def)
qed


end
