(* ===== verification/Batch_Validate.thy ===== *)
theory Batch_Validate
  imports Batch_Services
begin

text \<open>
  The checks a submission passes before anything is stored (\<^verbatim>\<open>validateSubmitRequest\<close> and its helpers in
  \<^verbatim>\<open>service/batch_image_public.go\<close>), and what they guarantee the rest. Left out: the metadata, which only the
  provider sees. \<open>to_lower\<close> is \<^verbatim>\<open>strings.ToLower\<close>; the name of a task without one is made from the clock and is an
  argument.
\<close>

section \<open>Requests and limits\<close>














section \<open>Reference images\<close>






section \<open>Items\<close>










section \<open>What a valid request promises\<close>














end
