(* ===== verification/Spec2Isabelle.thy ===== *)
theory Spec2Isabelle
  imports Round_Trip Resp_To_Chat_Stream Chat_To_Anth_Tools Idempotency_Sequential Auth_Abuse_Client Chat_To_Resp_Items Chat_To_Anth_Whole Keyword_Filter Failover
    Batch_Results Batch_Findings Batch_Queue_Results Batch_Validate
begin

text \<open>
  \<^bold>\<open>Verification of the gateway backend\<close> (\<^verbatim>\<open>src/backend/internal\<close>).

  The program is a gateway in front of AI services. A client speaks one of three protocols
  (Anthropic Messages, OpenAI Responses, OpenAI Chat Completions), the upstream account another, and
  the gateway converts requests and answers between them, whole or as streams of server-sent events.
  Around the conversion it authenticates clients, keeps abusers out, and makes requests that change
  something idempotent. Beside single requests it runs batches of images: a batch is priced and its
  price frozen on submission, handed to a provider, followed by queue workers, and settled from the
  number of images that succeeded. This development models the conversion of answers, the
  idempotency coordinator with its table, the limiter for invalid credentials, the keyword filter of
  content moderation, the failover between upstream accounts, and the life of batch image jobs with
  the money they hold.

  \<^bold>\<open>Shared theories.\<close>
  \<^item> \<open>Gateway_Prelude\<close>: Go strings (byte strings), 64-bit wrap-around, \<^verbatim>\<open>strings.TrimSpace\<close>, the random
    byte source behind generated identifiers, and the vocabulary of stream converters: an emitter takes a
    state to events and a state, \<open>then_emit\<close> and \<open>run_conv\<close> compose emitters as the code composes its
    handlers, a monitor reads events one by one and says which sequences are allowed. The locales state
    what converters promise: \<open>monitored_converter\<close> (the output is accepted by a monitor),
    \<open>guided_converter\<close> and \<open>related_converter\<close> (the same for input that an upstream monitor accepts, with
    the monitor's state a function of the converter's state, or in a relation with it),
    \<open>numbered_converter\<close> (sequence numbers) and \<open>carrying_converter\<close> (a projection of the input is that
    of the output).
  \<^item> \<open>Api_Types\<close>: the structs of \<^verbatim>\<open>apicompat/types.go\<close> as records, Go's zero values, identifiers.
  \<^item> \<open>Client_Deltas\<close>, \<open>Anthropic_Protocol\<close>, \<open>Responses_Protocol\<close>: what clients read; the protocols as monitors.
  \<^item> \<open>Go_Json\<close>, \<open>Chat_Content\<close>, \<open>Go_Sha256\<close>: the parts of \<^verbatim>\<open>encoding/json\<close> and \<^verbatim>\<open>crypto/sha256\<close> that the code
    uses, at the level of bytes.

  \<^bold>\<open>Converters\<close> (\<^verbatim>\<open>pkg/apicompat\<close>). Each state struct is a record with the source's fields, each handler a
  definition of its name; pieces of a long handler have definitions of their own, composed in its order.
  \<^item> \<open>Resp_To_Anth\<close>, \<open>Resp_To_Anth_Stream\<close>: \<^verbatim>\<open>responses_to_anthropic.go\<close>. Whatever the upstream sends, the
    client gets one complete message with blocks opened and closed one at a time; deltas go to open blocks of
    their kind when the upstream keeps its items apart; text is preserved.
  \<^item> \<open>Anth_To_Resp\<close>, \<open>Anth_To_Resp_Stream\<close>: \<^verbatim>\<open>anthropic_to_responses_response.go\<close>. Sequence numbers,
    numbering and delivery of items, one terminal event, deltas, and the final text.
  \<^item> \<open>Round_Trip\<close>: the two composed: content, usage and stop reason of whole responses, and the deltas of
    streams, come back.
  \<^item> \<open>Resp_To_Chat\<close>, \<open>Resp_To_Chat_Stream\<close>: \<^verbatim>\<open>responses_to_chatcompletions.go\<close>. Deltas, finish chunks, tool
    indices; the message assembled from the chunks is the one the buffered accumulator returns; when the
    accumulator does not panic.
  \<^item> \<open>Chat_To_Anth\<close>, \<open>Chat_To_Anth_Stream\<close>, \<open>Chat_To_Anth_Tools\<close>: the streaming half of
    \<^verbatim>\<open>chatcompletions_anthropic_bridge.go\<close>. Any chunks become one complete message; content and the
    arguments of interleaved tool calls are preserved. \<open>Chat_To_Anth_Whole\<close>: its whole responses, and that
    the direct conversion is the composition through Responses.
  \<^item> \<open>Chat_To_Resp\<close>, \<open>Chat_To_Resp_Stream\<close>, \<open>Chat_To_Resp_Items\<close>: the response side of
    \<^verbatim>\<open>chatcompletions_responses_bridge.go\<close>. Sequence numbers, content, the final text; and, for an upstream
    that sends reasoning first and numbers its calls in order, that a strict client can follow every item
    from its announcement to its end.

  \<^bold>\<open>Idempotency\<close> (\<^verbatim>\<open>service/idempotency.go\<close>, \<^verbatim>\<open>repository/idempotency_repo.go\<close>).
  \<^item> \<open>Idempotency_Repo\<close>: the table; each SQL statement is one atomic operation with the conditions of its
    WHERE clause. The locale \<open>idempotency_store\<close> is the contract the coordinator relies on.
  \<^item> \<open>Idempotency\<close>: \<^verbatim>\<open>Execute\<close> as a walk through phases with at most one repository call each; error results are
    values of a sum type.
  \<^item> \<open>Idempotency_Sequential\<close>: Execute refines a decision on the stored record; replay, conflict, back-off.
  \<^item> \<open>Idempotency_Race\<close>: any number of requests interleaved step by step, with crashes and purges, as an
    inductive relation: one owner per key, recorded successes stay.

  \<^bold>\<open>Abuse limiter\<close> (\<^verbatim>\<open>service/invalid_auth_abuse_limiter.go\<close>).
  \<^item> \<open>Auth_Abuse\<close>: shards, capacity, cleanup, overflow; the invariant of the table.
  \<^item> \<open>Auth_Abuse_Client\<close>: the locale \<open>shared_limiter\<close> and its interpretation: for one client the shared
    limiter behaves like a private counter; when it blocks, and that it does not block without cause.

  \<^bold>\<open>Keyword filter\<close> (\<^verbatim>\<open>service/content_moderation_keyword_matcher.go\<close>, \<^verbatim>\<open>service/content_moderation.go\<close>).
  \<^item> \<open>Keyword_Matcher\<close>: the automaton in slices, its construction and its scan, the plain search, the
    normalization of keywords and the snapshot that holds them.
  \<^item> \<open>Keyword_Words\<close>, \<open>Keyword_Trie\<close>, \<open>Keyword_Links\<close>, \<open>Keyword_Packing\<close>, \<open>Keyword_Scan\<close>: what it computes in
    terms of words, and one theory per phase: slices represent a trie, failure links in breadth-first
    order, sorted and packed edges, bisection and scan.
  \<^item> \<open>Keyword_Filter\<close>: the automaton equals the plain search; the filter of a snapshot always answers; the
    locale \<open>blocked_keyword_search\<close>, interpreted for plain search, automaton and snapshot: no configured
    keyword slips through.

  \<^bold>\<open>Failover\<close> (\<^verbatim>\<open>handler/failover_loop.go\<close> and the loops that call it).
  \<^item> \<open>Failover\<close>: the failover state and its two decisions, and one iteration of the loops of the Chat Completions and
    Responses handlers as a function of the answers of scheduler, upstream and client. The locale
    \<open>bounded_loop\<close> states that every iteration spends from a budget; its interpretations bound both loops.
    A Gemini group that is given accounts of another platform is outside the bound, and its loop need not end.

  \<^bold>\<open>Batch image jobs\<close> (\<^verbatim>\<open>service/batch_image*.go\<close>, \<^verbatim>\<open>repository/batch_image_repo.go\<close>,
  \<^verbatim>\<open>repository/usage_billing_repo.go\<close>).
  \<^item> \<open>Batch_Billing\<close>: balances, frozen balances and the claims on request ids; reserve, capture and
    release as transactions that are applied at most once per request id.
  \<^item> \<open>Batch_Jobs\<close>: the tables of jobs, items and events, the status machine, one definition per statement.
  \<^item> \<open>Batch_Programs\<close>, \<open>Batch_Services\<close>: the code above the tables. A function that makes several calls is
    a program (\<open>prog\<close>): a tree of calls, each a step on the database under an input that holds the clock, the
    answers of provider and queue, and the fault of the call: it may fail before it took effect, or after
    (the reply is lost). Here are holding and settling, the indexer, the processors, recovery, submission,
    cancellation, deletion and cleanup.
  \<^item> \<open>Batch_Safety\<close>, \<open>Batch_Rely\<close>, \<open>Batch_Money\<close>, \<open>Batch_Rules\<close>: the method. What one batch has at stake is its
    row, its three claims and its balance updates; a program has a role towards it (submitter, worker,
    bystander), a role has a guarantee, and a program is safe when every call keeps the invariant and the
    guarantee and what it knows survives the steps of the other roles.
  \<^item> \<open>Batch_Workers\<close>, \<open>Batch_Settle_Safe\<close>, \<open>Batch_Process_Safe\<close>, \<open>Batch_Bystanders\<close>, \<open>Batch_Submit_Safe\<close>: every
    program is safe for every batch in its role.
  \<^item> \<open>Batch_System\<close>: the services as an inductive step relation: start, one call of any of them, death at any
    point, steps of the rest of the gateway; the invariant holds in every reachable state.
  \<^item> \<open>Batch_Accounts\<close>: the locale \<open>account_effect\<close>, interpreted for the three transactions: they conserve the
    money of a user. \<open>Batch_Indexing\<close>: the indexer's counts, prices after rounding.
  \<^item> \<open>Batch_Runs\<close>: running programs and whole systems on concrete inputs. \<open>Batch_Results\<close>: the theorems:
    money moves at most once in and once out, the status says where it is, settlement charges the
    successes, gives up by releasing, ended jobs stay ended. \<open>Batch_Findings\<close>: runs in which money stays
    frozen or is returned wrongly.

  \<^item> \<open>Batch_Validate\<close>: the checks of a request; what they promise the code that stores it (distinct ids, no more
    images than the limit on which the bound for holds rests).
  \<^item> \<open>Batch_Queue\<close> (\<^verbatim>\<open>repository/batch_image_queue.go\<close>, \<^verbatim>\<open>service/batch_image_worker.go\<close>): the Redis queue, its scripts
    as steps, and a worker's round call by call. \<open>Batch_Queue_System\<close>, \<open>Batch_Queue_Results\<close>: any number of workers
    with crashes and lost replies: no job is lost, one unexpired lease per batch, jobs of dead workers come
    back, what a round leaves behind.

  The assumptions of \<open>Batch_System\<close> are three. One worker processes a batch at a time, and batch
  ids are fresh; the lock of the queue gives the former as long as a worker ends or refreshes its lock before it expires
  (\<open>one_lease_per_batch\<close>). A capture gets its answer (\<open>permitted\<close>): the code counts a capture that failed at the
  connection as not done, and after five of them releases a hold that may have been captured
  (\<open>lost_captures_release_twice\<close>). A request whose job could not be queued records this before another request has
  brought the job to settlement. The other services may run any number of times, at any moment.

  \<^bold>\<open>Time, numbers, loops.\<close> Clocks are arguments, in nanoseconds. Go's \<^verbatim>\<open>int\<close> is unbounded where only counters
  of events or items are meant, and wraps at 64 bits in token arithmetic and durations; the \<^verbatim>\<open>int32\<close> and
  \<^verbatim>\<open>uint\<close> indices of the keyword automaton wrap at their width. Most loops of the modelled code run over
  finite lists. Those that follow links through slices, in the keyword automaton, are partial functions
  into \<open>option\<close>, where \<open>None\<close> is a panic or an endless loop, and the theorems show \<open>Some\<close>. The failover
  loops run over an infinite sequence of answers, for any number of iterations. The walk
  of \<^verbatim>\<open>Execute\<close> makes at most a fixed number of steps, for which the measure \<open>phase_rank\<close> is the bound. No definition runs on fuel. The
  random bytes of identifiers are a stream argument; theorems hold for every stream. Amounts of money are
  exact rational numbers, rounded where a column of the database rounds; the error of float64
  arithmetic before that is not modelled. Programs of the batch services are finite trees: every run of
  them ends after finitely many calls.

  \<^bold>\<open>Parameters.\<close> Code outside the repository is an argument of the definitions that use it, with what is
  relied on as a hypothesis: the value \<^verbatim>\<open>json.Marshal\<close> gives for a handler's result, the redaction of error
  texts, \<^verbatim>\<open>strings.ToUpper\<close> and \<^verbatim>\<open>strings.ToLower\<close> outside ASCII, which database statements fail, and what
  providers and queue answer. Of the repository's own code the batch services take the parser of result
  lines, the price list and the choice of an account as arguments; the theorems hold for all of them.

  \<^bold>\<open>Not modelled.\<close> The request side of the converters (rewriting of free-form JSON requests), printing of events
  as SSE lines, metrics and logs, the HTTP handlers and the transport, account scheduling, the billing of
  ordinary requests, payments and the WebSocket pool: they are I/O and glue around third-party services, or
  not reached. Of batch image jobs: listings and downloads, the two providers, the parser of their
  result lines, and the schedule of the cleanup. The persistence layer \<^verbatim>\<open>ent\<close> is generated
  code.

  \<^bold>\<open>What could follow.\<close> The parser of result lines, the billing of ordinary requests, and the scheduler's circuit breaker.
\<close>

end
